(* ===== verification/Pyfloat.thy ===== *)
theory Pyfloat
  imports Prelude "HOL-Library.Log_Nat"
begin

text \<open>
  Python's \<open>float\<close>: IEEE 754 binary64 with round to nearest, ties to even.

  The first part defines the rounding function \<open>rnd\<close> on the rationals (53 significant
  bits, least exponent -1074) and proves what the components use of it: it is monotone,
  odd, idempotent and exact on every \<open>m * 2 ^ k\<close> with \<open>\<bar>m\<bar> \<le> 2 ^ 53\<close>. The second part is
  the type \<open>pyfloat\<close> of finite values, infinities and NaN with the arithmetic, the
  comparisons, \<open>min\<close>, \<open>max\<close>, \<open>round\<close>, \<open>sum\<close> and
  \<open>statistics.pstdev\<close> as CPython 3.11 computes them. Division by zero is
  \<open>None\<close>, the \<open>ZeroDivisionError\<close> of Python. The sign of zero is not modelled. A
  Python \<open>int\<close> that meets a float is the finite value of the same magnitude.
\<close>

section \<open>Rounding to binary64\<close>

definition pow2 :: "int \<Rightarrow> rat" where
  "pow2 k = (if 0 \<le> k then 2 ^ nat k else 1 / 2 ^ nat (- k))"

definition elog :: "rat \<Rightarrow> int" where
  "elog x = (case quotient_of x of (n, d) \<Rightarrow>
     (let k = bitlen n - bitlen d in if pow2 k \<le> x then k else k - 1))"

definition rhe :: "rat \<Rightarrow> int" where
  "rhe q = (let f = \<lfloor>q\<rfloor>; d = q - of_int f in
     if d < 1/2 then f else if 1/2 < d then f + 1 else if even f then f else f + 1)"

definition ulp_exp :: "rat \<Rightarrow> int" where
  "ulp_exp x = max (elog \<bar>x\<bar> - 52) (-1074)"

definition rnd :: "rat \<Rightarrow> rat" where
  "rnd x = (if x = 0 then 0 else
     (let u = pow2 (ulp_exp x) in of_int (rhe (x / u)) * u))"

lemma pow2_pos [simp]: "0 < pow2 k"
  by (simp add: pow2_def)

lemma pow2_nz [simp]: "pow2 k \<noteq> 0"
  using pow2_pos[of k] by linarith

lemma pow2_add: "pow2 (a + b) = pow2 a * pow2 b"
proof -
  have p: "pow2 (int m - int n) = 2 ^ m / 2 ^ n" for m n
  proof (cases "n \<le> m")
    case True
    then have "pow2 (int m - int n) = 2 ^ (m - n)"
      by (simp add: pow2_def nat_diff_distrib of_nat_diff)
    with True show ?thesis by (simp add: power_diff)
  next
    case False
    then have "pow2 (int m - int n) = 1 / 2 ^ (n - m)"
      by (simp add: pow2_def nat_diff_distrib of_nat_diff)
    with False show ?thesis by (simp add: power_diff)
  qed
  obtain m n where a: "a = int m - int n" by (metis int_diff_cases)
  obtain k l where b: "b = int k - int l" by (metis int_diff_cases)
  have "a + b = int (m + k) - int (n + l)" using a b by simp
  then have "pow2 (a + b) = 2 ^ (m + k) / 2 ^ (n + l)" using p by metis
  moreover have "pow2 a = 2 ^ m / 2 ^ n" using a p by simp
  moreover have "pow2 b = 2 ^ k / 2 ^ l" using b p by simp
  ultimately show ?thesis by (simp add: power_add)
qed

lemma pow2_0 [simp]: "pow2 0 = 1"
  by (simp add: pow2_def)

lemma pow2_1 [simp]: "pow2 1 = 2"
  by (simp add: pow2_def)

lemma pow2_nat: "pow2 (int n) = 2 ^ n"
  by (simp add: pow2_def)

lemma pow2_diff: "pow2 (a - b) = pow2 a / pow2 b"
proof -
  have "pow2 a = pow2 (a - b) * pow2 b" by (metis pow2_add diff_add_cancel)
  then show ?thesis by simp
qed

lemma pow2_mono: "a \<le> b \<Longrightarrow> pow2 a \<le> pow2 b"
proof -
  assume "a \<le> b"
  then obtain n where b: "b = a + int n" by (metis zle_iff_zadd)
  have "pow2 a * 1 \<le> pow2 a * 2 ^ n"
    by (rule mult_left_mono) (simp_all add: less_imp_le)
  then show ?thesis by (simp add: b pow2_add pow2_nat)
qed

lemma pow2_le_iff [simp]: "pow2 a \<le> pow2 b \<longleftrightarrow> a \<le> b"
proof
  assume l: "pow2 a \<le> pow2 b"
  show "a \<le> b"
  proof (rule ccontr)
    assume "\<not> a \<le> b"
    then have "pow2 (b + 1) \<le> pow2 a" by (intro pow2_mono) simp
    then have "pow2 b * 2 \<le> pow2 a" by (simp add: pow2_add)
    with l pow2_pos[of b] show False by linarith
  qed
qed (rule pow2_mono)

lemma pow2_less_iff [simp]: "pow2 a < pow2 b \<longleftrightarrow> a < b"
  by (meson pow2_le_iff linorder_not_le)

lemma elog_bounds:
  assumes "0 < x"
  shows "pow2 (elog x) \<le> x" and "x < pow2 (elog x + 1)"
proof -
  obtain n d where q: "quotient_of x = (n, d)" by fastforce
  have d: "0 < d" by (rule quotient_of_denom_pos[OF q])
  have x: "x = of_int n / of_int d" by (rule quotient_of_div[OF q])
  from assms x d have n: "0 < n" by (simp add: zero_less_divide_iff)
  define kn kd where "kn = nat (bitlen n)" and "kd = nat (bitlen d)"
  have bn: "bitlen n = int kn" and bd: "bitlen d = int kd"
    by (simp_all add: kn_def kd_def bitlen_nonneg)
  have kn1: "1 \<le> kn" and kd1: "1 \<le> kd"
    using n d bitlen_nonneg[of n] bitlen_nonneg[of d] bitlen_eq_zero_iff[of n] bitlen_eq_zero_iff[of d]
    by (auto simp: kn_def kd_def) 
  have k1: "nat (int k - 1) = k - 1" for k by arith
  have n1: "2 ^ (kn - 1) \<le> n" and n2: "n < 2 ^ kn"
    using bitlen_bounds[OF n] by (simp_all only: bn k1 nat_int)
  have d1: "2 ^ (kd - 1) \<le> d" and d2: "d < 2 ^ kd"
    using bitlen_bounds[OF d] by (simp_all only: bd k1 nat_int)
  have rn1: "(2::rat) ^ (kn - 1) \<le> of_int n" using n1 by (metis of_int_le_iff of_int_numeral of_int_power)
  have rn2: "(of_int n::rat) < 2 ^ kn" using n2 by (metis of_int_less_iff of_int_numeral of_int_power)
  have rd1: "(2::rat) ^ (kd - 1) \<le> of_int d" using d1 by (metis of_int_le_iff of_int_numeral of_int_power)
  have rd2: "(of_int d::rat) < 2 ^ kd" using d2 by (metis of_int_less_iff of_int_numeral of_int_power)
  have hi: "x < pow2 (int kn - int kd + 1)"
  proof -
    have "x < 2 ^ kn / 2 ^ (kd - 1)"
      unfolding x by (rule frac_less) (use rn2 rd1 n d in auto)
    also have "\<dots> = pow2 (int kn) / pow2 (int (kd - 1))" by (simp only: pow2_nat)
    also have "\<dots> = pow2 (int kn - int kd + 1)"
      using kd1 by (simp add: pow2_diff[symmetric] of_nat_diff algebra_simps)
    finally show ?thesis .
  qed
  have lo: "pow2 (int kn - int kd - 1) \<le> x"
  proof -
    have "pow2 (int kn - int kd - 1) = pow2 (int (kn - 1)) / pow2 (int kd)"
      using kn1 by (simp add: pow2_diff[symmetric] of_nat_diff algebra_simps)
    also have "\<dots> = 2 ^ (kn - 1) / 2 ^ kd" by (simp only: pow2_nat)
    also have "\<dots> \<le> x"
      unfolding x by (rule frac_le) (use rn1 rd2 n d in auto)
    finally show ?thesis .
  qed
  have e: "elog x = (if pow2 (int kn - int kd) \<le> x then int kn - int kd else int kn - int kd - 1)"
    by (simp add: elog_def q bn bd Let_def)
  show "pow2 (elog x) \<le> x" using e lo by simp
  show "x < pow2 (elog x + 1)" using e hi by auto
qed

lemma elog_mono: "0 < x \<Longrightarrow> x \<le> y \<Longrightarrow> elog x \<le> elog y"
proof -
  assume a: "0 < x" "x \<le> y"
  then have "pow2 (elog x) < pow2 (elog y + 1)"
    using elog_bounds(1)[of x] elog_bounds(2)[of y] by linarith
  then show ?thesis by simp
qed

lemma rhe_of_int [simp]: "rhe (of_int n) = n"
  by (simp add: rhe_def)

lemma rhe_bounds: "\<lfloor>q\<rfloor> \<le> rhe q" "rhe q \<le> \<lfloor>q\<rfloor> + 1"
  by (simp_all add: rhe_def Let_def)

lemma rhe_mono: "p \<le> q \<Longrightarrow> rhe p \<le> rhe q"
proof -
  assume pq: "p \<le> q"
  then have f: "\<lfloor>p\<rfloor> \<le> \<lfloor>q\<rfloor>" by (rule floor_mono)
  show ?thesis
  proof (cases "\<lfloor>p\<rfloor> = \<lfloor>q\<rfloor>")
    case True
    with pq show ?thesis by (auto simp: rhe_def Let_def)
  next
    case False
    with f rhe_bounds[of p] rhe_bounds[of q] show ?thesis by linarith
  qed
qed

lemma rhe_uminus: "rhe (- q) = - rhe q"
proof (cases "q \<in> \<int>")
  case True
  then obtain n where "q = of_int n" by (elim Ints_cases)
  then show ?thesis by (metis of_int_minus rhe_of_int)
next
  case False
  then have "\<lfloor>- q\<rfloor> = - \<lfloor>q\<rfloor> - 1"
    by (metis ceiling_altdef ceiling_def floor_minus minus_add_distrib diff_conv_add_uminus Ints_of_int minus_minus)
  then show ?thesis by (auto simp: rhe_def Let_def)
qed

lemma rnd_0 [simp]: "rnd 0 = 0"
  by (simp add: rnd_def)

lemma rnd_uminus: "rnd (- x) = - rnd x"
  by (simp add: rnd_def ulp_exp_def Let_def rhe_uminus)

lemma rnd_nonneg: "0 \<le> x \<Longrightarrow> 0 \<le> rnd x"
proof (cases "x = 0")
  case False
  assume "0 \<le> x"
  then have "rhe 0 \<le> rhe (x / pow2 (ulp_exp x))"
    by (intro rhe_mono) (simp add: less_imp_le)
  then have "0 \<le> rhe (x / pow2 (ulp_exp x))" using rhe_of_int[of 0] by simp
  with False show ?thesis by (simp add: rnd_def Let_def less_imp_le)
qed simp

lemma int_multiple:
  assumes "k \<le> e"
  obtains N :: int where "pow2 e = of_int N * pow2 k"
proof -
  from assms obtain n where e: "e = k + int n" by (metis zle_iff_zadd)
  have "pow2 e = of_int (2 ^ n) * pow2 k" by (simp add: e pow2_add pow2_nat)
  then show thesis by (rule that)
qed

lemma rnd_le_of_int_mult:
  assumes x: "x \<noteq> 0" and le: "x \<le> of_int N * pow2 (ulp_exp x)"
  shows "rnd x \<le> of_int N * pow2 (ulp_exp x)"
proof -
  let ?u = "pow2 (ulp_exp x)"
  from le have "x / ?u \<le> of_int N" by (simp add: pos_divide_le_eq)
  then have "rhe (x / ?u) \<le> N" using rhe_mono[of "x / ?u" "of_int N"] by simp
  then have "(of_int (rhe (x / ?u))::rat) \<le> of_int N" by simp
  then show ?thesis using x by (simp add: rnd_def Let_def mult_right_mono less_imp_le)
qed

lemma rnd_ge_of_int_mult:
  assumes x: "x \<noteq> 0" and le: "of_int N * pow2 (ulp_exp x) \<le> x"
  shows "of_int N * pow2 (ulp_exp x) \<le> rnd x"
proof -
  let ?u = "pow2 (ulp_exp x)"
  from le have "of_int N \<le> x / ?u" by (simp add: pos_le_divide_eq)
  then have "N \<le> rhe (x / ?u)" using rhe_mono[of "of_int N" "x / ?u"] by simp
  then have "(of_int N::rat) \<le> of_int (rhe (x / ?u))" by simp
  then show ?thesis using x by (simp add: rnd_def Let_def mult_right_mono less_imp_le)
qed

lemma rnd_mono_pos:
  assumes x: "0 < x" and xy: "x \<le> y"
  shows "rnd x \<le> rnd y"
proof (cases "ulp_exp x = ulp_exp y")
  case True
  have "rhe (x / pow2 (ulp_exp x)) \<le> rhe (y / pow2 (ulp_exp x))"
    by (rule rhe_mono) (simp add: xy divide_right_mono less_imp_le)
  with x xy True show ?thesis
    by (simp add: rnd_def Let_def mult_right_mono less_imp_le)
next
  case False
  have "elog x \<le> elog y" using x xy by (rule elog_mono)
  with False x xy have lt: "ulp_exp x < ulp_exp y" and uy: "ulp_exp y = elog y - 52"
    by (auto simp: ulp_exp_def max_def split: if_splits)
  from lt uy x xy have ey: "elog x + 1 \<le> elog y"
    by (auto simp: ulp_exp_def max_def split: if_splits)
  have xe: "x \<le> pow2 (elog y)"
    using elog_bounds(2)[OF x] ey by (meson less_imp_le order_trans pow2_mono)
  obtain N where N: "pow2 (elog y) = of_int N * pow2 (ulp_exp x)"
    using int_multiple[of "ulp_exp x" "elog y"] lt uy by auto
  obtain M where M: "pow2 (elog y) = of_int M * pow2 (ulp_exp y)"
    using int_multiple[of "ulp_exp y" "elog y"] uy by auto
  have "rnd x \<le> pow2 (elog y)"
    using rnd_le_of_int_mult[of x N] x xe N by simp
  also have "\<dots> \<le> rnd y"
    using rnd_ge_of_int_mult[of y M] elog_bounds(1)[of y] x xy M by simp
  finally show ?thesis .
qed

lemma rnd_mono: "x \<le> y \<Longrightarrow> rnd x \<le> rnd y"
proof -
  assume xy: "x \<le> y"
  consider "0 < x" | "x \<le> 0" "0 \<le> y" | "y < 0" by linarith
  then show ?thesis
  proof cases
    case 1 then show ?thesis using xy by (rule rnd_mono_pos)
  next
    case 2
    from 2 have "0 \<le> rnd (- x)" by (intro rnd_nonneg) simp
    with 2 show ?thesis using rnd_nonneg[of y] by (simp add: rnd_uminus)
  next
    case 3
    then have "rnd (- y) \<le> rnd (- x)" using xy by (intro rnd_mono_pos) simp_all
    then show ?thesis by (simp add: rnd_uminus)
  qed
qed

lemma rnd_int_mult:
  assumes x: "x \<noteq> 0" and N: "x = of_int N * pow2 (ulp_exp x)"
  shows "rnd x = x"
  using rnd_le_of_int_mult[OF x, of N] rnd_ge_of_int_mult[OF x, of N] N by simp

lemma rnd_exact_aux:
  assumes m: "\<bar>m\<bar> < 2 ^ 53" and k: "-1074 \<le> k"
  shows "rnd (of_int m * pow2 k) = of_int m * pow2 k"
proof (cases "m = 0")
  case False
  define x :: rat where "x = of_int m * pow2 k"
  have x: "x \<noteq> 0" using False by (simp add: x_def)
  have ax: "\<bar>x\<bar> = of_int \<bar>m\<bar> * pow2 k" by (simp add: x_def abs_mult less_imp_le)
  have "(of_int \<bar>m\<bar>::rat) < of_int (2 ^ 53)" using m by (simp only: of_int_less_iff)
  then have "\<bar>x\<bar> < 2 ^ 53 * pow2 k" unfolding ax by (simp add: mult_strict_right_mono)
  also have "2 ^ 53 * pow2 k = pow2 (53 + k)" using pow2_nat[of 53] by (simp add: pow2_add)
  finally have "pow2 (elog \<bar>x\<bar>) < pow2 (53 + k)"
    using elog_bounds(1)[of "\<bar>x\<bar>"] x by linarith
  then have u: "ulp_exp x \<le> k" using k by (simp add: ulp_exp_def)
  obtain N where N: "pow2 k = of_int N * pow2 (ulp_exp x)" by (rule int_multiple[OF u])
  have "x = of_int m * (of_int N * pow2 (ulp_exp x))" unfolding N[symmetric] by (rule x_def)
  then have "x = of_int (m * N) * pow2 (ulp_exp x)" by simp
  with x have "rnd x = x" by (rule rnd_int_mult)
  then show ?thesis by (simp add: x_def)
qed simp

lemma rnd_exact:
  assumes m: "\<bar>m\<bar> \<le> 2 ^ 53" and k: "-1074 \<le> k"
  shows "rnd (of_int m * pow2 k) = of_int m * pow2 k"
proof (cases "\<bar>m\<bar> = 2 ^ 53")
  case True
  then have "of_int m * pow2 k = of_int (sgn m) * pow2 (53 + k)"
    using pow2_nat[of 53] by (auto simp: pow2_add abs_if split: if_splits)
  moreover have "\<bar>sgn m\<bar> < 2 ^ 53" by (simp add: abs_sgn_eq)
  ultimately show ?thesis using rnd_exact_aux[of "sgn m" "53 + k"] k by simp
qed (use assms rnd_exact_aux in auto)

lemma rnd_of_int: "\<bar>n\<bar> \<le> 2 ^ 53 \<Longrightarrow> rnd (of_int n) = of_int n"
  using rnd_exact[of n 0] by simp

lemma rnd_form:
  obtains m k where "rnd x = of_int m * pow2 k" "\<bar>m\<bar> \<le> 2 ^ 53" "-1074 \<le> k"
proof (cases "x = 0")
  case True
  then show ?thesis by (intro that[of 0 0]) simp_all
next
  case False
  let ?u = "ulp_exp x"
  have "\<bar>x\<bar> < pow2 (elog \<bar>x\<bar> + 1)" using False by (intro elog_bounds(2)) simp
  also have "\<dots> \<le> pow2 (53 + ?u)" by (simp add: ulp_exp_def)
  also have "\<dots> = of_int (2 ^ 53) * pow2 ?u" using pow2_nat[of 53] by (simp add: pow2_add)
  finally have b: "\<bar>x\<bar> \<le> of_int (2 ^ 53) * pow2 ?u" by simp
  have "x / pow2 ?u \<le> of_int (2 ^ 53)" "of_int (- (2 ^ 53)) \<le> x / pow2 ?u"
    using b by (simp_all add: pos_divide_le_eq pos_le_divide_eq abs_le_iff)
  then have "rhe (x / pow2 ?u) \<le> 2 ^ 53" "- (2 ^ 53) \<le> rhe (x / pow2 ?u)"
    using rhe_mono[of "x / pow2 ?u" "of_int (2 ^ 53)"] rhe_mono[of "of_int (- (2 ^ 53))" "x / pow2 ?u"]
    by (simp_all only: rhe_of_int)
  then have "\<bar>rhe (x / pow2 ?u)\<bar> \<le> 2 ^ 53" by linarith
  moreover have "-1074 \<le> ?u" by (simp add: ulp_exp_def)
  ultimately show ?thesis using False by (intro that) (simp_all add: rnd_def Let_def)
qed

lemma rnd_idem [simp]: "rnd (rnd x) = rnd x"
  by (rule rnd_form[of x]) (simp add: rnd_exact)

section \<open>Values\<close>

datatype pyfloat = Fin rat | PInf | NInf | NaN

text \<open>Values of magnitude \<open>2 ^ 1024\<close> and more overflow to an infinity.\<close>

definition f64_lim :: rat where
  "f64_lim = 2 ^ 1024"

definition fl :: "rat \<Rightarrow> pyfloat" where
  "fl q = (let r = rnd q in
     if f64_lim \<le> r then PInf else if r \<le> - f64_lim then NInf else Fin r)"

text \<open>The float literal \<open>n / d\<close>, for example \<open>lit 4 10\<close> for \<open>0.4\<close>.\<close>

definition lit :: "int \<Rightarrow> int \<Rightarrow> pyfloat" where
  "lit n d = fl (of_int n / of_int d)"

definition fint :: "int \<Rightarrow> pyfloat" where
  "fint n = Fin (of_int n)"

fun is_finite :: "pyfloat \<Rightarrow> bool" where
  "is_finite (Fin _) = True"
| "is_finite _ = False"

text \<open>A value that a binary64 variable can hold.\<close>

fun f64 :: "pyfloat \<Rightarrow> bool" where
  "f64 (Fin q) = (rnd q = q \<and> \<bar>q\<bar> < f64_lim)"
| "f64 _ = True"

subsection \<open>Comparison\<close>

fun fle :: "pyfloat \<Rightarrow> pyfloat \<Rightarrow> bool" where
  "fle NaN _ = False"
| "fle _ NaN = False"
| "fle (Fin a) (Fin b) = (a \<le> b)"
| "fle NInf _ = True"
| "fle _ PInf = True"
| "fle _ _ = False"

definition flt :: "pyfloat \<Rightarrow> pyfloat \<Rightarrow> bool" where
  "flt a b = (fle a b \<and> \<not> fle b a)"

definition feq :: "pyfloat \<Rightarrow> pyfloat \<Rightarrow> bool" where
  "feq a b = (fle a b \<and> fle b a)"

text \<open>\<open>min(a, b)\<close> and \<open>max(a, b)\<close> keep the first argument unless the second is better.\<close>

definition pymin :: "pyfloat \<Rightarrow> pyfloat \<Rightarrow> pyfloat" where
  "pymin a b = (if flt b a then b else a)"

definition pymax :: "pyfloat \<Rightarrow> pyfloat \<Rightarrow> pyfloat" where
  "pymax a b = (if flt a b then b else a)"

text \<open>\<open>max(xs)\<close> of a non-empty list; the caller checks that it is not empty.\<close>

fun pymax_list :: "pyfloat list \<Rightarrow> pyfloat" where
  "pymax_list [] = NInf"
| "pymax_list (x # xs) = foldl pymax x xs"

subsection \<open>Arithmetic\<close>

fun fneg :: "pyfloat \<Rightarrow> pyfloat" where
  "fneg (Fin a) = Fin (- a)"
| "fneg PInf = NInf"
| "fneg NInf = PInf"
| "fneg NaN = NaN"

fun fabs :: "pyfloat \<Rightarrow> pyfloat" where
  "fabs (Fin a) = Fin \<bar>a\<bar>"
| "fabs NaN = NaN"
| "fabs _ = PInf"

fun fadd :: "pyfloat \<Rightarrow> pyfloat \<Rightarrow> pyfloat" where
  "fadd (Fin a) (Fin b) = fl (a + b)"
| "fadd NaN _ = NaN"
| "fadd _ NaN = NaN"
| "fadd PInf NInf = NaN"
| "fadd NInf PInf = NaN"
| "fadd PInf _ = PInf"
| "fadd _ PInf = PInf"
| "fadd NInf _ = NInf"
| "fadd _ NInf = NInf"

definition fsub :: "pyfloat \<Rightarrow> pyfloat \<Rightarrow> pyfloat" where
  "fsub a b = fadd a (fneg b)"

definition is_neg :: "pyfloat \<Rightarrow> bool" where
  "is_neg a = flt a (Fin 0)"

fun fmul :: "pyfloat \<Rightarrow> pyfloat \<Rightarrow> pyfloat" where
  "fmul (Fin a) (Fin b) = fl (a * b)"
| "fmul NaN _ = NaN"
| "fmul _ NaN = NaN"
| "fmul a b = (if a = Fin 0 \<or> b = Fin 0 then NaN
     else if is_neg a = is_neg b then PInf else NInf)"

fun fdiv :: "pyfloat \<Rightarrow> pyfloat \<Rightarrow> pyfloat option" where
  "fdiv a (Fin b) = (if b = 0 then None else
     (case a of Fin x \<Rightarrow> Some (fl (x / b)) | NaN \<Rightarrow> Some NaN
        | _ \<Rightarrow> Some (if is_neg a = (b < 0) then PInf else NInf)))"
| "fdiv (Fin _) NaN = Some NaN"
| "fdiv (Fin _) _ = Some (Fin 0)"
| "fdiv _ _ = Some NaN"

text \<open>True division of integers, correctly rounded; the divisor is not zero.\<close>

definition int_div :: "int \<Rightarrow> int \<Rightarrow> pyfloat" where
  "int_div a b = fl (of_int a / of_int b)"

text \<open>\<open>sum(xs)\<close> adds from left to right, starting from 0, as Python 3.11 does; the other supported version, 3.12,
  compensates the rounding of the additions and may differ in the last digits.\<close>

definition fsum :: "pyfloat list \<Rightarrow> pyfloat" where
  "fsum xs = foldl fadd (Fin 0) xs"

text \<open>\<open>round(x, n)\<close>: the exact value is rounded to \<open>n\<close> decimals, ties to even,
  and the decimal is read back as a float.\<close>

fun pround :: "nat \<Rightarrow> pyfloat \<Rightarrow> pyfloat" where
  "pround n (Fin x) = Fin (rnd (of_int (rhe (x * 10 ^ n)) / 10 ^ n))"
| "pround n x = x"

subsection \<open>Standard deviation\<close>

text \<open>\<open>math.isqrt\<close>\<close>

function isqrt :: "int \<Rightarrow> int" where
  "isqrt n = (if n \<le> 0 then 0 else
     (let r = 2 * isqrt (n div 4) in if (r + 1) * (r + 1) \<le> n then r + 1 else r))"
  by pat_completeness auto
termination
  by (relation "measure nat") (auto simp: nat_mono_iff)

declare isqrt.simps [simp del]

text \<open>\<open>statistics._integer_sqrt_of_frac_rto\<close> and \<open>_float_sqrt_of_frac\<close>\<close>

definition sqrt_rto :: "int \<Rightarrow> int \<Rightarrow> int" where
  "sqrt_rto n m = (let a = isqrt (n div m) in
     if a * a * m \<noteq> n \<and> even a then a + 1 else a)"

definition float_sqrt_of_frac :: "int \<Rightarrow> int \<Rightarrow> pyfloat" where
  "float_sqrt_of_frac n m =
     (let q = (bitlen n - bitlen m - 109) div 2 in
      if 0 \<le> q then fl (of_int (sqrt_rto n (m * 4 ^ nat q) * 2 ^ nat q))
      else fl (of_int (sqrt_rto (n * 4 ^ nat (- q)) m) / of_int (2 ^ nat (- q))))"

fun rats :: "pyfloat list \<Rightarrow> rat list option" where
  "rats [] = Some []"
| "rats (Fin a # xs) = (case rats xs of None \<Rightarrow> None | Some as \<Rightarrow> Some (a # as))"
| "rats (_ # xs) = None"

text \<open>\<open>statistics.pstdev\<close>: the exact variance, then its root, correctly rounded. A NaN or an
  infinity in the data makes the library fail, here \<open>None\<close>.\<close>

definition pstdev :: "pyfloat list \<Rightarrow> pyfloat option" where
  "pstdev xs = (case rats xs of None \<Rightarrow> None
     | Some as \<Rightarrow> if as = [] then None else
        (let n = of_nat (length as);
             var = (n * sum_list (map (\<lambda>a. a * a) as) - sum_list as * sum_list as) / (n * n)
         in case quotient_of var of (p, d) \<Rightarrow> Some (float_sqrt_of_frac p d)))"

section \<open>Laws\<close>

text \<open>The overflow test is evaluated on the exponent.\<close>

lemma elog_ge_iff: "0 < x \<Longrightarrow> k \<le> elog x \<longleftrightarrow> pow2 k \<le> x"
proof
  assume x: "0 < x" and "k \<le> elog x"
  then have "pow2 k \<le> pow2 (elog x)" by simp
  also have "\<dots> \<le> x" using x by (rule elog_bounds)
  finally show "pow2 k \<le> x" .
next
  assume x: "0 < x" and "pow2 k \<le> x"
  with elog_bounds(2)[OF x] have "pow2 k < pow2 (elog x + 1)" by linarith
  then show "k \<le> elog x" by simp
qed

lemma f64_lim_pos [simp]: "0 < f64_lim"
  unfolding f64_lim_def by (rule zero_less_power) simp

lemma f64_lim_pow2: "f64_lim = pow2 1024"
  unfolding f64_lim_def using pow2_nat[of 1024] by (simp only: of_nat_numeral)

lemma overflow_iff: "f64_lim \<le> \<bar>r\<bar> \<longleftrightarrow> r \<noteq> 0 \<and> 1024 \<le> elog \<bar>r\<bar>"
proof (cases "r = 0")
  case True
  then show ?thesis by (simp add: not_le)
next
  case False
  then show ?thesis by (simp add: f64_lim_pow2 elog_ge_iff)
qed

lemma fl_code [code]:
  "fl q = (let r = rnd q in
     if r \<noteq> 0 \<and> 1024 \<le> elog \<bar>r\<bar> then (if 0 < r then PInf else NInf) else Fin r)"
proof -
  have "(if f64_lim \<le> r then PInf else if r \<le> - f64_lim then NInf else Fin r) =
     (if f64_lim \<le> \<bar>r\<bar> then (if 0 < r then PInf else NInf) else Fin r)" for r
    using f64_lim_pos by (cases "0 < r") (auto simp: abs_if simp del: f64_lim_pos)
  then show ?thesis by (simp only: fl_def Let_def overflow_iff)
qed

lemma f64_code [code]:
  "f64 (Fin q) = (rnd q = q \<and> \<not> (q \<noteq> 0 \<and> 1024 \<le> elog \<bar>q\<bar>))"
  "f64 PInf = True" "f64 NInf = True" "f64 NaN = True"
  by (simp_all add: overflow_iff[symmetric] not_le)

lemma flt_Fin [simp]: "flt (Fin a) (Fin b) \<longleftrightarrow> a < b"
  by (auto simp: flt_def)

lemma feq_Fin [simp]: "feq (Fin a) (Fin b) \<longleftrightarrow> a = b"
  by (auto simp: feq_def)

lemma is_finite_iff: "is_finite x \<longleftrightarrow> (\<exists>q. x = Fin q)"
  by (cases x) auto

lemma fle_trans: "fle a b \<Longrightarrow> fle b c \<Longrightarrow> fle a c"
  by (cases a; cases b; cases c) auto

lemma fle_refl_iff: "fle a a \<longleftrightarrow> a \<noteq> NaN"
  by (cases a) auto

lemma fle_total: "a \<noteq> NaN \<Longrightarrow> b \<noteq> NaN \<Longrightarrow> fle a b \<or> fle b a"
  by (cases a; cases b) auto

lemma fle_antisym: "fle a b \<Longrightarrow> fle b a \<Longrightarrow> a = b"
  by (cases a; cases b) auto

lemma fle_NaN: "fle a b \<Longrightarrow> a \<noteq> NaN \<and> b \<noteq> NaN"
  by (cases a; cases b) auto

lemma not_fle: "a \<noteq> NaN \<Longrightarrow> b \<noteq> NaN \<Longrightarrow> \<not> fle a b \<longleftrightarrow> flt b a"
  by (auto simp: flt_def dest: fle_total)

lemma fl_not_NaN [simp]: "fl q \<noteq> NaN"
  by (simp add: fl_def Let_def)

lemma fle_infinities [simp]: "a \<noteq> NaN \<Longrightarrow> fle a PInf" "a \<noteq> NaN \<Longrightarrow> fle NInf a"
  by (cases a; simp)+

lemma fle_fl: "x \<le> y \<Longrightarrow> fle (fl x) (fl y)"
  using rnd_mono[of x y] by (auto simp: fl_def Let_def)

lemma fl_nonneg: "0 \<le> x \<Longrightarrow> fle (Fin 0) (fl x)"
  using rnd_nonneg[of x] by (auto simp: fl_def Let_def)

lemma f64_fl [simp]: "f64 (fl q)"
  by (auto simp: fl_def Let_def)

lemma fl_exact: "f64 (Fin q) \<Longrightarrow> fl q = Fin q"
  by (auto simp: fl_def)

lemma f64_int: "\<bar>n\<bar> \<le> 2 ^ 53 \<Longrightarrow> f64 (Fin (of_int n))"
proof -
  assume n: "\<bar>n\<bar> \<le> 2 ^ 53"
  then have "\<bar>rat_of_int n\<bar> \<le> of_int (2 ^ 53)" by (metis of_int_abs of_int_le_iff)
  also have "\<dots> = pow2 53" using pow2_nat[of 53] by simp
  also have "\<dots> < f64_lim" by (simp add: f64_lim_pow2)
  finally show ?thesis using n by (simp add: rnd_of_int)
qed

lemma fl_int: "\<bar>n\<bar> \<le> 2 ^ 53 \<Longrightarrow> fl (of_int n) = Fin (of_int n)"
  by (intro fl_exact f64_int)

lemma fl_finite_between:
  "f64 (Fin a) \<Longrightarrow> f64 (Fin b) \<Longrightarrow> a \<le> q \<Longrightarrow> q \<le> b \<Longrightarrow>
     \<exists>r. fl q = Fin r \<and> a \<le> r \<and> r \<le> b"
proof -
  assume a: "f64 (Fin a)" "f64 (Fin b)" "a \<le> q" "q \<le> b"
  then have "fle (Fin a) (fl q)" "fle (fl q) (Fin b)"
    using fle_fl[of a q] fle_fl[of q b] by (simp_all add: fl_exact)
  then show ?thesis by (cases "fl q") auto
qed

lemma fadd_mono:
  "fle a a' \<Longrightarrow> fle b b' \<Longrightarrow> fadd a b \<noteq> NaN \<Longrightarrow> fadd a' b' \<noteq> NaN \<Longrightarrow> fle (fadd a b) (fadd a' b')"
  by (cases a; cases b; cases a'; cases b') (auto intro: fle_fl add_mono)

lemma fadd_Fin_not_NaN [simp]: "fadd (Fin a) (Fin b) \<noteq> NaN"
  by simp

lemma pymin_cases: "pymin a b = a \<or> pymin a b = b"
  by (simp add: pymin_def)

lemma pymax_cases: "pymax a b = a \<or> pymax a b = b"
  by (simp add: pymax_def)

lemma pymax_Fin [simp]: "pymax (Fin a) (Fin b) = Fin (max a b)"
  by (simp add: pymax_def max_def)

lemma pymin_Fin [simp]: "pymin (Fin a) (Fin b) = Fin (min a b)"
  by (simp add: pymin_def min_def)

lemma pymin_mono:
  "fle a a' \<Longrightarrow> fle b b' \<Longrightarrow> fle (pymin a b) (pymin a' b')"
  by (cases a; cases b; cases a'; cases b') (auto simp: pymin_def flt_def)

lemma pymax_mono:
  "fle a a' \<Longrightarrow> fle b b' \<Longrightarrow> fle (pymax a b) (pymax a' b')"
  by (cases a; cases b; cases a'; cases b') (auto simp: pymax_def flt_def)

lemma pymin_le1: "a \<noteq> NaN \<Longrightarrow> b \<noteq> NaN \<Longrightarrow> fle (pymin a b) a"
  by (cases a; cases b) (auto simp: pymin_def flt_def)

lemma pymin_le2: "a \<noteq> NaN \<Longrightarrow> b \<noteq> NaN \<Longrightarrow> fle (pymin a b) b"
  by (cases a; cases b) (auto simp: pymin_def flt_def)

lemma pymax_ge1: "a \<noteq> NaN \<Longrightarrow> fle a (pymax a b)"
  by (cases a; cases b) (auto simp: pymax_def flt_def)

lemma pymax_ge2: "a \<noteq> NaN \<Longrightarrow> b \<noteq> NaN \<Longrightarrow> fle b (pymax a b)"
  by (cases a; cases b) (auto simp: pymax_def flt_def)

lemma fdiv_defined: "b \<noteq> 0 \<Longrightarrow> \<exists>d. fdiv a (Fin b) = Some d"
  by (cases a) simp_all

lemma finite_not_NaN: "is_finite x \<Longrightarrow> x \<noteq> NaN"
  by (cases x) auto

lemma rhe_nonneg: "0 \<le> q \<Longrightarrow> 0 \<le> rhe q"
  using rhe_mono[of 0 q] rhe_of_int[of 0] by simp

lemma pround_mono: "fle a b \<Longrightarrow> fle (pround n a) (pround n b)"
  by (cases a; cases b) (auto intro!: rnd_mono divide_right_mono rhe_mono mult_right_mono)

lemma pround_finite [simp]: "is_finite (pround n x) = is_finite x"
  by (cases x) auto

lemma pround_int: "\<bar>i\<bar> \<le> 2 ^ 53 \<Longrightarrow> pround n (Fin (of_int i)) = Fin (of_int i)"
proof -
  assume i: "\<bar>i\<bar> \<le> 2 ^ 53"
  have "(of_int i :: rat) * 10 ^ n = of_int (i * 10 ^ n)" by simp
  then have "rhe ((of_int i :: rat) * 10 ^ n) = i * 10 ^ n" by (simp only: rhe_of_int)
  then show ?thesis using i by (simp add: rnd_of_int)
qed

lemma pround_between:
  assumes "\<bar>i\<bar> \<le> 2 ^ 53" "\<bar>j\<bar> \<le> 2 ^ 53" "fle (fint i) x" "fle x (fint j)"
  shows "fle (fint i) (pround n x) \<and> fle (pround n x) (fint j)"
  using assms pround_mono[of "fint i" x n] pround_mono[of x "fint j" n]
  by (simp add: fint_def pround_int del: pround.simps)

lemma lit_nonneg: "0 \<le> n \<Longrightarrow> 0 \<le> d \<Longrightarrow> fle (Fin 0) (lit n d)"
  by (simp add: lit_def fl_nonneg)

lemma isqrt_square: "0 \<le> n \<Longrightarrow> 0 \<le> isqrt n \<and> isqrt n * isqrt n \<le> n \<and> n < (isqrt n + 1) * (isqrt n + 1)"
proof (induction n rule: isqrt.induct)
  case (1 n)
  show ?case
  proof (cases "n \<le> 0")
    case True
    with "1.prems" show ?thesis by (simp add: isqrt.simps[of 0])
  next
    case False
    define a where "a = isqrt (n div 4)"
    have IH: "0 \<le> a" "a * a \<le> n div 4" "n div 4 < (a + 1) * (a + 1)"
      using "1.IH" False by (simp_all add: a_def)
    from IH(2) have lo: "4 * (a * a) \<le> n" by linarith
    from IH(3) have "n div 4 + 1 \<le> (a + 1) * (a + 1)" by simp
    then have hi: "n < 4 * ((a + 1) * (a + 1))" by linarith
    have e: "isqrt n = (if (2 * a + 1) * (2 * a + 1) \<le> n then 2 * a + 1 else 2 * a)"
      using False by (simp add: isqrt.simps[of n] a_def Let_def)
    show ?thesis unfolding e using IH(1) lo hi by (auto simp: algebra_simps)
  qed
qed

lemma sqrt_rto_nonneg: "0 \<le> n \<Longrightarrow> 0 < m \<Longrightarrow> 0 \<le> sqrt_rto n m"
  using isqrt_square[of "n div m"] by (simp add: sqrt_rto_def Let_def pos_imp_zdiv_nonneg_iff)

lemma float_sqrt_nonneg: "0 \<le> n \<Longrightarrow> 0 < m \<Longrightarrow> fle (Fin 0) (float_sqrt_of_frac n m)"
  unfolding float_sqrt_of_frac_def Let_def
  by (auto intro!: fl_nonneg divide_nonneg_nonneg mult_nonneg_nonneg sqrt_rto_nonneg
      simp flip: of_int_mult of_int_power)

text \<open>The variance is a sum of squares, so the root is taken of a non-negative fraction.\<close>

lemma variance_nonneg:
  fixes as :: "rat list"
  shows "0 \<le> of_nat (length as) * sum_list (map (\<lambda>a. a * a) as) - sum_list as * sum_list as"
proof -
  let ?n = "of_nat (length as) :: rat"
  let ?s = "sum_list as"
  have "(\<Sum>a\<leftarrow>as. (c * a - s) * (c * a - s)) =
      c * c * (\<Sum>a\<leftarrow>as. a * a) - 2 * c * s * sum_list as + of_nat (length as) * (s * s)" for c s :: rat
    by (induction as) (auto simp: algebra_simps)
  from this[of ?n ?s] have "(\<Sum>a\<leftarrow>as. (?n * a - ?s) * (?n * a - ?s)) =
      ?n * (?n * (\<Sum>a\<leftarrow>as. a * a) - ?s * ?s)" by (simp add: algebra_simps)
  moreover have "0 \<le> (\<Sum>a\<leftarrow>as. (?n * a - ?s) * (?n * a - ?s))"
    by (rule sum_list_nonneg) auto
  ultimately have "0 \<le> ?n * (?n * (\<Sum>a\<leftarrow>as. a * a) - ?s * ?s)" by simp
  then show ?thesis
    by (cases "as = []") (simp_all add: zero_le_mult_iff)
qed

lemma pstdev_nonneg: "pstdev xs = Some s \<Longrightarrow> fle (Fin 0) s"
proof -
  assume p: "pstdev xs = Some s"
  then obtain as where as: "rats xs = Some as" "as \<noteq> []"
    by (auto simp: pstdev_def split: option.splits if_splits)
  define v :: rat where "v = (of_nat (length as) * sum_list (map (\<lambda>a. a * a) as) - sum_list as * sum_list as)
    / (of_nat (length as) * of_nat (length as))"
  have v: "0 \<le> v" unfolding v_def by (intro divide_nonneg_nonneg variance_nonneg) simp
  obtain a d where q: "quotient_of v = (a, d)" by fastforce
  have d: "0 < d" by (rule quotient_of_denom_pos[OF q])
  moreover have "0 \<le> a" using v quotient_of_div[OF q] d by (simp add: zero_le_divide_iff)
  moreover have "s = float_sqrt_of_frac a d" using p as q by (simp add: pstdev_def v_def)
  ultimately show ?thesis by (simp add: float_sqrt_nonneg)
qed

lemma rats_Some: "(\<forall>x\<in>set xs. is_finite x) \<Longrightarrow> \<exists>as. rats xs = Some as \<and> xs = map Fin as"
  by (induction xs) (auto simp: is_finite_iff)

lemma pstdev_finite: "xs \<noteq> [] \<Longrightarrow> \<forall>x\<in>set xs. is_finite x \<Longrightarrow> \<exists>s. pstdev xs = Some s"
  using rats_Some[of xs] by (auto simp: pstdev_def Let_def prod.case_eq_if)

lemma foldl_pymax_Fin: "foldl pymax (Fin a) (map Fin xs) = Fin (foldl max a xs)"
  by (induction xs arbitrary: a) auto

end
