(* ===== verification/Pyval.thy ===== *)
theory Pyval
  imports Pyfloat "HOL-Library.Multiset"
begin

text \<open>
  Dynamic Python values, as they travel between the components in dictionaries of type
  \<open>dict[str, Any]\<close>: the datatype \<open>pyval\<close>, truth testing, equality, \<open>str\<close>,
  \<open>json.dumps\<close> with sorted keys and compact separators, and the few typed readers the
  code uses (\<open>.get\<close>, \<open>isinstance\<close>). Tuples and lists are one constructor, as JSON does
  not distinguish them. Characters are the code points 0 to 255.
\<close>

section \<open>Values\<close>

datatype pyval =
    VNone
  | VBool bool
  | VInt int
  | VFloat pyfloat
  | VStr string
  | VList "pyval list"
  | VDict "(string \<times> pyval) list"

type_synonym obj = "(string \<times> pyval) list"

fun truthy :: "pyval \<Rightarrow> bool" where
  "truthy VNone = False"
| "truthy (VBool b) = b"
| "truthy (VInt i) = (i \<noteq> 0)"
| "truthy (VFloat x) = (x \<noteq> Fin 0)"
| "truthy (VStr s) = (s \<noteq> [])"
| "truthy (VList xs) = (xs \<noteq> [])"
| "truthy (VDict d) = (d \<noteq> [])"

text \<open>\<open>a or b\<close>\<close>

definition por :: "pyval \<Rightarrow> pyval \<Rightarrow> pyval" where
  "por a b = (if truthy a then a else b)"

fun is_dict :: "pyval \<Rightarrow> bool" where
  "is_dict (VDict _) = True"
| "is_dict _ = False"

fun is_list :: "pyval \<Rightarrow> bool" where
  "is_list (VList _) = True"
| "is_list _ = False"

fun is_str :: "pyval \<Rightarrow> bool" where
  "is_str (VStr _) = True"
| "is_str _ = False"

fun is_bool :: "pyval \<Rightarrow> bool" where
  "is_bool (VBool _) = True"
| "is_bool _ = False"

fun items :: "pyval \<Rightarrow> obj" where
  "items (VDict d) = d"
| "items _ = []"

fun elems :: "pyval \<Rightarrow> pyval list" where
  "elems (VList xs) = xs"
| "elems _ = []"

text \<open>\<open>d.get(k)\<close> and \<open>d.get(k, v)\<close> of a dictionary.\<close>

definition get :: "obj \<Rightarrow> string \<Rightarrow> pyval" where
  "get d k = dict_get d k VNone"

definition vget :: "pyval \<Rightarrow> string \<Rightarrow> pyval" where
  "vget v k = get (items v) k"

text \<open>The numeric reading of a value: \<open>bool\<close> is a subclass of \<open>int\<close>.\<close>

fun num :: "pyval \<Rightarrow> pyfloat option" where
  "num (VBool b) = Some (Fin (if b then 1 else 0))"
| "num (VInt i) = Some (fint i)"
| "num (VFloat x) = Some x"
| "num _ = None"

text \<open>Python's \<open>==\<close>: numbers compare by value, dictionaries regardless of order.\<close>

fun veq :: "pyval \<Rightarrow> pyval \<Rightarrow> bool"
  and veq_list :: "pyval list \<Rightarrow> pyval list \<Rightarrow> bool"
  and veq_dict :: "obj \<Rightarrow> obj \<Rightarrow> bool" where
  "veq VNone w = (w = VNone)"
| "veq (VStr s) w = (w = VStr s)"
| "veq (VBool b) w = (case num w of None \<Rightarrow> False | Some y \<Rightarrow> feq (Fin (if b then 1 else 0)) y)"
| "veq (VInt i) w = (case num w of None \<Rightarrow> False | Some y \<Rightarrow> feq (fint i) y)"
| "veq (VFloat x) w = (case num w of None \<Rightarrow> False | Some y \<Rightarrow> feq x y)"
| "veq (VList xs) w = (case w of VList ys \<Rightarrow> veq_list xs ys | _ \<Rightarrow> False)"
| "veq (VDict d) w = (case w of VDict e \<Rightarrow> length d = length e \<and> veq_dict d e | _ \<Rightarrow> False)"
| "veq_list [] ys = (ys = [])"
| "veq_list (x # xs) ys = (case ys of [] \<Rightarrow> False | y # ys' \<Rightarrow> veq x y \<and> veq_list xs ys')"
| "veq_dict [] e = True"
| "veq_dict ((k, v) # d) e =
     ((case map_of e k of None \<Rightarrow> False | Some w \<Rightarrow> veq v w) \<and> veq_dict d e)"

section \<open>Text of a number\<close>

text \<open>\<open>repr(float)\<close>: the shortest decimal that reads back as the same float. \<open>decpt\<close> is the
  position of the decimal point, \<open>0.DIGITS * 10 ^ decpt\<close>.\<close>

fun decpt_up :: "nat \<Rightarrow> rat \<Rightarrow> int" where
  "decpt_up 0 q = 0"
| "decpt_up (Suc n) q = (if q < 1 then 0 else 1 + decpt_up n (q / 10))"

fun decpt_down :: "nat \<Rightarrow> rat \<Rightarrow> int" where
  "decpt_down 0 q = 0"
| "decpt_down (Suc n) q = (if 1 \<le> q * 10 then 0 else decpt_down n (q * 10) - 1)"

text \<open>A binary64 value is below \<open>10 ^ 309\<close> and, when positive, above \<open>10 ^ -324\<close>.\<close>

definition decpt :: "rat \<Rightarrow> int" where
  "decpt q = (if 1 \<le> q then decpt_up 310 q else decpt_down 325 q)"

definition pow10 :: "int \<Rightarrow> rat" where
  "pow10 k = (if 0 \<le> k then 10 ^ nat k else 1 / 10 ^ nat (- k))"

fun shortest :: "nat \<Rightarrow> nat \<Rightarrow> rat \<Rightarrow> int \<Rightarrow> int \<times> int" where
  "shortest 0 n q p = (rhe (q * pow10 (int n - p)), int n)"
| "shortest (Suc fuel) n q p =
     (let m = rhe (q * pow10 (int n - p)) in
      if rnd (of_int m * pow10 (p - int n)) = q then (m, int n) else shortest fuel (Suc n) q p)"

definition drop_zeros :: "string \<Rightarrow> string" where
  "drop_zeros s = rev (dropWhile (\<lambda>c. c = CHR ''0'') (rev s))"

definition float_digits :: "rat \<Rightarrow> string \<times> int" where
  "float_digits q = (let p = decpt q; (m, n) = shortest 16 1 q p; s = str_int m
     in (drop_zeros s, p + int (length s) - n))"

definition pad2 :: "string \<Rightarrow> string" where
  "pad2 s = (if length s < 2 then CHR ''0'' # s else s)"

definition repr_pos :: "rat \<Rightarrow> string" where
  "repr_pos q = (case float_digits q of (ds, p) \<Rightarrow>
     if p \<le> -4 \<or> 16 < p then
       take 1 ds @ (if length ds = 1 then [] else CHR ''.'' # drop 1 ds) @ ''e'' @
       (if p - 1 < 0 then ''-'' else ''+'') @ pad2 (str_int \<bar>p - 1\<bar>)
     else if p \<le> 0 then ''0.'' @ replicate (nat (- p)) (CHR ''0'') @ ds
     else if int (length ds) \<le> p then ds @ replicate (nat p - length ds) (CHR ''0'') @ ''.0''
     else take (nat p) ds @ ''.'' @ drop (nat p) ds)"

fun float_repr :: "pyfloat \<Rightarrow> string" where
  "float_repr (Fin q) = (if q = 0 then ''0.0'' else if q < 0 then CHR ''-'' # repr_pos (- q) else repr_pos q)"
| "float_repr PInf = ''inf''"
| "float_repr NInf = ''-inf''"
| "float_repr NaN = ''nan''"

section \<open>Text of a value\<close>

definition hex_digit :: "int \<Rightarrow> char" where
  "hex_digit n = (if n < 10 then char_of (48 + n) else char_of (87 + n))"

definition hex2 :: "int \<Rightarrow> string" where
  "hex2 n = [hex_digit (n div 16 mod 16), hex_digit (n mod 16)]"

fun join :: "string \<Rightarrow> string list \<Rightarrow> string" where
  "join sep [] = []"
| "join sep [x] = x"
| "join sep (x # y # xs) = x @ sep @ join sep (y # xs)"

definition repr_char :: "char \<Rightarrow> char \<Rightarrow> string" where
  "repr_char q c = (let n = (of_char c :: int) in
     if c = q \<or> n = 92 then [CHR 0x5C, c]
     else if n = 10 then [CHR 0x5C, CHR ''n'']
     else if n = 13 then [CHR 0x5C, CHR ''r'']
     else if n = 9 then [CHR 0x5C, CHR ''t'']
     else if n < 32 \<or> (127 \<le> n \<and> n \<le> 160) \<or> n = 173 then CHR 0x5C # CHR ''x'' # hex2 n
     else [c])"

definition str_repr :: "string \<Rightarrow> string" where
  "str_repr s = (let sq = CHR 0x27; dq = CHR 0x22;
       q = (if sq \<in> set s \<and> dq \<notin> set s then dq else sq)
     in q # concat (map (repr_char q) s) @ [q])"

fun repr :: "pyval \<Rightarrow> string" where
  "repr VNone = ''None''"
| "repr (VBool b) = (if b then ''True'' else ''False'')"
| "repr (VInt i) = str_int i"
| "repr (VFloat x) = float_repr x"
| "repr (VStr s) = str_repr s"
| "repr (VList xs) = ''['' @ join '', '' (map repr xs) @ '']''"
| "repr (VDict d) = ''{'' @ join '', '' (map (\<lambda>(k, v). str_repr k @ '': '' @ repr v) d) @ ''}''"

definition py_str :: "pyval \<Rightarrow> string" where
  "py_str v = (case v of VStr s \<Rightarrow> s | _ \<Rightarrow> repr v)"

section \<open>Canonical JSON\<close>

definition json_char :: "char \<Rightarrow> string" where
  "json_char c = (let n = (of_char c :: int) in
     if 32 \<le> n \<and> n \<le> 126 \<and> n \<noteq> 34 \<and> n \<noteq> 92 then [c]
     else if n = 34 \<or> n = 92 then [CHR 0x5C, c]
     else if n = 10 then [CHR 0x5C, CHR ''n''] else if n = 13 then [CHR 0x5C, CHR ''r'']
     else if n = 9 then [CHR 0x5C, CHR ''t''] else if n = 12 then [CHR 0x5C, CHR ''f'']
     else if n = 8 then [CHR 0x5C, CHR ''b'']
     else CHR 0x5C # ''u00'' @ hex2 n)"

definition json_str :: "string \<Rightarrow> string" where
  "json_str s = (let q = CHR 0x22 in q # concat (map json_char s) @ [q])"

fun json_float :: "pyfloat \<Rightarrow> string" where
  "json_float PInf = ''Infinity''"
| "json_float NInf = ''-Infinity''"
| "json_float NaN = ''NaN''"
| "json_float x = float_repr x"

text \<open>\<open>sort_keys=True\<close>\<close>

fun canon :: "pyval \<Rightarrow> pyval" where
  "canon (VList xs) = VList (map canon xs)"
| "canon (VDict d) = VDict (sort_key fst (map (\<lambda>(k, v). (k, canon v)) d))"
| "canon v = v"

text \<open>\<open>separators=(",", ":")\<close>\<close>

fun dumps :: "pyval \<Rightarrow> string" where
  "dumps VNone = ''null''"
| "dumps (VBool b) = (if b then ''true'' else ''false'')"
| "dumps (VInt i) = str_int i"
| "dumps (VFloat x) = json_float x"
| "dumps (VStr s) = json_str s"
| "dumps (VList xs) = ''['' @ join '','' (map dumps xs) @ '']''"
| "dumps (VDict d) = ''{'' @ join '','' (map (\<lambda>(k, v). json_str k @ '':'' @ dumps v) d) @ ''}''"

section \<open>Laws\<close>

lemma get_Nil [simp]: "get [] k = VNone"
  by (simp add: get_def dict_get_def)

lemma get_Cons [simp]: "get ((j, v) # d) k = (if k = j then v else get d k)"
  by (simp add: get_def dict_get_def)

lemma vget_VDict [simp]: "vget (VDict d) k = get d k"
  by (simp add: vget_def)

lemma get_truthy_in: "truthy (get d k) \<Longrightarrow> (k, get d k) \<in> set d"
  by (induction d) (auto split: if_splits)

lemma elems_truthy: "truthy v \<Longrightarrow> is_list v \<Longrightarrow> elems v \<noteq> []"
  by (cases v) auto

lemma str_repr_nonempty [simp]: "str_repr s \<noteq> []"
  by (simp add: str_repr_def Let_def)

lemma digits_rep [simp]: "str_int i \<noteq> []"
  by (rule str_int_nonempty)

lemma truthy_str_nonempty: "truthy (VStr s) \<Longrightarrow> py_str (VStr s) \<noteq> []"
  by (simp add: py_str_def)

lemma sort_key_perm:
  assumes "mset xs = mset ys" and "distinct (map f xs)"
  shows "sort_key f xs = sort_key f ys"
proof (rule properties_for_sort_key)
  show "mset (sort_key f ys) = mset xs" using assms(1) by simp
  fix x assume x: "x \<in> set (sort_key f ys)"
  have "mset (map f (sort_key f ys)) = mset (map f xs)" using assms(1) by simp
  then have dy: "distinct (map f (sort_key f ys))" using assms(2) by (metis mset_eq_imp_distinct_iff)
  have one: "filter (\<lambda>y. f x = f y) zs = [x]" if "distinct (map f zs)" "x \<in> set zs" for zs
    using that
  proof (induction zs)
    case (Cons z zs)
    then show ?case by (cases "x = z") (auto simp: filter_empty_conv image_iff)
  qed simp
  from x assms(1) have "x \<in> set xs" by (metis set_mset_mset set_sort)
  then show "filter (\<lambda>y. f x = f y) (sort_key f ys) = filter (\<lambda>y. f x = f y) xs"
    using one[OF assms(2)] one[OF dy x] by simp
qed simp

text \<open>The canonical form does not depend on the order in which a dictionary was filled.\<close>

lemma canon_order:
  assumes "mset d = mset e" and "wf_dict d"
  shows "canon (VDict d) = canon (VDict e)"
proof -
  let ?g = "\<lambda>(k, v). (k, canon v)"
  have "map fst (map ?g d) = map fst d" by (simp add: comp_def case_prod_beta)
  then have "distinct (map fst (map ?g d))" using assms(2) by (simp only: wf_dict_def)
  moreover have "mset (map ?g d) = mset (map ?g e)" using assms(1) by (simp only: mset_map)
  ultimately show ?thesis by (simp only: canon.simps sort_key_perm)
qed

end
