(* ===== verification/Domain.thy ===== *)
theory Domain
  imports Pyval
begin

text \<open>
  The enumerations of the system with the strings they serialise to: the disposition of a
  decision (\<open>enterprise/domain.py\<close>), the reason codes and calibration states
  (\<open>enterprise/integrity.py\<close>), the assurance states (\<open>assurance/domain.py\<close>,
  \<open>assurance/reason_codes.py\<close>), and the severity bands (\<open>severity.py\<close>). A
  \<open>StrEnum\<close> is a datatype with a \<open>_value\<close> function; the constructor call of the
  enumeration on a string is the partial inverse \<open>parse_\<close>.
\<close>

section \<open>Dispositions\<close>

datatype decision = PASS | FLAG | REVIEW | ABSTAIN

fun decision_value :: "decision \<Rightarrow> string" where
  "decision_value PASS = ''PASS''"
| "decision_value FLAG = ''FLAG''"
| "decision_value REVIEW = ''REVIEW''"
| "decision_value ABSTAIN = ''ABSTAIN''"

definition parse_decision :: "string \<Rightarrow> decision option" where
  "parse_decision s = (if s = ''PASS'' then Some PASS else if s = ''FLAG'' then Some FLAG
     else if s = ''REVIEW'' then Some REVIEW else if s = ''ABSTAIN'' then Some ABSTAIN else None)"

lemma parse_decision_value [simp]: "parse_decision (decision_value d) = Some d"
  by (cases d) (simp_all add: parse_decision_def)

lemma parse_decision_iff: "parse_decision s = Some d \<longleftrightarrow> s = decision_value d"
  by (cases d) (auto simp: parse_decision_def)

lemma decision_value_inj [simp]: "decision_value a = decision_value b \<longleftrightarrow> a = b"
  by (metis option.inject parse_decision_value)

text \<open>The dispositions are ordered by the strength of the response (\<open>DISPOSITION_RANK\<close>).\<close>

fun disposition_rank :: "decision \<Rightarrow> nat" where
  "disposition_rank PASS = 0"
| "disposition_rank FLAG = 1"
| "disposition_rank REVIEW = 2"
| "disposition_rank ABSTAIN = 3"

lemma disposition_rank_inj [simp]: "disposition_rank a = disposition_rank b \<longleftrightarrow> a = b"
  by (cases a; cases b) simp_all

instantiation decision :: linorder
begin

definition less_eq_decision :: "decision \<Rightarrow> decision \<Rightarrow> bool" where
  "less_eq_decision a b = (disposition_rank a \<le> disposition_rank b)"

definition less_decision :: "decision \<Rightarrow> decision \<Rightarrow> bool" where
  "less_decision a b = (disposition_rank a < disposition_rank b)"

instance
  by standard (auto simp: less_eq_decision_def less_decision_def dest: order_antisym)

end

lemma ABSTAIN_top [simp]: "d \<le> ABSTAIN"
  by (cases d) (simp_all add: less_eq_decision_def)

lemma PASS_bot [simp]: "PASS \<le> d"
  by (cases d) (simp_all add: less_eq_decision_def)

section \<open>Calibration and maturity\<close>

datatype calibration_status = UNCALIBRATED | CALIBRATED_INTERNAL | VALIDATED_EXTERNAL

fun calibration_value :: "calibration_status \<Rightarrow> string" where
  "calibration_value UNCALIBRATED = ''UNCALIBRATED''"
| "calibration_value CALIBRATED_INTERNAL = ''CALIBRATED_INTERNAL''"
| "calibration_value VALIDATED_EXTERNAL = ''VALIDATED_EXTERNAL''"

definition parse_calibration :: "string \<Rightarrow> calibration_status option" where
  "parse_calibration s = (if s = ''UNCALIBRATED'' then Some UNCALIBRATED
     else if s = ''CALIBRATED_INTERNAL'' then Some CALIBRATED_INTERNAL
     else if s = ''VALIDATED_EXTERNAL'' then Some VALIDATED_EXTERNAL else None)"

lemma parse_calibration_value [simp]: "parse_calibration (calibration_value c) = Some c"
  by (cases c) (simp_all add: parse_calibration_def)

datatype policy_maturity = HEURISTIC_POLICY | MATURE_INTERNAL | MATURE_EXTERNAL

fun maturity_value :: "policy_maturity \<Rightarrow> string" where
  "maturity_value HEURISTIC_POLICY = ''HEURISTIC_POLICY''"
| "maturity_value MATURE_INTERNAL = ''CALIBRATED_INTERNAL''"
| "maturity_value MATURE_EXTERNAL = ''VALIDATED_EXTERNAL''"

definition parse_maturity :: "string \<Rightarrow> policy_maturity option" where
  "parse_maturity s = (if s = ''HEURISTIC_POLICY'' then Some HEURISTIC_POLICY
     else if s = ''CALIBRATED_INTERNAL'' then Some MATURE_INTERNAL
     else if s = ''VALIDATED_EXTERNAL'' then Some MATURE_EXTERNAL else None)"

lemma parse_maturity_value [simp]: "parse_maturity (maturity_value m) = Some m"
  by (cases m) (simp_all add: parse_maturity_def)

section \<open>Assurance states\<close>

datatype assurance_status = PASSED | RESTRICTED | FAILED

fun status_value :: "assurance_status \<Rightarrow> string" where
  "status_value PASSED = ''PASSED''"
| "status_value RESTRICTED = ''RESTRICTED''"
| "status_value FAILED = ''FAILED''"

definition parse_status :: "string \<Rightarrow> assurance_status option" where
  "parse_status s = (if s = ''PASSED'' then Some PASSED else if s = ''RESTRICTED'' then Some RESTRICTED
     else if s = ''FAILED'' then Some FAILED else None)"

lemma parse_status_value [simp]: "parse_status (status_value x) = Some x"
  by (cases x) (simp_all add: parse_status_def)

datatype evidence_state = EV_VERIFIED | EV_PARTIAL | EV_INSUFFICIENT | EV_UNKNOWN

fun evidence_state_value :: "evidence_state \<Rightarrow> string" where
  "evidence_state_value EV_VERIFIED = ''VERIFIED''"
| "evidence_state_value EV_PARTIAL = ''PARTIAL''"
| "evidence_state_value EV_INSUFFICIENT = ''INSUFFICIENT''"
| "evidence_state_value EV_UNKNOWN = ''UNKNOWN''"

definition parse_evidence_state :: "string \<Rightarrow> evidence_state option" where
  "parse_evidence_state s = (if s = ''VERIFIED'' then Some EV_VERIFIED else if s = ''PARTIAL'' then Some EV_PARTIAL
     else if s = ''INSUFFICIENT'' then Some EV_INSUFFICIENT else if s = ''UNKNOWN'' then Some EV_UNKNOWN else None)"

lemma parse_evidence_state_value [simp]: "parse_evidence_state (evidence_state_value x) = Some x"
  by (cases x) (simp_all add: parse_evidence_state_def)

datatype fragility_state = STABLE | SENSITIVE | FRAGILE | FR_NOT_ESTIMABLE

fun fragility_state_value :: "fragility_state \<Rightarrow> string" where
  "fragility_state_value STABLE = ''STABLE''"
| "fragility_state_value SENSITIVE = ''SENSITIVE''"
| "fragility_state_value FRAGILE = ''FRAGILE''"
| "fragility_state_value FR_NOT_ESTIMABLE = ''NOT_ESTIMABLE''"

definition parse_fragility_state :: "string \<Rightarrow> fragility_state option" where
  "parse_fragility_state s = (if s = ''STABLE'' then Some STABLE else if s = ''SENSITIVE'' then Some SENSITIVE
     else if s = ''FRAGILE'' then Some FRAGILE else if s = ''NOT_ESTIMABLE'' then Some FR_NOT_ESTIMABLE else None)"

lemma parse_fragility_state_value [simp]: "parse_fragility_state (fragility_state_value x) = Some x"
  by (cases x) (simp_all add: parse_fragility_state_def)

datatype distribution_state = IN_REFERENCE | WARNING | OUTSIDE_REFERENCE | DIST_UNKNOWN

fun distribution_state_value :: "distribution_state \<Rightarrow> string" where
  "distribution_state_value IN_REFERENCE = ''IN_REFERENCE''"
| "distribution_state_value WARNING = ''WARNING''"
| "distribution_state_value OUTSIDE_REFERENCE = ''OUTSIDE_REFERENCE''"
| "distribution_state_value DIST_UNKNOWN = ''UNKNOWN''"

definition parse_distribution_state :: "string \<Rightarrow> distribution_state option" where
  "parse_distribution_state s = (if s = ''IN_REFERENCE'' then Some IN_REFERENCE
     else if s = ''WARNING'' then Some WARNING
     else if s = ''OUTSIDE_REFERENCE'' then Some OUTSIDE_REFERENCE
     else if s = ''UNKNOWN'' then Some DIST_UNKNOWN else None)"

lemma parse_distribution_state_value [simp]:
  "parse_distribution_state (distribution_state_value x) = Some x"
  by (cases x) (simp_all add: parse_distribution_state_def)

datatype sufficient_method = EXACT | GREEDY_APPROXIMATION | SM_NOT_ESTIMABLE

fun method_value :: "sufficient_method \<Rightarrow> string" where
  "method_value EXACT = ''EXACT''"
| "method_value GREEDY_APPROXIMATION = ''GREEDY_APPROXIMATION''"
| "method_value SM_NOT_ESTIMABLE = ''NOT_ESTIMABLE''"

definition parse_method :: "string \<Rightarrow> sufficient_method option" where
  "parse_method s = (if s = ''EXACT'' then Some EXACT
     else if s = ''GREEDY_APPROXIMATION'' then Some GREEDY_APPROXIMATION
     else if s = ''NOT_ESTIMABLE'' then Some SM_NOT_ESTIMABLE else None)"

lemma parse_method_value [simp]: "parse_method (method_value x) = Some x"
  by (cases x) (simp_all add: parse_method_def)

section \<open>Reason codes\<close>

definition reason_code_names :: "string list" where
  "reason_code_names = [
     ''INSUFFICIENT_VERIFIED_EVIDENCE'', ''EVIDENCE_FRAGILITY_HIGH'',
     ''EVIDENCE_FRAGILITY_NOT_ESTIMABLE'', ''OUTSIDE_VALIDATED_DISTRIBUTION'',
     ''DISTRIBUTION_VALIDITY_UNKNOWN'', ''ASSURANCE_POLICY_UNCALIBRATED'',
     ''CALIBRATION_SCOPE_MISMATCH'', ''CERTIFICATE_INCOMPLETE'',
     ''REPORTING_OBSERVABILITY_ANOMALY'', ''HIGH_MODEL_DISAGREEMENT'',
     ''RUNTIME_FAILURE_REQUIRES_REVIEW'', ''PROPOSED_DECISION_WITHHELD'']"

section \<open>Severity bands\<close>

definition severity_bands :: "(pyfloat \<times> string \<times> string) list" where
  "severity_bands = [
     (Fin 80, ''critical'', ''Critical''),
     (Fin 60, ''high'', ''High''),
     (Fin 40, ''moderate'', ''Moderate''),
     (Fin 20, ''low'', ''Low''),
     (Fin 0, ''very_low'', ''Very Low'')]"

definition severity_key :: "pyfloat option \<Rightarrow> string" where
  "severity_key score = (case score of None \<Rightarrow> ''unknown''
     | Some s \<Rightarrow> (case find (\<lambda>(threshold, _, _). fle threshold s) severity_bands of
         Some (_, key, _) \<Rightarrow> key | None \<Rightarrow> ''very_low''))"

definition severity_label :: "pyfloat option \<Rightarrow> string" where
  "severity_label score = (case score of None \<Rightarrow> ''N/A''
     | Some s \<Rightarrow> (case find (\<lambda>(threshold, _, _). fle threshold s) severity_bands of
         Some (_, _, label) \<Rightarrow> label | None \<Rightarrow> ''Very Low''))"

text \<open>Rank of a severity key, used to state monotonicity.\<close>

definition severity_rank :: "string \<Rightarrow> nat" where
  "severity_rank k = (if k = ''critical'' then 5 else if k = ''high'' then 4
     else if k = ''moderate'' then 3 else if k = ''low'' then 2
     else if k = ''very_low'' then 1 else 0)"

lemma severity_key_Some:
  "severity_key (Some s) = (if fle (Fin 80) s then ''critical'' else if fle (Fin 60) s then ''high''
     else if fle (Fin 40) s then ''moderate'' else if fle (Fin 20) s then ''low'' else ''very_low'')"
  by (simp add: severity_key_def severity_bands_def)

lemma severity_mono:
  "fle s t \<Longrightarrow> severity_rank (severity_key (Some s)) \<le> severity_rank (severity_key (Some t))"
  by (auto simp: severity_key_Some severity_rank_def dest: fle_trans)

end
