(* ===== verification/Evidence.thy ===== *)
theory Evidence
  imports Domain
begin

text \<open>
  Evidence assurance (\<open>assurance/evidence.py\<close>, the path predicates of
  \<open>enterprise/decision.py\<close> and the records of \<open>assurance/domain.py\<close>).

  A material decision path is a dictionary; it counts as verified when it carries source
  evidence, was marked \<open>VERIFIED\<close>, and, for a numeric contradiction, has a verified
  provenance for every required input. Content hashes are \<open>sha256 (dumps (canon v))\<close>; the
  digest function \<open>sha256\<close> (hashlib, outside the repository) is the parameter \<open>H\<close> of every
  definition that uses it. A number or a boolean where the code iterates over a list or a
  dictionary raises a \<open>TypeError\<close> in Python and is read as empty here.
\<close>

section \<open>Hashes and material payloads\<close>

type_synonym digest = "string \<Rightarrow> string"

definition canonical_hash :: "digest \<Rightarrow> pyval \<Rightarrow> string" where
  "canonical_hash H v = H (dumps (canon v))"

text \<open>Operational telemetry does not change the identity of a decision.\<close>

definition non_material_replay_fields :: "string list" where
  "non_material_replay_fields = [''latency_ms'', ''created_at'']"

fun material_decision_payload :: "pyval \<Rightarrow> pyval" where
  "material_decision_payload (VDict d) = VDict (map (\<lambda>(k, v). (k, material_decision_payload v))
     (filter (\<lambda>(k, v). k \<notin> set non_material_replay_fields) d))"
| "material_decision_payload (VList xs) = VList (map material_decision_payload xs)"
| "material_decision_payload v = v"

section \<open>Verified paths\<close>

definition verified_reference :: "pyval \<Rightarrow> bool" where
  "verified_reference item = (is_dict item \<and>
     lower (py_str (dict_get (items item) ''verification_status'' (VStr ''''))) = ''verified'')"

definition verified_numeric_inputs :: "pyval \<Rightarrow> pyval \<Rightarrow> bool" where
  "verified_numeric_inputs required provenance =
     (is_list required \<and> elems required \<noteq> [] \<and> is_dict provenance \<and>
      list_all (\<lambda>name. case name of
          VStr n \<Rightarrow> (let references = vget provenance n in
             is_list references \<and> elems references \<noteq> [] \<and> list_all verified_reference (elems references))
        | _ \<Rightarrow> False) (elems required))"

definition verified_material_path :: "pyval \<Rightarrow> bool" where
  "verified_material_path path = (is_dict path \<and>
     (let evidence = vget path ''source_evidence'' in
       is_list evidence \<and> elems evidence \<noteq> [] \<and> list_all is_dict (elems evidence) \<and>
       vget path ''evidence_path_status'' = VStr ''VERIFIED'' \<and>
       (vget path ''rule_or_model'' \<noteq> VStr ''narrative_numeric_consistency'' \<or>
        (list_all (\<lambda>item. vget item ''verification_status'' = VStr ''verified'') (elems evidence) \<and>
         verified_numeric_inputs (dict_get (items path) ''required_inputs'' (VList []))
           (dict_get (items path) ''input_provenance'' (VDict []))))))"

text \<open>\<open>_verified_path\<close>: no empty evidence item either.\<close>

definition verified_path :: "pyval \<Rightarrow> bool" where
  "verified_path path = (verified_material_path path \<and>
     list_all truthy (elems (vget path ''source_evidence'')))"

section \<open>Identity of evidence\<close>

definition evidence_keys :: "string list" where
  "evidence_keys = [''source'', ''document'', ''source_hash'', ''page'', ''source_text'',
     ''fiscal_year'', ''concept'', ''unit'', ''raw_value'', ''normalized_value'']"

definition evidence_identifier :: "digest \<Rightarrow> pyval \<Rightarrow> string" where
  "evidence_identifier H value =
     (let explicit = por (vget value ''id'') (vget value ''evidence_id'') in
      if truthy explicit then py_str explicit
      else ''evidence_'' @ take 20 (canonical_hash H (VDict (filter (\<lambda>(k, v). v \<noteq> VNone)
        (map (\<lambda>k. (k, vget value k)) evidence_keys)))))"

definition setdefault :: "'k \<Rightarrow> 'v \<Rightarrow> ('k, 'v) dict \<Rightarrow> ('k, 'v) dict" where
  "setdefault k v d = (if has_key d k then d else d @ [(k, v)])"

definition unique_material_paths :: "digest \<Rightarrow> pyval list \<Rightarrow> pyval list" where
  "unique_material_paths H paths = map snd (foldl (\<lambda>unique path.
     setdefault (canonical_hash H (material_decision_payload path)) path unique) [] paths)"

definition raw_path_evidence :: "pyval \<Rightarrow> pyval list" where
  "raw_path_evidence path =
     filter is_dict (elems (vget path ''source_evidence'')) @
     concat (map (\<lambda>(k, v). filter is_dict (elems v)) (items (vget path ''input_provenance'')))"

definition path_evidence :: "digest \<Rightarrow> pyval \<Rightarrow> pyval list" where
  "path_evidence H path =
     (let unique = foldl (\<lambda>u item. AList.update (evidence_identifier H item) item u) []
            (raw_path_evidence path)
      in map (\<lambda>k. dict_get unique k VNone) (sort (map fst unique)))"

section \<open>Dependencies\<close>

record evidence_dependency =
  ed_id :: string
  ed_evidence_ids :: "string list"
  ed_dimension :: string
  ed_score :: "pyfloat option"
  ed_claims :: "string list"
  ed_verified :: bool

text \<open>\<open>float(v) if isinstance(v, (int, float)) else None\<close>\<close>

fun to_float :: "pyval \<Rightarrow> pyfloat option" where
  "to_float (VBool b) = Some (Fin (if b then 1 else 0))"
| "to_float (VInt i) = Some (fl (of_int i))"
| "to_float (VFloat x) = Some x"
| "to_float _ = None"

definition dependency_of :: "digest \<Rightarrow> nat \<Rightarrow> pyval \<Rightarrow> evidence_dependency" where
  "dependency_of H index path =
     (let reason = py_str (por (vget path ''reason_code'') (VStr (''path_'' @ str_int (int index))))
      in \<lparr>ed_id = reason,
          ed_evidence_ids = sort (map (evidence_identifier H) (path_evidence H path)),
          ed_dimension = py_str (por (vget path ''risk_domain'') (VStr ''unknown'')),
          ed_score = to_float (vget (vget path ''fusion_contribution'') ''dimension_score''),
          ed_claims = map py_str (filter truthy [vget path ''material_claim'', vget path ''claim'', VStr reason]),
          ed_verified = verified_path path\<rparr>)"

definition dependencies_from_paths :: "digest \<Rightarrow> pyval list \<Rightarrow> evidence_dependency list" where
  "dependencies_from_paths H paths =
     map (\<lambda>(i, path). dependency_of H i path) (List.enumerate 0 (unique_material_paths H paths))"

section \<open>Assessment\<close>

record evidence_assurance =
  ea_state :: evidence_state
  ea_material :: nat
  ea_verified :: nat
  ea_coverage :: pyfloat
  ea_evidence_ids :: "string list"
  ea_claims :: "string list"
  ea_diagnostics :: "string list"

definition path_evidence_ids :: "digest \<Rightarrow> pyval \<Rightarrow> string list" where
  "path_evidence_ids H path = map (evidence_identifier H) (path_evidence H path)"

definition coverage_of :: "nat \<Rightarrow> nat \<Rightarrow> pyfloat" where
  "coverage_of verified material = (if material = 0 then Fin 0 else int_div (int verified) (int material))"

definition supported_claim :: "pyval \<Rightarrow> pyval" where
  "supported_claim path = por (vget path ''material_claim'') (vget path ''reason_code'')"

definition assess_evidence :: "digest \<Rightarrow> pyval list \<Rightarrow> pyfloat \<Rightarrow> string list \<Rightarrow> evidence_assurance" where
  "assess_evidence H paths0 minimum removed =
     (let paths = unique_material_paths H paths0;
          material = length paths;
          verified_paths = filter (\<lambda>p. verified_path p \<and>
            \<not> list_ex (\<lambda>i. i \<in> set removed) (path_evidence_ids H p)) paths;
          verified = length verified_paths;
          coverage = coverage_of verified material;
          (state, diagnostics) =
            (if material = 0 then (EV_UNKNOWN, [''No material decision path was supplied to assurance.''])
             else if verified = 0 then (EV_INSUFFICIENT, [''No material path has complete verified provenance.''])
             else if flt coverage minimum \<or> verified < material
               then (EV_PARTIAL, [''Only part of the material decision path is verified.''])
             else (EV_VERIFIED, []))
      in \<lparr>ea_state = state, ea_material = material, ea_verified = verified,
          ea_coverage = pround 6 coverage,
          ea_evidence_ids = sorted_set (concat (map (path_evidence_ids H) verified_paths)),
          ea_claims = sorted_set (map (py_str \<circ> supported_claim) (filter (truthy \<circ> supported_claim) verified_paths)),
          ea_diagnostics = diagnostics\<rparr>)"

section \<open>Laws\<close>

lemma wf_setdefault [simp]: "wf_dict d \<Longrightarrow> wf_dict (setdefault k v d)"
  by (auto simp: setdefault_def wf_dict_def has_key_iff)

lemma foldl_setdefault_wf: "wf_dict d \<Longrightarrow> wf_dict (foldl (\<lambda>u p. setdefault (f p) p u) d ps)"
  by (induction ps arbitrary: d) auto

text \<open>Hash equality is the only reason for a path to be dropped.\<close>

lemma foldl_setdefault_inv:
  "(\<forall>(k, p)\<in>set d. k = f p) \<Longrightarrow>
     (\<forall>(k, p)\<in>set (foldl (\<lambda>u p. setdefault (f p) p u) d ps). k = f p) \<and>
     fst ` set (foldl (\<lambda>u p. setdefault (f p) p u) d ps) = fst ` set d \<union> f ` set ps \<and>
     snd ` set (foldl (\<lambda>u p. setdefault (f p) p u) d ps) \<subseteq> snd ` set d \<union> set ps"
proof (induction ps arbitrary: d)
  case (Cons p ps)
  then have *: "\<forall>(k, q)\<in>set (setdefault (f p) p d). k = f q" by (auto simp: setdefault_def)
  have keys: "fst ` set (setdefault (f p) p d) = insert (f p) (fst ` set d)"
    by (auto simp: setdefault_def has_key_iff)
  have vals: "snd ` set (setdefault (f p) p d) \<subseteq> insert p (snd ` set d)"
    by (auto simp: setdefault_def)
  have "snd ` set (foldl (\<lambda>u p. setdefault (f p) p u) (setdefault (f p) p d) ps)
      \<subseteq> insert p (snd ` set d) \<union> set ps"
    using Cons.IH[OF *] vals by blast
  then show ?case using Cons.IH[OF *] keys by simp
qed simp

lemma unique_paths_subset: "set (unique_material_paths H ps) \<subseteq> set ps"
  unfolding unique_material_paths_def
  using foldl_setdefault_inv[of "[]" "\<lambda>p. canonical_hash H (material_decision_payload p)" ps] by simp

lemma unique_paths_identity:
  "(\<lambda>p. canonical_hash H (material_decision_payload p)) ` set (unique_material_paths H ps) =
     (\<lambda>p. canonical_hash H (material_decision_payload p)) ` set ps"
proof -
  let ?f = "\<lambda>p. canonical_hash H (material_decision_payload p)"
  let ?u = "foldl (\<lambda>u p. setdefault (?f p) p u) [] ps"
  have inv: "\<forall>(k, p)\<in>set ?u. k = ?f p" "fst ` set ?u = ?f ` set ps"
    using foldl_setdefault_inv[of "[]" ?f ps] by auto
  have "?f ` snd ` set ?u = fst ` set ?u" using inv(1) by force
  then show ?thesis using inv(2) by (simp add: unique_material_paths_def)
qed

lemma distinct_identity:
  "distinct (map (\<lambda>p. canonical_hash H (material_decision_payload p)) (unique_material_paths H ps))"
proof -
  let ?f = "\<lambda>p. canonical_hash H (material_decision_payload p)"
  let ?u = "foldl (\<lambda>u p. setdefault (?f p) p u) [] ps"
  have inv: "\<forall>(k, p)\<in>set ?u. k = ?f p" using foldl_setdefault_inv[of "[]" ?f ps] by auto
  then have "map ?f (map snd ?u) = map fst ?u" by auto
  moreover have "distinct (map fst ?u)" using foldl_setdefault_wf[of "[]" ?f ps] by (simp add: wf_dict_def)
  ultimately have "distinct (map ?f (map snd ?u))" by metis
  then show ?thesis unfolding unique_material_paths_def .
qed

lemma unique_paths_empty [simp]: "unique_material_paths H ps = [] \<longleftrightarrow> ps = []"
  using unique_paths_identity[of H ps] by (metis image_is_empty set_empty)

subsection \<open>Evidence of a path\<close>

lemma foldl_ident_inv:
  "wf_dict d \<Longrightarrow> (\<forall>(k, x)\<in>set d. k = f x) \<Longrightarrow>
     wf_dict (foldl (\<lambda>u x. AList.update (f x) x u) d xs) \<and>
     (\<forall>(k, x)\<in>set (foldl (\<lambda>u x. AList.update (f x) x u) d xs). k = f x) \<and>
     fst ` set (foldl (\<lambda>u x. AList.update (f x) x u) d xs) = fst ` set d \<union> f ` set xs"
proof (induction xs arbitrary: d)
  case (Cons x xs)
  have "\<forall>(k, y)\<in>set (AList.update (f x) x d). k = f y"
    using Cons.prems set_update_subset[of "f x" x d] by fastforce
  then show ?case using Cons.IH[of "AList.update (f x) x d"] Cons.prems by simp
qed simp

lemma path_evidence_ids_props:
  "path_evidence_ids H p = sorted_set (map (evidence_identifier H) (raw_path_evidence p))"
proof -
  let ?f = "evidence_identifier H"
  define u where "u = foldl (\<lambda>u x. AList.update (?f x) x u) [] (raw_path_evidence p)"
  have inv: "wf_dict u" "\<forall>(k, x)\<in>set u. k = ?f x" "fst ` set u = ?f ` set (raw_path_evidence p)"
    using foldl_ident_inv[of "[]" ?f "raw_path_evidence p"] by (simp_all add: u_def)
  have "?f (dict_get u k VNone) = k" if "k \<in> fst ` set u" for k
  proof -
    from that obtain x where x: "(k, x) \<in> set u" by auto
    then have "map_of u k = Some x" using inv(1) by (simp add: map_of_wf_iff)
    then show ?thesis using x inv(2) by (auto simp: dict_get_def)
  qed
  then have "map (\<lambda>k. ?f (dict_get u k VNone)) (sort (map fst u)) = sort (map fst u)"
    by (intro map_idI) auto
  then have "map ?f (map (\<lambda>k. dict_get u k VNone) (sort (map fst u))) = sort (map fst u)"
    by (simp add: comp_def)
  moreover have "sort (map fst u) = sorted_set (map ?f (raw_path_evidence p))"
  proof (rule sorted_distinct_set_unique)
    show "distinct (sort (map fst u))" using inv(1) by (simp add: wf_dict_def)
    show "set (sort (map fst u)) = set (sorted_set (map ?f (raw_path_evidence p)))" using inv(3) by simp
  qed simp_all
  ultimately show ?thesis by (simp add: path_evidence_ids_def path_evidence_def u_def Let_def)
qed

lemma dependency_ids: "ed_evidence_ids (dependency_of H i p) = path_evidence_ids H p"
proof -
  have "sort (path_evidence_ids H p) = path_evidence_ids H p"
    by (simp add: path_evidence_ids_props sorted_sort_id)
  then show ?thesis by (simp add: dependency_of_def Let_def path_evidence_ids_def)
qed

lemma verified_path_has_evidence: "verified_path p \<Longrightarrow> path_evidence_ids H p \<noteq> []"
proof -
  assume "verified_path p"
  then have "filter is_dict (elems (vget p ''source_evidence'')) \<noteq> []"
    by (cases "elems (vget p ''source_evidence'')")
      (auto simp: verified_path_def verified_material_path_def Let_def)
  then show ?thesis by (simp add: path_evidence_ids_props raw_path_evidence_def)
qed

lemma dependency_verified [simp]: "ed_verified (dependency_of H i p) = verified_path p"
  by (simp add: dependency_of_def Let_def)

lemma length_dependencies: "length (dependencies_from_paths H ps) = length (unique_material_paths H ps)"
  by (simp add: dependencies_from_paths_def)

lemma in_dependencies:
  "d \<in> set (dependencies_from_paths H ps) \<Longrightarrow> \<exists>i. \<exists>p\<in>set (unique_material_paths H ps). d = dependency_of H i p"
proof -
  assume "d \<in> set (dependencies_from_paths H ps)"
  then obtain x where x: "x \<in> set (List.enumerate 0 (unique_material_paths H ps))"
    "d = dependency_of H (fst x) (snd x)"
    by (auto simp: dependencies_from_paths_def)
  have "snd x \<in> set (map snd (List.enumerate 0 (unique_material_paths H ps)))"
    using x(1) by (simp only: set_map imageI)
  then show ?thesis using x(2) by auto
qed

lemma dependencies_of_path:
  "p \<in> set (unique_material_paths H ps) \<Longrightarrow> \<exists>i. dependency_of H i p \<in> set (dependencies_from_paths H ps)"
proof -
  assume "p \<in> set (unique_material_paths H ps)"
  then obtain i where "i < length (unique_material_paths H ps)" "p = unique_material_paths H ps ! i"
    by (auto simp: in_set_conv_nth)
  then have "(i, p) \<in> set (List.enumerate 0 (unique_material_paths H ps))"
    by (simp add: in_set_enumerate_eq)
  then have "dependency_of H i p \<in> set (dependencies_from_paths H ps)"
    unfolding dependencies_from_paths_def by (force simp: image_iff)
  then show ?thesis ..
qed

subsection \<open>Coverage\<close>

lemma coverage_le_1: "v \<le> m \<Longrightarrow> fle (coverage_of v m) (Fin 1)"
proof (cases "m = 0")
  case False
  assume "v \<le> m"
  with False have "rat_of_int (int v) / rat_of_int (int m) \<le> 1" by (simp add: divide_le_eq_1)
  then have "fle (fl (of_int (int v) / of_int (int m))) (fl 1)" by (rule fle_fl)
  then show ?thesis using False fl_int[of 1] by (simp add: coverage_of_def int_div_def)
qed (simp add: coverage_of_def)

lemma coverage_nonneg: "fle (Fin 0) (coverage_of v m)"
  by (simp add: coverage_of_def int_div_def fl_nonneg)

lemma coverage_finite: "v \<le> m \<Longrightarrow> is_finite (coverage_of v m)"
  using coverage_le_1[of v m] coverage_nonneg[of v m] by (cases "coverage_of v m") auto

lemma coverage_full: "0 < m \<Longrightarrow> coverage_of m m = Fin 1"
  using fl_int[of 1] by (simp add: coverage_of_def int_div_def)

lemma assess_evidence_simps [simp]:
  "ea_material (assess_evidence H ps mn rm) = length (unique_material_paths H ps)"
  by (simp add: assess_evidence_def Let_def case_prod_beta)

lemma assess_verified_le: "ea_verified (assess_evidence H ps mn rm) \<le> ea_material (assess_evidence H ps mn rm)"
  by (simp add: assess_evidence_def Let_def case_prod_beta)

section \<open>Properties\<close>

text \<open>deduplicating material paths only removes repetitions. The result is a sublist of
  values of the input, no two of its paths have the same identity (the hash of the material
  payload, without telemetry), and every identity of the input is still represented; an
  input without repetitions is returned as it is.\<close>

theorem unique_paths_sound:
  defines "key \<equiv> \<lambda>H p. canonical_hash H (material_decision_payload p)"
  shows "set (unique_material_paths H ps) \<subseteq> set ps \<and>
    distinct (map (key H) (unique_material_paths H ps)) \<and>
    key H ` set (unique_material_paths H ps) = key H ` set ps \<and>
    (distinct (map (key H) ps) \<longrightarrow> unique_material_paths H ps = ps)"
proof -
  have fold: "foldl (\<lambda>u p. setdefault (f p) p u) d qs = d @ map (\<lambda>p. (f p, p)) qs"
    if "distinct (map f qs)" "fst ` set d \<inter> f ` set qs = {}" for f d and qs :: "pyval list"
    using that
  proof (induction qs arbitrary: d)
    case (Cons q qs)
    then have "setdefault (f q) q d = d @ [(f q, q)]" by (auto simp: setdefault_def has_key_iff)
    then show ?case using Cons.IH[of "d @ [(f q, q)]"] Cons.prems by auto
  qed simp
  have "unique_material_paths H ps = ps" if "distinct (map (key H) ps)"
    using fold[of "key H" ps "[]"] that by (simp add: unique_material_paths_def key_def comp_def)
  then show ?thesis
    using unique_paths_subset[of H ps] distinct_identity[of H ps] unique_paths_identity[of H ps]
    by (simp add: key_def)
qed

lemma unique_paths_sound_witness:
  "set (unique_material_paths (\<lambda>s. s) [VDict [(''a'', VInt 1)], VDict [(''a'', VInt 1), (''latency_ms'', VInt 9)]])
     \<subseteq> set [VDict [(''a'', VInt 1)], VDict [(''a'', VInt 1), (''latency_ms'', VInt 9)]]"
  using unique_paths_sound[of "\<lambda>s. s"] by blast

text \<open>C26: evidence is \<open>VERIFIED\<close> exactly when there is at least one material path, every
  distinct material path carries complete verified provenance and cites no withdrawn
  evidence, and full coverage meets the policy's minimum.\<close>

theorem evidence_verified_iff:
  "ea_state (assess_evidence H ps minimum removed) = EV_VERIFIED \<longleftrightarrow>
     ps \<noteq> [] \<and> \<not> flt (Fin 1) minimum \<and>
     (\<forall>p\<in>set (unique_material_paths H ps). verified_path p \<and>
        set (path_evidence_ids H p) \<inter> set removed = {})"
proof -
  let ?u = "unique_material_paths H ps"
  let ?P = "\<lambda>p. verified_path p \<and> \<not> list_ex (\<lambda>i. i \<in> set removed) (path_evidence_ids H p)"
  have all: "length (filter ?P ?u) = length ?u \<longleftrightarrow> (\<forall>p\<in>set ?u. ?P p)"
    by (metis (mono_tags, lifting) filter_id_conv length_filter_less less_irrefl)
  have cited: "\<not> list_ex (\<lambda>i. i \<in> set removed) is \<longleftrightarrow> set is \<inter> set removed = {}" for "is"
    by (auto simp: list_ex_iff)
  have "ea_state (assess_evidence H ps minimum removed) = EV_VERIFIED \<longleftrightarrow>
      ps \<noteq> [] \<and> length (filter ?P ?u) = length ?u \<and> \<not> flt (coverage_of (length ?u) (length ?u)) minimum"
  proof (cases "length (filter ?P ?u) = length ?u")
    case False
    then have "length (filter ?P ?u) < length ?u" by (metis le_neq_implies_less length_filter_le)
    then show ?thesis using False by (auto simp: assess_evidence_def Let_def)
  qed (auto simp: assess_evidence_def Let_def)
  then show ?thesis using coverage_full[of "length ?u"] unfolding all by (auto simp: cited)
qed

lemma evidence_verified_iff_witness:
  "ea_state (assess_evidence (\<lambda>s. s) [VDict [(''evidence_path_status'', VStr ''VERIFIED''),
     (''source_evidence'', VList [VDict [(''id'', VStr ''e'')]])]] (Fin (1/2)) [''e'']) \<noteq> EV_VERIFIED"
proof
  let ?p = "VDict [(''evidence_path_status'', VStr ''VERIFIED''), (''source_evidence'', VList [VDict [(''id'', VStr ''e'')]])]"
  assume "ea_state (assess_evidence (\<lambda>s. s) [?p] (Fin (1/2)) [''e'']) = EV_VERIFIED"
  then have "\<forall>p\<in>set (unique_material_paths (\<lambda>s. s) [?p]). set (path_evidence_ids (\<lambda>s. s) p) \<inter> set [''e''] = {}"
    using evidence_verified_iff by blast
  moreover have "unique_material_paths (\<lambda>s. s) [?p] = [?p]" "path_evidence_ids (\<lambda>s. s) ?p = [''e'']"
    by code_simp+
  ultimately show False by simp
qed

end
