(* ===== verification/AssurancePolicy.thy ===== *)
theory AssurancePolicy
  imports Evidence
begin

text \<open>
  The assurance policy (\<open>assurance/policy.py\<close>): its fields with their development defaults,
  the constructor from a mapping, and the hash that binds a result to a policy. A policy read
  from a mapping is a list of typed overrides, one constructor per field of the dataclass; a name
  that is no field is \<open>PO_unknown\<close>.
\<close>

record assurance_policy =
  ap_version :: string
  ap_maturity :: policy_maturity
  ap_minimum_verified_coverage :: pyfloat
  ap_maximum_disagreement :: pyfloat
  ap_sensitive_score_delta :: pyfloat
  ap_fragile_score_delta :: pyfloat
  ap_maximum_fragility_nodes_exact :: int
  ap_require_distribution_reference :: bool
  ap_require_calibration_for_automation :: bool
  ap_review_on_unknown_distribution :: bool
  ap_review_on_fragility_not_estimable :: bool

definition default_assurance_policy :: assurance_policy where
  "default_assurance_policy = \<lparr>
     ap_version = ''assurance-policy-v0.4.0-development'',
     ap_maturity = HEURISTIC_POLICY,
     ap_minimum_verified_coverage = lit 4 10,
     ap_maximum_disagreement = lit 45 100,
     ap_sensitive_score_delta = Fin 10,
     ap_fragile_score_delta = Fin 20,
     ap_maximum_fragility_nodes_exact = 12,
     ap_require_distribution_reference = True,
     ap_require_calibration_for_automation = True,
     ap_review_on_unknown_distribution = True,
     ap_review_on_fragility_not_estimable = True\<rparr>"

datatype policy_override =
    PO_version string
  | PO_maturity string
  | PO_minimum_verified_coverage pyfloat
  | PO_maximum_disagreement pyfloat
  | PO_sensitive_score_delta pyfloat
  | PO_fragile_score_delta pyfloat
  | PO_maximum_fragility_nodes_exact int
  | PO_require_distribution_reference bool
  | PO_require_calibration_for_automation bool
  | PO_review_on_unknown_distribution bool
  | PO_review_on_fragility_not_estimable bool
  | PO_unknown string pyval

fun apply_override :: "policy_override \<Rightarrow> assurance_policy \<Rightarrow> assurance_policy result" where
  "apply_override (PO_version s) p = Inr (p\<lparr>ap_version := s\<rparr>)"
| "apply_override (PO_maturity s) p = (case parse_maturity s of
       None \<Rightarrow> Inl (ValueError ''PolicyMaturity'') | Some m \<Rightarrow> Inr (p\<lparr>ap_maturity := m\<rparr>))"
| "apply_override (PO_minimum_verified_coverage x) p = Inr (p\<lparr>ap_minimum_verified_coverage := x\<rparr>)"
| "apply_override (PO_maximum_disagreement x) p = Inr (p\<lparr>ap_maximum_disagreement := x\<rparr>)"
| "apply_override (PO_sensitive_score_delta x) p = Inr (p\<lparr>ap_sensitive_score_delta := x\<rparr>)"
| "apply_override (PO_fragile_score_delta x) p = Inr (p\<lparr>ap_fragile_score_delta := x\<rparr>)"
| "apply_override (PO_maximum_fragility_nodes_exact n) p = Inr (p\<lparr>ap_maximum_fragility_nodes_exact := n\<rparr>)"
| "apply_override (PO_require_distribution_reference b) p = Inr (p\<lparr>ap_require_distribution_reference := b\<rparr>)"
| "apply_override (PO_require_calibration_for_automation b) p = Inr (p\<lparr>ap_require_calibration_for_automation := b\<rparr>)"
| "apply_override (PO_review_on_unknown_distribution b) p = Inr (p\<lparr>ap_review_on_unknown_distribution := b\<rparr>)"
| "apply_override (PO_review_on_fragility_not_estimable b) p = Inr (p\<lparr>ap_review_on_fragility_not_estimable := b\<rparr>)"
| "apply_override (PO_unknown k v) p = Inl (ValueError ''unknown assurance policy fields'')"

fun is_unknown :: "policy_override \<Rightarrow> bool" where
  "is_unknown (PO_unknown k v) = True"
| "is_unknown _ = False"

fun apply_overrides :: "policy_override list \<Rightarrow> assurance_policy \<Rightarrow> assurance_policy result" where
  "apply_overrides [] p = Inr p"
| "apply_overrides (x # xs) p = bind_result (apply_override x p) (apply_overrides xs)"

text \<open>\<open>AssurancePolicy.from_mapping\<close>: unknown fields are rejected before anything is read.\<close>

definition from_mapping :: "policy_override list \<Rightarrow> assurance_policy result" where
  "from_mapping value =
     (if list_ex is_unknown value then Inl (ValueError ''unknown assurance policy fields'')
      else apply_overrides value default_assurance_policy)"

definition policy_to_dict :: "assurance_policy \<Rightarrow> pyval" where
  "policy_to_dict p = VDict [
     (''version'', VStr (ap_version p)),
     (''maturity'', VStr (maturity_value (ap_maturity p))),
     (''minimum_verified_coverage'', VFloat (ap_minimum_verified_coverage p)),
     (''maximum_disagreement'', VFloat (ap_maximum_disagreement p)),
     (''sensitive_score_delta'', VFloat (ap_sensitive_score_delta p)),
     (''fragile_score_delta'', VFloat (ap_fragile_score_delta p)),
     (''maximum_fragility_nodes_exact'', VInt (ap_maximum_fragility_nodes_exact p)),
     (''require_distribution_reference'', VBool (ap_require_distribution_reference p)),
     (''require_calibration_for_automation'', VBool (ap_require_calibration_for_automation p)),
     (''review_on_unknown_distribution'', VBool (ap_review_on_unknown_distribution p)),
     (''review_on_fragility_not_estimable'', VBool (ap_review_on_fragility_not_estimable p))]"

definition policy_hash :: "digest \<Rightarrow> assurance_policy \<Rightarrow> string" where
  "policy_hash H p = canonical_hash H (policy_to_dict p)"

end
