(* ===== verification/Fusion.thy ===== *)
theory Fusion
  imports Domain
begin

text \<open>
  Risk fusion (\<open>enterprise/fusion.py\<close>): four ways to merge the scores of the risk
  dimensions into one proposal, the suppression of duplicate evidence, the proposal that
  reacts to failures, and the sensitivity of the score.

  Scores are a dictionary from dimension to \<open>float | None\<close>, the policy a dictionary of
  floats merged over \<open>DEFAULT_DECISION_POLICY\<close>. \<open>statistics.pstdev\<close> fails on a NaN or an
  infinity, so the methods that use it return a \<open>result\<close>. The lemmas show that the two
  non-compensatory methods are monotone in every score, in binary64 arithmetic and after the
  final rounding, that the disagreement stays within 0 and 1, and that failures can only move
  a proposal to a more cautious disposition.
\<close>

section \<open>Data\<close>

type_synonym scores = "(string, pyfloat option) dict"
type_synonym policy = "(string, pyfloat) dict"

record fusion_result =
  fr_method :: string
  fr_severity :: string
  fr_score :: "pyfloat option"
  fr_decision :: decision
  fr_coverage :: pyfloat
  fr_confidence :: pyfloat
  fr_disagreement :: pyfloat
  fr_drivers :: "string list"
  fr_rationale :: string
  fr_evidence_quality :: pyfloat
  fr_reliability :: "pyfloat option"
  fr_reliability_status :: string
  fr_reason_codes :: "string list"

definition default_decision_policy :: policy where
  "default_decision_policy = [
     (''minimum_coverage'', lit 4 10), (''maximum_disagreement'', lit 45 100),
     (''flag_score'', Fin 60), (''review_score'', Fin 40)]"

definition effective_policy :: "policy \<Rightarrow> policy" where
  "effective_policy p = dict_union default_decision_policy p"

text \<open>\<open>policy[k]\<close> for a key of the default policy, which the merge always keeps.\<close>

definition policy_at :: "policy \<Rightarrow> string \<Rightarrow> pyfloat" where
  "policy_at p k = dict_get p k NaN"

definition active_scores :: "scores \<Rightarrow> (string, pyfloat) dict" where
  "active_scores s = List.map_filter (\<lambda>(k, v). map_option (Pair k) v) s"

text \<open>\<open>sorted(keys, key=f, reverse=True)\<close>: stable, descending.\<close>

fun insort_desc :: "('a \<Rightarrow> pyfloat) \<Rightarrow> 'a \<Rightarrow> 'a list \<Rightarrow> 'a list" where
  "insort_desc f x [] = [x]"
| "insort_desc f x (y # ys) = (if \<not> flt (f x) (f y) then x # y # ys else y # insort_desc f x ys)"

definition sort_desc :: "('a \<Rightarrow> pyfloat) \<Rightarrow> 'a list \<Rightarrow> 'a list" where
  "sort_desc f xs = foldr (insort_desc f) xs []"

definition top_drivers :: "(string, pyfloat) dict \<Rightarrow> string list" where
  "top_drivers active = take 3 (map fst (sort_desc snd active))"

text \<open>\<open>min(1.0, pstdev(values) / 50) if len(values) > 1 else 0.0\<close>\<close>

definition disagreement_of :: "pyfloat list \<Rightarrow> pyfloat result" where
  "disagreement_of vs = (if 1 < length vs then
     (case pstdev vs of None \<Rightarrow> Inl (AttributeError ''numerator'')
      | Some s \<Rightarrow> (case fdiv s (Fin 50) of None \<Rightarrow> Inl ZeroDivisionError
          | Some d \<Rightarrow> Inr (pymin (Fin 1) d)))
     else Inr (Fin 0))"

section \<open>The common tail: \<open>_final\<close>\<close>

definition fusion_decision ::
  "policy \<Rightarrow> pyfloat option \<Rightarrow> pyfloat \<Rightarrow> pyfloat \<Rightarrow> decision \<times> string list" where
  "fusion_decision p score coverage disagreement =
     (case score of None \<Rightarrow> (ABSTAIN, [''INSUFFICIENT_EVIDENCE''])
      | Some s \<Rightarrow>
        if flt coverage (policy_at p ''minimum_coverage'') then (ABSTAIN, [''INSUFFICIENT_EVIDENCE''])
        else if fle (policy_at p ''maximum_disagreement'') disagreement
          then (REVIEW, [''HIGH_MODEL_DISAGREEMENT''])
        else if fle (policy_at p ''flag_score'') s then (FLAG, [])
        else if fle (policy_at p ''review_score'') s then (REVIEW, [])
        else (PASS, []))"

definition final_result :: "string \<Rightarrow> pyfloat option \<Rightarrow> pyfloat \<Rightarrow> pyfloat \<Rightarrow> pyfloat \<Rightarrow> string list
    \<Rightarrow> string \<Rightarrow> policy \<Rightarrow> bool \<Rightarrow> fusion_result" where
  "final_result method score coverage confidence disagreement drivers rationale p0 critical =
     (let p = effective_policy p0;
          (decision, codes) = fusion_decision p score coverage disagreement;
          critical_codes =
            (if critical then [''CRITICAL_DIMENSION_ESCALATION'']
             else case score of None \<Rightarrow> []
               | Some s \<Rightarrow> if fle (dict_get p ''critical_dimension_score'' (Fin 80)) s
                   then [''AGGREGATE_CRITICAL_SCORE''] else [])
      in \<lparr>fr_method = method, fr_severity = severity_key score,
          fr_score = map_option (pround 1) score, fr_decision = decision,
          fr_coverage = pround 3 coverage, fr_confidence = pround 3 confidence,
          fr_disagreement = pround 3 disagreement, fr_drivers = drivers,
          fr_rationale = rationale, fr_evidence_quality = pround 3 confidence,
          fr_reliability = None, fr_reliability_status = ''UNCALIBRATED'',
          fr_reason_codes = codes @ critical_codes @ [''UNVALIDATED_RELIABILITY'']\<rparr>)"

section \<open>The fusion methods\<close>

text \<open>A weight that is not positive, or missing, removes the dimension.\<close>

definition weighted_average ::
  "scores \<Rightarrow> (string, pyfloat) dict \<Rightarrow> pyfloat \<Rightarrow> pyfloat \<Rightarrow> policy \<Rightarrow> fusion_result result" where
  "weighted_average scores weights coverage confidence policy =
     (let active = filter (\<lambda>(k, _). flt (Fin 0) (dict_get weights k (Fin 0))) (active_scores scores);
          weight = (\<lambda>k. dict_get weights k (Fin 0));
          denominator = fsum (map (weight \<circ> fst) active);
          score = fdiv (fsum (map (\<lambda>(k, v). fmul v (weight k)) active)) denominator;
          values = map snd active
      in bind_result (disagreement_of values) (\<lambda>disagreement.
        Inr (final_result ''weighted_average'' score coverage confidence disagreement
          (top_drivers active)
          ''Expert-weighted active dimensions; missing dimensions are not zero'' policy False)))"

definition max_severity :: "scores \<Rightarrow> pyfloat \<Rightarrow> pyfloat \<Rightarrow> policy \<Rightarrow> fusion_result" where
  "max_severity scores coverage confidence policy =
     (let active = active_scores scores;
          score = (if active = [] then None else Some (pymax_list (map snd active)))
      in final_result ''max_severity'' score coverage confidence (Fin 0)
           (case score of None \<Rightarrow> [] | Some m \<Rightarrow> map fst (filter (\<lambda>(_, v). feq v m) active))
           ''Highest supported dimension prevents concentrated-risk dilution'' policy
           (case score of None \<Rightarrow> False
            | Some m \<Rightarrow> fle (dict_get (effective_policy policy) ''critical_dimension_score'' (Fin 80)) m))"

definition interaction_uplift :: "policy \<Rightarrow> nat \<Rightarrow> pyfloat" where
  "interaction_uplift p elevated =
     pymin (dict_get p ''interaction_uplift_cap'' (Fin 15))
       (fmul (dict_get p ''interaction_uplift_per_dimension'' (Fin 5)) (fint (max 0 (int elevated - 1))))"

definition hierarchical_score :: "policy \<Rightarrow> (string, pyfloat) dict \<Rightarrow> pyfloat option" where
  "hierarchical_score p active =
     (if active = [] then None else
        let elevated = filter (\<lambda>(_, v). fle (dict_get p ''elevated_dimension_score'' (Fin 50)) v) active
        in Some (pymin (Fin 100)
             (fadd (pymax_list (map snd active)) (interaction_uplift p (length elevated)))))"

definition hierarchical_escalation ::
  "scores \<Rightarrow> pyfloat \<Rightarrow> pyfloat \<Rightarrow> policy \<Rightarrow> fusion_result result" where
  "hierarchical_escalation scores coverage confidence policy =
     (let active = active_scores scores;
          effective = effective_policy policy;
          severe = map fst (filter (\<lambda>(_, v).
            fle (dict_get effective ''severe_dimension_score'' (Fin 70)) v) active);
          elevated = map fst (filter (\<lambda>(_, v).
            fle (dict_get effective ''elevated_dimension_score'' (Fin 50)) v) active);
          score = hierarchical_score effective active
      in bind_result (disagreement_of (map snd active)) (\<lambda>disagreement.
        Inr (final_result ''hierarchical_escalation'' score coverage confidence disagreement
          (if severe = [] then elevated else severe)
          ''Coverage-aware non-compensatory fusion; the highest supported dimension is a monotonic floor and missing dimensions are excluded''
          policy
          (active \<noteq> [] \<and> fle (dict_get effective ''critical_dimension_score'' (Fin 80))
             (pymax_list (map snd active))))))"

definition interaction_pairs :: "(string \<times> string) list" where
  "interaction_pairs = [(''liquidity'', ''solvency_leverage''), (''profitability'', ''cash_flow''),
     (''earnings_quality'', ''accounting'')]"

definition triggered_pairs :: "policy \<Rightarrow> (string, pyfloat) dict \<Rightarrow> string list" where
  "triggered_pairs p active =
     (let t = dict_get p ''interaction_dimension_score'' (Fin 50)
      in map (\<lambda>(a, b). a @ ''+'' @ b) (filter (\<lambda>(a, b).
           case (map_of active a, map_of active b) of
             (Some x, Some y) \<Rightarrow> fle t x \<and> fle t y | _ \<Rightarrow> False) interaction_pairs))"

definition indeterminate_pairs :: "(string, pyfloat) dict \<Rightarrow> string list" where
  "indeterminate_pairs active = map (\<lambda>(a, b). a @ ''+'' @ b)
     (filter (\<lambda>(a, b). (map_of active a = None) \<noteq> (map_of active b = None)) interaction_pairs)"

definition interaction_score :: "policy \<Rightarrow> (string, pyfloat) dict \<Rightarrow> pyfloat option" where
  "interaction_score p active =
     (if active = [] then None else
        Some (pymin (Fin 100) (fadd (pymax_list (map snd active))
          (fmul (dict_get p ''interaction_premium'' (Fin 8)) (fint (int (length (triggered_pairs p active))))))))"

definition interaction_aware ::
  "scores \<Rightarrow> pyfloat \<Rightarrow> pyfloat \<Rightarrow> policy \<Rightarrow> fusion_result result" where
  "interaction_aware scores coverage confidence policy =
     (let active = active_scores scores;
          effective = effective_policy policy;
          triggered = triggered_pairs effective active;
          indeterminate = indeterminate_pairs active;
          score = interaction_score effective active
      in bind_result (disagreement_of (map snd active)) (\<lambda>disagreement.
        let outcome = final_result ''interaction_aware'' score coverage confidence disagreement
          (if triggered = [] then top_drivers active else triggered)
          ''Transparent pairwise interaction premiums applied to the strongest supported dimension (non-compensatory baseline)''
          policy False
        in Inr (if indeterminate = [] then outcome
             else outcome\<lparr>fr_reason_codes := fr_reason_codes outcome @ [''CLAIM_CONTEXT_INCOMPLETE'']\<rparr>)))"

section \<open>Duplicate evidence\<close>

record risk_contribution =
  rc_dimension :: string
  rc_score :: pyfloat
  rc_evidence_id :: string
  rc_verified :: bool
  rc_evidence_group :: "string option"

text \<open>\<open>item.evidence_group or item.evidence_id\<close>: an empty group counts as none.\<close>

definition contribution_key :: "risk_contribution \<Rightarrow> string \<times> string" where
  "contribution_key c = (rc_dimension c,
     (case rc_evidence_group c of None \<Rightarrow> rc_evidence_id c
      | Some g \<Rightarrow> if g = [] then rc_evidence_id c else g))"

definition keep_stronger :: "(string \<times> string, risk_contribution) dict \<Rightarrow> risk_contribution
    \<Rightarrow> (string \<times> string, risk_contribution) dict" where
  "keep_stronger unique c = (case map_of unique (contribution_key c) of
       None \<Rightarrow> AList.update (contribution_key c) c unique
     | Some old \<Rightarrow> if flt (rc_score old) (rc_score c)
         then AList.update (contribution_key c) c unique else unique)"

definition deduplicate_contributions :: "risk_contribution list \<Rightarrow> risk_contribution list \<times> nat" where
  "deduplicate_contributions cs =
     (let unique = foldl keep_stronger [] cs in (map snd unique, length cs - length unique))"

definition max_by_dimension :: "risk_contribution list \<Rightarrow> (string, pyfloat) dict" where
  "max_by_dimension cs = foldl (\<lambda>d c. AList.update (rc_dimension c)
     (pymax (rc_score c) (dict_get d (rc_dimension c) (Fin 0))) d) [] cs"

definition fuse_verified_contributions ::
  "risk_contribution list \<Rightarrow> pyfloat \<Rightarrow> pyfloat \<Rightarrow> policy \<Rightarrow> fusion_result result" where
  "fuse_verified_contributions cs coverage evidence_quality policy =
     (let (unique, duplicate_count) = deduplicate_contributions cs;
          verified = filter rc_verified unique;
          by_dimension = max_by_dimension verified;
          severe = (\<exists>c\<in>set verified. fle (dict_get (effective_policy policy)
            ''severe_dimension_score'' (Fin 70)) (rc_score c))
      in bind_result (hierarchical_escalation (map (\<lambda>(k, v). (k, Some v)) by_dimension)
           coverage evidence_quality policy) (\<lambda>r.
         Inr (r\<lparr>fr_reason_codes := fr_reason_codes r
           @ (if severe then [''SEVERE_VERIFIED_SIGNAL''] else [])
           @ (if duplicate_count \<noteq> 0 then [''DUPLICATE_EVIDENCE_SUPPRESSED''] else [])\<rparr>)))"

section \<open>Failures and sensitivity\<close>

record failure_proposal =
  fp_decision :: decision
  fp_degraded :: bool
  fp_blocking :: "string list"
  fp_review :: "string list"

definition failure_aware_proposal :: "fusion_result \<Rightarrow> (string, bool) dict \<Rightarrow> failure_proposal" where
  "failure_aware_proposal result failures =
     (let failed = (\<lambda>name. dict_get failures name False);
          blocking = filter failed [''parser_failure'', ''stale_data'', ''missing_evidence''];
          review = filter failed [''conflicting_evidence'', ''llm_unavailable'', ''rule_model_contradiction''];
          from_failures = (if blocking \<noteq> [] then ABSTAIN
            else if review \<noteq> [] then REVIEW else fr_decision result);
          decision = (if disposition_rank (fr_decision result) \<le> disposition_rank from_failures
            then from_failures else fr_decision result)
      in \<lparr>fp_decision = decision, fp_degraded = (blocking \<noteq> [] \<or> review \<noteq> []),
          fp_blocking = blocking, fp_review = review\<rparr>)"

record sensitivity_row =
  sr_input :: string
  sr_delta :: pyfloat
  sr_score_change :: "pyfloat option"
  sr_decision_change :: bool

fun map_result :: "('a \<Rightarrow> 'b result) \<Rightarrow> 'a list \<Rightarrow> 'b list result" where
  "map_result f [] = Inr []"
| "map_result f (x # xs) = bind_result (f x) (\<lambda>y. bind_result (map_result f xs) (\<lambda>ys. Inr (y # ys)))"

definition sensitivity_row_of ::
  "scores \<Rightarrow> fusion_result \<Rightarrow> pyfloat \<Rightarrow> policy \<Rightarrow> string \<times> pyfloat \<Rightarrow> sensitivity_row result" where
  "sensitivity_row_of scores base delta policy = (\<lambda>(name, v).
     bind_result (hierarchical_escalation
         (AList.update name (Some (pymin (Fin 100) (fadd v delta))) scores)
         (fr_coverage base) (fr_confidence base) policy) (\<lambda>candidate.
       Inr \<lparr>sr_input = name, sr_delta = delta,
         sr_score_change = (case (fr_score base, fr_score candidate) of
           (Some b, Some c) \<Rightarrow> Some (pround 2 (fsub c b)) | _ \<Rightarrow> None),
         sr_decision_change = (fr_decision candidate \<noteq> fr_decision base)\<rparr>))"

definition sensitivity_analysis ::
  "scores \<Rightarrow> fusion_result \<Rightarrow> pyfloat \<Rightarrow> policy \<Rightarrow> sensitivity_row list result" where
  "sensitivity_analysis scores base delta policy =
     bind_result (map_result (sensitivity_row_of scores base delta policy) (active_scores scores))
       (\<lambda>rows. Inr (sort_desc (\<lambda>r. case sr_score_change r of None \<Rightarrow> Fin 0 | Some x \<Rightarrow> fabs x) rows))"

section \<open>Shape of the final result\<close>

lemma final_result_simps [simp]:
  "fr_method (final_result m s c q d ds ra p cr) = m"
  "fr_severity (final_result m s c q d ds ra p cr) = severity_key s"
  "fr_score (final_result m s c q d ds ra p cr) = map_option (pround 1) s"
  "fr_decision (final_result m s c q d ds ra p cr) = fst (fusion_decision (effective_policy p) s c d)"
  "fr_coverage (final_result m s c q d ds ra p cr) = pround 3 c"
  "fr_confidence (final_result m s c q d ds ra p cr) = pround 3 q"
  "fr_disagreement (final_result m s c q d ds ra p cr) = pround 3 d"
  "fr_drivers (final_result m s c q d ds ra p cr) = ds"
  "fr_reliability (final_result m s c q d ds ra p cr) = None"
  "fr_reliability_status (final_result m s c q d ds ra p cr) = ''UNCALIBRATED''"
  by (simp_all add: final_result_def Let_def case_prod_beta)

lemma fusion_decision_None [simp]: "fst (fusion_decision p None c d) = ABSTAIN"
  by (simp add: fusion_decision_def)

lemma wf_default_decision_policy: "wf_dict default_decision_policy"
  by (simp add: default_decision_policy_def)

lemma effective_policy_keys:
  "k \<in> {''minimum_coverage'', ''maximum_disagreement'', ''flag_score'', ''review_score''} \<Longrightarrow>
     has_key (effective_policy p) k"
  by (auto simp: has_key_def effective_policy_def map_of_dict_union default_decision_policy_def
      split: option.splits)

section \<open>Disagreement\<close>

lemma disagreement_bounds:
  assumes "disagreement_of vs = Inr d"
  shows "fle (Fin 0) d \<and> fle d (Fin 1)"
proof (cases "1 < length vs")
  case False
  with assms show ?thesis by (auto simp: disagreement_of_def)
next
  case True
  with assms obtain s q where s: "pstdev vs = Some s" and q: "fdiv s (Fin 50) = Some q"
    and d: "d = pymin (Fin 1) q"
    by (auto simp: disagreement_of_def split: option.splits)
  have "fle (Fin 0) s" using s by (rule pstdev_nonneg)
  then have "fle (Fin 0) q" using q
    by (cases s) (auto simp: is_neg_def flt_def intro: fl_nonneg)
  then have "q \<noteq> NaN" by (auto dest: fle_NaN)
  with \<open>fle (Fin 0) q\<close> show ?thesis unfolding d
    using pymin_le1[of "Fin 1" q] pymin_cases[of "Fin 1" q] by auto
qed

lemma disagreement_total: "\<forall>v\<in>set vs. is_finite v \<Longrightarrow> is_ok (disagreement_of vs)"
proof (cases "1 < length vs")
  case True
  assume "\<forall>v\<in>set vs. is_finite v"
  with True obtain s where s: "pstdev vs = Some s" using pstdev_finite[of vs] by (cases vs) auto
  obtain d where "fdiv s (Fin 50) = Some d" using fdiv_defined[of 50 s] by auto
  with s show ?thesis by (simp add: disagreement_of_def del: fdiv.simps)
qed (simp add: disagreement_of_def)

section \<open>Monotonicity\<close>

definition finite_scores :: "scores \<Rightarrow> bool" where
  "finite_scores s = (\<forall>(k, v)\<in>set s. case v of None \<Rightarrow> True | Some x \<Rightarrow> is_finite x)"

text \<open>\<open>t\<close> supports every dimension that \<open>s\<close> supports, with a score at least as high.\<close>

definition dominated :: "scores \<Rightarrow> scores \<Rightarrow> bool" where
  "dominated s t = (wf_dict s \<and> wf_dict t \<and>
     (\<forall>(k, v)\<in>set (active_scores s). \<exists>w. (k, w) \<in> set (active_scores t) \<and> fle v w))"

lemma active_scores_iff: "(k, v) \<in> set (active_scores s) \<longleftrightarrow> (k, Some v) \<in> set s"
  by (force simp: active_scores_def List.map_filter_def)

lemma active_scores_simps [simp]:
  "active_scores [] = []"
  "active_scores ((k, v) # s) = (case v of None \<Rightarrow> active_scores s | Some x \<Rightarrow> (k, x) # active_scores s)"
  by (simp_all add: active_scores_def List.map_filter_def split: option.splits)

lemma wf_active: "wf_dict s \<Longrightarrow> wf_dict (active_scores s)"
proof (induction s)
  case (Cons p s)
  then show ?case by (cases p) (force simp: active_scores_iff split: option.splits)
qed simp

lemma finite_active: "finite_scores s \<Longrightarrow> (k, v) \<in> set (active_scores s) \<Longrightarrow> is_finite v"
  by (force simp: finite_scores_def active_scores_iff)

lemma pymax_list_in: "xs \<noteq> [] \<Longrightarrow> pymax_list xs \<in> set xs"
proof (cases xs)
  case (Cons x ys)
  have "foldl pymax x ys \<in> insert x (set ys)"
  proof (induction ys arbitrary: x)
    case (Cons y ys)
    show ?case using Cons.IH[of "pymax x y"] pymax_cases[of x y] by auto
  qed simp
  with Cons show ?thesis by simp
qed simp

lemma pymax_list_ge:
  assumes "x \<in> set xs" and "\<forall>y\<in>set xs. y \<noteq> NaN"
  shows "fle x (pymax_list xs)"
proof -
  have *: "fle a (foldl pymax a ys) \<and> (\<forall>y\<in>set ys. fle y (foldl pymax a ys))"
    if "a \<noteq> NaN" "\<forall>y\<in>set ys. y \<noteq> NaN" for a ys
    using that
  proof (induction ys arbitrary: a)
    case Nil
    then show ?case by (simp add: fle_refl_iff)
  next
    case (Cons y ys)
    then have "pymax a y \<noteq> NaN" using pymax_cases[of a y] by auto
    with Cons show ?case
      using pymax_ge1[of a y] pymax_ge2[of a y] by (auto intro: fle_trans)
  qed
  from assms show ?thesis using * by (cases xs) auto
qed

lemma pymax_list_dominated:
  assumes dom: "dominated s t" and fin: "finite_scores s" "finite_scores t" and ne: "active_scores s \<noteq> []"
  shows "fle (pymax_list (map snd (active_scores s))) (pymax_list (map snd (active_scores t)))"
    and "active_scores t \<noteq> []"
proof -
  have "pymax_list (map snd (active_scores s)) \<in> set (map snd (active_scores s))"
    using ne by (intro pymax_list_in) simp
  then obtain k where "(k, pymax_list (map snd (active_scores s))) \<in> set (active_scores s)" by auto
  with dom obtain w where w: "(k, w) \<in> set (active_scores t)" "fle (pymax_list (map snd (active_scores s))) w"
    by (fastforce simp: dominated_def)
  moreover have "fle w (pymax_list (map snd (active_scores t)))"
    using w fin(2) by (intro pymax_list_ge) (force dest: finite_active finite_not_NaN)+
  ultimately show "fle (pymax_list (map snd (active_scores s))) (pymax_list (map snd (active_scores t)))"
    by (blast intro: fle_trans)
  show "active_scores t \<noteq> []" using w by auto
qed

lemma elevated_count_dominated:
  assumes dom: "dominated s t"
  shows "length (filter (\<lambda>(_, v). fle c v) (active_scores s)) \<le> length (filter (\<lambda>(_, v). fle c v) (active_scores t))"
proof -
  let ?P = "\<lambda>(_::string, v). fle c v"
  have len: "length (filter ?P a) = card (fst ` set (filter ?P a))" if "wf_dict a" for a
  proof -
    have "distinct (map fst (filter ?P a))" using that by (simp add: wf_dict_def distinct_map_filter)
    then show ?thesis by (metis distinct_card length_map set_map)
  qed
  have "fst ` set (filter ?P (active_scores s)) \<subseteq> fst ` set (filter ?P (active_scores t))"
  proof
    fix k assume "k \<in> fst ` set (filter ?P (active_scores s))"
    then obtain v where "(k, v) \<in> set (active_scores s)" "fle c v" by auto
    with dom obtain w where "(k, w) \<in> set (active_scores t)" "fle v w" by (fastforce simp: dominated_def)
    moreover from this(2) \<open>fle c v\<close> have "fle c w" by (blast intro: fle_trans)
    ultimately have "(k, w) \<in> set (filter ?P (active_scores t))" by simp
    then show "k \<in> fst ` set (filter ?P (active_scores t))" by (rule image_eqI[rotated]) simp
  qed
  then have "card (fst ` set (filter ?P (active_scores s))) \<le> card (fst ` set (filter ?P (active_scores t)))"
    by (intro card_mono) simp_all
  moreover have "wf_dict (active_scores s)" "wf_dict (active_scores t)"
    using dom by (simp_all add: wf_active dominated_def)
  ultimately show ?thesis by (simp only: len)
qed

lemma fmul_count_mono:
  assumes "is_finite a" "fle (Fin 0) a" "m \<le> n"
  shows "fle (fmul a (fint m)) (fmul a (fint n))"
proof -
  obtain q where q: "a = Fin q" "0 \<le> q" using assms by (auto simp: is_finite_iff)
  have "q * of_int m \<le> q * of_int n" using q assms(3) by (intro mult_left_mono) simp_all
  then show ?thesis by (simp add: q fint_def fle_fl)
qed

text \<open>The parameters of the uplift, for which the published policies use the defaults.\<close>

definition uplift_policy_ok :: "policy \<Rightarrow> bool" where
  "uplift_policy_ok p = (let e = effective_policy p;
       cap = dict_get e ''interaction_uplift_cap'' (Fin 15);
       per = dict_get e ''interaction_uplift_per_dimension'' (Fin 5)
     in is_finite cap \<and> is_finite per \<and> fle (Fin 0) per)"

lemma uplift_mono:
  assumes "uplift_policy_ok p" and "m \<le> n"
  shows "fle (interaction_uplift (effective_policy p) m) (interaction_uplift (effective_policy p) n)"
proof -
  have "max 0 (int m - 1) \<le> max 0 (int n - 1)" using assms(2) by simp
  then show ?thesis using assms(1)
    by (auto simp: interaction_uplift_def uplift_policy_ok_def Let_def fle_refl_iff
        intro!: pymin_mono fmul_count_mono finite_not_NaN)
qed

lemma uplift_not_NaN: "uplift_policy_ok p \<Longrightarrow> interaction_uplift (effective_policy p) n \<noteq> NaN"
  using uplift_mono[of p n n] by (auto dest: fle_NaN)

lemma uplift_not_NInf: "uplift_policy_ok p \<Longrightarrow> fmul (dict_get (effective_policy p) ''interaction_uplift_per_dimension'' (Fin 5)) (fint (max 0 k)) \<noteq> NInf"
  using fmul_count_mono[of "dict_get (effective_policy p) ''interaction_uplift_per_dimension'' (Fin 5)" 0 "max 0 k"]
  by (auto simp: uplift_policy_ok_def Let_def is_finite_iff fint_def fl_def split: if_splits)

lemma finite_fadd_not_NaN: "is_finite a \<Longrightarrow> b \<noteq> NaN \<Longrightarrow> fadd a b \<noteq> NaN"
  by (cases a; cases b) auto

lemma hierarchical_score_mono:
  assumes dom: "dominated s t" and fin: "finite_scores s" "finite_scores t"
    and pol: "uplift_policy_ok p"
    and x: "hierarchical_score (effective_policy p) (active_scores s) = Some x"
  shows "\<exists>y. hierarchical_score (effective_policy p) (active_scores t) = Some y \<and> fle x y"
proof -
  let ?m = "\<lambda>s. pymax_list (map snd (active_scores s))"
  let ?u = "\<lambda>s. interaction_uplift (effective_policy p) (length (filter (\<lambda>(_, v).
      fle (dict_get (effective_policy p) ''elevated_dimension_score'' (Fin 50)) v) (active_scores s)))"
  have ne: "active_scores s \<noteq> []" using x by (auto simp: hierarchical_score_def)
  note m = pymax_list_dominated[OF dom fin ne]
  have fin_max: "is_finite (?m r)" if "finite_scores r" "active_scores r \<noteq> []" for r
    using that pymax_list_in[of "map snd (active_scores r)"] by (auto dest: finite_active)
  have "fle (fadd (?m s) (?u s)) (fadd (?m t) (?u t))"
    using fin_max fin ne m pol elevated_count_dominated[OF dom]
    by (intro fadd_mono finite_fadd_not_NaN uplift_not_NaN uplift_mono) simp_all
  then show ?thesis using x ne m(2)
    by (auto simp: hierarchical_score_def Let_def fle_refl_iff intro: pymin_mono)
qed

lemma hierarchical_escalation_Inr:
  "hierarchical_escalation s c q p = Inr r \<Longrightarrow>
     fr_score r = map_option (pround 1) (hierarchical_score (effective_policy p) (active_scores s)) \<and>
     fr_severity r = severity_key (hierarchical_score (effective_policy p) (active_scores s)) \<and>
     (\<exists>d. disagreement_of (map snd (active_scores s)) = Inr d \<and> fr_disagreement r = pround 3 d \<and>
       fr_decision r = fst (fusion_decision (effective_policy p)
         (hierarchical_score (effective_policy p) (active_scores s)) c d))"
  by (auto simp: hierarchical_escalation_def Let_def bind_result_Inr_iff)

lemma hierarchical_total: "finite_scores s \<Longrightarrow> is_ok (hierarchical_escalation s c q p)"
proof -
  assume "finite_scores s"
  then have "is_ok (disagreement_of (map snd (active_scores s)))"
    by (intro disagreement_total) (auto dest: finite_active)
  then show ?thesis by (auto simp: hierarchical_escalation_def Let_def is_ok_def split: sum.splits)
qed

lemma hierarchical_score_bounds:
  assumes fin: "finite_scores s" and x: "hierarchical_score p (active_scores s) = Some x"
  shows "fle x (Fin 100) \<or> x = NaN"
  using x by (cases x) (auto simp: hierarchical_score_def Let_def pymin_def flt_def split: if_splits)

subsection \<open>Interaction premiums\<close>

definition premium_policy_ok :: "policy \<Rightarrow> bool" where
  "premium_policy_ok p = (let per = dict_get (effective_policy p) ''interaction_premium'' (Fin 8)
     in is_finite per \<and> fle (Fin 0) per)"

lemma dominated_lookup:
  assumes "dominated s t" and "map_of (active_scores s) k = Some v"
  shows "\<exists>w. map_of (active_scores t) k = Some w \<and> fle v w"
proof -
  have "wf_dict (active_scores s)" "wf_dict (active_scores t)"
    using assms(1) by (simp_all add: dominated_def wf_active)
  with assms show ?thesis by (fastforce simp: dominated_def map_of_wf_iff)
qed

lemma length_filter_mono: "(\<And>x. P x \<Longrightarrow> Q x) \<Longrightarrow> length (filter P xs) \<le> length (filter Q xs)"
  by (induction xs) (auto simp: le_Suc_eq)

lemma triggered_mono:
  assumes "dominated s t"
  shows "length (triggered_pairs p (active_scores s)) \<le> length (triggered_pairs p (active_scores t))"
  unfolding triggered_pairs_def Let_def length_map
proof (rule length_filter_mono)
  let ?P = "\<lambda>r (a, b). case (map_of (active_scores r) a, map_of (active_scores r) b) of
      (Some x, Some y) \<Rightarrow> fle (dict_get p ''interaction_dimension_score'' (Fin 50)) x \<and>
        fle (dict_get p ''interaction_dimension_score'' (Fin 50)) y | _ \<Rightarrow> False"
  fix ab assume h: "?P s ab"
  obtain a b where ab: "ab = (a, b)" by fastforce
  from h ab obtain x y where xy: "map_of (active_scores s) a = Some x" "map_of (active_scores s) b = Some y"
    by (auto split: option.splits)
  from dominated_lookup[OF assms xy(1)] obtain x' where
    x': "map_of (active_scores t) a = Some x'" "fle x x'" by blast
  from dominated_lookup[OF assms xy(2)] obtain y' where
    y': "map_of (active_scores t) b = Some y'" "fle y y'" by blast
  show "?P t ab" using h ab xy x' y' by (auto intro: fle_trans)
qed

lemma finite_max: "finite_scores s \<Longrightarrow> active_scores s \<noteq> [] \<Longrightarrow> is_finite (pymax_list (map snd (active_scores s)))"
  using pymax_list_in[of "map snd (active_scores s)"] by (auto dest: finite_active)

lemma interaction_score_mono:
  assumes dom: "dominated s t" and fin: "finite_scores s" "finite_scores t"
    and pol: "premium_policy_ok p"
    and x: "interaction_score (effective_policy p) (active_scores s) = Some x"
  shows "\<exists>y. interaction_score (effective_policy p) (active_scores t) = Some y \<and> fle x y"
proof -
  let ?e = "effective_policy p"
  let ?u = "\<lambda>s. fmul (dict_get ?e ''interaction_premium'' (Fin 8))
    (fint (int (length (triggered_pairs ?e (active_scores s)))))"
  have ne: "active_scores s \<noteq> []" using x by (auto simp: interaction_score_def)
  note m = pymax_list_dominated[OF dom fin ne]
  have u: "fle (?u s) (?u t)" using pol triggered_mono[OF dom, of ?e]
    by (intro fmul_count_mono) (simp_all add: premium_policy_ok_def Let_def)
  then have "fle (fadd (pymax_list (map snd (active_scores s))) (?u s))
      (fadd (pymax_list (map snd (active_scores t))) (?u t))"
    using fin ne m by (intro fadd_mono finite_fadd_not_NaN finite_max) (auto dest: fle_NaN)
  then show ?thesis using x ne m(2)
    by (auto simp: interaction_score_def fle_refl_iff intro: pymin_mono)
qed

section \<open>The contract of a non-compensatory method\<close>

text \<open>
  What the agent, the pipeline and the assurance runtime rely on in a fusion method: it
  publishes the rounded raw score with its severity, it succeeds on finite scores, and the raw
  score can only grow when dimensions are added or raised.
\<close>

locale noncompensatory =
  fixes fuse :: "scores \<Rightarrow> pyfloat \<Rightarrow> pyfloat \<Rightarrow> policy \<Rightarrow> fusion_result result"
    and raw :: "policy \<Rightarrow> (string, pyfloat) dict \<Rightarrow> pyfloat option"
    and ok :: "policy \<Rightarrow> bool"
  assumes published: "fuse s c q p = Inr r \<Longrightarrow>
      fr_score r = map_option (pround 1) (raw (effective_policy p) (active_scores s)) \<and>
      fr_severity r = severity_key (raw (effective_policy p) (active_scores s))"
    and total: "finite_scores s \<Longrightarrow> is_ok (fuse s c q p)"
    and raw_mono: "dominated s t \<Longrightarrow> finite_scores s \<Longrightarrow> finite_scores t \<Longrightarrow> ok p \<Longrightarrow>
      raw (effective_policy p) (active_scores s) = Some x \<Longrightarrow>
      \<exists>y. raw (effective_policy p) (active_scores t) = Some y \<and> fle x y"
begin

lemma outcome_mono:
  assumes "dominated s t" "finite_scores s" "finite_scores t" "ok p"
  shows "\<exists>r r'. fuse s c q p = Inr r \<and> fuse t c' q' p = Inr r' \<and>
    (case fr_score r of None \<Rightarrow> True | Some x \<Rightarrow> \<exists>y. fr_score r' = Some y \<and> fle x y) \<and>
    severity_rank (fr_severity r) \<le> severity_rank (fr_severity r')"
proof -
  obtain r where r: "fuse s c q p = Inr r"
    using total[OF assms(2), of c q p] by (auto simp: is_ok_def split: sum.splits)
  obtain r' where r': "fuse t c' q' p = Inr r'"
    using total[OF assms(3), of c' q' p] by (auto simp: is_ok_def split: sum.splits)
  show ?thesis
  proof (cases "raw (effective_policy p) (active_scores s)")
    case None
    then show ?thesis using r r' published[OF r] by (simp add: severity_key_def severity_rank_def)
  next
    case (Some x)
    with raw_mono assms obtain y where
      "raw (effective_policy p) (active_scores t) = Some y" "fle x y" by blast
    with Some r r' published[OF r] published[OF r'] show ?thesis
      by (auto intro: pround_mono severity_mono)
  qed
qed

end

interpretation hier: noncompensatory hierarchical_escalation hierarchical_score uplift_policy_ok
  by unfold_locales (blast dest: hierarchical_escalation_Inr intro: hierarchical_total hierarchical_score_mono)+

lemma interaction_aware_Inr:
  "interaction_aware s c q p = Inr r \<Longrightarrow>
     fr_score r = map_option (pround 1) (interaction_score (effective_policy p) (active_scores s)) \<and>
     fr_severity r = severity_key (interaction_score (effective_policy p) (active_scores s))"
  by (cases "disagreement_of (map snd (active_scores s))";
      cases "indeterminate_pairs (active_scores s) = []")
    (simp_all add: interaction_aware_def Let_def, (hypsubst, simp)+)

lemma interaction_total: "finite_scores s \<Longrightarrow> is_ok (interaction_aware s c q p)"
proof -
  assume "finite_scores s"
  then have "is_ok (disagreement_of (map snd (active_scores s)))"
    by (intro disagreement_total) (auto dest: finite_active)
  then show ?thesis by (auto simp: interaction_aware_def Let_def is_ok_def split: sum.splits)
qed

interpretation inter: noncompensatory interaction_aware interaction_score premium_policy_ok
  by unfold_locales (blast dest: interaction_aware_Inr intro: interaction_total interaction_score_mono)+

section \<open>Duplicate suppression\<close>

definition no_nan :: "risk_contribution list \<Rightarrow> bool" where
  "no_nan cs = (\<forall>c\<in>set cs. rc_score c \<noteq> NaN)"

definition dedup_inv :: "risk_contribution list \<Rightarrow> (string \<times> string, risk_contribution) dict \<Rightarrow> bool" where
  "dedup_inv cs u = (wf_dict u \<and> (\<forall>(k, c)\<in>set u. c \<in> set cs \<and> contribution_key c = k) \<and>
     (\<forall>c\<in>set cs. \<exists>c'. map_of u (contribution_key c) = Some c' \<and> fle (rc_score c) (rc_score c')))"

lemma dedup_inv_key: "dedup_inv cs u \<Longrightarrow> (k, c) \<in> set u \<Longrightarrow> contribution_key c = k \<and> c \<in> set cs"
  unfolding dedup_inv_def by blast

lemma keep_stronger_inv:
  assumes inv: "dedup_inv cs u" and nn: "no_nan (cs @ [c])"
  shows "dedup_inv (cs @ [c]) (keep_stronger u c)"
proof -
  let ?k = "contribution_key c"
  have wf: "wf_dict u" using inv by (simp add: dedup_inv_def)
  have self: "fle (rc_score c) (rc_score c)" using nn by (simp add: no_nan_def fle_refl_iff)
  have upd: "\<forall>(k, x)\<in>set (AList.update ?k c u). x \<in> set (cs @ [c]) \<and> contribution_key x = k"
    using inv set_update_subset[of ?k c u] by (fastforce simp: dedup_inv_def)
  show ?thesis
  proof (cases "map_of u ?k")
    case None
    have "\<exists>c'. map_of (AList.update ?k c u) (contribution_key d) = Some c' \<and> fle (rc_score d) (rc_score c')"
      if "d \<in> set (cs @ [c])" for d
      using that inv None self
      by (cases "contribution_key d = ?k") (auto simp: dedup_inv_def)
    with wf upd None show ?thesis by (simp add: keep_stronger_def dedup_inv_def)
  next
    case (Some old)
    then have old: "old \<in> set cs" using inv by (fastforce simp: dedup_inv_def dest: map_of_SomeD)
    show ?thesis
    proof (cases "flt (rc_score old) (rc_score c)")
      case True
      have "\<exists>c'. map_of (AList.update ?k c u) (contribution_key d) = Some c' \<and> fle (rc_score d) (rc_score c')"
        if "d \<in> set (cs @ [c])" for d
        using that inv Some self True
        by (cases "contribution_key d = ?k") (fastforce simp: dedup_inv_def flt_def intro: fle_trans)+
      with wf upd True Some show ?thesis by (simp add: keep_stronger_def dedup_inv_def)
    next
      case False
      then have "fle (rc_score c) (rc_score old)" using nn old not_fle by (auto simp: no_nan_def)
      with False Some inv show ?thesis by (fastforce simp: keep_stronger_def dedup_inv_def)
    qed
  qed
qed

lemma dedup_inv_fold: "no_nan cs \<Longrightarrow> dedup_inv cs (foldl keep_stronger [] cs)"
proof (induction cs rule: rev_induct)
  case Nil
  show ?case by (simp add: dedup_inv_def)
next
  case (snoc c cs)
  then have "dedup_inv cs (foldl keep_stronger [] cs)" by (simp add: no_nan_def)
  then show ?case using snoc.prems by (simp add: keep_stronger_inv del: append.simps)
qed

definition finite_contributions :: "risk_contribution list \<Rightarrow> bool" where
  "finite_contributions cs = (\<forall>c\<in>set cs. is_finite (rc_score c))"

lemma finite_no_nan: "finite_contributions cs \<Longrightarrow> no_nan cs"
  by (auto simp: finite_contributions_def no_nan_def dest: finite_not_NaN)

definition max_inv :: "risk_contribution list \<Rightarrow> (string, pyfloat) dict \<Rightarrow> bool" where
  "max_inv cs d = (wf_dict d \<and>
     (\<forall>c\<in>set cs. \<exists>m. map_of d (rc_dimension c) = Some m \<and> fle (rc_score c) m) \<and>
     (\<forall>(k, m)\<in>set d. is_finite m \<and> fle (Fin 0) m \<and> (\<exists>c\<in>set cs. rc_dimension c = k \<and>
        (m = rc_score c \<or> m = Fin 0))))"

lemma max_inv_step:
  assumes inv: "max_inv cs d" and fin: "is_finite (rc_score c)"
  shows "max_inv (cs @ [c]) (AList.update (rc_dimension c) (pymax (rc_score c) (dict_get d (rc_dimension c) (Fin 0))) d)"
proof -
  let ?k = "rc_dimension c" and ?old = "dict_get d (rc_dimension c) (Fin 0)"
  let ?m = "pymax (rc_score c) ?old"
  have wf: "wf_dict d" using inv by (simp add: max_inv_def)
  have old: "?old = Fin 0 \<or> (?k, ?old) \<in> set d"
    by (auto simp: dict_get_def dest: map_of_SomeD split: option.splits)
  have o: "is_finite ?old \<and> fle (Fin 0) ?old" using old inv by (force simp: max_inv_def)
  have m: "is_finite ?m" "fle (rc_score c) ?m" "fle ?old ?m" "fle (Fin 0) ?m"
    using fin o pymax_cases[of "rc_score c" ?old] pymax_ge1[of "rc_score c" ?old] pymax_ge2[of "rc_score c" ?old]
    by (auto dest: finite_not_NaN intro: fle_trans)
  have src: "\<exists>x\<in>set (cs @ [c]). rc_dimension x = ?k \<and> (?m = rc_score x \<or> ?m = Fin 0)"
    using old inv pymax_cases[of "rc_score c" ?old] by (fastforce simp: max_inv_def)
  have "\<forall>x\<in>set (cs @ [c]). \<exists>m. map_of (AList.update ?k ?m d) (rc_dimension x) = Some m \<and> fle (rc_score x) m"
  proof
    fix x assume x: "x \<in> set (cs @ [c])"
    show "\<exists>m. map_of (AList.update ?k ?m d) (rc_dimension x) = Some m \<and> fle (rc_score x) m"
    proof (cases "x \<in> set cs")
      case True
      then obtain v where "map_of d (rc_dimension x) = Some v" "fle (rc_score x) v"
        using inv by (auto simp: max_inv_def)
      then show ?thesis using m(3) by (auto simp: dict_get_def intro: fle_trans)
    next
      case False
      then show ?thesis using x m(2) by simp
    qed
  qed
  moreover have "\<forall>(k, v)\<in>set (AList.update ?k ?m d). is_finite v \<and> fle (Fin 0) v \<and>
      (\<exists>x\<in>set (cs @ [c]). rc_dimension x = k \<and> (v = rc_score x \<or> v = Fin 0))"
    using inv m src set_update_subset[of ?k ?m d] by (fastforce simp: max_inv_def)
  ultimately show ?thesis using wf by (simp add: max_inv_def)
qed

lemma max_by_dimension_inv: "finite_contributions cs \<Longrightarrow> max_inv cs (max_by_dimension cs)"
proof (induction cs rule: rev_induct)
  case Nil
  show ?case by (simp add: max_inv_def max_by_dimension_def)
next
  case (snoc c cs)
  then have "max_inv cs (max_by_dimension cs)" "is_finite (rc_score c)"
    by (simp_all add: finite_contributions_def)
  then show ?case using max_inv_step by (simp add: max_by_dimension_def)
qed

text \<open>The scores that reach the fusion method.\<close>

definition verified_scores :: "risk_contribution list \<Rightarrow> scores" where
  "verified_scores cs = map (\<lambda>(k, v). (k, Some v))
     (max_by_dimension (filter rc_verified (fst (deduplicate_contributions cs))))"

lemma active_map_Some [simp]: "active_scores (map (\<lambda>(k, v). (k, Some v)) d) = d"
  by (induction d) auto

lemma dedup_values:
  "set (fst (deduplicate_contributions cs)) = snd ` set (foldl keep_stronger [] cs)"
  by (simp add: deduplicate_contributions_def Let_def)

lemma dedup_subset: "no_nan cs \<Longrightarrow> set (fst (deduplicate_contributions cs)) \<subseteq> set cs"
  using dedup_inv_fold[of cs] by (fastforce simp: dedup_values dedup_inv_def)

lemma verified_scores_inv:
  assumes "finite_contributions cs"
  shows "max_inv (filter rc_verified (fst (deduplicate_contributions cs))) (active_scores (verified_scores cs))"
    and "finite_scores (verified_scores cs)"
proof -
  have "set (fst (deduplicate_contributions cs)) \<subseteq> set cs"
    using assms by (intro dedup_subset finite_no_nan)
  then have "finite_contributions (filter rc_verified (fst (deduplicate_contributions cs)))"
    using assms by (auto simp: finite_contributions_def)
  from max_by_dimension_inv[OF this] show
    "max_inv (filter rc_verified (fst (deduplicate_contributions cs))) (active_scores (verified_scores cs))"
    by (simp add: verified_scores_def)
  then show "finite_scores (verified_scores cs)"
    by (fastforce simp: finite_scores_def verified_scores_def max_inv_def)
qed

text \<open>One more verified contribution leaves, for every retained verified contribution, a
  verified one of the same dimension that is at least as strong.\<close>

lemma retained_stronger:
  assumes fin: "finite_contributions (cs @ [c])" and ver: "rc_verified c"
    and x: "x \<in> set (fst (deduplicate_contributions cs))" "rc_verified x"
  shows "\<exists>y\<in>set (fst (deduplicate_contributions (cs @ [c]))). rc_verified y \<and>
    rc_dimension y = rc_dimension x \<and> fle (rc_score x) (rc_score y)"
proof -
  let ?u = "foldl keep_stronger [] cs" and ?k = "contribution_key c"
  have inv: "dedup_inv cs ?u"
    using fin by (intro dedup_inv_fold finite_no_nan) (simp add: finite_contributions_def)
  have finx: "fle (rc_score x) (rc_score x)"
    using fin x(1) dedup_subset[of cs] finite_no_nan[OF fin]
    by (auto simp: no_nan_def fle_refl_iff)
  have u': "set (fst (deduplicate_contributions (cs @ [c]))) = snd ` set (keep_stronger ?u c)"
    by (simp add: dedup_values)
  have wf: "wf_dict ?u" and kx: "(contribution_key x, x) \<in> set ?u"
    using inv x(1) by (force simp: dedup_inv_def dedup_values)+
  show ?thesis
  proof (cases "contribution_key x = ?k")
    case False
    then have "(contribution_key x, x) \<in> set (keep_stronger ?u c)"
      using kx wf by (auto simp: keep_stronger_def set_update_wf split: option.splits)
    then show ?thesis using u' x(2) finx by force
  next
    case True
    then have look: "map_of ?u ?k = Some x" using kx wf by (simp add: map_of_wf_iff)
    show ?thesis
    proof (cases "flt (rc_score x) (rc_score c)")
      case True
      then have "c \<in> snd ` set (keep_stronger ?u c)"
        using look wf by (simp add: keep_stronger_def set_update_wf)
      moreover have "rc_dimension c = rc_dimension x"
        using \<open>contribution_key x = ?k\<close> by (simp add: contribution_key_def)
      ultimately show ?thesis using u' ver True by (auto simp: flt_def)
    next
      case False
      then have "keep_stronger ?u c = ?u" using look by (simp add: keep_stronger_def)
      then show ?thesis using u' x finx by (auto simp: dedup_values)
    qed
  qed
qed

lemma verified_scores_dominated:
  assumes fin: "finite_contributions (cs @ [c])" and ver: "rc_verified c"
  shows "dominated (verified_scores cs) (verified_scores (cs @ [c]))"
proof -
  have fin0: "finite_contributions cs" using fin by (simp add: finite_contributions_def)
  note a = verified_scores_inv(1)[OF fin0] and b = verified_scores_inv(1)[OF fin]
  have "\<exists>w. (k, w) \<in> set (active_scores (verified_scores (cs @ [c]))) \<and> fle v w"
    if kv: "(k, v) \<in> set (active_scores (verified_scores cs))" for k v
  proof -
    obtain x where x: "x \<in> set (fst (deduplicate_contributions cs))" "rc_verified x" "rc_dimension x = k"
      and v: "v = rc_score x \<or> v = Fin 0" using kv a by (fastforce simp: max_inv_def)
    obtain y where y: "y \<in> set (fst (deduplicate_contributions (cs @ [c])))" "rc_verified y"
      "rc_dimension y = k" "fle (rc_score x) (rc_score y)"
      using retained_stronger[OF fin ver x(1,2)] x(3) by blast
    then obtain w where w: "map_of (active_scores (verified_scores (cs @ [c]))) k = Some w" "fle (rc_score y) w"
      using b by (fastforce simp: max_inv_def)
    then have kw: "(k, w) \<in> set (active_scores (verified_scores (cs @ [c])))" by (auto dest: map_of_SomeD)
    then have "fle (Fin 0) w" using b by (fastforce simp: max_inv_def)
    then show ?thesis using kw v y(4) w(2) by (auto intro: fle_trans)
  qed
  moreover have "wf_dict (verified_scores r)" if "wf_dict (active_scores (verified_scores r))" for r
    using that by (simp add: verified_scores_def wf_dict_def comp_def case_prod_beta)
  ultimately show ?thesis using a b by (auto simp: dominated_def max_inv_def)
qed

lemma fuse_verified_shape:
  "fuse_verified_contributions cs coverage quality p =
     bind_result (hierarchical_escalation (verified_scores cs) coverage quality p) (\<lambda>r.
       Inr (r\<lparr>fr_reason_codes := fr_reason_codes (r)
           @ (if \<exists>c\<in>set (filter rc_verified (fst (deduplicate_contributions cs))).
                 fle (dict_get (effective_policy p) ''severe_dimension_score'' (Fin 70)) (rc_score c)
              then [''SEVERE_VERIFIED_SIGNAL''] else [])
           @ (if snd (deduplicate_contributions cs) \<noteq> 0 then [''DUPLICATE_EVIDENCE_SUPPRESSED''] else [])\<rparr>))"
  by (simp add: fuse_verified_contributions_def verified_scores_def Let_def case_prod_beta)

lemma fuse_verified_ok:
  "hierarchical_escalation (verified_scores cs) coverage quality p = Inr r \<Longrightarrow>
     \<exists>r'. fuse_verified_contributions cs coverage quality p = Inr r' \<and>
       fr_score r' = fr_score r \<and> fr_severity r' = fr_severity r \<and> fr_decision r' = fr_decision r"
  by (simp add: fuse_verified_shape)

section \<open>Properties\<close>

text \<open>Hierarchical escalation is non-compensatory: on finite scores it always returns, and
  adding dimensions or raising scores never lowers the published (rounded) score nor its
  severity, whatever the coverage and confidence, in binary64 arithmetic.\<close>

theorem hierarchical_monotone:
  assumes "dominated s t" "finite_scores s" "finite_scores t" "uplift_policy_ok p"
  shows "\<exists>r r'. hierarchical_escalation s c q p = Inr r \<and> hierarchical_escalation t c' q' p = Inr r' \<and>
    (case fr_score r of None \<Rightarrow> True | Some x \<Rightarrow> \<exists>y. fr_score r' = Some y \<and> fle x y) \<and>
    severity_rank (fr_severity r) \<le> severity_rank (fr_severity r')"
  by (rule hier.outcome_mono[OF assms])

lemma hierarchical_monotone_witness:
  "\<exists>r r'. hierarchical_escalation [(''liquidity'', Some (Fin 55))] (Fin 1) (Fin 1) [] = Inr r \<and>
    hierarchical_escalation [(''liquidity'', Some (Fin 90)), (''cash_flow'', Some (Fin 0))] (Fin 1) (Fin 1) [] = Inr r' \<and>
    (case fr_score r of None \<Rightarrow> True | Some x \<Rightarrow> \<exists>y. fr_score r' = Some y \<and> fle x y) \<and>
    severity_rank (fr_severity r) \<le> severity_rank (fr_severity r')"
proof (rule hierarchical_monotone)
  show "dominated [(''liquidity'', Some (Fin 55))] [(''liquidity'', Some (Fin 90)), (''cash_flow'', Some (Fin 0))]"
    by (auto simp: dominated_def)
qed (code_simp)+

text \<open>The interaction-aware method has the same non-compensatory contract: the premium for
  triggered pairs is applied to the strongest dimension, so more adverse evidence never lowers the
  published score or severity.\<close>

theorem interaction_monotone:
  assumes "dominated s t" "finite_scores s" "finite_scores t" "premium_policy_ok p"
  shows "\<exists>r r'. interaction_aware s c q p = Inr r \<and> interaction_aware t c' q' p = Inr r' \<and>
    (case fr_score r of None \<Rightarrow> True | Some x \<Rightarrow> \<exists>y. fr_score r' = Some y \<and> fle x y) \<and>
    severity_rank (fr_severity r) \<le> severity_rank (fr_severity r')"
  by (rule inter.outcome_mono[OF assms])

lemma interaction_monotone_witness:
  "\<exists>r r'. interaction_aware [(''liquidity'', Some (Fin 90))] (Fin 1) (Fin 1) [] = Inr r \<and>
    interaction_aware [(''liquidity'', Some (Fin 90)), (''solvency_leverage'', Some (Fin 60))] (Fin 1) (Fin 1) [] = Inr r' \<and>
    (case fr_score r of None \<Rightarrow> True | Some x \<Rightarrow> \<exists>y. fr_score r' = Some y \<and> fle x y) \<and>
    severity_rank (fr_severity r) \<le> severity_rank (fr_severity r')"
proof (rule interaction_monotone)
  show "dominated [(''liquidity'', Some (Fin 90))] [(''liquidity'', Some (Fin 90)), (''solvency_leverage'', Some (Fin 60))]"
    by (auto simp: dominated_def)
qed (code_simp)+

text \<open>A further verified contribution never lowers the fused score, although duplicates of one
  disclosure are capped to the strongest per dimension.\<close>

theorem verified_evidence_monotone:
  assumes "finite_contributions (cs @ [c])" "rc_verified c" "uplift_policy_ok p"
  shows "\<exists>r r'. fuse_verified_contributions cs cov q p = Inr r \<and>
    fuse_verified_contributions (cs @ [c]) cov' q' p = Inr r' \<and>
    (case fr_score r of None \<Rightarrow> True | Some x \<Rightarrow> \<exists>y. fr_score r' = Some y \<and> fle x y) \<and>
    severity_rank (fr_severity r) \<le> severity_rank (fr_severity r')"
proof -
  have "finite_contributions cs" using assms(1) by (simp add: finite_contributions_def)
  then obtain r r' where
    r: "hierarchical_escalation (verified_scores cs) cov q p = Inr r" and
    r': "hierarchical_escalation (verified_scores (cs @ [c])) cov' q' p = Inr r'" and
    le: "case fr_score r of None \<Rightarrow> True | Some x \<Rightarrow> \<exists>y. fr_score r' = Some y \<and> fle x y"
      "severity_rank (fr_severity r) \<le> severity_rank (fr_severity r')"
    using hier.outcome_mono[OF verified_scores_dominated[OF assms(1,2)] verified_scores_inv(2)
        verified_scores_inv(2) assms(3)] assms(1) by blast
  obtain a where a: "fuse_verified_contributions cs cov q p = Inr a"
    "fr_score a = fr_score r" "fr_severity a = fr_severity r" using fuse_verified_ok[OF r] by blast
  obtain b where b: "fuse_verified_contributions (cs @ [c]) cov' q' p = Inr b"
    "fr_score b = fr_score r'" "fr_severity b = fr_severity r'" using fuse_verified_ok[OF r'] by blast
  show ?thesis using le by (intro exI[of _ a] exI[of _ b]) (simp only: a b simp_thms)
qed

lemma verified_evidence_monotone_witness:
  "\<exists>r r'. fuse_verified_contributions [\<lparr>rc_dimension = ''liquidity'', rc_score = Fin 75,
        rc_evidence_id = ''e1'', rc_verified = True, rc_evidence_group = None\<rparr>] (Fin 1) (Fin 1) [] = Inr r \<and>
    fuse_verified_contributions ([\<lparr>rc_dimension = ''liquidity'', rc_score = Fin 75,
        rc_evidence_id = ''e1'', rc_verified = True, rc_evidence_group = None\<rparr>] @
      [\<lparr>rc_dimension = ''liquidity'', rc_score = Fin 60,
        rc_evidence_id = ''e1'', rc_verified = True, rc_evidence_group = None\<rparr>]) (Fin 1) (Fin 1) [] = Inr r' \<and>
    (case fr_score r of None \<Rightarrow> True | Some x \<Rightarrow> \<exists>y. fr_score r' = Some y \<and> fle x y) \<and>
    severity_rank (fr_severity r) \<le> severity_rank (fr_severity r')"
  by (rule verified_evidence_monotone) (code_simp)+

text \<open>An unverified contribution that is the strongest of its evidence group stands for the group in the
  deduplicated list, so the verification filter drops the whole group.\<close>

lemma keep_lookup: "map_of (keep_stronger u x) k = (if k \<noteq> contribution_key x then map_of u k
    else case map_of u k of None \<Rightarrow> Some x | Some old \<Rightarrow> Some (if flt (rc_score old) (rc_score x) then x else old))"
  by (auto simp: keep_stronger_def split: option.splits)

lemma kept_member: "map_of (foldl keep_stronger [] cs) k = Some x \<Longrightarrow> x \<in> set cs \<and> contribution_key x = k"
proof (induction cs arbitrary: x rule: rev_induct)
  case (snoc y cs)
  then show ?case by (auto simp: keep_lookup split: option.splits if_splits)
qed simp

lemma kept_wf: "wf_dict (foldl keep_stronger [] cs)"
proof (induction cs rule: rev_induct)
  case (snoc x cs)
  then show ?case by (simp add: keep_stronger_def[of "foldl keep_stronger [] cs"] split: option.splits)
qed simp

lemma strongest_kept:
  assumes "c \<in> set cs" and "\<forall>x\<in>set cs. contribution_key x = contribution_key c \<longrightarrow> x = c \<or> flt (rc_score x) (rc_score c)"
  shows "map_of (foldl keep_stronger [] cs) (contribution_key c) = Some c"
  using assms
proof (induction cs rule: rev_induct)
  case (snoc x cs)
  let ?u = "foldl keep_stronger [] cs"
  show ?case
  proof (cases "x = c")
    case True
    show ?thesis
    proof (cases "map_of ?u (contribution_key c)")
      case (Some old)
      then have "old = c \<or> flt (rc_score old) (rc_score c)" using kept_member[OF Some] snoc.prems(2) by auto
      then show ?thesis using Some True by (auto simp: keep_lookup)
    qed (simp add: True keep_lookup)
  next
    case False
    then have u: "map_of ?u (contribution_key c) = Some c" using snoc by auto
    have "\<not> flt (rc_score c) (rc_score x)" if "contribution_key x = contribution_key c"
      using snoc.prems(2) False that by (auto simp: flt_def)
    then show ?thesis using u by (cases "contribution_key x = contribution_key c") (simp_all add: keep_lookup)
  qed
qed simp

lemma other_groups: "filter (\<lambda>(k, _). k \<noteq> K) (foldl keep_stronger u cs) =
    foldl keep_stronger (filter (\<lambda>(k, _). k \<noteq> K) u) (filter (\<lambda>x. contribution_key x \<noteq> K) cs)"
proof (induction cs arbitrary: u)
  case (Cons x cs)
  have upd: "filter (\<lambda>(k, _). k \<noteq> K) (AList.update k v d) =
      (if k = K then filter (\<lambda>(k, _). k \<noteq> K) d else AList.update k v (filter (\<lambda>(k, _). k \<noteq> K) d))" for k v and d :: "((string \<times> string) \<times> risk_contribution) list"
    by (induction d) auto
  have look: "k \<noteq> K \<Longrightarrow> map_of (filter (\<lambda>(k, _). k \<noteq> K) d) k = map_of d k" for k and d :: "((string \<times> string) \<times> risk_contribution) list"
    by (induction d) auto
  show ?case using Cons by (auto simp: keep_stronger_def upd look split: option.splits)
qed simp

lemma group_dropped:
  assumes "c \<in> set cs" "\<not> rc_verified c"
    and "\<forall>x\<in>set cs. contribution_key x = contribution_key c \<longrightarrow> x = c \<or> flt (rc_score x) (rc_score c)"
  shows "filter rc_verified (fst (deduplicate_contributions cs)) =
    filter rc_verified (fst (deduplicate_contributions (filter (\<lambda>x. contribution_key x \<noteq> contribution_key c) cs)))"
proof -
  let ?u = "foldl keep_stronger [] cs" and ?K = "contribution_key c"
  have same: "\<forall>(k, x)\<in>set d. k = ?K \<longrightarrow> \<not> rc_verified x \<Longrightarrow>
      filter rc_verified (map snd d) = filter rc_verified (map snd (filter (\<lambda>(k, _). k \<noteq> ?K) d))" for d
    by (induction d) auto
  have "\<forall>(k, x)\<in>set ?u. k = ?K \<longrightarrow> \<not> rc_verified x"
  proof (clarify)
    fix a b x assume "((a, b), x) \<in> set ?u" "(a, b) = ?K" "rc_verified x"
    then have "map_of ?u ?K = Some x" using kept_wf[of cs] by (simp add: wf_dict_def)
    then show False using strongest_kept[OF assms(1,3)] assms(2) \<open>rc_verified x\<close> by simp
  qed
  then have "filter rc_verified (map snd ?u) = filter rc_verified (map snd (filter (\<lambda>(k, _). k \<noteq> ?K) ?u))"
    by (rule same)
  then show ?thesis by (simp add: deduplicate_contributions_def Let_def other_groups[of ?K "[]", simplified])
qed

definition without_codes :: "fusion_result result \<Rightarrow> fusion_result result" where
  "without_codes r = (case r of Inl e \<Rightarrow> Inl e | Inr f \<Rightarrow> Inr (f\<lparr>fr_reason_codes := []\<rparr>))"

text \<open>C29: An unverified contribution suppresses the verified ones of its evidence group. When an unverified
  contribution has a higher score than every other contribution of its dimension and evidence group, none of
  the group reaches the fusion: the contributions that count are those of the other groups, and the result is, but
  for the reason codes, the one of the other groups alone. When no other group has a verified contribution
  the result is no score and the decision \<open>ABSTAIN\<close>, whatever verified contributions the group holds. Fusion
  is therefore not monotone in unverified adverse evidence.\<close>

theorem unverified_evidence_suppresses:
  assumes "c \<in> set cs" "\<not> rc_verified c"
    and "\<forall>x\<in>set cs. contribution_key x = contribution_key c \<longrightarrow> x = c \<or> flt (rc_score x) (rc_score c)"
  shows "(\<forall>v\<in>set (filter rc_verified (fst (deduplicate_contributions cs))). contribution_key v \<noteq> contribution_key c) \<and>
    without_codes (fuse_verified_contributions cs coverage quality p) = without_codes
      (fuse_verified_contributions (filter (\<lambda>x. contribution_key x \<noteq> contribution_key c) cs) coverage quality p) \<and>
    ((\<forall>x\<in>set cs. rc_verified x \<longrightarrow> contribution_key x = contribution_key c) \<longrightarrow>
      (\<exists>r. fuse_verified_contributions cs coverage quality p = Inr r \<and> fr_score r = None \<and> fr_decision r = ABSTAIN))"
proof (intro conjI impI)
  let ?others = "filter (\<lambda>x. contribution_key x \<noteq> contribution_key c) cs"
  note drop = group_dropped[OF assms]
  have member: "x \<in> set xs" if "x \<in> set (fst (deduplicate_contributions xs))" for x xs
    using that kept_member[of xs] kept_wf[of xs]
    by (fastforce simp: deduplicate_contributions_def Let_def wf_dict_def dest: map_of_is_SomeI)
  show "\<forall>v\<in>set (filter rc_verified (fst (deduplicate_contributions cs))). contribution_key v \<noteq> contribution_key c"
    unfolding drop using member by fastforce
  show "without_codes (fuse_verified_contributions cs coverage quality p) =
      without_codes (fuse_verified_contributions ?others coverage quality p)"
    by (cases "hierarchical_escalation (verified_scores cs) coverage quality p")
      (simp_all add: fuse_verified_contributions_def drop verified_scores_def without_codes_def Let_def split_beta)
  assume none: "\<forall>x\<in>set cs. rc_verified x \<longrightarrow> contribution_key x = contribution_key c"
  have "filter rc_verified (fst (deduplicate_contributions cs)) = []"
    unfolding drop filter_empty_conv using none member by fastforce
  then show "\<exists>r. fuse_verified_contributions cs coverage quality p = Inr r \<and> fr_score r = None \<and> fr_decision r = ABSTAIN"
    by (simp add: fuse_verified_contributions_def Let_def split_beta max_by_dimension_def hierarchical_escalation_def
        active_scores_def hierarchical_score_def disagreement_of_def final_result_def)
qed

lemma unverified_evidence_suppresses_witness:
  "let v = \<lparr>rc_dimension = ''liquidity'', rc_score = Fin 75, rc_evidence_id = ''e1'', rc_verified = True, rc_evidence_group = Some ''g''\<rparr>;
       u = \<lparr>rc_dimension = ''liquidity'', rc_score = Fin 80, rc_evidence_id = ''e2'', rc_verified = False, rc_evidence_group = Some ''g''\<rparr>
   in (case fuse_verified_contributions [v] (Fin 1) (Fin 1) [] of
       Inr r \<Rightarrow> fr_score r = Some (Fin 75) \<and> fr_decision r = FLAG | Inl _ \<Rightarrow> False) \<and>
     (\<exists>r. fuse_verified_contributions [v, u] (Fin 1) (Fin 1) [] = Inr r \<and> fr_score r = None \<and> fr_decision r = ABSTAIN)"
proof -
  let ?v = "\<lparr>rc_dimension = ''liquidity'', rc_score = Fin 75, rc_evidence_id = ''e1'', rc_verified = True, rc_evidence_group = Some ''g''\<rparr>"
  let ?u = "\<lparr>rc_dimension = ''liquidity'', rc_score = Fin 80, rc_evidence_id = ''e2'', rc_verified = False, rc_evidence_group = Some ''g''\<rparr>"
  have "case fuse_verified_contributions [?v] (Fin 1) (Fin 1) [] of
      Inr r \<Rightarrow> fr_score r = Some (Fin 75) \<and> fr_decision r = FLAG | Inl _ \<Rightarrow> False" by code_simp
  moreover have "flt (Fin 75) (Fin 80)" "contribution_key ?u = contribution_key ?v" by code_simp+
  then have "\<exists>r. fuse_verified_contributions [?v, ?u] (Fin 1) (Fin 1) [] = Inr r \<and> fr_score r = None \<and> fr_decision r = ABSTAIN"
    using unverified_evidence_suppresses[of ?u "[?v, ?u]" "Fin 1" "Fin 1" "[]"] by simp
  ultimately show ?thesis unfolding Let_def by (rule conjI)
qed

text \<open>Suppression keeps, for every contribution, one of the same dimension and group with at
  least its score; it keeps nothing that was not supplied, one per group, and counts the rest.\<close>

theorem deduplicate_sound:
  assumes "no_nan cs" and "deduplicate_contributions cs = (unique, n)"
  shows "set unique \<subseteq> set cs \<and> distinct (map contribution_key unique) \<and>
    n + length unique = length cs \<and>
    (\<forall>c\<in>set cs. \<exists>c'\<in>set unique. contribution_key c' = contribution_key c \<and> fle (rc_score c) (rc_score c'))"
proof -
  let ?u = "foldl keep_stronger [] cs"
  have inv: "dedup_inv cs ?u" using assms(1) by (rule dedup_inv_fold)
  have u: "unique = map snd ?u" "n = length cs - length ?u"
    using assms(2) by (simp_all add: deduplicate_contributions_def Let_def)
  have keys: "map contribution_key (map snd ?u) = map fst ?u"
    using inv by (auto simp: dedup_inv_def)
  have "length ?u \<le> length cs"
  proof (induction cs rule: rev_induct)
    case (snoc c cs)
    have "length (keep_stronger d c) \<le> Suc (length d)" for d
      by (auto simp: keep_stronger_def length_update split: option.splits)
    from this[of "foldl keep_stronger [] cs"] snoc show ?case by simp
  qed simp
  moreover have "distinct (map contribution_key unique)"
    using inv unfolding u keys by (simp add: dedup_inv_def wf_dict_def)
  moreover have "\<exists>c'\<in>set unique. contribution_key c' = contribution_key c \<and> fle (rc_score c) (rc_score c')"
    if mem: "c \<in> set cs" for c
  proof -
    obtain c' where c': "map_of ?u (contribution_key c) = Some c'" "fle (rc_score c) (rc_score c')"
      using inv mem unfolding dedup_inv_def by blast
    have m: "(contribution_key c, c') \<in> set ?u" by (rule map_of_SomeD[OF c'(1)])
    then have "contribution_key c' = contribution_key c" using dedup_inv_key[OF inv] by blast
    moreover have "c' \<in> set unique" using m unfolding u(1) by (metis image_eqI set_map snd_conv)
    ultimately show ?thesis using c'(2) by blast
  qed
  moreover have "set unique \<subseteq> set cs"
    using dedup_subset[OF assms(1)] assms(2) by simp
  ultimately show ?thesis by (simp add: u)
qed

lemma deduplicate_sound_witness:
  "set [\<lparr>rc_dimension = ''a'', rc_score = Fin 2, rc_evidence_id = ''e'', rc_verified = True, rc_evidence_group = None\<rparr>]
     \<subseteq> set [\<lparr>rc_dimension = ''a'', rc_score = Fin 1, rc_evidence_id = ''e'', rc_verified = True, rc_evidence_group = None\<rparr>,
        \<lparr>rc_dimension = ''a'', rc_score = Fin 2, rc_evidence_id = ''e'', rc_verified = True, rc_evidence_group = None\<rparr>]"
  by (rule deduplicate_sound[where n = 1, THEN conjunct1]) (code_simp)+

text \<open>A failure can only move a proposal towards caution: the result is the maximum, in the
  disposition order, of the fused decision and of what the failures demand.\<close>

theorem failure_proposal_cautious:
  "fp_decision (failure_aware_proposal r f) = max (fr_decision r)
     (if fp_blocking (failure_aware_proposal r f) \<noteq> [] then ABSTAIN
      else if fp_review (failure_aware_proposal r f) \<noteq> [] then REVIEW else PASS) \<and>
   fp_blocking (failure_aware_proposal r f) =
     filter (\<lambda>n. dict_get f n False) [''parser_failure'', ''stale_data'', ''missing_evidence''] \<and>
   fp_review (failure_aware_proposal r f) =
     filter (\<lambda>n. dict_get f n False) [''conflicting_evidence'', ''llm_unavailable'', ''rule_model_contradiction'']"
  by (cases "fr_decision r")
    (simp_all add: failure_aware_proposal_def Let_def max_def less_eq_decision_def)

text \<open>Every published disagreement lies between 0 and 1.\<close>

theorem hierarchical_disagreement_bounded:
  assumes "hierarchical_escalation s c q p = Inr r"
  shows "fle (Fin 0) (fr_disagreement r) \<and> fle (fr_disagreement r) (Fin 1)"
proof -
  obtain d where "disagreement_of (map snd (active_scores s)) = Inr d" and r: "fr_disagreement r = pround 3 d"
    using hierarchical_escalation_Inr[OF assms] by blast
  then have "fle (Fin 0) d \<and> fle d (Fin 1)" by (intro disagreement_bounds)
  then show ?thesis using pround_between[of 0 1 d 3] by (simp add: r fint_def)
qed

lemma hierarchical_disagreement_bounded_witness:
  "\<exists>r. hierarchical_escalation [(''a'', Some (Fin 90)), (''b'', Some (Fin 10))] (Fin 1) (Fin 1) [] = Inr r \<and>
     fle (Fin 0) (fr_disagreement r) \<and> fle (fr_disagreement r) (Fin 1)"
proof -
  have "is_ok (hierarchical_escalation [(''a'', Some (Fin 90)), (''b'', Some (Fin 10))] (Fin 1) (Fin 1) [])"
    by (rule hierarchical_total) code_simp
  then obtain r where "hierarchical_escalation [(''a'', Some (Fin 90)), (''b'', Some (Fin 10))] (Fin 1) (Fin 1) [] = Inr r"
    by (auto simp: is_ok_def split: sum.splits)
  then show ?thesis using hierarchical_disagreement_bounded by blast
qed

end
