(* ===== verification/Fragility.thy ===== *)
theory Fragility
  imports AssurancePolicy Fusion "HOL-Library.Sublist"
begin

text \<open>
  Evidence fragility (\<open>assurance/fragility.py\<close>): the decision is recomputed from the verified
  dependencies that survive the removal of each evidence item, and a sufficient subset of the
  evidence is searched for, by all subsets in order of size when there are few items and by
  greedy removal otherwise. A Python set of evidence identifiers is a list without duplicates.
\<close>

section \<open>Recomputation\<close>

definition retained_dependencies ::
  "evidence_dependency list \<Rightarrow> string list \<Rightarrow> evidence_dependency list" where
  "retained_dependencies deps retained = filter (\<lambda>d. ed_verified d \<and> ed_evidence_ids d \<noteq> [] \<and>
     list_all (\<lambda>i. i \<in> set retained) (ed_evidence_ids d)) deps"

definition add_score :: "scores \<Rightarrow> evidence_dependency \<Rightarrow> scores" where
  "add_score s d = (case ed_score d of None \<Rightarrow> s
     | Some x \<Rightarrow> AList.update (ed_dimension d) (Some (case dict_get s (ed_dimension d) None of
         None \<Rightarrow> x | Some current \<Rightarrow> pymax current x)) s)"

definition recompute_scores :: "evidence_dependency list \<Rightarrow> scores" where
  "recompute_scores active = foldl add_score [] active"

record recomputation =
  re_score :: "pyfloat option"
  re_decision :: decision
  re_severity :: string
  re_active :: "evidence_dependency list"

definition recompute :: "evidence_dependency list \<Rightarrow> string list \<Rightarrow> nat \<Rightarrow> policy
    \<Rightarrow> recomputation result" where
  "recompute deps retained material policy =
     (let active = retained_dependencies deps retained;
          coverage = coverage_of (length active) material
      in bind_result (hierarchical_escalation (recompute_scores active) coverage coverage policy)
           (\<lambda>r. Inr \<lparr>re_score = fr_score r, re_decision = fr_decision r,
                     re_severity = fr_severity r, re_active = active\<rparr>))"

definition evidence_nodes :: "evidence_dependency list \<Rightarrow> string list" where
  "evidence_nodes deps = sorted_set (concat (map ed_evidence_ids (filter ed_verified deps)))"

section \<open>Ablations\<close>

record ablation =
  ab_evidence_id :: string
  ab_score_delta :: "pyfloat option"
  ab_severity_change :: bool
  ab_decision_change :: bool
  ab_final_impact :: bool
  ab_recomputed :: decision
  ab_dimensions :: "string list"
  ab_claims :: "string list"

record evidence_fragility =
  ef_state :: fragility_state
  ef_largest :: "pyfloat option"
  ef_flip_count :: nat
  ef_flip_rate :: "pyfloat option"
  ef_severity_count :: nat
  ef_dimensions :: "string list"
  ef_claims :: "string list"
  ef_ablations :: "ablation list"

definition score_delta :: "pyfloat option \<Rightarrow> pyfloat option \<Rightarrow> pyfloat option" where
  "score_delta score baseline = (case (baseline, score) of
     (Some b, Some s) \<Rightarrow> Some (pround 6 (fsub s b)) | _ \<Rightarrow> None)"

definition ablate :: "evidence_dependency list \<Rightarrow> pyfloat option \<Rightarrow> decision \<Rightarrow> policy \<Rightarrow> string
    \<Rightarrow> string list \<Rightarrow> string \<Rightarrow> ablation result" where
  "ablate deps baseline_score baseline_decision policy baseline_severity nodes i =
     bind_result (recompute deps (filter (\<lambda>j. j \<noteq> i) nodes) (length deps) policy) (\<lambda>r.
       let affected = filter (\<lambda>d. ed_verified d \<and> i \<in> set (ed_evidence_ids d) \<and>
             d \<notin> set (re_active r)) deps
       in Inr \<lparr>ab_evidence_id = i,
           ab_score_delta = score_delta (re_score r) baseline_score,
           ab_severity_change = (re_severity r \<noteq> baseline_severity),
           ab_decision_change = (re_decision r \<noteq> baseline_decision),
           ab_final_impact = (re_decision r \<noteq> baseline_decision),
           ab_recomputed = re_decision r,
           ab_dimensions = sorted_set (map ed_dimension affected),
           ab_claims = sorted_set (concat (map ed_claims affected))\<rparr>)"

definition impacts :: "ablation list \<Rightarrow> pyfloat list" where
  "impacts rows = map fabs (List.map_filter ab_score_delta rows)"

definition largest_impact :: "ablation list \<Rightarrow> pyfloat option" where
  "largest_impact rows = (if impacts rows = [] then None else Some (pymax_list (impacts rows)))"

definition reaches :: "pyfloat option \<Rightarrow> pyfloat \<Rightarrow> bool" where
  "reaches x threshold = (case x of None \<Rightarrow> False | Some v \<Rightarrow> fle threshold v)"

definition fragility_state_of :: "nat \<Rightarrow> pyfloat option \<Rightarrow> assurance_policy \<Rightarrow> fragility_state" where
  "fragility_state_of flips largest p =
     (if flips \<noteq> 0 \<or> reaches largest (ap_fragile_score_delta p) then FRAGILE
      else if reaches largest (ap_sensitive_score_delta p) then SENSITIVE else STABLE)"

definition count_true :: "('a \<Rightarrow> bool) \<Rightarrow> 'a list \<Rightarrow> nat" where
  "count_true f xs = length (filter f xs)"

definition fragility_of :: "assurance_policy \<Rightarrow> ablation list \<Rightarrow> nat \<Rightarrow> evidence_fragility" where
  "fragility_of p rows n =
     (let flips = count_true ab_decision_change rows
      in \<lparr>ef_state = fragility_state_of flips (largest_impact rows) p,
          ef_largest = largest_impact rows,
          ef_flip_count = flips,
          ef_flip_rate = Some (pround 6 (int_div (int flips) (int n))),
          ef_severity_count = count_true ab_severity_change rows,
          ef_dimensions = sorted_set (concat (map ab_dimensions rows)),
          ef_claims = sorted_set (concat (map ab_claims rows)),
          ef_ablations = rows\<rparr>)"

definition no_fragility :: evidence_fragility where
  "no_fragility = \<lparr>ef_state = FR_NOT_ESTIMABLE, ef_largest = None, ef_flip_count = 0,
     ef_flip_rate = None, ef_severity_count = 0, ef_dimensions = [], ef_claims = [],
     ef_ablations = []\<rparr>"

definition analyze_fragility :: "evidence_dependency list \<Rightarrow> pyfloat option \<Rightarrow> decision
    \<Rightarrow> assurance_policy \<Rightarrow> policy \<Rightarrow> evidence_fragility result" where
  "analyze_fragility deps baseline_score baseline_decision p policy =
     (let nodes = evidence_nodes deps in
      if nodes = [] then Inr no_fragility else
      bind_result (recompute deps nodes (length deps) policy) (\<lambda>b.
      bind_result (map_result (ablate deps baseline_score baseline_decision policy (re_severity b) nodes) nodes)
        (\<lambda>rows. Inr (fragility_of p rows (length nodes)))))"

section \<open>Sufficient evidence\<close>

record sufficient_evidence =
  se_evidence_ids :: "string list"
  se_method :: sufficient_method
  se_exact :: bool
  se_preserves :: bool
  se_evaluated :: nat
  se_baseline :: decision

text \<open>\<open>itertools.combinations\<close>, in its order.\<close>

fun combinations :: "'a list \<Rightarrow> nat \<Rightarrow> 'a list list" where
  "combinations xs 0 = [[]]"
| "combinations [] (Suc k) = []"
| "combinations (x # xs) (Suc k) = map (Cons x) (combinations xs k) @ combinations xs (Suc k)"

definition preserves :: "evidence_dependency list \<Rightarrow> decision \<Rightarrow> policy \<Rightarrow> string list \<Rightarrow> bool result" where
  "preserves deps baseline policy candidate =
     bind_result (recompute deps candidate (length deps) policy) (\<lambda>r. Inr (re_decision r = baseline))"

text \<open>The loop over candidates, with the counter of evaluations.\<close>

fun first_preserving :: "('a \<Rightarrow> bool result) \<Rightarrow> nat \<Rightarrow> 'a list \<Rightarrow> ('a option \<times> nat) result" where
  "first_preserving f evaluated [] = Inr (None, evaluated)"
| "first_preserving f evaluated (c # cs) = bind_result (f c) (\<lambda>b.
     if b then Inr (Some c, Suc evaluated) else first_preserving f (Suc evaluated) cs)"

definition candidates :: "'a list \<Rightarrow> 'a list list" where
  "candidates nodes = concat (map (combinations nodes) [1..<Suc (length nodes)])"

fun greedy_loop :: "('a list \<Rightarrow> bool result) \<Rightarrow> 'a list \<Rightarrow> 'a list \<Rightarrow> nat \<Rightarrow> ('a list \<times> nat) result" where
  "greedy_loop f [] candidate evaluated = Inr (candidate, evaluated)"
| "greedy_loop f (i # is) candidate evaluated =
     (let trial = filter (\<lambda>j. j \<noteq> i) candidate in
      if trial = [] then greedy_loop f is candidate evaluated
      else bind_result (f trial) (\<lambda>b.
        greedy_loop f is (if b then trial else candidate) (Suc evaluated)))"

definition decision_sufficient_evidence :: "evidence_dependency list \<Rightarrow> decision
    \<Rightarrow> assurance_policy \<Rightarrow> policy \<Rightarrow> sufficient_evidence result" where
  "decision_sufficient_evidence deps baseline p policy =
     (let nodes = evidence_nodes deps; f = preserves deps baseline policy in
      if nodes = [] then Inr \<lparr>se_evidence_ids = [], se_method = SM_NOT_ESTIMABLE, se_exact = False,
        se_preserves = False, se_evaluated = 0, se_baseline = baseline\<rparr>
      else if int (length nodes) \<le> ap_maximum_fragility_nodes_exact p then
        bind_result (first_preserving f 0 (candidates nodes)) (\<lambda>(found, evaluated).
          case found of
            Some c \<Rightarrow> Inr \<lparr>se_evidence_ids = c, se_method = EXACT, se_exact = True,
              se_preserves = True, se_evaluated = evaluated, se_baseline = baseline\<rparr>
          | None \<Rightarrow> bind_result (f nodes) (\<lambda>b. Inr \<lparr>se_evidence_ids = nodes, se_method = EXACT,
              se_exact = True, se_preserves = b, se_evaluated = Suc evaluated, se_baseline = baseline\<rparr>))
      else bind_result (greedy_loop f nodes nodes 0) (\<lambda>(candidate, evaluated).
        bind_result (f candidate) (\<lambda>b. Inr \<lparr>se_evidence_ids = sort candidate,
          se_method = GREEDY_APPROXIMATION, se_exact = False, se_preserves = b,
          se_evaluated = Suc evaluated, se_baseline = baseline\<rparr>)))"

section \<open>Laws of the recomputation\<close>

text \<open>Scores of the dependencies between 0 and 100, as the components produce them.\<close>

definition score_range :: "pyfloat \<Rightarrow> bool" where
  "score_range x = (fle (Fin 0) x \<and> fle x (Fin 100))"

definition scores_in_range :: "evidence_dependency list \<Rightarrow> bool" where
  "scores_in_range deps = list_all (\<lambda>d. case ed_score d of None \<Rightarrow> True | Some x \<Rightarrow> score_range x) deps"

definition fusion_policy_ok :: "policy \<Rightarrow> bool" where
  "fusion_policy_ok p = (uplift_policy_ok p \<and>
     fle (Fin 0) (dict_get (effective_policy p) ''interaction_uplift_cap'' (Fin 15)))"

lemma score_range_finite: "score_range x \<Longrightarrow> is_finite x"
  by (cases x) (auto simp: score_range_def)

lemma pymax_range: "score_range a \<Longrightarrow> score_range b \<Longrightarrow> score_range (pymax a b)"
  by (simp add: pymax_def)

definition range_scores :: "scores \<Rightarrow> bool" where
  "range_scores s = (\<forall>(k, v)\<in>set s. case v of None \<Rightarrow> True | Some x \<Rightarrow> score_range x)"

lemma range_scores_finite: "range_scores s \<Longrightarrow> finite_scores s"
  unfolding range_scores_def finite_scores_def
  by (fastforce split: option.splits intro: score_range_finite)

lemma range_update: "range_scores s \<Longrightarrow> score_range x \<Longrightarrow> range_scores (AList.update k (Some x) s)"
  unfolding range_scores_def using set_update_subset[of k "Some x" s] by fastforce

lemma range_get: "range_scores s \<Longrightarrow> dict_get s k None = Some x \<Longrightarrow> score_range x"
  unfolding range_scores_def dict_get_def by (fastforce split: option.splits dest: map_of_SomeD)

lemma range_add_score:
  "range_scores s \<Longrightarrow> (case ed_score d of None \<Rightarrow> True | Some x \<Rightarrow> score_range x) \<Longrightarrow>
     range_scores (add_score s d)"
  by (auto simp: add_score_def split: option.splits intro!: range_update pymax_range dest: range_get)

lemma range_foldl: "range_scores s \<Longrightarrow> scores_in_range ds \<Longrightarrow> range_scores (foldl add_score s ds)"
  by (induction ds arbitrary: s) (simp_all add: scores_in_range_def range_add_score)

lemma range_recompute:
  "scores_in_range deps \<Longrightarrow> range_scores (recompute_scores (retained_dependencies deps retained))"
  unfolding recompute_scores_def
  by (rule range_foldl) (auto simp: range_scores_def retained_dependencies_def scores_in_range_def list_all_iff)

lemma uplift_nonneg: "fusion_policy_ok p \<Longrightarrow> fle (Fin 0) (interaction_uplift (effective_policy p) n)"
proof -
  assume ok: "fusion_policy_ok p"
  let ?per = "dict_get (effective_policy p) ''interaction_uplift_per_dimension'' (Fin 5)"
  from ok have "is_finite ?per" "fle (Fin 0) ?per"
    by (simp_all add: fusion_policy_ok_def uplift_policy_ok_def Let_def)
  then have "fle (Fin 0) (fmul ?per (fint (max 0 (int n - 1))))"
    by (auto simp: is_finite_iff fint_def intro!: fl_nonneg mult_nonneg_nonneg)
  moreover have "fle (Fin 0) (dict_get (effective_policy p) ''interaction_uplift_cap'' (Fin 15))"
    using ok by (simp add: fusion_policy_ok_def)
  ultimately show ?thesis unfolding interaction_uplift_def by (simp add: pymin_def)
qed

lemma capped_range: "score_range a \<Longrightarrow> fle (Fin 0) u \<Longrightarrow> score_range (pymin (Fin 100) (fadd a u))"
proof -
  assume a: "score_range a" and u: "fle (Fin 0) u"
  obtain q where q: "a = Fin q" "0 \<le> q" using a by (cases a) (auto simp: score_range_def)
  have "fle (Fin 0) (fadd a u)" using u q by (cases u) (auto intro: fl_nonneg)
  then show ?thesis by (cases "fadd a u") (auto simp: score_range_def pymin_def flt_def)
qed

lemma hierarchical_score_range:
  assumes "range_scores s" "fusion_policy_ok p"
    and "hierarchical_score (effective_policy p) (active_scores s) = Some x"
  shows "score_range x"
proof -
  have ne: "map snd (active_scores s) \<noteq> []" using assms(3) by (auto simp: hierarchical_score_def)
  have "score_range v" if "v \<in> set (map snd (active_scores s))" for v
    using that assms(1) by (force simp: active_scores_iff range_scores_def)
  then have "score_range (pymax_list (map snd (active_scores s)))" using pymax_list_in[OF ne] by blast
  then show ?thesis using assms(3)
    by (auto simp: hierarchical_score_def Let_def split: if_splits
        intro!: capped_range uplift_nonneg[OF assms(2)])
qed

lemma pround_range: "score_range x \<Longrightarrow> score_range (pround n x)"
  using pround_mono[of "Fin 0" x n] pround_mono[of x "Fin 100" n]
    pround_int[of 0 n] pround_int[of 100 n]
  by (simp add: score_range_def)

lemma recompute_ok:
  assumes "scores_in_range deps" "fusion_policy_ok p"
  shows "\<exists>r. recompute deps retained n p = Inr r \<and> re_active r = retained_dependencies deps retained \<and>
     (\<forall>x. re_score r = Some x \<longrightarrow> score_range x) \<and>
     (retained_dependencies deps retained = [] \<longrightarrow> re_score r = None \<and> re_decision r = ABSTAIN)"
proof -
  let ?a = "retained_dependencies deps retained"
  let ?s = "recompute_scores ?a"
  let ?c = "coverage_of (length ?a) n"
  have range: "range_scores ?s" by (rule range_recompute[OF assms(1)])
  have "is_ok (hierarchical_escalation ?s ?c ?c p)"
    by (rule hierarchical_total[OF range_scores_finite[OF range]])
  then obtain r where r: "hierarchical_escalation ?s ?c ?c p = Inr r"
    by (auto simp: is_ok_def split: sum.splits)
  note h = hierarchical_escalation_Inr[OF r]
  have "score_range x" if "fr_score r = Some x" for x
    using that h hierarchical_score_range[OF range assms(2)] by (auto intro: pround_range)
  moreover have "fr_score r = None \<and> fr_decision r = ABSTAIN" if "?a = []"
    using h that by (auto simp: recompute_scores_def hierarchical_score_def)
  ultimately show ?thesis using r by (simp add: recompute_def Let_def)
qed

lemma preserves_ok:
  assumes "scores_in_range deps" "fusion_policy_ok p"
  shows "is_ok (preserves deps b p c)"
  using recompute_ok[OF assms, of c "length deps"] by (auto simp: preserves_def)

section \<open>Laws of the search\<close>

lemma combinations_props:
  "c \<in> set (combinations xs k) \<Longrightarrow> subseq c xs \<and> length c = k"
proof (induction xs k arbitrary: c rule: combinations.induct)
  case (3 x xs k)
  then show ?case by (auto intro: subseq_Cons')
qed auto

lemma subseq_combination: "subseq c xs \<Longrightarrow> c \<in> set (combinations xs (length c))"
proof (induction xs arbitrary: c)
  case Nil
  then show ?case by (cases c) simp_all
next
  case (Cons x xs)
  show ?case
  proof (cases c)
    case Nil
    then show ?thesis by simp
  next
    case (Cons d c')
    show ?thesis
    proof (cases "d = x \<and> subseq c' xs")
      case True
      then show ?thesis using Cons.IH[of c'] Cons by simp
    next
      case False
      then have "subseq c xs" using Cons.prems Cons by (auto simp: subseq_Cons2_iff split: if_splits)
      then show ?thesis using Cons.IH[of c] Cons by simp
    qed
  qed
qed

lemma length_combinations: "length (combinations xs k) = length xs choose k"
  by (induction xs k rule: combinations.induct) simp_all

lemma sum_list_choose: "sum_list (map (\<lambda>k. n choose k) [1..<Suc n]) + 1 = 2 ^ n"
proof -
  have "sum_list (map (\<lambda>k. n choose k) [0..<Suc n]) = 2 ^ n"
    using choose_row_sum[of n]
    by (simp add: interv_sum_list_conv_sum_set_nat atMost_atLeast0 atLeastLessThanSuc_atLeastAtMost
        del: upt_Suc)
  then show ?thesis by (simp add: upt_conv_Cons del: upt_Suc)
qed

lemma length_candidates: "length (candidates nodes) + 1 = 2 ^ length nodes"
  using sum_list_choose[of "length nodes"]
  by (simp add: candidates_def length_concat length_combinations comp_def del: upt_Suc)

lemma in_candidates: "c \<in> set (candidates nodes) \<longleftrightarrow> subseq c nodes \<and> c \<noteq> []"
proof
  assume "c \<in> set (candidates nodes)"
  then obtain k where "1 \<le> k" "c \<in> set (combinations nodes k)"
    by (auto simp: candidates_def simp del: upt_Suc)
  then show "subseq c nodes \<and> c \<noteq> []" using combinations_props[of c nodes k] by auto
next
  assume c: "subseq c nodes \<and> c \<noteq> []"
  then have "length c \<in> set [1..<Suc (length nodes)]"
    using list_emb_length by (fastforce simp: Suc_le_eq simp del: upt_Suc)
  then show "c \<in> set (candidates nodes)"
    using subseq_combination[of c nodes] c by (force simp: candidates_def simp del: upt_Suc)
qed

text \<open>Candidates come by increasing size.\<close>

lemma sorted_lengths_aux: "sorted (concat (map (\<lambda>k. map length (combinations nodes k)) [a..<b]))"
proof (induction b)
  case (Suc b)
  have same: "map length (combinations nodes k) = replicate (length (combinations nodes k)) k" for k
    using combinations_props[of _ nodes k] by (intro replicate_eqI) auto
  show ?case
  proof (cases "a \<le> b")
    case True
    then show ?thesis using Suc combinations_props
      by (fastforce simp: sorted_append same)
  qed simp
qed simp

lemma sorted_candidates: "sorted (map length (candidates nodes))"
  using sorted_lengths_aux[of nodes 1 "Suc (length nodes)"]
  by (simp add: candidates_def map_concat comp_def del: upt_Suc)

lemma first_preserving_props:
  assumes "first_preserving f n cs = Inr (found, m)"
  shows "(case found of
       Some c \<Rightarrow> \<exists>before after. cs = before @ c # after \<and> f c = Inr True \<and>
         (\<forall>d\<in>set before. f d = Inr False) \<and> m = n + Suc (length before)
     | None \<Rightarrow> (\<forall>d\<in>set cs. f d = Inr False) \<and> m = n + length cs)"
  using assms
proof (induction cs arbitrary: n)
  case (Cons d cs)
  then obtain b where b: "f d = Inr b" by (auto simp: bind_result_Inr_iff)
  show ?case
  proof (cases b)
    case True
    then have "found = Some d" "m = Suc n" using Cons.prems b by auto
    then show ?thesis using True b by (auto intro!: exI[of _ "[]"])
  next
    case False
    then have "first_preserving f (Suc n) cs = Inr (found, m)" using Cons.prems b by simp
    note IH = Cons.IH[OF this]
    show ?thesis
    proof (cases found)
      case (Some c)
      with IH obtain before after where "cs = before @ c # after" "f c = Inr True"
        "\<forall>d\<in>set before. f d = Inr False" "m = Suc n + Suc (length before)" by auto
      then have "d # cs = (d # before) @ c # after \<and> f c = Inr True \<and>
          (\<forall>e\<in>set (d # before). f e = Inr False) \<and> m = n + Suc (length (d # before))"
        using b False by simp
      then have "\<exists>before after. d # cs = before @ c # after \<and> f c = Inr True \<and>
          (\<forall>e\<in>set before. f e = Inr False) \<and> m = n + Suc (length before)"
        by blast
      then show ?thesis unfolding Some option.case .
    qed (use IH b False in auto)
  qed
qed simp

lemma first_preserving_ok: "\<forall>c\<in>set cs. is_ok (f c) \<Longrightarrow> is_ok (first_preserving f n cs)"
proof (induction cs arbitrary: n)
  case (Cons c cs)
  then show ?case by (cases "f c") auto
qed simp

lemma greedy_props:
  assumes "greedy_loop f xs cand n = Inr (res, m)" and "cand \<noteq> []"
  shows "res \<noteq> [] \<and> subseq res cand \<and> m \<le> n + length xs \<and> (res = cand \<or> f res = Inr True)"
  using assms
proof (induction xs arbitrary: cand n)
  case (Cons i xs)
  let ?trial = "filter (\<lambda>j. j \<noteq> i) cand"
  show ?case
  proof (cases "?trial = []")
    case True
    then have "greedy_loop f xs cand n = Inr (res, m)" using Cons.prems by simp
    then show ?thesis using Cons.IH Cons.prems(2) by fastforce
  next
    case False
    then obtain b where b: "f ?trial = Inr b"
      "greedy_loop f xs (if b then ?trial else cand) (Suc n) = Inr (res, m)"
      using Cons.prems(1) by (auto simp: bind_result_Inr_iff Let_def)
    have sub: "subseq ?trial cand" by simp
    show ?thesis
    proof (cases b)
      case True
      then have "greedy_loop f xs ?trial (Suc n) = Inr (res, m)" using b by simp
      from Cons.IH[OF this False] show ?thesis
        using sub b(1) True by (auto intro: subseq_order.trans)
    next
      case nb: False
      then have "greedy_loop f xs cand (Suc n) = Inr (res, m)" using b by simp
      then show ?thesis using Cons.IH[of cand "Suc n"] Cons.prems(2) by auto
    qed
  qed
qed simp

lemma greedy_ok: "\<forall>c. is_ok (f c) \<Longrightarrow> is_ok (greedy_loop f xs cand n)"
proof (induction xs arbitrary: cand n)
  case (Cons i xs)
  obtain b where "f (filter (\<lambda>j. j \<noteq> i) cand) = Inr b"
    using Cons.prems by (metis is_ok_simps(2) sum.exhaust_sel)
  then show ?case using Cons by (simp add: Let_def)
qed simp

section \<open>Only the set of evidence matters\<close>

lemma preserves_set: "set c = set d \<Longrightarrow> preserves deps b p c = preserves deps b p d"
  by (simp add: preserves_def recompute_def retained_dependencies_def)

lemma sorted_nodes [simp]: "sorted (evidence_nodes deps)" "distinct (evidence_nodes deps)"
  by (simp_all add: evidence_nodes_def)

lemma as_candidate:
  assumes "set c \<subseteq> set nodes" "c \<noteq> []"
  shows "\<exists>d\<in>set (candidates nodes). set d = set c \<and> length d = length (filter (\<lambda>i. i \<in> set c) nodes)"
proof -
  let ?d = "filter (\<lambda>i. i \<in> set c) nodes"
  have "set ?d = set c" using assms(1) by auto
  moreover from this have "?d \<in> set (candidates nodes)" using assms(2) by (auto simp: in_candidates simp flip: set_empty)
  ultimately show ?thesis by blast
qed

lemma candidate_length:
  "distinct nodes \<Longrightarrow> set c \<subseteq> set nodes \<Longrightarrow> length (filter (\<lambda>i. i \<in> set c) nodes) = card (set c)"
proof -
  assume "distinct nodes" "set c \<subseteq> set nodes"
  then have "card (set (filter (\<lambda>i. i \<in> set c) nodes)) = length (filter (\<lambda>i. i \<in> set c) nodes)"
    by (intro distinct_card) simp
  moreover have "set (filter (\<lambda>i. i \<in> set c) nodes) = set c"
    using \<open>set c \<subseteq> set nodes\<close> by auto
  ultimately show ?thesis by simp
qed

lemma sufficient_exact_cases:
  assumes "decision_sufficient_evidence deps b p pol = Inr r" and "se_method r = EXACT"
  obtains c m before after where
      "candidates (evidence_nodes deps) = before @ c # after" "preserves deps b pol c = Inr True"
      "\<forall>d\<in>set before. preserves deps b pol d = Inr False" "m = Suc (length before)"
      "r = \<lparr>se_evidence_ids = c, se_method = EXACT, se_exact = True, se_preserves = True,
         se_evaluated = m, se_baseline = b\<rparr>"
  | m where "\<forall>d\<in>set (candidates (evidence_nodes deps)). preserves deps b pol d = Inr False"
      "evidence_nodes deps \<noteq> []" "m = length (candidates (evidence_nodes deps))"
      "r = \<lparr>se_evidence_ids = evidence_nodes deps, se_method = EXACT, se_exact = True,
         se_preserves = False, se_evaluated = Suc m, se_baseline = b\<rparr>"
proof -
  let ?n = "evidence_nodes deps" and ?f = "preserves deps b pol"
  have ne: "?n \<noteq> []" and small: "int (length ?n) \<le> ap_maximum_fragility_nodes_exact p"
    using assms by (auto simp: decision_sufficient_evidence_def Let_def bind_result_Inr_iff split: if_splits)
  obtain found m where fp: "first_preserving ?f 0 (candidates ?n) = Inr (found, m)"
    using assms ne small by (auto simp: decision_sufficient_evidence_def Let_def bind_result_Inr_iff)
  note props = first_preserving_props[OF fp]
  show thesis
  proof (cases found)
    case (Some c)
    with props obtain before after where "candidates ?n = before @ c # after" "?f c = Inr True"
      "\<forall>d\<in>set before. ?f d = Inr False" "m = Suc (length before)" by auto
    then show thesis using that(1) assms ne small fp Some
      by (auto simp: decision_sufficient_evidence_def Let_def)
  next
    case None
    have "?n \<in> set (candidates ?n)" using ne by (simp add: in_candidates)
    then show thesis using that(2) assms ne small fp None props
      by (auto simp: decision_sufficient_evidence_def Let_def)
  qed
qed

lemma sufficient_greedy_cases:
  assumes "decision_sufficient_evidence deps b p pol = Inr r" and "se_method r = GREEDY_APPROXIMATION"
  obtains c m v where "c \<noteq> []" "subseq c (evidence_nodes deps)" "m \<le> length (evidence_nodes deps)"
    "c = evidence_nodes deps \<or> preserves deps b pol c = Inr True" "preserves deps b pol c = Inr v"
    "evidence_nodes deps \<noteq> []"
    "\<not> int (length (evidence_nodes deps)) \<le> ap_maximum_fragility_nodes_exact p"
    "r = \<lparr>se_evidence_ids = sort c, se_method = GREEDY_APPROXIMATION, se_exact = False,
       se_preserves = v, se_evaluated = Suc m, se_baseline = b\<rparr>"
proof -
  let ?n = "evidence_nodes deps" and ?f = "preserves deps b pol"
  have ne: "?n \<noteq> []" and big: "\<not> int (length ?n) \<le> ap_maximum_fragility_nodes_exact p"
    using assms by (auto simp: decision_sufficient_evidence_def Let_def bind_result_Inr_iff
        split: if_splits option.splits)
  obtain c m v where gl: "greedy_loop ?f ?n ?n 0 = Inr (c, m)" "?f c = Inr v"
    "r = \<lparr>se_evidence_ids = sort c, se_method = GREEDY_APPROXIMATION, se_exact = False,
       se_preserves = v, se_evaluated = Suc m, se_baseline = b\<rparr>"
    using assms(1) ne big by (auto simp: decision_sufficient_evidence_def Let_def bind_result_Inr_iff)
  then show thesis using greedy_props[OF gl(1) ne] that[of c m v] ne big by auto
qed

lemma subseq_sorted: "subseq c (evidence_nodes deps) \<Longrightarrow> sorted c \<and> distinct c"
proof -
  assume "subseq c (evidence_nodes deps)"
  then obtain N where "c = nths (evidence_nodes deps) N" by (meson subseq_conv_nths)
  then show ?thesis by (simp add: sorted_nths distinct_nthsI)
qed

lemma subseq_set: "subseq c xs \<Longrightarrow> set c \<subseteq> set xs"
  by (metis set_nths_subset subseq_conv_nths)

lemma shorter_earlier:
  assumes "candidates nodes = before @ c # after" "d \<in> set (candidates nodes)" "length d < length c"
  shows "d \<in> set before"
proof -
  have "sorted (map length (before @ c # after))" using sorted_candidates[of nodes] assms(1) by simp
  then have "\<forall>e\<in>set (c # after). length c \<le> length e" by (auto simp: sorted_append)
  then show ?thesis using assms by auto
qed

section \<open>Laws of the ablations\<close>

lemma map_result_Inr: "map_result f xs = Inr ys \<longleftrightarrow> list_all2 (\<lambda>x y. f x = Inr y) xs ys"
proof (induction xs arbitrary: ys)
  case (Cons x xs)
  then show ?case by (cases ys) (auto simp: bind_result_Inr_iff)
qed auto

lemma map_result_ok: "\<forall>x\<in>set xs. is_ok (f x) \<Longrightarrow> is_ok (map_result f xs)"
proof (induction xs)
  case (Cons x xs)
  then show ?case by (cases "f x"; cases "map_result f xs") auto
qed simp

lemma analyze_fragility_cases:
  assumes "analyze_fragility deps bs bd p pol = Inr f"
  obtains (none) "evidence_nodes deps = []" "f = no_fragility"
  | (some) b rows where "evidence_nodes deps \<noteq> []"
      "recompute deps (evidence_nodes deps) (length deps) pol = Inr b"
      "list_all2 (\<lambda>i row. ablate deps bs bd pol (re_severity b) (evidence_nodes deps) i = Inr row)
         (evidence_nodes deps) rows"
      "f = fragility_of p rows (length (evidence_nodes deps))"
  using assms
  by (auto simp: analyze_fragility_def Let_def bind_result_Inr_iff map_result_Inr split: if_splits)

lemma list_all2_in1: "list_all2 P xs ys \<Longrightarrow> x \<in> set xs \<Longrightarrow> \<exists>y\<in>set ys. P x y"
  by (induction rule: list_all2_induct) auto

lemma list_all2_in2: "list_all2 P xs ys \<Longrightarrow> y \<in> set ys \<Longrightarrow> \<exists>x\<in>set xs. P x y"
  by (induction rule: list_all2_induct) auto

lemma ablate_ok:
  assumes "scores_in_range deps" "fusion_policy_ok pol"
  shows "is_ok (ablate deps bs bd pol sev nodes i)"
  using recompute_ok[OF assms, of "filter (\<lambda>j. j \<noteq> i) nodes" "length deps"]
  by (auto simp: ablate_def Let_def)

definition baseline_ok :: "pyfloat option \<Rightarrow> bool" where
  "baseline_ok b = (case b of None \<Rightarrow> True | Some x \<Rightarrow> score_range x)"

lemma delta_finite: "score_range a \<Longrightarrow> score_range b \<Longrightarrow> is_finite (pround n (fsub a b))"
proof -
  assume a: "score_range a" and b: "score_range b"
  obtain x where x: "a = Fin x" "0 \<le> x" "x \<le> 100" using a by (cases a) (auto simp: score_range_def)
  obtain y where y: "b = Fin y" "0 \<le> y" "y \<le> 100" using b by (cases b) (auto simp: score_range_def)
  have "fle (fl (of_int (-100))) (fl (x - y))" "fle (fl (x - y)) (fl (of_int 100))"
    using x y by (auto intro!: fle_fl)
  then have "is_finite (fl (x - y))"
    using fl_int[of "-100"] fl_int[of 100] by (cases "fl (x - y)") auto
  then show ?thesis using x y by (simp add: fsub_def del: pround.simps)
qed

lemma score_delta_finite:
  assumes "scores_in_range deps" "fusion_policy_ok p" "baseline_ok bs"
    and "recompute deps retained n p = Inr r" "score_delta (re_score r) bs = Some x"
  shows "is_finite x"
  using recompute_ok[OF assms(1,2), of retained n] assms(3,4,5)
  by (auto simp: score_delta_def baseline_ok_def intro!: delta_finite simp del: pround.simps split: option.splits)

lemma in_impacts: "row \<in> set rows \<Longrightarrow> ab_score_delta row = Some x \<Longrightarrow> fabs x \<in> set (impacts rows)"
  by (force simp: impacts_def List.map_filter_def)

lemma largest_impact_ge:
  assumes "\<forall>row\<in>set rows. \<forall>x. ab_score_delta row = Some x \<longrightarrow> is_finite x"
    and "row \<in> set rows" "ab_score_delta row = Some x"
  shows "\<exists>m. largest_impact rows = Some m \<and> is_finite m \<and> fle (fabs x) m"
proof -
  have fin: "\<forall>v\<in>set (impacts rows). is_finite v"
    using assms(1) by (fastforce simp: impacts_def List.map_filter_def is_finite_iff)
  have mem: "fabs x \<in> set (impacts rows)" using assms(2,3) by (rule in_impacts)
  then have ne: "impacts rows \<noteq> []" by auto
  then have "is_finite (pymax_list (impacts rows))" using fin pymax_list_in by blast
  moreover have "fle (fabs x) (pymax_list (impacts rows))"
    using mem fin by (intro pymax_list_ge) (auto dest: finite_not_NaN)
  ultimately show ?thesis using ne by (simp add: largest_impact_def)
qed

lemma ablate_Inr:
  assumes "ablate deps bs bd pol sev nodes i = Inr row"
  shows "\<exists>r. recompute deps (filter (\<lambda>j. j \<noteq> i) nodes) (length deps) pol = Inr r \<and>
    ab_evidence_id row = i \<and> ab_score_delta row = score_delta (re_score r) bs \<and>
    ab_decision_change row = (re_decision r \<noteq> bd) \<and> ab_final_impact row = (re_decision r \<noteq> bd) \<and>
    ab_recomputed row = re_decision r"
  using assms by (auto simp: ablate_def Let_def bind_result_Inr_iff)

section \<open>Properties\<close>

text \<open>C13: the exact search for decision-sufficient evidence is exact. When it reports a
  subset that preserves the decision, the decision recomputed from that subset is the
  baseline and every other non-empty subset of the verified evidence with that effect has
  at least as many items; when it reports none, no non-empty subset has that effect.\<close>

theorem sufficient_exact_minimal:
  assumes "decision_sufficient_evidence deps b p pol = Inr r" and "se_method r = EXACT"
  shows "set (se_evidence_ids r) \<subseteq> set (evidence_nodes deps) \<and>
    (if se_preserves r then preserves deps b pol (se_evidence_ids r) = Inr True \<and>
        (\<forall>c. c \<noteq> [] \<and> set c \<subseteq> set (evidence_nodes deps) \<and> preserves deps b pol c = Inr True \<longrightarrow>
           length (se_evidence_ids r) \<le> card (set c))
     else (\<forall>c. c \<noteq> [] \<and> set c \<subseteq> set (evidence_nodes deps) \<longrightarrow> preserves deps b pol c = Inr False))"
  using assms
proof (cases rule: sufficient_exact_cases)
  case (1 c m before after)
  have "c \<in> set (candidates (evidence_nodes deps))" using 1(1) by simp
  then have "set c \<subseteq> set (evidence_nodes deps)" by (simp add: in_candidates subseq_set)
  moreover have "length c \<le> card (set e)"
    if e: "e \<noteq> []" "set e \<subseteq> set (evidence_nodes deps)" "preserves deps b pol e = Inr True" for e
  proof (rule ccontr)
    assume less: "\<not> length c \<le> card (set e)"
    obtain d where d: "d \<in> set (candidates (evidence_nodes deps))" "set d = set e"
      "length d = card (set e)"
      using as_candidate[OF e(2,1)] candidate_length[OF _ e(2)] by auto
    then have "d \<in> set before" using less by (intro shorter_earlier[OF 1(1)]) auto
    then show False using 1(3) e(3) preserves_set[OF d(2), of deps b pol] by simp
  qed
  ultimately show ?thesis using 1(2,5) by simp
next
  case (2 m)
  have "preserves deps b pol e = Inr False" if e: "e \<noteq> []" "set e \<subseteq> set (evidence_nodes deps)" for e
    using as_candidate[OF e(2,1)] 2(1) preserves_set by metis
  then show ?thesis using 2 by simp
qed

lemma sufficient_exact_minimal_witness:
  "let d = \<lambda>i e s. \<lparr>ed_id = i, ed_evidence_ids = [e], ed_dimension = i, ed_score = Some (Fin s),
         ed_claims = [], ed_verified = True\<rparr>;
       deps = [d ''liquidity'' ''a'' 75, d ''governance'' ''b'' 10]
   in set [''a''] \<subseteq> set (evidence_nodes deps) \<and> preserves deps FLAG [] [''a''] = Inr True \<and>
      (\<forall>c. c \<noteq> [] \<and> set c \<subseteq> set (evidence_nodes deps) \<and> preserves deps FLAG [] c = Inr True \<longrightarrow>
         1 \<le> card (set c))"
proof -
  define d where "d = (\<lambda>i e s. \<lparr>ed_id = i, ed_evidence_ids = [e], ed_dimension = i, ed_score = Some (Fin s),
         ed_claims = [], ed_verified = True\<rparr>)"
  have "decision_sufficient_evidence [d ''liquidity'' ''a'' 75, d ''governance'' ''b'' 10] FLAG
      default_assurance_policy [] = Inr \<lparr>se_evidence_ids = [''a''], se_method = EXACT, se_exact = True,
        se_preserves = True, se_evaluated = 1, se_baseline = FLAG\<rparr>"
    unfolding d_def by code_simp
  from sufficient_exact_minimal[OF this] show ?thesis by (simp add: d_def Let_def)
qed

text \<open>the search stays within its budget. The exact search evaluates at most every
  non-empty subset of the evidence, \<open>2 ^ n - 1\<close>, when it succeeds and exactly one more than
  that when it fails; the greedy search evaluates at most \<open>n + 1\<close> subsets, never drops to an
  empty set, keeps only verified evidence, and preserves the decision whenever the complete
  evidence does.\<close>

theorem sufficient_budget:
  assumes "decision_sufficient_evidence deps b p pol = Inr r"
  shows "case se_method r of
      SM_NOT_ESTIMABLE \<Rightarrow> evidence_nodes deps = [] \<and> se_evaluated r = 0
    | EXACT \<Rightarrow> (if se_preserves r then se_evaluated r < 2 ^ length (evidence_nodes deps)
        else se_evaluated r = 2 ^ length (evidence_nodes deps))
    | GREEDY_APPROXIMATION \<Rightarrow> se_evaluated r \<le> length (evidence_nodes deps) + 1 \<and>
        se_evidence_ids r \<noteq> [] \<and> set (se_evidence_ids r) \<subseteq> set (evidence_nodes deps) \<and>
        (preserves deps b pol (evidence_nodes deps) = Inr True \<longrightarrow> se_preserves r)"
proof (cases "se_method r")
  case EXACT
  note count = length_candidates[of "evidence_nodes deps"]
  show ?thesis using assms EXACT
  proof (cases rule: sufficient_exact_cases)
    case (1 c m before after)
    then show ?thesis using count EXACT by simp
  next
    case (2 m)
    then show ?thesis using count EXACT by simp
  qed
next
  case GREEDY_APPROXIMATION
  with assms show ?thesis
  proof (cases rule: sufficient_greedy_cases)
    case (1 c m v)
    have "se_preserves r" if "preserves deps b pol (evidence_nodes deps) = Inr True"
      using 1(4,5,8) that by auto
    moreover have "sort c \<noteq> []" using 1(1) by (metis set_empty set_sort)
    ultimately show ?thesis using 1 subseq_set[OF 1(2)] by simp
  qed
next
  case SM_NOT_ESTIMABLE
  then show ?thesis using assms
    by (auto simp: decision_sufficient_evidence_def Let_def bind_result_Inr_iff
        split: if_splits option.splits)
qed

lemma sufficient_budget_witness:
  "let d = \<lambda>i e s. \<lparr>ed_id = i, ed_evidence_ids = [e], ed_dimension = i, ed_score = Some (Fin s),
         ed_claims = [], ed_verified = True\<rparr>;
       deps = [d ''liquidity'' ''a'' 75, d ''governance'' ''b'' 10]
   in (2::nat) \<le> length (evidence_nodes deps) + 1 \<and> [''a''] \<noteq> [] \<and>
      set [''a''] \<subseteq> set (evidence_nodes deps)"
proof -
  define d where "d = (\<lambda>i e s. \<lparr>ed_id = i, ed_evidence_ids = [e], ed_dimension = i, ed_score = Some (Fin s),
         ed_claims = [], ed_verified = True\<rparr>)"
  have "decision_sufficient_evidence [d ''liquidity'' ''a'' 75, d ''governance'' ''b'' 10] FLAG
      (default_assurance_policy\<lparr>ap_maximum_fragility_nodes_exact := 1\<rparr>) [] =
      Inr \<lparr>se_evidence_ids = [''a''], se_method = GREEDY_APPROXIMATION, se_exact = False,
        se_preserves = True, se_evaluated = 3, se_baseline = FLAG\<rparr>"
    unfolding d_def by code_simp
  from sufficient_budget[OF this] show ?thesis by (simp add: d_def Let_def)
qed

text \<open>C14: a fragility state of STABLE or SENSITIVE is a guarantee. No single evidence item
  can be withdrawn with the effect that the recomputed decision differs from the baseline or
  that the score moves by the policy's fragile threshold.\<close>

theorem stable_evidence_robust:
  assumes "analyze_fragility deps bs bd p pol = Inr f"
    and "ef_state f = STABLE \<or> ef_state f = SENSITIVE" and "i \<in> set (evidence_nodes deps)"
    and "scores_in_range deps" "fusion_policy_ok pol" "baseline_ok bs"
  shows "\<exists>r. recompute deps (filter (\<lambda>j. j \<noteq> i) (evidence_nodes deps)) (length deps) pol = Inr r \<and>
    re_decision r = bd \<and>
    (\<forall>x. score_delta (re_score r) bs = Some x \<longrightarrow> \<not> fle (ap_fragile_score_delta p) (fabs x))"
  using assms(1)
proof (cases rule: analyze_fragility_cases)
  case none
  then show ?thesis using assms(3) by simp
next
  case (some b rows)
  from list_all2_in1[OF some(3) assms(3)] obtain row where row: "row \<in> set rows"
    "ablate deps bs bd pol (re_severity b) (evidence_nodes deps) i = Inr row" by blast
  from ablate_Inr[OF row(2)] obtain r where
    r: "recompute deps (filter (\<lambda>j. j \<noteq> i) (evidence_nodes deps)) (length deps) pol = Inr r"
      "ab_score_delta row = score_delta (re_score r) bs" "ab_decision_change row = (re_decision r \<noteq> bd)"
    by auto
  have flips: "count_true ab_decision_change rows = 0"
    and below: "\<not> reaches (largest_impact rows) (ap_fragile_score_delta p)"
    using assms(2) some(4) by (auto simp: fragility_of_def fragility_state_of_def Let_def split: if_splits)
  have "re_decision r = bd" using flips row(1) r(3) by (auto simp: count_true_def filter_empty_conv)
  moreover have "\<not> fle (ap_fragile_score_delta p) (fabs x)"
    if x: "score_delta (re_score r) bs = Some x" for x
  proof -
    have "is_finite y" if "row \<in> set rows" "ab_score_delta row = Some y" for row y
      using list_all2_in2[OF some(3) that(1)] that(2)
      by (auto dest!: ablate_Inr intro: score_delta_finite[OF assms(4,5,6)])
    then obtain m where "largest_impact rows = Some m" "fle (fabs x) m"
      using largest_impact_ge[of rows row x] row(1) r(2) x by auto
    then show ?thesis using below by (auto simp: reaches_def intro: fle_trans)
  qed
  ultimately show ?thesis using r(1) by blast
qed

lemma stable_evidence_robust_witness:
  "let d = \<lambda>i e s. \<lparr>ed_id = i, ed_evidence_ids = [e], ed_dimension = i, ed_score = Some (Fin s),
         ed_claims = [], ed_verified = True\<rparr>;
       deps = [d ''liquidity'' ''a'' 75, d ''leverage'' ''b'' 75]
   in \<exists>r. recompute deps (filter (\<lambda>j. j \<noteq> ''a'') (evidence_nodes deps)) (length deps) [] = Inr r \<and>
      re_decision r = FLAG \<and>
      (\<forall>x. score_delta (re_score r) (Some (Fin 80)) = Some x \<longrightarrow>
        \<not> fle (ap_fragile_score_delta default_assurance_policy) (fabs x))"
proof -
  define d where "d = (\<lambda>i e s. \<lparr>ed_id = i, ed_evidence_ids = [e], ed_dimension = i, ed_score = Some (Fin s),
         ed_claims = [], ed_verified = True\<rparr>)"
  define ds where "ds = [d ''liquidity'' ''a'' 75, d ''leverage'' ''b'' 75]"
  have "is_ok (analyze_fragility ds (Some (Fin 80)) FLAG default_assurance_policy [])"
    unfolding ds_def d_def by code_simp
  then obtain f where f: "analyze_fragility ds (Some (Fin 80)) FLAG default_assurance_policy [] = Inr f"
    by (auto simp: is_ok_def split: sum.splits)
  have "map_option ef_state (case analyze_fragility ds (Some (Fin 80)) FLAG default_assurance_policy [] of
      Inl e \<Rightarrow> None | Inr f \<Rightarrow> Some f) = Some STABLE"
    unfolding ds_def d_def by code_simp
  then have st: "ef_state f = STABLE \<or> ef_state f = SENSITIVE" using f by simp
  have "''a'' \<in> set (evidence_nodes ds)" "scores_in_range ds" "fusion_policy_ok []"
    "baseline_ok (Some (Fin 80))"
    unfolding ds_def d_def by code_simp+
  from stable_evidence_robust[OF f st this] show ?thesis by (simp add: ds_def d_def Let_def)
qed

text \<open>the fragility analysis and the search for sufficient evidence always return: with
  scores between 0 and 100 and a policy whose uplift parameters are finite and not negative,
  no recomputation of any subset raises.\<close>

theorem fragility_total:
  assumes "scores_in_range deps" "fusion_policy_ok pol"
  shows "(\<exists>f. analyze_fragility deps bs bd p pol = Inr f) \<and>
    (\<exists>r. decision_sufficient_evidence deps bd p pol = Inr r)"
proof -
  let ?n = "evidence_nodes deps"
  have rows: "is_ok (map_result (ablate deps bs bd pol sev ?n) ?n)" for sev
    by (intro map_result_ok ballI ablate_ok assms)
  obtain b where b: "recompute deps ?n (length deps) pol = Inr b"
    using recompute_ok[OF assms] by blast
  obtain rows where "map_result (ablate deps bs bd pol (re_severity b) ?n) ?n = Inr rows"
    using rows by (auto simp: is_ok_iff)
  with b have "\<exists>f. analyze_fragility deps bs bd p pol = Inr f"
    by (simp add: analyze_fragility_def Let_def)
  moreover have "\<exists>r. decision_sufficient_evidence deps bd p pol = Inr r"
  proof -
    let ?f = "preserves deps bd pol"
    have pres: "is_ok (?f c)" for c by (rule preserves_ok[OF assms])
    then have fp: "is_ok (first_preserving ?f 0 (candidates ?n))" and gl: "is_ok (greedy_loop ?f ?n ?n 0)"
      by (auto intro: first_preserving_ok greedy_ok)
    obtain found m where fp: "first_preserving ?f 0 (candidates ?n) = Inr (found, m)"
      using fp by (auto simp: is_ok_iff)
    obtain c k where gl: "greedy_loop ?f ?n ?n 0 = Inr (c, k)" using gl by (auto simp: is_ok_iff)
    obtain u v where "?f ?n = Inr u" "?f c = Inr v" using pres[of ?n] pres[of c] by (auto simp: is_ok_iff)
    then show ?thesis using fp gl
      by (simp add: decision_sufficient_evidence_def Let_def split: option.split)
  qed
  ultimately show ?thesis by simp
qed

lemma fragility_total_witness:
  "let deps = [\<lparr>ed_id = ''p'', ed_evidence_ids = [''a''], ed_dimension = ''liquidity'',
        ed_score = Some (Fin 75), ed_claims = [], ed_verified = True\<rparr>]
   in \<exists>f. analyze_fragility deps None FLAG default_assurance_policy [] = Inr f"
proof -
  let ?deps = "[\<lparr>ed_id = ''p'', ed_evidence_ids = [''a''], ed_dimension = ''liquidity'',
        ed_score = Some (Fin 75), ed_claims = [], ed_verified = True\<rparr>]"
  have "scores_in_range ?deps" "fusion_policy_ok []" by code_simp+
  then show ?thesis using fragility_total[of ?deps "[]"] by simp
qed

end
