(* ===== verification/Shift.thy ===== *)
theory Shift
  imports Evidence
begin

text \<open>
  Distribution validity (\<open>assurance/shift.py\<close> and the vectors of \<open>assurance/domain.py\<close>): the
  financial values are separated from their availability, and both are compared with the
  frozen bounds of a reference profile. \<open>casefold\<close> is ASCII lower case; an integer beyond the
  range of a float, on which \<open>float()\<close> raises \<open>OverflowError\<close>, is read as an infinity.
\<close>

section \<open>Data\<close>

type_synonym financial_vector = "(string, pyfloat option) dict"
type_synonym observability_vector = "(string, bool) dict"

record reference_profile =
  rp_name :: string
  rp_version :: string
  rp_scope :: string
  rp_feature_bounds :: "(string, pyfloat \<times> pyfloat) dict"
  rp_allowed_sectors :: "string list"
  rp_required_features :: "string list"
  rp_minimum_availability :: "pyfloat option"
  rp_maximum_outside :: pyfloat

record distribution_validity =
  dv_state :: distribution_state
  dv_name :: "string option"
  dv_version :: "string option"
  dv_scope :: "string option"
  dv_evaluated :: nat
  dv_outside :: nat
  dv_availability :: "pyfloat option"
  dv_diagnostics :: "string list"

definition availability_rate :: "observability_vector \<Rightarrow> pyfloat option" where
  "availability_rate a = (if a = [] then None
     else Some (int_div (int (length (filter snd a))) (int (length a))))"

section \<open>The reference artifact\<close>

text \<open>The integrity check of \<open>load_reference_profile\<close> on the decoded document: the recorded
  hash covers everything but itself, and the scope is one of the two supported ones.\<close>

definition check_reference_artifact :: "digest \<Rightarrow> obj \<Rightarrow> unit result" where
  "check_reference_artifact H payload =
     (let recorded = get payload ''artifact_hash'';
          rest = filter (\<lambda>(k, _). k \<noteq> ''artifact_hash'') payload;
          scope = get rest ''scope''
      in if recorded \<noteq> VStr (canonical_hash H (VDict rest))
         then Inl (ValueError ''reference profile artifact hash verification failed'')
         else if scope \<noteq> VStr ''DEVELOPMENT_REFERENCE_ONLY'' \<and> scope \<noteq> VStr ''VALIDATED_EXTERNAL''
         then Inl (ValueError ''reference profile scope is missing or unsupported'')
         else Inr ())"

section \<open>Features and availability\<close>

definition financial_value :: "pyval \<Rightarrow> pyfloat option" where
  "financial_value v = (if is_bool v then None else to_float v)"

definition separate_features :: "obj \<Rightarrow> string list \<Rightarrow> financial_vector \<times> observability_vector" where
  "separate_features values expected =
     (map (\<lambda>(k, v). (k, financial_value v)) values,
      map (\<lambda>k. (k, get values k \<noteq> VNone)) (sorted_set (expected @ map fst values)))"

section \<open>Assessment\<close>

definition feature_value :: "financial_vector \<Rightarrow> string \<Rightarrow> pyfloat option" where
  "feature_value f k = dict_get f k None"

definition outside_bounds :: "pyfloat \<Rightarrow> pyfloat \<Rightarrow> pyfloat \<Rightarrow> bool" where
  "outside_bounds lo hi x = (\<not> is_finite x \<or> flt x lo \<or> flt hi x)"

definition evaluated_features :: "financial_vector \<Rightarrow> reference_profile \<Rightarrow> (string \<times> bool) list" where
  "evaluated_features f r = List.map_filter (\<lambda>(name, lo, hi).
     map_option (\<lambda>x. (name, outside_bounds lo hi x)) (feature_value f name))
     (sort_key fst (rp_feature_bounds r))"

definition missing_required :: "financial_vector \<Rightarrow> reference_profile \<Rightarrow> string list" where
  "missing_required f r = sort (filter (\<lambda>name. feature_value f name = None) (rp_required_features r))"

definition sector_outside :: "string option \<Rightarrow> reference_profile \<Rightarrow> bool" where
  "sector_outside sector r = (rp_allowed_sectors r \<noteq> [] \<and>
     lower (case sector of None \<Rightarrow> [] | Some s \<Rightarrow> s) \<notin> set (map lower (rp_allowed_sectors r)))"

definition availability_outside :: "observability_vector \<Rightarrow> reference_profile \<Rightarrow> bool" where
  "availability_outside a r = (case (rp_minimum_availability r, availability_rate a) of
     (Some m, Some x) \<Rightarrow> flt x m | _ \<Rightarrow> False)"

definition assess_distribution_validity :: "financial_vector \<Rightarrow> observability_vector
    \<Rightarrow> string option \<Rightarrow> reference_profile option \<Rightarrow> distribution_validity" where
  "assess_distribution_validity f a sector reference = (case reference of
     None \<Rightarrow> \<lparr>dv_state = DIST_UNKNOWN, dv_name = None, dv_version = None, dv_scope = None,
       dv_evaluated = 0, dv_outside = 0, dv_availability = availability_rate a,
       dv_diagnostics = [''No frozen development or validation reference profile was supplied.'']\<rparr>
   | Some r \<Rightarrow>
     (let rows = evaluated_features f r;
          evaluated = length rows;
          outs = map fst (filter snd rows);
          outside = length outs;
          missing = missing_required f r;
          fraction = (if evaluated = 0 then Fin 0 else int_div (int outside) (int evaluated));
          notes = map (\<lambda>name. name @ '' lies outside the frozen reference bounds'') outs
            @ (if missing = [] then [] else
                [str_int (int (length missing)) @ '' required reference feature(s) are unavailable''])
            @ (if sector_outside sector r then [''sector is outside the frozen reference population''] else [])
            @ (if availability_outside a r then [''reporting availability is below the reference floor''] else []);
          (state, extra) =
            (if sector_outside sector r \<or> flt (rp_maximum_outside r) fraction then (OUTSIDE_REFERENCE, [])
             else if availability_outside a r \<or> outside \<noteq> 0 \<or> missing \<noteq> [] then (WARNING, [])
             else if evaluated = 0 \<and> rp_feature_bounds r \<noteq> []
               then (DIST_UNKNOWN, [''No reference feature could be evaluated.''])
             else (IN_REFERENCE, []))
      in \<lparr>dv_state = state, dv_name = Some (rp_name r), dv_version = Some (rp_version r),
          dv_scope = Some (rp_scope r), dv_evaluated = evaluated, dv_outside = outside,
          dv_availability = availability_rate a, dv_diagnostics = notes @ extra\<rparr>))"

section \<open>Laws\<close>

lemma availability_bounds:
  "availability_rate a = Some x \<Longrightarrow> is_finite x \<and> fle (Fin 0) x \<and> fle x (Fin 1)"
proof -
  assume "availability_rate a = Some x"
  then have x: "x = coverage_of (length (filter snd a)) (length a)"
    by (auto simp: availability_rate_def coverage_of_def split: if_splits)
  show ?thesis unfolding x by (simp add: coverage_nonneg coverage_le_1 coverage_finite)
qed

lemma outside_le_evaluated:
  "dv_outside (assess_distribution_validity f a s r) \<le> dv_evaluated (assess_distribution_validity f a s r)"
  by (auto simp: assess_distribution_validity_def Let_def case_prod_beta split: option.split)

lemma map_filter_set: "y \<in> set (List.map_filter g xs) \<longleftrightarrow> (\<exists>x\<in>set xs. g x = Some y)"
  by (force simp: List.map_filter_def)

lemma evaluated_iff:
  "(name, out) \<in> set (evaluated_features f r) \<longleftrightarrow>
    (\<exists>lo hi x. (name, lo, hi) \<in> set (rp_feature_bounds r) \<and>
       feature_value f name = Some x \<and> out = outside_bounds lo hi x)"
proof
  assume "\<exists>lo hi x. (name, lo, hi) \<in> set (rp_feature_bounds r) \<and>
       feature_value f name = Some x \<and> out = outside_bounds lo hi x"
  then obtain lo hi x where "(name, lo, hi) \<in> set (rp_feature_bounds r)"
    "feature_value f name = Some x" "out = outside_bounds lo hi x" by blast
  then show "(name, out) \<in> set (evaluated_features f r)"
    unfolding evaluated_features_def map_filter_set by (intro bexI[of _ "(name, lo, hi)"]) simp_all
qed (auto simp: evaluated_features_def map_filter_set)

lemma no_outside_iff:
  "filter snd (evaluated_features f r) = [] \<longleftrightarrow>
    (\<forall>name lo hi x. (name, lo, hi) \<in> set (rp_feature_bounds r) \<and> feature_value f name = Some x \<longrightarrow>
       \<not> outside_bounds lo hi x)"
proof -
  have "filter snd (evaluated_features f r) = [] \<longleftrightarrow>
      (\<forall>name out. (name, out) \<in> set (evaluated_features f r) \<longrightarrow> \<not> out)"
    by (force simp only: filter_empty_conv snd_conv split_paired_all)
  then show ?thesis unfolding evaluated_iff by blast
qed

lemma no_evaluated_iff:
  "evaluated_features f r = [] \<longleftrightarrow>
    (\<forall>name lo hi. (name, lo, hi) \<in> set (rp_feature_bounds r) \<longrightarrow> feature_value f name = None)"
proof -
  have "evaluated_features f r = [] \<longleftrightarrow> (\<forall>name out. (name, out) \<notin> set (evaluated_features f r))"
    by (metis list.set_intros(1) list.exhaust list.set(1) empty_iff surj_pair)
  then show ?thesis unfolding evaluated_iff by (metis not_None_eq)
qed

section \<open>Properties\<close>

text \<open>C30: an assessment says \<open>IN_REFERENCE\<close> exactly when a reference was supplied, the sector
  belongs to it, every supplied feature is finite and inside its frozen bounds, every
  required feature is supplied, the reporting availability reaches the floor, at least one
  bounded feature was supplied if there is any, and the reference tolerates a zero fraction
  of outliers.\<close>

theorem in_reference_iff:
  "dv_state (assess_distribution_validity f a sector reference) = IN_REFERENCE \<longleftrightarrow>
    (\<exists>r. reference = Some r \<and> \<not> sector_outside sector r \<and>
       (\<forall>name lo hi x. (name, lo, hi) \<in> set (rp_feature_bounds r) \<and> feature_value f name = Some x \<longrightarrow>
          \<not> outside_bounds lo hi x) \<and>
       (\<forall>name\<in>set (rp_required_features r). feature_value f name \<noteq> None) \<and>
       \<not> availability_outside a r \<and>
       (rp_feature_bounds r = [] \<or> (\<exists>name lo hi. (name, lo, hi) \<in> set (rp_feature_bounds r) \<and> feature_value f name \<noteq> None)) \<and>
       \<not> flt (rp_maximum_outside r) (Fin 0))"
proof (cases reference)
  case (Some r)
  have frac: "(if length (evaluated_features f r) = 0 then Fin 0
      else int_div 0 (int (length (evaluated_features f r)))) = Fin 0"
    using fl_int[of 0] by (simp add: int_div_def)
  have miss: "missing_required f r = [] \<longleftrightarrow> (\<forall>name\<in>set (rp_required_features r). feature_value f name \<noteq> None)"
    unfolding missing_required_def by (metis (mono_tags, lifting) filter_empty_conv set_empty set_sort)
  have "dv_state (assess_distribution_validity f a sector reference) = IN_REFERENCE \<longleftrightarrow>
      \<not> sector_outside sector r \<and> filter snd (evaluated_features f r) = [] \<and>
      missing_required f r = [] \<and> \<not> availability_outside a r \<and>
      (rp_feature_bounds r = [] \<or> evaluated_features f r \<noteq> []) \<and> \<not> flt (rp_maximum_outside r) (Fin 0)"
    using frac Some
    by (cases "filter snd (evaluated_features f r) = []")
      (auto simp: assess_distribution_validity_def Let_def split: if_splits)
  also have "\<dots> \<longleftrightarrow> \<not> sector_outside sector r \<and>
       (\<forall>name lo hi x. (name, lo, hi) \<in> set (rp_feature_bounds r) \<and> feature_value f name = Some x \<longrightarrow>
          \<not> outside_bounds lo hi x) \<and>
       (\<forall>name\<in>set (rp_required_features r). feature_value f name \<noteq> None) \<and>
       \<not> availability_outside a r \<and>
       (rp_feature_bounds r = [] \<or> (\<exists>name lo hi. (name, lo, hi) \<in> set (rp_feature_bounds r) \<and> feature_value f name \<noteq> None)) \<and>
       \<not> flt (rp_maximum_outside r) (Fin 0)"
    unfolding no_outside_iff no_evaluated_iff miss by (metis list.set_intros(1) list.set_cases prod_cases3 list.exhaust empty_iff list.set(1))
  finally show ?thesis using Some by simp
qed (simp add: assess_distribution_validity_def)

lemma lower_tech: "lower ''Tech'' = lower ''tech''"
  by code_simp

lemma in_reference_iff_witness:
  "dv_state (assess_distribution_validity [(''leverage'', Some (Fin 2))] [] (Some ''Tech'')
     (Some \<lparr>rp_name = ''n'', rp_version = ''v'', rp_scope = ''s'',
        rp_feature_bounds = [(''leverage'', Fin 0, Fin 5)], rp_allowed_sectors = [''tech''],
        rp_required_features = [''leverage''], rp_minimum_availability = None,
        rp_maximum_outside = Fin (1/8)\<rparr>)) = IN_REFERENCE"
proof -
  have "\<not> sector_outside (Some ''Tech'') r" if "rp_allowed_sectors r = [''tech'']" for r
    using that unfolding sector_outside_def by (simp add: lower_tech)
  then show ?thesis unfolding in_reference_iff
    by (simp add: feature_value_def dict_get_def outside_bounds_def availability_outside_def flt_def)
qed

text \<open>a missing value is never read as a financial value. In the separated vectors a
  feature is available exactly when the source has a value for it, every expected feature
  has an entry, and a value that is absent, boolean or not a number carries no financial
  reading.\<close>

theorem separation_sound:
  assumes "wf_dict values"
  shows "wf_dict (snd (separate_features values expected)) \<and>
    fst ` set (snd (separate_features values expected)) = set expected \<union> fst ` set values \<and>
    (\<forall>(k, b)\<in>set (snd (separate_features values expected)). b = (get values k \<noteq> VNone)) \<and>
    (\<forall>k x. feature_value (fst (separate_features values expected)) k = Some x \<longrightarrow>
       get values k = VFloat x \<or> (\<exists>i. get values k = VInt i \<and> x = fl (of_int i)))"
proof -
  let ?f = "fst (separate_features values expected)" and ?o = "snd (separate_features values expected)"
  have wf: "wf_dict ?o" by (simp add: separate_features_def wf_dict_def comp_def)
  have keys: "fst ` set ?o = set expected \<union> fst ` set values"
    by (simp add: separate_features_def image_image)
  have avail: "\<forall>(k, b)\<in>set ?o. b = (get values k \<noteq> VNone)" by (auto simp: separate_features_def)
  have reading: "feature_value ?f k = (case map_of values k of None \<Rightarrow> None | Some v \<Rightarrow> financial_value v)" for k
    unfolding separate_features_def fst_conv feature_value_def dict_get_def map_of_map
    by (cases "map_of values k") simp_all
  have "v = VFloat x \<or> (\<exists>i. v = VInt i \<and> x = fl (of_int i))" if "financial_value v = Some x" for v x
    using that by (cases v) (auto simp: financial_value_def)
  then have "\<forall>k x. feature_value ?f k = Some x \<longrightarrow>
      get values k = VFloat x \<or> (\<exists>i. get values k = VInt i \<and> x = fl (of_int i))"
    unfolding reading get_def dict_get_def by (simp split: option.split)
  then show ?thesis using wf keys avail by blast
qed

lemma separation_sound_witness:
  "wf_dict (snd (separate_features [(''a'', VInt 3), (''b'', VNone)] [''c'']))"
  using separation_sound[of "[(''a'', VInt 3), (''b'', VNone)]" "[''c'']"] by simp

end
