(* ===== verification/Engine.thy ===== *)
theory Engine
  imports Fragility Shift
begin

text \<open>
  The assurance engine (\<open>assurance/engine.py\<close>, \<open>assurance/semantics.py\<close> and the result
  records of \<open>assurance/domain.py\<close>). \<open>evaluate\<close> issues the final decision,
  \<open>verify_assurance_payload\<close> decides whether a serialised result may be published, and
  \<open>authorized_final_decision\<close> is the publication boundary. Exceptions that the verifier
  catches are its answer \<open>False\<close>, so the checks are predicates that are false on values of
  the wrong type.
\<close>

section \<open>Input and result\<close>

record assurance_input =
  ai_proposed :: string
  ai_score :: "pyfloat option"
  ai_paths :: "pyval list"
  ai_financial :: financial_vector
  ai_observability :: observability_vector
  ai_sector :: "string option"
  ai_disagreement :: pyfloat
  ai_calibration :: calibration_status
  ai_reliability :: "pyfloat option"
  ai_reference :: "reference_profile option"
  ai_failures :: "string list"
  ai_fusion_policy :: policy

record assurance_diagnostics =
  ad_blockers :: "string list"
  ad_failures :: "string list"
  ad_reliability :: "pyfloat option"

record assurance_result =
  ar_proposed :: decision
  ar_final :: decision
  ar_automation :: bool
  ar_status :: assurance_status
  ar_evidence :: evidence_assurance
  ar_fragility :: evidence_fragility
  ar_distribution :: distribution_validity
  ar_sufficient :: sufficient_evidence
  ar_policy_status :: policy_maturity
  ar_calibration :: calibration_status
  ar_reasons :: "string list"
  ar_policy_version :: string
  ar_policy_hash :: string
  ar_certificate_hash :: string
  ar_diagnostics :: assurance_diagnostics

section \<open>Serialisation\<close>

definition vstrs :: "string list \<Rightarrow> pyval" where
  "vstrs xs = VList (map VStr xs)"

definition vnat :: "nat \<Rightarrow> pyval" where
  "vnat n = VInt (int n)"

definition vopt :: "('a \<Rightarrow> pyval) \<Rightarrow> 'a option \<Rightarrow> pyval" where
  "vopt f x = (case x of None \<Rightarrow> VNone | Some y \<Rightarrow> f y)"

definition evidence_to_dict :: "evidence_assurance \<Rightarrow> pyval" where
  "evidence_to_dict e = VDict [
     (''state'', VStr (evidence_state_value (ea_state e))),
     (''material_path_count'', vnat (ea_material e)),
     (''verified_path_count'', vnat (ea_verified e)),
     (''coverage'', VFloat (ea_coverage e)),
     (''verified_evidence_ids'', vstrs (ea_evidence_ids e)),
     (''supported_claims'', vstrs (ea_claims e)),
     (''diagnostics'', vstrs (ea_diagnostics e))]"

definition ablation_to_dict :: "ablation \<Rightarrow> pyval" where
  "ablation_to_dict a = VDict [
     (''evidence_id'', VStr (ab_evidence_id a)),
     (''score_delta'', vopt VFloat (ab_score_delta a)),
     (''severity_change'', VBool (ab_severity_change a)),
     (''proposed_decision_change'', VBool (ab_decision_change a)),
     (''final_decision_impact'', VBool (ab_final_impact a)),
     (''recomputed_proposed_decision'', VStr (decision_value (ab_recomputed a))),
     (''affected_dimensions'', vstrs (ab_dimensions a)),
     (''affected_claims'', vstrs (ab_claims a))]"

definition fragility_to_dict :: "evidence_fragility \<Rightarrow> pyval" where
  "fragility_to_dict f = VDict [
     (''state'', VStr (fragility_state_value (ef_state f))),
     (''largest_single_evidence_impact'', vopt VFloat (ef_largest f)),
     (''decision_flip_count'', vnat (ef_flip_count f)),
     (''decision_flip_rate'', vopt VFloat (ef_flip_rate f)),
     (''severity_change_count'', vnat (ef_severity_count f)),
     (''affected_dimensions'', vstrs (ef_dimensions f)),
     (''affected_claims'', vstrs (ef_claims f)),
     (''ablations'', VList (map ablation_to_dict (ef_ablations f)))]"

definition distribution_to_dict :: "distribution_validity \<Rightarrow> pyval" where
  "distribution_to_dict d = VDict [
     (''state'', VStr (distribution_state_value (dv_state d))),
     (''reference_name'', vopt VStr (dv_name d)),
     (''reference_version'', vopt VStr (dv_version d)),
     (''reference_scope'', vopt VStr (dv_scope d)),
     (''evaluated_feature_count'', vnat (dv_evaluated d)),
     (''outside_feature_count'', vnat (dv_outside d)),
     (''reporting_availability_rate'', vopt VFloat (dv_availability d)),
     (''diagnostics'', vstrs (dv_diagnostics d))]"

definition sufficient_to_dict :: "sufficient_evidence \<Rightarrow> pyval" where
  "sufficient_to_dict s = VDict [
     (''evidence_ids'', vstrs (se_evidence_ids s)),
     (''method'', VStr (method_value (se_method s))),
     (''exact'', VBool (se_exact s)),
     (''preserves_proposed_decision'', VBool (se_preserves s)),
     (''evaluated_subsets'', vnat (se_evaluated s)),
     (''baseline_decision'', VStr (decision_value (se_baseline s)))]"

definition diagnostics_to_dict :: "assurance_diagnostics \<Rightarrow> pyval" where
  "diagnostics_to_dict d = VDict [
     (''authorization_blockers'', vstrs (ad_blockers d)),
     (''runtime_failures'', vstrs (ad_failures d)),
     (''reliability'', vopt VFloat (ad_reliability d)),
     (''probability'', VNone)]"

definition authorization_content :: "assurance_result \<Rightarrow> obj" where
  "authorization_content r = [
     (''proposed_decision'', VStr (decision_value (ar_proposed r))),
     (''final_decision'', VStr (decision_value (ar_final r))),
     (''automation_allowed'', VBool (ar_automation r)),
     (''assurance_status'', VStr (status_value (ar_status r))),
     (''evidence_assurance'', evidence_to_dict (ar_evidence r)),
     (''evidence_fragility'', fragility_to_dict (ar_fragility r)),
     (''distribution_validity'', distribution_to_dict (ar_distribution r)),
     (''decision_sufficient_evidence'', sufficient_to_dict (ar_sufficient r)),
     (''policy_status'', VStr (maturity_value (ar_policy_status r))),
     (''calibration_status'', VStr (calibration_value (ar_calibration r))),
     (''reason_codes'', vstrs (ar_reasons r)),
     (''policy_version'', VStr (ar_policy_version r)),
     (''policy_hash'', VStr (ar_policy_hash r)),
     (''diagnostics'', diagnostics_to_dict (ar_diagnostics r))]"

definition result_to_dict :: "assurance_result \<Rightarrow> pyval" where
  "result_to_dict r = VDict (authorization_content r @ [(''certificate_hash'', VStr (ar_certificate_hash r))])"

section \<open>Evaluation\<close>

text \<open>The findings of one aspect: the reason codes and the blockers it contributes.\<close>

type_synonym findings = "string list \<times> string list"

definition evidence_findings :: "evidence_assurance \<Rightarrow> findings \<times> bool" where
  "evidence_findings e =
     (if ea_state e = EV_INSUFFICIENT \<or> ea_state e = EV_UNKNOWN
      then (([''INSUFFICIENT_VERIFIED_EVIDENCE''], [''evidence'']), ea_verified e = 0)
      else if ea_state e = EV_PARTIAL
      then (([''INSUFFICIENT_VERIFIED_EVIDENCE''], [''evidence'']), False)
      else (([], []), False))"

definition fragility_findings :: "assurance_policy \<Rightarrow> evidence_fragility \<Rightarrow> findings" where
  "fragility_findings p f =
     (if ef_state f = FRAGILE then ([''EVIDENCE_FRAGILITY_HIGH''], [''fragility''])
      else if ef_state f = FR_NOT_ESTIMABLE \<and> ap_review_on_fragility_not_estimable p
      then ([''EVIDENCE_FRAGILITY_NOT_ESTIMABLE''], [''fragility_unknown''])
      else ([], []))"

definition distribution_findings :: "assurance_policy \<Rightarrow> distribution_validity \<Rightarrow> findings" where
  "distribution_findings p d =
     (if dv_state d = OUTSIDE_REFERENCE then ([''OUTSIDE_VALIDATED_DISTRIBUTION''], [''distribution''])
      else if dv_state d = DIST_UNKNOWN \<and> ap_require_distribution_reference p
      then ([''DISTRIBUTION_VALIDITY_UNKNOWN''],
            if ap_review_on_unknown_distribution p then [''distribution_unknown''] else [])
      else if dv_state d = WARNING
      then ([''REPORTING_OBSERVABILITY_ANOMALY''], [''distribution_warning''])
      else ([], []))"

definition disagreement_findings :: "assurance_policy \<Rightarrow> pyfloat \<Rightarrow> findings" where
  "disagreement_findings p x =
     (if fle (ap_maximum_disagreement p) x then ([''HIGH_MODEL_DISAGREEMENT''], [''disagreement''])
      else ([], []))"

definition blocking_failures :: "string list" where
  "blocking_failures = [''parser_failure'', ''stale_data'', ''missing_evidence'']"

definition failure_findings :: "string list \<Rightarrow> findings \<times> bool" where
  "failure_findings failures =
     (if failures \<noteq> [] then (([''RUNTIME_FAILURE_REQUIRES_REVIEW''], [''runtime_failure'']),
        list_ex (\<lambda>name. name \<in> set blocking_failures) failures)
      else (([], []), False))"

definition calibration_reasons :: "assurance_policy \<Rightarrow> calibration_status \<Rightarrow> string list" where
  "calibration_reasons p c =
     (if c = UNCALIBRATED then [''ASSURANCE_POLICY_UNCALIBRATED'']
      else if ap_maturity p = HEURISTIC_POLICY then [''CALIBRATION_SCOPE_MISMATCH''] else [])"

definition final_decision :: "decision \<Rightarrow> bool \<Rightarrow> string list \<Rightarrow> decision" where
  "final_decision proposed abstain blockers =
     (if proposed = ABSTAIN then ABSTAIN else if abstain then ABSTAIN
      else if blockers \<noteq> [] then REVIEW else proposed)"

definition automation :: "assurance_policy \<Rightarrow> calibration_status \<Rightarrow> string list \<Rightarrow> decision \<Rightarrow> bool" where
  "automation p c blockers final =
     (blockers = [] \<and> (final = PASS \<or> final = FLAG) \<and>
      (ap_maturity p = MATURE_INTERNAL \<or> ap_maturity p = MATURE_EXTERNAL) \<and>
      ((c = CALIBRATED_INTERNAL \<or> c = VALIDATED_EXTERNAL) \<or> \<not> ap_require_calibration_for_automation p))"

definition status_of :: "decision \<Rightarrow> decision \<Rightarrow> bool \<Rightarrow> assurance_status" where
  "status_of proposed final automated =
     (if final \<noteq> proposed then FAILED else if automated then PASSED else RESTRICTED)"

definition issue :: "digest \<Rightarrow> assurance_policy \<Rightarrow> assurance_input \<Rightarrow> decision
    \<Rightarrow> evidence_assurance \<Rightarrow> evidence_fragility \<Rightarrow> sufficient_evidence \<Rightarrow> distribution_validity
    \<Rightarrow> assurance_result" where
  "issue H p x proposed evidence fragility sufficient distribution =
     (let ((r1, b1), a1) = evidence_findings evidence;
          (r2, b2) = fragility_findings p fragility;
          (r3, b3) = distribution_findings p distribution;
          (r4, b4) = disagreement_findings p (ai_disagreement x);
          ((r5, b5), a2) = failure_findings (ai_failures x);
          blockers = b1 @ b2 @ b3 @ b4 @ b5;
          final = final_decision proposed (a1 \<or> a2) blockers;
          reasons = r1 @ r2 @ r3 @ r4 @ r5 @ calibration_reasons p (ai_calibration x)
            @ (if proposed = ABSTAIN then [''PROPOSED_DECISION_WITHHELD''] else []);
          automated = automation p (ai_calibration x) blockers final;
          calibrated = (ai_calibration x = CALIBRATED_INTERNAL \<or> ai_calibration x = VALIDATED_EXTERNAL);
          r = \<lparr>ar_proposed = proposed, ar_final = final, ar_automation = automated,
               ar_status = status_of proposed final automated, ar_evidence = evidence,
               ar_fragility = fragility, ar_distribution = distribution, ar_sufficient = sufficient,
               ar_policy_status = ap_maturity p, ar_calibration = ai_calibration x,
               ar_reasons = dedup reasons, ar_policy_version = ap_version p,
               ar_policy_hash = policy_hash H p, ar_certificate_hash = [],
               ar_diagnostics = \<lparr>ad_blockers = blockers, ad_failures = ai_failures x,
                 ad_reliability = (if calibrated then ai_reliability x else None)\<rparr>\<rparr>
      in r\<lparr>ar_certificate_hash := canonical_hash H (VDict (authorization_content r))\<rparr>)"

definition evaluate :: "digest \<Rightarrow> assurance_policy \<Rightarrow> assurance_input \<Rightarrow> assurance_result result" where
  "evaluate H p x = (case parse_decision (ai_proposed x) of
     None \<Rightarrow> Inl (ValueError ''Decision'')
   | Some proposed \<Rightarrow>
      (let evidence = assess_evidence H (ai_paths x) (ap_minimum_verified_coverage p) [];
           deps = dependencies_from_paths H (ai_paths x)
       in bind_result (analyze_fragility deps (ai_score x) proposed p (ai_fusion_policy x)) (\<lambda>fragility.
          bind_result (decision_sufficient_evidence deps proposed p (ai_fusion_policy x)) (\<lambda>sufficient.
            let distribution = assess_distribution_validity (ai_financial x) (ai_observability x)
                  (ai_sector x) (ai_reference x)
            in Inr (issue H p x proposed evidence fragility sufficient distribution)))))"

section \<open>Verification of a serialised result: \<open>semantics.py\<close>\<close>

definition shape :: "pyval \<Rightarrow> string list \<Rightarrow> bool" where
  "shape v names = (is_dict v \<and> set (map fst (items v)) = set names)"

definition is_count :: "pyval \<Rightarrow> bool" where
  "is_count v = (case v of VInt i \<Rightarrow> 0 \<le> i | _ \<Rightarrow> False)"

definition is_number :: "pyval \<Rightarrow> bool" where
  "is_number v = (case v of VInt i \<Rightarrow> is_finite (fl (of_int i)) | VFloat x \<Rightarrow> is_finite x | _ \<Rightarrow> False)"

fun str_of :: "pyval \<Rightarrow> string" where
  "str_of (VStr s) = s"
| "str_of _ = []"

definition strs_of :: "pyval \<Rightarrow> string list" where
  "strs_of v = map str_of (elems v)"

definition is_strings :: "pyval \<Rightarrow> bool" where
  "is_strings v = (is_list v \<and> list_all (\<lambda>x. is_str x \<and> truthy x) (elems v))"

definition is_ordered_strings :: "pyval \<Rightarrow> bool" where
  "is_ordered_strings v = (is_strings v \<and> strs_of v = sorted_set (strs_of v))"

definition evidence_fields :: "string list" where
  "evidence_fields = [''state'', ''material_path_count'', ''verified_path_count'', ''coverage'',
     ''verified_evidence_ids'', ''supported_claims'', ''diagnostics'']"

definition fragility_fields :: "string list" where
  "fragility_fields = [''state'', ''largest_single_evidence_impact'', ''decision_flip_count'',
     ''decision_flip_rate'', ''severity_change_count'', ''affected_dimensions'', ''affected_claims'',
     ''ablations'']"

definition distribution_fields :: "string list" where
  "distribution_fields = [''state'', ''reference_name'', ''reference_version'', ''reference_scope'',
     ''evaluated_feature_count'', ''outside_feature_count'', ''reporting_availability_rate'', ''diagnostics'']"

definition sufficient_fields :: "string list" where
  "sufficient_fields = [''evidence_ids'', ''method'', ''exact'', ''preserves_proposed_decision'',
     ''evaluated_subsets'', ''baseline_decision'']"

definition diagnostics_fields :: "string list" where
  "diagnostics_fields = [''authorization_blockers'', ''runtime_failures'', ''reliability'', ''probability'']"

definition ablation_fields :: "string list" where
  "ablation_fields = [''evidence_id'', ''score_delta'', ''severity_change'', ''proposed_decision_change'',
     ''final_decision_impact'', ''recomputed_proposed_decision'', ''affected_dimensions'', ''affected_claims'']"

definition diagnostics_ok :: "pyval \<Rightarrow> bool" where
  "diagnostics_ok v = (let d = vget v ''diagnostics'' in
     shape d diagnostics_fields \<and> vget d ''probability'' = VNone \<and>
     (vget d ''reliability'' = VNone \<or> is_number (vget d ''reliability'')) \<and>
     is_strings (vget d ''runtime_failures'') \<and> is_strings (vget d ''authorization_blockers'') \<and>
     is_strings (vget v ''reason_codes''))"

definition evidence_ok :: "pyval \<Rightarrow> bool" where
  "evidence_ok e = (shape e evidence_fields \<and>
     is_ordered_strings (vget e ''verified_evidence_ids'') \<and>
     is_ordered_strings (vget e ''supported_claims'') \<and>
     is_strings (vget e ''diagnostics'') \<and>
     \<not> (veq (vget e ''verified_path_count'') (VInt 0) \<and>
        (truthy (vget e ''verified_evidence_ids'') \<or> truthy (vget e ''supported_claims''))) \<and>
     \<not> (truthy (vget e ''verified_path_count'') \<and> \<not> truthy (vget e ''verified_evidence_ids'')))"

definition ablation_ok :: "pyval \<Rightarrow> nat \<Rightarrow> string \<Rightarrow> pyval \<Rightarrow> bool" where
  "ablation_ok proposed n node row =
     (shape row ablation_fields \<and> vget row ''evidence_id'' = VStr node \<and>
      \<not> (n = 1 \<and> (vget row ''recomputed_proposed_decision'' \<noteq> VStr ''ABSTAIN'' \<or>
                   vget row ''score_delta'' \<noteq> VNone)) \<and>
      (vget row ''score_delta'' = VNone \<or> is_number (vget row ''score_delta'')) \<and>
      is_bool (vget row ''severity_change'') \<and> is_bool (vget row ''proposed_decision_change'') \<and>
      is_bool (vget row ''final_decision_impact'') \<and>
      vget row ''recomputed_proposed_decision'' \<in>
        set [VStr ''PASS'', VStr ''FLAG'', VStr ''REVIEW'', VStr ''ABSTAIN''] \<and>
      vget row ''proposed_decision_change'' = VBool (vget row ''recomputed_proposed_decision'' \<noteq> proposed) \<and>
      vget row ''final_decision_impact'' = vget row ''proposed_decision_change'' \<and>
      is_ordered_strings (vget row ''affected_dimensions'') \<and>
      is_ordered_strings (vget row ''affected_claims''))"

definition row_impacts :: "pyval list \<Rightarrow> pyfloat list" where
  "row_impacts rows = map fabs (List.map_filter (\<lambda>row. num (vget row ''score_delta'')) rows)"

definition matches_float :: "pyval \<Rightarrow> pyfloat option \<Rightarrow> bool" where
  "matches_float v x = (veq v (vopt VFloat x) \<and> (v = VNone \<or> is_number v))"

definition row_count :: "string \<Rightarrow> pyval list \<Rightarrow> int" where
  "row_count k rows = int (length (filter (\<lambda>row. vget row k = VBool True) rows))"

definition aggregates_ok :: "pyval \<Rightarrow> pyval list \<Rightarrow> nat \<Rightarrow> bool" where
  "aggregates_ok f rows n =
     (is_count (vget f ''decision_flip_count'') \<and>
      vget f ''decision_flip_count'' = VInt (row_count ''proposed_decision_change'' rows) \<and>
      is_count (vget f ''severity_change_count'') \<and>
      vget f ''severity_change_count'' = VInt (row_count ''severity_change'' rows) \<and>
      matches_float (vget f ''decision_flip_rate'')
        (if n = 0 then None else Some (pround 6 (int_div (row_count ''proposed_decision_change'' rows) (int n)))) \<and>
      matches_float (vget f ''largest_single_evidence_impact'')
        (if row_impacts rows = [] then None else Some (pymax_list (row_impacts rows))) \<and>
      list_all (\<lambda>k. is_ordered_strings (vget f k) \<and>
          strs_of (vget f k) = sorted_set (concat (map (\<lambda>row. strs_of (vget row k)) rows)))
        [''affected_dimensions'', ''affected_claims''])"

definition fragility_state_ok :: "pyval \<Rightarrow> nat \<Rightarrow> assurance_policy option \<Rightarrow> bool" where
  "fragility_state_ok f n policy =
     (let flips = truthy (vget f ''decision_flip_count''); impact = num (vget f ''largest_single_evidence_impact'')
      in if n = 0 then vget f ''state'' = VStr ''NOT_ESTIMABLE''
         else case policy of
           Some p \<Rightarrow> vget f ''state'' = VStr (if flips \<or> reaches impact (ap_fragile_score_delta p) then ''FRAGILE''
             else if reaches impact (ap_sensitive_score_delta p) then ''SENSITIVE'' else ''STABLE'')
         | None \<Rightarrow> \<not> (vget f ''state'' = VStr ''NOT_ESTIMABLE'' \<or> (flips \<and> vget f ''state'' \<noteq> VStr ''FRAGILE'')))"

definition sufficient_ok :: "pyval \<Rightarrow> pyval \<Rightarrow> string list \<Rightarrow> assurance_policy option \<Rightarrow> bool" where
  "sufficient_ok s proposed nodes policy =
     (let ids = vget s ''evidence_ids''; exact = vget s ''exact'';
          preserves = vget s ''preserves_proposed_decision''; n = length nodes
      in is_ordered_strings ids \<and> set (strs_of ids) \<subseteq> set nodes \<and> is_bool exact \<and> is_bool preserves \<and>
         is_count (vget s ''evaluated_subsets'') \<and> vget s ''baseline_decision'' = proposed \<and>
         (case vget s ''evaluated_subsets'' of VInt evaluations \<Rightarrow>
           (case parse_method (str_of (vget s ''method'')) of None \<Rightarrow> False | Some method \<Rightarrow>
             if n = 0 then method = SM_NOT_ESTIMABLE \<and> \<not> truthy exact \<and> \<not> truthy preserves \<and>
               \<not> truthy ids \<and> evaluations = 0
             else method \<noteq> SM_NOT_ESTIMABLE \<and> truthy ids \<and> evaluations \<noteq> 0 \<and>
               exact = VBool (method = EXACT) \<and>
               (case policy of None \<Rightarrow> True
                | Some p \<Rightarrow> (method = EXACT) = (int n \<le> ap_maximum_fragility_nodes_exact p)) \<and>
               (if method = EXACT then
                  (if truthy preserves then evaluations \<le> 2 ^ n - 1
                   else evaluations = 2 ^ n \<and> strs_of ids = nodes)
                else evaluations \<le> int n + 1))
         | _ \<Rightarrow> False))"

definition distribution_ok :: "pyval \<Rightarrow> bool" where
  "distribution_ok d =
     (let reference = map (vget d) [''reference_name'', ''reference_version'', ''reference_scope''];
          availability = vget d ''reporting_availability_rate''
      in is_count (vget d ''evaluated_feature_count'') \<and> is_count (vget d ''outside_feature_count'') \<and>
         (case (vget d ''outside_feature_count'', vget d ''evaluated_feature_count'') of
            (VInt a, VInt b) \<Rightarrow> a \<le> b | _ \<Rightarrow> False) \<and>
         is_strings (vget d ''diagnostics'') \<and>
         (availability = VNone \<or> (is_number availability \<and> (case num availability of None \<Rightarrow> False
            | Some x \<Rightarrow> fle (Fin 0) x \<and> fle x (Fin 1)))) \<and>
         (if list_all (\<lambda>v. v = VNone) reference then vget d ''state'' = VStr ''UNKNOWN'' \<and>
            \<not> truthy (vget d ''evaluated_feature_count'') \<and> \<not> truthy (vget d ''outside_feature_count'')
          else list_all (\<lambda>v. is_str v \<and> truthy v) reference) \<and>
         \<not> (vget d ''state'' = VStr ''IN_REFERENCE'' \<and> truthy (vget d ''outside_feature_count'')))"

definition verify_structures :: "pyval \<Rightarrow> assurance_policy option \<Rightarrow> bool" where
  "verify_structures v policy =
     (let e = vget v ''evidence_assurance''; f = vget v ''evidence_fragility'';
          d = vget v ''distribution_validity''; s = vget v ''decision_sufficient_evidence'';
          proposed = vget v ''proposed_decision'';
          nodes = strs_of (vget e ''verified_evidence_ids''); rows = elems (vget f ''ablations'')
      in evidence_ok e \<and> shape f fragility_fields \<and> shape d distribution_fields \<and>
         shape s sufficient_fields \<and> diagnostics_ok v \<and>
         is_list (vget f ''ablations'') \<and> length rows = length nodes \<and>
         list_all2 (ablation_ok proposed (length nodes)) nodes rows \<and>
         aggregates_ok f rows (length nodes) \<and> fragility_state_ok f (length nodes) policy \<and>
         sufficient_ok s proposed nodes policy \<and> distribution_ok d)"

section \<open>The decision transition, reconstructed\<close>

text \<open>\<open>verify_transition\<close>: without a policy the optional blockers are taken from the record.\<close>

definition transition_findings :: "pyval \<Rightarrow> assurance_policy option \<Rightarrow> string list \<Rightarrow> string list
    \<Rightarrow> string list \<Rightarrow> findings list" where
  "transition_findings v policy recorded reasons failures =
     (let fragility = vget (vget v ''evidence_fragility'') ''state'';
          distribution = vget (vget v ''distribution_validity'') ''state''
      in [if vget (vget v ''evidence_assurance'') ''state'' \<noteq> VStr ''VERIFIED''
            then ([''INSUFFICIENT_VERIFIED_EVIDENCE''], [''evidence'']) else ([], []),
          if fragility = VStr ''FRAGILE'' then ([''EVIDENCE_FRAGILITY_HIGH''], [''fragility''])
          else if fragility = VStr ''NOT_ESTIMABLE'' \<and> (case policy of
              Some p \<Rightarrow> ap_review_on_fragility_not_estimable p | None \<Rightarrow> ''fragility_unknown'' \<in> set recorded)
            then ([''EVIDENCE_FRAGILITY_NOT_ESTIMABLE''], [''fragility_unknown'']) else ([], []),
          if distribution = VStr ''OUTSIDE_REFERENCE'' then ([''OUTSIDE_VALIDATED_DISTRIBUTION''], [''distribution''])
          else if distribution = VStr ''WARNING'' then ([''REPORTING_OBSERVABILITY_ANOMALY''], [''distribution_warning''])
          else if distribution = VStr ''UNKNOWN'' \<and> (case policy of
              Some p \<Rightarrow> ap_require_distribution_reference p
            | None \<Rightarrow> ''DISTRIBUTION_VALIDITY_UNKNOWN'' \<in> set reasons)
            then ([''DISTRIBUTION_VALIDITY_UNKNOWN''], if (case policy of
                Some p \<Rightarrow> ap_review_on_unknown_distribution p
              | None \<Rightarrow> ''distribution_unknown'' \<in> set recorded) then [''distribution_unknown''] else [])
          else ([], []),
          if ''disagreement'' \<in> set recorded then ([''HIGH_MODEL_DISAGREEMENT''], [''disagreement'']) else ([], []),
          if failures \<noteq> [] then ([''RUNTIME_FAILURE_REQUIRES_REVIEW''], [''runtime_failure'']) else ([], []),
          if vget v ''calibration_status'' = VStr ''UNCALIBRATED'' then ([''ASSURANCE_POLICY_UNCALIBRATED''], [])
          else if vget v ''policy_status'' = VStr ''HEURISTIC_POLICY'' then ([''CALIBRATION_SCOPE_MISMATCH''], [])
          else ([], []),
          if vget v ''proposed_decision'' = VStr ''ABSTAIN'' then ([''PROPOSED_DECISION_WITHHELD''], []) else ([], [])])"

definition transition_final :: "pyval \<Rightarrow> string list \<Rightarrow> string list \<Rightarrow> pyval" where
  "transition_final v blockers failures =
     (let proposed = vget v ''proposed_decision'' in
      if proposed = VStr ''ABSTAIN'' \<or> veq (vget (vget v ''evidence_assurance'') ''verified_path_count'') (VInt 0)
         \<or> list_ex (\<lambda>x. x \<in> set blocking_failures) failures then VStr ''ABSTAIN''
      else if blockers \<noteq> [] then VStr ''REVIEW'' else proposed)"

definition verify_transition :: "pyval \<Rightarrow> assurance_policy option \<Rightarrow> bool" where
  "verify_transition v policy =
     (let d = vget v ''diagnostics'';
          recorded = strs_of (vget d ''authorization_blockers'');
          failures = strs_of (vget d ''runtime_failures'');
          reason_codes = strs_of (vget v ''reason_codes'');
          found = transition_findings v policy recorded reason_codes failures;
          blockers = concat (map snd found);
          final = transition_final v blockers failures
      in recorded = blockers \<and> reason_codes = concat (map fst found) \<and>
         vget v ''final_decision'' = final \<and>
         (case policy of None \<Rightarrow> True | Some p \<Rightarrow>
            vget v ''automation_allowed'' = VBool (blockers = [] \<and>
              (final = VStr ''PASS'' \<or> final = VStr ''FLAG'') \<and>
              vget v ''policy_status'' \<noteq> VStr ''HEURISTIC_POLICY'' \<and>
              (vget v ''calibration_status'' \<noteq> VStr ''UNCALIBRATED'' \<or>
               \<not> ap_require_calibration_for_automation p))))"

section \<open>Verification of a serialised result: \<open>engine.py\<close>\<close>

definition required_keys :: "string list" where
  "required_keys = [''proposed_decision'', ''final_decision'', ''automation_allowed'', ''assurance_status'',
     ''evidence_assurance'', ''evidence_fragility'', ''distribution_validity'',
     ''decision_sufficient_evidence'', ''policy_status'', ''calibration_status'', ''reason_codes'',
     ''policy_version'', ''policy_hash'', ''certificate_hash'', ''diagnostics'']"

definition hex64 :: "string \<Rightarrow> bool" where
  "hex64 s = (length s = 64 \<and> list_all (\<lambda>c. c \<in> set ''0123456789abcdef'') s)"

definition header_ok :: "pyval \<Rightarrow> bool" where
  "header_ok v = (shape v required_keys \<and> is_str (vget v ''policy_version'') \<and>
     truthy (vget v ''policy_version'') \<and> is_str (vget v ''policy_hash'') \<and>
     hex64 (str_of (vget v ''policy_hash'')) \<and> is_bool (vget v ''automation_allowed''))"

text \<open>The state of the evidence follows from the counts.\<close>

definition expected_evidence_state :: "int \<Rightarrow> int \<Rightarrow> assurance_policy option \<Rightarrow> evidence_state" where
  "expected_evidence_state material verified policy =
     (if material = 0 then EV_UNKNOWN else if verified = 0 then EV_INSUFFICIENT
      else if verified < material \<or> (case policy of None \<Rightarrow> False
        | Some p \<Rightarrow> flt (int_div verified material) (ap_minimum_verified_coverage p)) then EV_PARTIAL
      else EV_VERIFIED)"

definition counts_ok :: "pyval \<Rightarrow> assurance_policy option \<Rightarrow> bool" where
  "counts_ok e policy =
     (case (vget e ''material_path_count'', vget e ''verified_path_count'') of
        (VInt material, VInt verified) \<Rightarrow>
          0 \<le> verified \<and> verified \<le> material \<and> is_number (vget e ''coverage'') \<and>
          veq (vget e ''coverage'') (VFloat (pround 6 (if material = 0 then Fin 0 else int_div verified material))) \<and>
          parse_evidence_state (str_of (vget e ''state'')) = Some (expected_evidence_state material verified policy)
      | _ \<Rightarrow> False)"

text \<open>The parsed states of a payload.\<close>

record payload_states =
  ps_proposed :: decision
  ps_final :: decision
  ps_status :: assurance_status
  ps_evidence :: evidence_state
  ps_fragility :: fragility_state
  ps_distribution :: distribution_state
  ps_maturity :: policy_maturity
  ps_calibration :: calibration_status

definition parse_states :: "pyval \<Rightarrow> payload_states option" where
  "parse_states v =
     (case (parse_decision (str_of (vget v ''proposed_decision'')),
            parse_decision (str_of (vget v ''final_decision'')),
            parse_status (str_of (vget v ''assurance_status'')),
            parse_evidence_state (str_of (vget (vget v ''evidence_assurance'') ''state'')),
            parse_fragility_state (str_of (vget (vget v ''evidence_fragility'') ''state'')),
            parse_distribution_state (str_of (vget (vget v ''distribution_validity'') ''state'')),
            parse_maturity (str_of (vget v ''policy_status'')),
            parse_calibration (str_of (vget v ''calibration_status''))) of
        (Some a, Some b, Some c, Some d, Some e, Some f, Some g, Some h) \<Rightarrow>
          Some \<lparr>ps_proposed = a, ps_final = b, ps_status = c, ps_evidence = d, ps_fragility = e,
                ps_distribution = f, ps_maturity = g, ps_calibration = h\<rparr>
      | _ \<Rightarrow> None)"

definition policy_bound :: "digest \<Rightarrow> pyval \<Rightarrow> payload_states \<Rightarrow> assurance_policy option \<Rightarrow> bool" where
  "policy_bound H v s policy = (case policy of None \<Rightarrow> True | Some p \<Rightarrow>
     vget v ''policy_version'' = VStr (ap_version p) \<and> vget v ''policy_hash'' = VStr (policy_hash H p) \<and>
     ps_maturity s = ap_maturity p)"

definition is_decisive :: "decision \<Rightarrow> bool" where
  "is_decisive d = (d = PASS \<or> d = FLAG)"

definition decisive_ok :: "payload_states \<Rightarrow> string list \<Rightarrow> string list \<Rightarrow> assurance_policy option \<Rightarrow> bool" where
  "decisive_ok s blockers failures policy = (\<not> (is_decisive (ps_final s) \<and>
     (ps_evidence s \<noteq> EV_VERIFIED \<or> blockers \<noteq> [] \<or> failures \<noteq> [] \<or>
      ps_distribution s = WARNING \<or> ps_distribution s = OUTSIDE_REFERENCE \<or>
      (ps_distribution s = DIST_UNKNOWN \<and> (case policy of None \<Rightarrow> False
        | Some p \<Rightarrow> ap_require_distribution_reference p \<and> ap_review_on_unknown_distribution p)))))"

definition fragility_blocks :: "payload_states \<Rightarrow> assurance_policy option \<Rightarrow> bool" where
  "fragility_blocks s policy = (ps_fragility s = FRAGILE \<or> (ps_fragility s = FR_NOT_ESTIMABLE \<and>
     (case policy of None \<Rightarrow> False | Some p \<Rightarrow> ap_review_on_fragility_not_estimable p)))"

definition automation_ok :: "payload_states \<Rightarrow> bool \<Rightarrow> assurance_policy option \<Rightarrow> bool" where
  "automation_ok s automated policy = (\<not> (automated \<and>
     (ps_final s \<noteq> ps_proposed s \<or> \<not> is_decisive (ps_final s) \<or> ps_status s \<noteq> PASSED \<or>
      ps_evidence s \<noteq> EV_VERIFIED \<or> ps_maturity s = HEURISTIC_POLICY \<or>
      (ps_calibration s = UNCALIBRATED \<and> (case policy of None \<Rightarrow> False
        | Some p \<Rightarrow> ap_require_calibration_for_automation p)))))"

definition status_ok :: "payload_states \<Rightarrow> bool \<Rightarrow> bool" where
  "status_ok s automated =
     (\<not> (ps_status s = PASSED \<and> \<not> automated) \<and>
      \<not> (ps_final s \<noteq> ps_proposed s \<and> ps_status s \<noteq> FAILED) \<and>
      \<not> (ps_status s = RESTRICTED \<and> (ps_final s \<noteq> ps_proposed s \<or> automated)) \<and>
      ps_status s = status_of (ps_proposed s) (ps_final s) automated \<and>
      \<not> (ps_final s \<noteq> ps_proposed s \<and> is_decisive (ps_final s)))"

definition calibration_ok :: "payload_states \<Rightarrow> pyval \<Rightarrow> bool" where
  "calibration_ok s v = (ps_calibration s = UNCALIBRATED \<longrightarrow>
     vget (vget v ''diagnostics'') ''probability'' = VNone \<and>
     vget (vget v ''diagnostics'') ''reliability'' = VNone \<and>
     ''ASSURANCE_POLICY_UNCALIBRATED'' \<in> set (strs_of (vget v ''reason_codes'')))"

definition states_ok :: "digest \<Rightarrow> pyval \<Rightarrow> payload_states \<Rightarrow> assurance_policy option \<Rightarrow> bool" where
  "states_ok H v s policy =
     (let automated = (vget v ''automation_allowed'' = VBool True);
          blockers = strs_of (vget (vget v ''diagnostics'') ''authorization_blockers'');
          failures = strs_of (vget (vget v ''diagnostics'') ''runtime_failures'');
          none_verified = veq (vget (vget v ''evidence_assurance'') ''verified_path_count'') (VInt 0)
      in policy_bound H v s policy \<and> decisive_ok s blockers failures policy \<and>
         \<not> (none_verified \<and> ps_final s \<noteq> ABSTAIN \<and> ps_proposed s \<noteq> ABSTAIN) \<and>
         \<not> (ps_proposed s = ABSTAIN \<and> ps_final s \<noteq> ABSTAIN) \<and>
         \<not> (fragility_blocks s policy \<and> (automated \<or> is_decisive (ps_final s))) \<and>
         automation_ok s automated policy \<and> status_ok s automated \<and> calibration_ok s v)"

definition verify_assurance_payload :: "digest \<Rightarrow> pyval \<Rightarrow> assurance_policy option \<Rightarrow> bool" where
  "verify_assurance_payload H v policy =
     (is_dict v \<and> header_ok v \<and> verify_structures v policy \<and>
      VStr (canonical_hash H (VDict (filter (\<lambda>(k, _). k \<noteq> ''certificate_hash'') (items v)))) =
        vget v ''certificate_hash'' \<and>
      list_all (\<lambda>c. c \<in> set reason_code_names) (strs_of (vget v ''reason_codes'')) \<and>
      counts_ok (vget v ''evidence_assurance'') policy \<and>
      (case parse_states v of None \<Rightarrow> False
       | Some s \<Rightarrow> states_ok H v s policy \<and> verify_transition v policy))"

definition verify_assurance_result :: "digest \<Rightarrow> assurance_result \<Rightarrow> assurance_policy option \<Rightarrow> bool" where
  "verify_assurance_result H r policy = verify_assurance_payload H (result_to_dict r) policy"

definition authorized_final_decision ::
  "digest \<Rightarrow> assurance_result option \<Rightarrow> assurance_policy \<Rightarrow> decision result" where
  "authorized_final_decision H r p = (case r of
     Some x \<Rightarrow> if verify_assurance_result H x (Some p) then Inr (ar_final x)
       else Inl (ValueError ''no valid AssuranceResult; final decision is not authorized'')
   | None \<Rightarrow> Inl (ValueError ''no valid AssuranceResult; final decision is not authorized''))"

end
