(* ===== verification/Authority.thy ===== *)
theory Authority
  imports Engine
begin

text \<open>
  Correctness of the assurance engine: every result it issues passes the verification at the
  publication boundary, and whatever passes that verification with a decisive decision or
  with automation satisfies the authority invariants. The acceptance proof goes check by
  check over the serialised record; the soundness proofs need no knowledge of how a payload
  was produced.
\<close>

section \<open>Reading back a serialised record\<close>

lemma strs_of_vstrs [simp]: "strs_of (vstrs xs) = xs"
  by (simp add: strs_of_def vstrs_def comp_def)

lemma vstrs_simps [simp]: "is_list (vstrs xs)" "truthy (vstrs xs) \<longleftrightarrow> xs \<noteq> []"
  by (simp_all add: vstrs_def)

lemma is_strings_vstrs [simp]: "is_strings (vstrs xs) \<longleftrightarrow> [] \<notin> set xs"
  by (auto simp: is_strings_def vstrs_def list_all_iff)

lemma is_ordered_vstrs [simp]: "is_ordered_strings (vstrs xs) \<longleftrightarrow> [] \<notin> set xs \<and> xs = sorted_set xs"
  by (simp add: is_ordered_strings_def)

lemma vopt_simps [simp]:
  "vopt f None = VNone" "vopt f (Some x) = f x"
  by (simp_all add: vopt_def)

lemma vopt_VNone [simp]:
  "vopt VFloat x = VNone \<longleftrightarrow> x = None" "vopt VStr y = VNone \<longleftrightarrow> y = None"
  by (cases x; simp) (cases y; simp)

lemma num_vopt [simp]: "num (vopt VFloat x) = x"
  by (cases x) simp_all

lemma is_count_vnat [simp]: "is_count (vnat n)"
  by (simp add: is_count_def vnat_def)

lemma truthy_vnat [simp]: "truthy (vnat n) \<longleftrightarrow> n \<noteq> 0"
  by (simp add: vnat_def)

lemma veq_vnat_0 [simp]: "veq (vnat n) (VInt 0) \<longleftrightarrow> n = 0"
  by (simp add: vnat_def fint_def)

lemma evidence_get [simp]:
  "vget (evidence_to_dict e) ''state'' = VStr (evidence_state_value (ea_state e))"
  "vget (evidence_to_dict e) ''material_path_count'' = vnat (ea_material e)"
  "vget (evidence_to_dict e) ''verified_path_count'' = vnat (ea_verified e)"
  "vget (evidence_to_dict e) ''coverage'' = VFloat (ea_coverage e)"
  "vget (evidence_to_dict e) ''verified_evidence_ids'' = vstrs (ea_evidence_ids e)"
  "vget (evidence_to_dict e) ''supported_claims'' = vstrs (ea_claims e)"
  "vget (evidence_to_dict e) ''diagnostics'' = vstrs (ea_diagnostics e)"
  "shape (evidence_to_dict e) evidence_fields"
  by (simp_all add: evidence_to_dict_def shape_def evidence_fields_def)

lemma ablation_get [simp]:
  "vget (ablation_to_dict a) ''evidence_id'' = VStr (ab_evidence_id a)"
  "vget (ablation_to_dict a) ''score_delta'' = vopt VFloat (ab_score_delta a)"
  "vget (ablation_to_dict a) ''severity_change'' = VBool (ab_severity_change a)"
  "vget (ablation_to_dict a) ''proposed_decision_change'' = VBool (ab_decision_change a)"
  "vget (ablation_to_dict a) ''final_decision_impact'' = VBool (ab_final_impact a)"
  "vget (ablation_to_dict a) ''recomputed_proposed_decision'' = VStr (decision_value (ab_recomputed a))"
  "vget (ablation_to_dict a) ''affected_dimensions'' = vstrs (ab_dimensions a)"
  "vget (ablation_to_dict a) ''affected_claims'' = vstrs (ab_claims a)"
  "shape (ablation_to_dict a) ablation_fields"
  by (simp_all add: ablation_to_dict_def shape_def ablation_fields_def)

lemma fragility_get [simp]:
  "vget (fragility_to_dict f) ''state'' = VStr (fragility_state_value (ef_state f))"
  "vget (fragility_to_dict f) ''largest_single_evidence_impact'' = vopt VFloat (ef_largest f)"
  "vget (fragility_to_dict f) ''decision_flip_count'' = vnat (ef_flip_count f)"
  "vget (fragility_to_dict f) ''decision_flip_rate'' = vopt VFloat (ef_flip_rate f)"
  "vget (fragility_to_dict f) ''severity_change_count'' = vnat (ef_severity_count f)"
  "vget (fragility_to_dict f) ''affected_dimensions'' = vstrs (ef_dimensions f)"
  "vget (fragility_to_dict f) ''affected_claims'' = vstrs (ef_claims f)"
  "vget (fragility_to_dict f) ''ablations'' = VList (map ablation_to_dict (ef_ablations f))"
  "shape (fragility_to_dict f) fragility_fields"
  by (simp_all add: fragility_to_dict_def shape_def fragility_fields_def)

lemma distribution_get [simp]:
  "vget (distribution_to_dict d) ''state'' = VStr (distribution_state_value (dv_state d))"
  "vget (distribution_to_dict d) ''reference_name'' = vopt VStr (dv_name d)"
  "vget (distribution_to_dict d) ''reference_version'' = vopt VStr (dv_version d)"
  "vget (distribution_to_dict d) ''reference_scope'' = vopt VStr (dv_scope d)"
  "vget (distribution_to_dict d) ''evaluated_feature_count'' = vnat (dv_evaluated d)"
  "vget (distribution_to_dict d) ''outside_feature_count'' = vnat (dv_outside d)"
  "vget (distribution_to_dict d) ''reporting_availability_rate'' = vopt VFloat (dv_availability d)"
  "vget (distribution_to_dict d) ''diagnostics'' = vstrs (dv_diagnostics d)"
  "shape (distribution_to_dict d) distribution_fields"
  by (simp_all add: distribution_to_dict_def shape_def distribution_fields_def)

lemma sufficient_get [simp]:
  "vget (sufficient_to_dict s) ''evidence_ids'' = vstrs (se_evidence_ids s)"
  "vget (sufficient_to_dict s) ''method'' = VStr (method_value (se_method s))"
  "vget (sufficient_to_dict s) ''exact'' = VBool (se_exact s)"
  "vget (sufficient_to_dict s) ''preserves_proposed_decision'' = VBool (se_preserves s)"
  "vget (sufficient_to_dict s) ''evaluated_subsets'' = vnat (se_evaluated s)"
  "vget (sufficient_to_dict s) ''baseline_decision'' = VStr (decision_value (se_baseline s))"
  "shape (sufficient_to_dict s) sufficient_fields"
  by (simp_all add: sufficient_to_dict_def shape_def sufficient_fields_def)

lemma diagnostics_get [simp]:
  "vget (diagnostics_to_dict d) ''authorization_blockers'' = vstrs (ad_blockers d)"
  "vget (diagnostics_to_dict d) ''runtime_failures'' = vstrs (ad_failures d)"
  "vget (diagnostics_to_dict d) ''reliability'' = vopt VFloat (ad_reliability d)"
  "vget (diagnostics_to_dict d) ''probability'' = VNone"
  "shape (diagnostics_to_dict d) diagnostics_fields"
  by (simp_all add: diagnostics_to_dict_def shape_def diagnostics_fields_def)

lemma result_get [simp]:
  "vget (result_to_dict r) ''proposed_decision'' = VStr (decision_value (ar_proposed r))"
  "vget (result_to_dict r) ''final_decision'' = VStr (decision_value (ar_final r))"
  "vget (result_to_dict r) ''automation_allowed'' = VBool (ar_automation r)"
  "vget (result_to_dict r) ''assurance_status'' = VStr (status_value (ar_status r))"
  "vget (result_to_dict r) ''evidence_assurance'' = evidence_to_dict (ar_evidence r)"
  "vget (result_to_dict r) ''evidence_fragility'' = fragility_to_dict (ar_fragility r)"
  "vget (result_to_dict r) ''distribution_validity'' = distribution_to_dict (ar_distribution r)"
  "vget (result_to_dict r) ''decision_sufficient_evidence'' = sufficient_to_dict (ar_sufficient r)"
  "vget (result_to_dict r) ''policy_status'' = VStr (maturity_value (ar_policy_status r))"
  "vget (result_to_dict r) ''calibration_status'' = VStr (calibration_value (ar_calibration r))"
  "vget (result_to_dict r) ''reason_codes'' = vstrs (ar_reasons r)"
  "vget (result_to_dict r) ''policy_version'' = VStr (ar_policy_version r)"
  "vget (result_to_dict r) ''policy_hash'' = VStr (ar_policy_hash r)"
  "vget (result_to_dict r) ''diagnostics'' = diagnostics_to_dict (ar_diagnostics r)"
  "vget (result_to_dict r) ''certificate_hash'' = VStr (ar_certificate_hash r)"
  "is_dict (result_to_dict r)"
  by (simp_all add: result_to_dict_def authorization_content_def)

lemma result_shape [simp]: "shape (result_to_dict r) required_keys"
  by (auto simp: shape_def result_to_dict_def authorization_content_def required_keys_def)

lemma result_content [simp]:
  "filter (\<lambda>(k, _). k \<noteq> ''certificate_hash'') (items (result_to_dict r)) = authorization_content r"
  by (simp add: result_to_dict_def authorization_content_def)

section \<open>What the evidence contributes\<close>

lemma repr_pos_nonempty [simp]: "repr_pos q \<noteq> []"
  by (simp add: repr_pos_def split: prod.split)

lemma float_repr_nonempty [simp]: "float_repr x \<noteq> []"
  by (cases x) simp_all

lemma repr_nonempty [simp]: "repr v \<noteq> []"
  by (cases v) auto

lemma py_str_nonempty: "truthy v \<Longrightarrow> py_str v \<noteq> []"
  by (cases v) (auto simp: py_str_def simp del: repr.simps)

lemma identifier_nonempty [simp]: "evidence_identifier H v \<noteq> []" "[] \<noteq> evidence_identifier H v"
  using py_str_nonempty[of "por (vget v ''id'') (vget v ''evidence_id'')"]
  by (auto simp: evidence_identifier_def Let_def)

lemma path_ids_nonempty [simp]: "[] \<notin> set (path_evidence_ids H p)"
  by (auto simp: path_evidence_ids_def)

definition verified_paths :: "digest \<Rightarrow> pyval list \<Rightarrow> pyval list" where
  "verified_paths H ps = filter verified_path (unique_material_paths H ps)"

lemma no_removed [simp]: "\<not> list_ex (\<lambda>i. False) xs"
  by (induction xs) simp_all

lemma assess_evidence_shape:
  "ea_verified (assess_evidence H ps mn []) = length (verified_paths H ps)"
  "ea_evidence_ids (assess_evidence H ps mn []) = sorted_set (concat (map (path_evidence_ids H) (verified_paths H ps)))"
  "ea_claims (assess_evidence H ps mn []) =
     sorted_set (map (py_str \<circ> supported_claim) (filter (truthy \<circ> supported_claim) (verified_paths H ps)))"
  "ea_coverage (assess_evidence H ps mn []) =
     pround 6 (coverage_of (length (verified_paths H ps)) (length (unique_material_paths H ps)))"
  by (simp_all add: assess_evidence_def Let_def case_prod_beta verified_paths_def no_removed)

lemma assess_evidence_state:
  "ea_state (assess_evidence H ps mn []) = expected_evidence_state
     (int (length (unique_material_paths H ps))) (int (length (verified_paths H ps)))
     (Some p)" if "mn = ap_minimum_verified_coverage p"
  using that by (auto simp: assess_evidence_def Let_def case_prod_beta verified_paths_def
      expected_evidence_state_def coverage_of_def)

lemma nodes_are_verified_ids:
  "evidence_nodes (dependencies_from_paths H ps) =
     sorted_set (concat (map (path_evidence_ids H) (verified_paths H ps)))"
  unfolding evidence_nodes_def
proof (rule sorted_set_cong, rule set_eqI)
  fix i
  show "i \<in> set (concat (map ed_evidence_ids (filter ed_verified (dependencies_from_paths H ps)))) \<longleftrightarrow>
      i \<in> set (concat (map (path_evidence_ids H) (verified_paths H ps)))"
  proof
    assume "i \<in> set (concat (map ed_evidence_ids (filter ed_verified (dependencies_from_paths H ps))))"
    then obtain d where d: "d \<in> set (dependencies_from_paths H ps)" "ed_verified d" "i \<in> set (ed_evidence_ids d)"
      by auto
    from in_dependencies[OF d(1)] obtain k q where "q \<in> set (unique_material_paths H ps)"
      "d = dependency_of H k q" by blast
    then show "i \<in> set (concat (map (path_evidence_ids H) (verified_paths H ps)))"
      using d(2,3) by (auto simp: verified_paths_def dependency_ids)
  next
    assume "i \<in> set (concat (map (path_evidence_ids H) (verified_paths H ps)))"
    then obtain q where q: "q \<in> set (unique_material_paths H ps)" "verified_path q"
      "i \<in> set (path_evidence_ids H q)" by (auto simp: verified_paths_def)
    from dependencies_of_path[OF q(1)] obtain k where
      "dependency_of H k q \<in> set (dependencies_from_paths H ps)" by blast
    moreover have "i \<in> set (ed_evidence_ids (dependency_of H k q))" using q(3) by (simp add: dependency_ids)
    ultimately show "i \<in> set (concat (map ed_evidence_ids (filter ed_verified (dependencies_from_paths H ps))))"
      using q(2) by force
  qed
qed

lemma dependency_strings:
  "d \<in> set (dependencies_from_paths H ps) \<Longrightarrow> ed_dimension d \<noteq> [] \<and> [] \<notin> set (ed_claims d)"
proof -
  assume "d \<in> set (dependencies_from_paths H ps)"
  then obtain k q where d: "d = dependency_of H k q" using in_dependencies by blast
  have "truthy (por v (VStr ''unknown''))" for v by (simp add: por_def)
  then have "ed_dimension d \<noteq> []" unfolding d by (simp add: dependency_of_def Let_def py_str_nonempty)
  moreover have "s \<noteq> []" if s: "s \<in> set (ed_claims d)" for s
  proof -
    obtain vs where "ed_claims d = map py_str (filter truthy vs)"
      unfolding d dependency_of_def Let_def by (metis evidence_dependency.select_convs(5))
    with s show ?thesis using py_str_nonempty by auto
  qed
  ultimately show ?thesis by blast
qed

lemma nodes_nonempty [simp]: "[] \<notin> set (evidence_nodes (dependencies_from_paths H ps))"
  by (simp add: nodes_are_verified_ids)

section \<open>Every issued result verifies\<close>

lemma vopt_number [simp]: "is_number (vopt VFloat x) \<longleftrightarrow> (\<exists>y. x = Some y \<and> is_finite y)"
  by (cases x) (simp_all add: is_number_def)

lemma is_bool_VBool [simp]: "is_bool (VBool b)"
  by simp

lemma matches_vopt: "(case x of None \<Rightarrow> True | Some y \<Rightarrow> is_finite y) \<Longrightarrow> matches_float (vopt VFloat x) x"
  by (cases x) (auto simp: matches_float_def is_number_def feq_def fle_refl_iff dest: finite_not_NaN)

lemma retained_none [simp]: "retained_dependencies deps [] = []"
proof -
  have "\<not> (ed_verified d \<and> ed_evidence_ids d \<noteq> [] \<and> list_all (\<lambda>i. i \<in> set []) (ed_evidence_ids d))" for d
    by (cases "ed_evidence_ids d") simp_all
  then show ?thesis unfolding retained_dependencies_def filter_empty_conv by blast
qed

lemma ablate_row_ok:
  assumes row: "ablate deps bs bd pol sev nodes i = Inr row"
    and ok: "scores_in_range deps" "fusion_policy_ok pol" "baseline_ok bs"
    and strs: "\<And>d. d \<in> set deps \<Longrightarrow> ed_dimension d \<noteq> [] \<and> [] \<notin> set (ed_claims d)"
    and i: "i \<in> set nodes" "distinct nodes"
  shows "ablation_ok (VStr (decision_value bd)) (length nodes) i (ablation_to_dict row)"
proof -
  from row obtain r where rec: "recompute deps (filter (\<lambda>j. j \<noteq> i) nodes) (length deps) pol = Inr r"
    by (auto simp: ablate_def bind_result_Inr_iff)
  define affected where "affected = filter (\<lambda>d. ed_verified d \<and> i \<in> set (ed_evidence_ids d) \<and>
      d \<notin> set (re_active r)) deps"
  have "row = \<lparr>ab_evidence_id = i, ab_score_delta = score_delta (re_score r) bs,
      ab_severity_change = (re_severity r \<noteq> sev), ab_decision_change = (re_decision r \<noteq> bd),
      ab_final_impact = (re_decision r \<noteq> bd), ab_recomputed = re_decision r,
      ab_dimensions = sorted_set (map ed_dimension affected),
      ab_claims = sorted_set (concat (map ed_claims affected))\<rparr>"
    using row rec by (simp add: ablate_def affected_def Let_def)
  then have r: "recompute deps (filter (\<lambda>j. j \<noteq> i) nodes) (length deps) pol = Inr r"
    "set affected \<subseteq> set deps"
    "ab_evidence_id row = i" "ab_score_delta row = score_delta (re_score r) bs"
    "ab_recomputed row = re_decision r" "ab_decision_change row = (re_decision r \<noteq> bd)"
    "ab_final_impact row = (re_decision r \<noteq> bd)"
    "ab_dimensions row = sorted_set (map ed_dimension affected)"
    "ab_claims row = sorted_set (concat (map ed_claims affected))"
    using rec by (simp_all add: affected_def)
  have single: "re_decision r = ABSTAIN \<and> ab_score_delta row = None" if "length nodes = 1"
  proof -
    have "nodes = [i]" using that i by (cases nodes) auto
    then have "filter (\<lambda>j. j \<noteq> i) nodes = []" by simp
    then show ?thesis using recompute_ok[OF ok(1,2), of "[]" "length deps"] r(1,4)
      by (auto simp: score_delta_def split: option.split)
  qed
  have num: "ab_score_delta row = None \<or> (\<exists>x. ab_score_delta row = Some x \<and> is_finite x)"
    using score_delta_finite[OF ok r(1)] r(4) by (cases "ab_score_delta row") auto
  have strs': "[] \<notin> set (map ed_dimension affected)" "[] \<notin> set (concat (map ed_claims affected))"
    using strs r(2) by force+
  have "decision_value d \<in> {''PASS'', ''FLAG'', ''REVIEW'', ''ABSTAIN''}" for d
    by (cases d) simp_all
  moreover have "decision_value d = ''ABSTAIN'' \<longleftrightarrow> d = ABSTAIN" for d
    by (cases d) simp_all
  ultimately show ?thesis using single num r strs'
    by (auto simp: ablation_ok_def simp del: set_map set_concat)
qed

lemma sufficient_accepted:
  assumes r: "decision_sufficient_evidence deps b p pol = Inr r" and ne: "[] \<notin> set (evidence_nodes deps)"
  shows "sufficient_ok (sufficient_to_dict r) (VStr (decision_value b)) (evidence_nodes deps) (Some p)"
proof (cases "se_method r")
  case EXACT
  have small: "int (length (evidence_nodes deps)) \<le> ap_maximum_fragility_nodes_exact p"
    using r EXACT by (auto simp: decision_sufficient_evidence_def Let_def bind_result_Inr_iff split: if_splits)
  note count = length_candidates[of "evidence_nodes deps"]
  from r EXACT show ?thesis
  proof (cases rule: sufficient_exact_cases)
    case (1 c m before after)
    have c: "subseq c (evidence_nodes deps)" "c \<noteq> []" using 1(1) in_candidates[of c "evidence_nodes deps"] by auto
    then have "sorted_set c = c" "set c \<subseteq> set (evidence_nodes deps)" "evidence_nodes deps \<noteq> []"
      using subseq_sorted[OF c(1)] by (auto simp: sorted_set_def distinct_remdups_id sorted_sort_id subseq_set)
    moreover have "int m \<le> 2 ^ length (evidence_nodes deps) - 1" "m \<noteq> 0"
    proof -
      have "m + 1 \<le> 2 ^ length (evidence_nodes deps)" using 1(1,4) count by simp
      then have "m < 2 ^ length (evidence_nodes deps)" by simp
      then show "int m \<le> 2 ^ length (evidence_nodes deps) - 1" by simp
    qed (use 1(4) in simp)
    ultimately show ?thesis using 1(5) c(2) ne small
      by (auto simp: sufficient_ok_def Let_def vnat_def is_count_def parse_method_def)
  next
    case (2 m)
    have "int (Suc m) = 2 ^ length (evidence_nodes deps)"
      using count 2(3) by (metis Suc_eq_plus1 of_nat_numeral of_nat_power)
    moreover have "sorted_set (evidence_nodes deps) = evidence_nodes deps"
      by (simp add: sorted_set_def distinct_remdups_id sorted_sort_id)
    ultimately show ?thesis using 2(2,4) ne small
      by (simp add: sufficient_ok_def Let_def vnat_def is_count_def parse_method_def)
  qed
next
  case GREEDY_APPROXIMATION
  from r this show ?thesis
  proof (cases rule: sufficient_greedy_cases)
    case (1 c m v)
    have c: "sort c = c" "sorted_set c = c" "set c \<subseteq> set (evidence_nodes deps)"
      using subseq_sorted[OF 1(2)] subseq_set[OF 1(2)]
      by (simp_all add: sorted_set_def distinct_remdups_id sorted_sort_id)
    then show ?thesis using 1 ne
      by (auto simp: sufficient_ok_def Let_def vnat_def is_count_def parse_method_def)
  qed
next
  case SM_NOT_ESTIMABLE
  then have "r = \<lparr>se_evidence_ids = [], se_method = SM_NOT_ESTIMABLE, se_exact = False,
        se_preserves = False, se_evaluated = 0, se_baseline = b\<rparr>" "evidence_nodes deps = []"
    using r by (auto simp: decision_sufficient_evidence_def Let_def bind_result_Inr_iff
        split: if_splits option.splits)
  then show ?thesis by (simp add: sufficient_ok_def Let_def vnat_def is_count_def sorted_set_def parse_method_def)
qed

lemma impacts_rows: "row_impacts (map ablation_to_dict rows) = impacts rows"
  by (simp add: row_impacts_def impacts_def List.map_filter_def filter_map comp_def)

lemma counts_rows:
  "row_count ''proposed_decision_change'' (map ablation_to_dict rows) = int (count_true ab_decision_change rows)"
  "row_count ''severity_change'' (map ablation_to_dict rows) = int (count_true ab_severity_change rows)"
  by (simp_all add: row_count_def count_true_def filter_map comp_def)

lemma strings_rows:
  "map (\<lambda>row. strs_of (vget row ''affected_dimensions'')) (map ablation_to_dict rows) = map ab_dimensions rows"
  "map (\<lambda>row. strs_of (vget row ''affected_claims'')) (map ablation_to_dict rows) = map ab_claims rows"
  by simp_all

lemma aggregates_accepted:
  assumes "\<forall>row\<in>set rows. \<forall>x. ab_score_delta row = Some x \<longrightarrow> is_finite x"
    and "\<forall>row\<in>set rows. [] \<notin> set (ab_dimensions row) \<and> [] \<notin> set (ab_claims row)"
    and "length rows = n" "n \<noteq> 0"
  shows "aggregates_ok (fragility_to_dict (fragility_of p rows n)) (map ablation_to_dict rows) n"
proof -
  have "count_true ab_decision_change rows \<le> n" using assms(3) by (auto simp: count_true_def)
  then have rate: "is_finite (pround 6 (int_div (int (count_true ab_decision_change rows)) (int n)))"
    using coverage_finite[of "count_true ab_decision_change rows" n] assms(4) by (simp add: coverage_of_def del: pround.simps)
  have largest: "case largest_impact rows of None \<Rightarrow> True | Some y \<Rightarrow> is_finite y"
  proof (cases "impacts rows = []")
    case False
    have "\<forall>v\<in>set (impacts rows). is_finite v"
      using assms(1) by (fastforce simp: impacts_def List.map_filter_def is_finite_iff)
    then show ?thesis using pymax_list_in[OF False] False by (simp add: largest_impact_def)
  qed (simp add: largest_impact_def)
  have impact: "matches_float (vopt VFloat (largest_impact rows))
      (if impacts rows = [] then None else Some (pymax_list (impacts rows)))"
    using matches_vopt[OF largest] by (simp add: largest_impact_def)
  have flip: "matches_float (vopt VFloat (Some (pround 6 (int_div (int (count_true ab_decision_change rows)) (int n)))))
      (Some (pround 6 (int_div (int (count_true ab_decision_change rows)) (int n))))"
    by (rule matches_vopt) (use rate in simp)
  have strs: "[] \<notin> set (concat (map ab_dimensions rows))" "[] \<notin> set (concat (map ab_claims rows))"
    using assms(2) by auto
  let ?f = "fragility_of p rows n"
  have f: "ef_flip_count ?f = count_true ab_decision_change rows"
    "ef_severity_count ?f = count_true ab_severity_change rows"
    "ef_flip_rate ?f = Some (pround 6 (int_div (int (count_true ab_decision_change rows)) (int n)))"
    "ef_largest ?f = largest_impact rows" "ef_dimensions ?f = sorted_set (concat (map ab_dimensions rows))"
    "ef_claims ?f = sorted_set (concat (map ab_claims rows))"
    by (simp_all add: fragility_of_def Let_def)
  show ?thesis
    unfolding aggregates_ok_def counts_rows impacts_rows fragility_get f list.pred_inject strings_rows
    using impact flip strs assms(4) by (simp add: vnat_def is_count_def comp_def del: pround.simps)
qed

lemma fragility_accepted:
  assumes f: "analyze_fragility deps bs bd p pol = Inr f"
    and ok: "scores_in_range deps" "fusion_policy_ok pol" "baseline_ok bs"
    and strs: "\<And>d. d \<in> set deps \<Longrightarrow> ed_dimension d \<noteq> [] \<and> [] \<notin> set (ed_claims d)"
  shows "let n = length (evidence_nodes deps); rows = map ablation_to_dict (ef_ablations f) in
      length rows = n \<and>
      list_all2 (ablation_ok (VStr (decision_value bd)) n) (evidence_nodes deps) rows \<and>
      aggregates_ok (fragility_to_dict f) rows n \<and> fragility_state_ok (fragility_to_dict f) n (Some p)"
  using f
proof (cases rule: analyze_fragility_cases)
  case none
  have "matches_float (vopt VFloat None) None" by (rule matches_vopt) simp
  then show ?thesis using none
    by (simp add: no_fragility_def aggregates_ok_def fragility_state_ok_def row_impacts_def
        row_count_def vnat_def is_count_def sorted_set_def List.map_filter_def)
next
  case (some b rows)
  let ?n = "evidence_nodes deps"
  have row: "\<exists>i\<in>set ?n. ablate deps bs bd pol (re_severity b) ?n i = Inr row" if "row \<in> set rows" for row
    using list_all2_in2[OF some(3) that] .
  have rows_ok: "list_all2 (ablation_ok (VStr (decision_value bd)) (length ?n)) ?n (map ablation_to_dict rows)"
    unfolding list_all2_map2
    by (rule list.rel_mono_strong[OF some(3)]) (auto intro: ablate_row_ok[OF _ ok strs])
  have "is_finite x" if mem: "row \<in> set rows" and x: "ab_score_delta row = Some x" for row x
    using row[OF mem] x by (auto dest!: ablate_Inr intro: score_delta_finite[OF ok])
  then have fin: "\<forall>row\<in>set rows. \<forall>x. ab_score_delta row = Some x \<longrightarrow> is_finite x" by blast
  have strings: "\<forall>row\<in>set rows. [] \<notin> set (ab_dimensions row) \<and> [] \<notin> set (ab_claims row)"
  proof
    fix row assume "row \<in> set rows"
    from row[OF this] obtain i where "i \<in> set ?n"
      and i: "ablate deps bs bd pol (re_severity b) ?n i = Inr row" by blast
    from ablate_row_ok[OF i ok strs \<open>i \<in> set ?n\<close>]
    show "[] \<notin> set (ab_dimensions row) \<and> [] \<notin> set (ab_claims row)"
      by (simp add: ablation_ok_def)
  qed
  have len: "length rows = length ?n" using some(3) by (simp add: list_all2_lengthD)
  have agg: "aggregates_ok (fragility_to_dict f) (map ablation_to_dict rows) (length ?n)"
    unfolding some(4) by (rule aggregates_accepted) (use fin strings len some(1) in auto)
  have state: "fragility_state_ok (fragility_to_dict f) (length ?n) (Some p)"
    unfolding some(4) using some(1)
    by (simp add: fragility_state_ok_def fragility_of_def fragility_state_of_def Let_def)
  have "ef_ablations f = rows" by (simp add: some(4) fragility_of_def Let_def)
  then show ?thesis using rows_ok agg state len by (simp add: Let_def)
qed

lemma sorted_set_fixed: "sorted_set (sorted_set xs) = sorted_set xs"
  by simp

lemma evidence_accepted:
  assumes "e = assess_evidence H ps (ap_minimum_verified_coverage p) []"
  shows "evidence_ok (evidence_to_dict e) \<and> counts_ok (evidence_to_dict e) (Some p)"
proof
  let ?v = "verified_paths H ps"
  have claims: "[] \<notin> set (map (py_str \<circ> supported_claim) (filter (truthy \<circ> supported_claim) ?v))"
    using py_str_nonempty by fastforce
  have ids: "concat (map (path_evidence_ids H) ?v) = [] \<longleftrightarrow> ?v = []"
    using verified_path_has_evidence[where H = H] by (auto simp: verified_paths_def filter_empty_conv)
  have "[] \<notin> set (ea_diagnostics e)"
    by (simp add: assms assess_evidence_def Let_def case_prod_beta)
  then show "evidence_ok (evidence_to_dict e)"
    using claims ids unfolding evidence_ok_def assms
    by (auto simp: assess_evidence_shape simp del: concat_eq_Nil_conv)
  obtain M V where MV: "M = length (unique_material_paths H ps)" "V = length ?v" by blast
  then have le: "V \<le> M" by (simp add: verified_paths_def)
  have fin: "is_finite (pround 6 (coverage_of V M))" using coverage_finite[OF le] by simp
  then have eq: "feq (pround 6 (coverage_of V M)) (pround 6 (coverage_of V M))"
    by (simp add: feq_def fle_refl_iff finite_not_NaN del: pround.simps)
  have e: "ea_material e = M" "ea_verified e = V" "ea_coverage e = pround 6 (coverage_of V M)"
    "ea_state e = expected_evidence_state (int M) (int V) (Some p)"
    using MV by (simp_all add: assms assess_evidence_shape assess_evidence_state)
  have "(if int M = 0 then Fin 0 else int_div (int V) (int M)) = coverage_of V M"
    by (simp add: coverage_of_def)
  then show "counts_ok (evidence_to_dict e) (Some p)"
    using le fin eq unfolding counts_ok_def evidence_get e vnat_def
    by (simp add: is_number_def del: pround.simps)
qed

definition reference_ok :: "reference_profile option \<Rightarrow> bool" where
  "reference_ok r = (case r of None \<Rightarrow> True
     | Some p \<Rightarrow> rp_name p \<noteq> [] \<and> rp_version p \<noteq> [] \<and> rp_scope p \<noteq> [])"

lemma distribution_accepted:
  assumes "reference_ok r" and "d = assess_distribution_validity f a sector r"
  shows "distribution_ok (distribution_to_dict d)"
proof -
  have avail: "dv_availability d = availability_rate a"
    by (simp add: assms(2) assess_distribution_validity_def Let_def case_prod_beta split: option.split)
  have diag: "[] \<notin> set (dv_diagnostics d)"
    by (auto simp: assms(2) assess_distribution_validity_def Let_def split: option.splits if_splits)
  have inref: "dv_state d = IN_REFERENCE \<Longrightarrow> dv_outside d = 0"
    by (auto simp: assms(2) assess_distribution_validity_def Let_def split: option.splits if_splits)
  have state: "distribution_state_value s = ''IN_REFERENCE'' \<longleftrightarrow> s = IN_REFERENCE" for s
    by (cases s) simp_all
  have ref: "r = None \<Longrightarrow> dv_state d = DIST_UNKNOWN \<and> dv_evaluated d = 0 \<and> dv_outside d = 0 \<and>
      dv_name d = None \<and> dv_version d = None \<and> dv_scope d = None"
    "r = Some p \<Longrightarrow> dv_name d = Some (rp_name p) \<and> dv_version d = Some (rp_version p) \<and>
      dv_scope d = Some (rp_scope p)" for p
    by (simp_all add: assms(2) assess_distribution_validity_def Let_def case_prod_beta)
  show ?thesis
    unfolding distribution_ok_def Let_def distribution_get avail
    using ref assms(1) diag inref outside_le_evaluated[of f a sector r]
      availability_bounds[of a] assms(2)
    by (cases r) (auto simp: state reference_ok_def vnat_def is_count_def)
qed

section \<open>The transition of an issued result\<close>

lemma state_values [simp]:
  "evidence_state_value e = ''VERIFIED'' \<longleftrightarrow> e = EV_VERIFIED"
  "fragility_state_value f = ''FRAGILE'' \<longleftrightarrow> f = FRAGILE"
  "fragility_state_value f = ''NOT_ESTIMABLE'' \<longleftrightarrow> f = FR_NOT_ESTIMABLE"
  "distribution_state_value d = ''OUTSIDE_REFERENCE'' \<longleftrightarrow> d = OUTSIDE_REFERENCE"
  "distribution_state_value d = ''WARNING'' \<longleftrightarrow> d = WARNING"
  "distribution_state_value d = ''UNKNOWN'' \<longleftrightarrow> d = DIST_UNKNOWN"
  "calibration_value c = ''UNCALIBRATED'' \<longleftrightarrow> c = UNCALIBRATED"
  "maturity_value m = ''HEURISTIC_POLICY'' \<longleftrightarrow> m = HEURISTIC_POLICY"
  "decision_value x = ''ABSTAIN'' \<longleftrightarrow> x = ABSTAIN"
  "decision_value x = ''REVIEW'' \<longleftrightarrow> x = REVIEW"
  "decision_value x = ''PASS'' \<longleftrightarrow> x = PASS"
  "decision_value x = ''FLAG'' \<longleftrightarrow> x = FLAG"
  by (cases e; simp) (cases f; simp; fail | cases d; simp; fail | cases c; simp; fail | cases m; simp; fail | cases x; simp; fail)+

text \<open>The findings of an issued result, in the order of the code.\<close>

definition issue_findings :: "assurance_policy \<Rightarrow> assurance_input \<Rightarrow> evidence_assurance
    \<Rightarrow> evidence_fragility \<Rightarrow> distribution_validity \<Rightarrow> findings list" where
  "issue_findings p x e f d = [fst (evidence_findings e), fragility_findings p f, distribution_findings p d,
     disagreement_findings p (ai_disagreement x), fst (failure_findings (ai_failures x))]"

definition issue_reasons :: "assurance_policy \<Rightarrow> assurance_input \<Rightarrow> decision \<Rightarrow> evidence_assurance
    \<Rightarrow> evidence_fragility \<Rightarrow> distribution_validity \<Rightarrow> string list" where
  "issue_reasons p x proposed e f d = concat (map fst (issue_findings p x e f d))
     @ calibration_reasons p (ai_calibration x)
     @ (if proposed = ABSTAIN then [''PROPOSED_DECISION_WITHHELD''] else [])"

definition issue_blockers :: "assurance_policy \<Rightarrow> assurance_input \<Rightarrow> evidence_assurance
    \<Rightarrow> evidence_fragility \<Rightarrow> distribution_validity \<Rightarrow> string list" where
  "issue_blockers p x e f d = concat (map snd (issue_findings p x e f d))"

lemma distinct_reasons: "distinct (issue_reasons p x proposed e f d)"
  by (simp add: issue_reasons_def issue_findings_def evidence_findings_def fragility_findings_def
      distribution_findings_def disagreement_findings_def failure_findings_def calibration_reasons_def)

lemma known_reasons: "list_all (\<lambda>c. c \<in> set reason_code_names) (issue_reasons p x proposed e f d)"
  by (simp add: issue_reasons_def issue_findings_def evidence_findings_def fragility_findings_def
      distribution_findings_def disagreement_findings_def failure_findings_def calibration_reasons_def
      reason_code_names_def)

lemma blockers_nonempty: "[] \<notin> set (issue_blockers p x e f d)"
  by (simp add: issue_blockers_def issue_findings_def evidence_findings_def fragility_findings_def
      distribution_findings_def disagreement_findings_def failure_findings_def)

lemma disagreement_blocker:
  "''disagreement'' \<in> set (issue_blockers p x e f d) \<longleftrightarrow> fle (ap_maximum_disagreement p) (ai_disagreement x)"
  by (simp add: issue_blockers_def issue_findings_def evidence_findings_def fragility_findings_def
      distribution_findings_def disagreement_findings_def failure_findings_def)

lemma no_blockers:
  assumes "issue_blockers p x e f d = []"
  shows "ea_state e = EV_VERIFIED" "ef_state f \<noteq> FRAGILE"
    "\<not> (ef_state f = FR_NOT_ESTIMABLE \<and> ap_review_on_fragility_not_estimable p)"
    "dv_state d \<noteq> WARNING" "dv_state d \<noteq> OUTSIDE_REFERENCE"
    "\<not> (dv_state d = DIST_UNKNOWN \<and> ap_require_distribution_reference p \<and> ap_review_on_unknown_distribution p)"
    "ai_failures x = []"
  using assms
  by (cases "ea_state e"; auto simp: issue_blockers_def issue_findings_def evidence_findings_def fragility_findings_def
      distribution_findings_def disagreement_findings_def failure_findings_def split: if_splits)+

text \<open>The disposition that an issued result carries.\<close>

definition issue_abstains :: "assurance_input \<Rightarrow> evidence_assurance \<Rightarrow> bool" where
  "issue_abstains x e = (snd (evidence_findings e) \<or> snd (failure_findings (ai_failures x)))"

lemma issue_fields:
  fixes H p x proposed e f s d
  defines "r \<equiv> issue H p x proposed e f s d"
  shows "ar_proposed r = proposed"
    "ar_final r = final_decision proposed (issue_abstains x e) (issue_blockers p x e f d)"
    "ar_automation r = automation p (ai_calibration x) (issue_blockers p x e f d) (ar_final r)"
    "ar_status r = status_of proposed (ar_final r) (ar_automation r)"
    "ar_evidence r = e" "ar_fragility r = f" "ar_distribution r = d" "ar_sufficient r = s"
    "ar_policy_status r = ap_maturity p" "ar_calibration r = ai_calibration x"
    "ar_reasons r = issue_reasons p x proposed e f d" "ar_policy_version r = ap_version p"
    "ar_policy_hash r = policy_hash H p"
    "ar_certificate_hash r = canonical_hash H (VDict (authorization_content r))"
    "ad_blockers (ar_diagnostics r) = issue_blockers p x e f d"
    "ad_failures (ar_diagnostics r) = ai_failures x"
    "ad_reliability (ar_diagnostics r) = (if ai_calibration x = UNCALIBRATED then None else ai_reliability x)"
proof -
  obtain r1 b1 a1 where 1: "evidence_findings e = ((r1, b1), a1)" by (metis surj_pair)
  obtain r2 b2 where 2: "fragility_findings p f = (r2, b2)" by (metis surj_pair)
  obtain r3 b3 where 3: "distribution_findings p d = (r3, b3)" by (metis surj_pair)
  obtain r4 b4 where 4: "disagreement_findings p (ai_disagreement x) = (r4, b4)" by (metis surj_pair)
  obtain r5 b5 a2 where 5: "failure_findings (ai_failures x) = ((r5, b5), a2)" by (metis surj_pair)
  note all = 1 2 3 4 5
  have blockers: "issue_blockers p x e f d = b1 @ b2 @ b3 @ b4 @ b5"
    by (simp add: issue_blockers_def issue_findings_def all)
  have reasons: "issue_reasons p x proposed e f d = r1 @ r2 @ r3 @ r4 @ r5 @ calibration_reasons p (ai_calibration x)
      @ (if proposed = ABSTAIN then [''PROPOSED_DECISION_WITHHELD''] else [])"
    by (simp add: issue_reasons_def issue_findings_def all)
  have abst: "issue_abstains x e = (a1 \<or> a2)" by (simp add: issue_abstains_def all)
  have cal: "(ai_calibration x = CALIBRATED_INTERNAL \<or> ai_calibration x = VALIDATED_EXTERNAL) \<longleftrightarrow> ai_calibration x \<noteq> UNCALIBRATED"
    by (cases "ai_calibration x") simp_all
  have ddup: "dedup (issue_reasons p x proposed e f d) = issue_reasons p x proposed e f d"
    by (rule dedup_distinct[OF distinct_reasons])
  show "ar_proposed r = proposed"
    "ar_final r = final_decision proposed (issue_abstains x e) (issue_blockers p x e f d)"
    "ar_automation r = automation p (ai_calibration x) (issue_blockers p x e f d) (ar_final r)"
    "ar_status r = status_of proposed (ar_final r) (ar_automation r)"
    "ar_evidence r = e" "ar_fragility r = f" "ar_distribution r = d" "ar_sufficient r = s"
    "ar_policy_status r = ap_maturity p" "ar_calibration r = ai_calibration x"
    "ar_policy_version r = ap_version p" "ar_policy_hash r = policy_hash H p"
    "ad_blockers (ar_diagnostics r) = issue_blockers p x e f d"
    "ad_failures (ar_diagnostics r) = ai_failures x"
    "ad_reliability (ar_diagnostics r) = (if ai_calibration x = UNCALIBRATED then None else ai_reliability x)"
    by (simp_all add: r_def issue_def all blockers abst cal Let_def)
  have "ar_reasons r = dedup (issue_reasons p x proposed e f d)"
    unfolding reasons by (simp add: r_def issue_def all Let_def)
  then show "ar_reasons r = issue_reasons p x proposed e f d" unfolding ddup .
  show "ar_certificate_hash r = canonical_hash H (VDict (authorization_content r))"
    by (simp add: r_def issue_def all Let_def authorization_content_def)
qed

lemma issue_abstains_iff:
  fixes p :: assurance_policy
  assumes "e = assess_evidence H ps (ap_minimum_verified_coverage p) []"
  shows "issue_abstains x e \<longleftrightarrow> ea_verified e = 0 \<or>
    list_ex (\<lambda>f. f \<in> set blocking_failures) (ai_failures x)"
proof -
  have e: "ea_state e = expected_evidence_state (int (length (unique_material_paths H ps)))
      (int (length (verified_paths H ps))) (Some p)" "ea_verified e = length (verified_paths H ps)"
    by (simp_all add: assms assess_evidence_state assess_evidence_shape)
  have "unique_material_paths H ps = [] \<Longrightarrow> verified_paths H ps = []"
    unfolding verified_paths_def by (simp del: unique_paths_empty)
  then have "snd (evidence_findings e) \<longleftrightarrow> ea_verified e = 0"
    unfolding evidence_findings_def e by (auto simp: expected_evidence_state_def)
  moreover have "snd (failure_findings (ai_failures x)) \<longleftrightarrow>
      list_ex (\<lambda>f. f \<in> set blocking_failures) (ai_failures x)"
    by (cases "ai_failures x") (simp_all add: failure_findings_def)
  ultimately show ?thesis by (simp add: issue_abstains_def)
qed

lemma transition_findings_issue:
  fixes H p x proposed e f s d
  defines "r \<equiv> issue H p x proposed e f s d"
  shows "transition_findings (result_to_dict r) (Some p) (issue_blockers p x e f d)
      (issue_reasons p x proposed e f d) (ai_failures x) =
    issue_findings p x e f d @ [(calibration_reasons p (ai_calibration x), []),
      (if proposed = ABSTAIN then [''PROPOSED_DECISION_WITHHELD''] else [], [])]"
proof -
  have ev: "(if evidence_state_value (ea_state e) \<noteq> ''VERIFIED''
        then ([''INSUFFICIENT_VERIFIED_EVIDENCE''], [''evidence'']) else ([], [])) = fst (evidence_findings e)"
    by (cases "ea_state e") (simp_all add: evidence_findings_def)
  show ?thesis
    unfolding transition_findings_def Let_def disagreement_blocker
    by (simp add: r_def issue_fields issue_findings_def ev[simplified] fragility_findings_def
        distribution_findings_def disagreement_findings_def failure_findings_def calibration_reasons_def)
qed

lemma concat_findings:
  "concat (map snd (issue_findings p x e f d @ [(a, []), (b, [])])) = issue_blockers p x e f d"
  "concat (map fst (issue_findings p x e f d @ [(calibration_reasons p (ai_calibration x), []),
      (if proposed = ABSTAIN then [''PROPOSED_DECISION_WITHHELD''] else [], [])])) =
     issue_reasons p x proposed e f d"
  by (simp_all add: issue_blockers_def issue_reasons_def)

lemma transition_accepted:
  fixes p :: assurance_policy
  assumes e: "e = assess_evidence H ps (ap_minimum_verified_coverage p) []"
  shows "verify_transition (result_to_dict (issue H p x proposed e f s d)) (Some p)"
proof -
  let ?r = "issue H p x proposed e f s d"
  have final: "transition_final (result_to_dict ?r) (issue_blockers p x e f d) (ai_failures x) =
      VStr (decision_value (ar_final ?r))"
    by (simp add: transition_final_def Let_def issue_fields issue_abstains_iff[OF e] final_decision_def)
  have mature: "(m = MATURE_INTERNAL \<or> m = MATURE_EXTERNAL) \<longleftrightarrow> m \<noteq> HEURISTIC_POLICY" for m
    by (cases m) simp_all
  have calibrated: "(c = CALIBRATED_INTERNAL \<or> c = VALIDATED_EXTERNAL) \<longleftrightarrow> c \<noteq> UNCALIBRATED" for c
    by (cases c) simp_all
  show ?thesis
    unfolding verify_transition_def Let_def result_get diagnostics_get strs_of_vstrs issue_fields
      transition_findings_issue concat_findings
    using final by (simp add: issue_fields automation_def mature calibrated)
qed

lemma parse_states_result:
  "parse_states (result_to_dict r) = Some \<lparr>ps_proposed = ar_proposed r, ps_final = ar_final r,
     ps_status = ar_status r, ps_evidence = ea_state (ar_evidence r),
     ps_fragility = ef_state (ar_fragility r), ps_distribution = dv_state (ar_distribution r),
     ps_maturity = ar_policy_status r, ps_calibration = ar_calibration r\<rparr>"
  by (simp add: parse_states_def)

lemma states_accepted:
  fixes H ps x proposed e f s d and p :: assurance_policy
  assumes e: "e = assess_evidence H ps (ap_minimum_verified_coverage p) []"
  defines "r \<equiv> issue H p x proposed e f s d"
  shows "\<exists>st. parse_states (result_to_dict r) = Some st \<and> states_ok H (result_to_dict r) st (Some p)"
proof -
  let ?b = "issue_blockers p x e f d"
  note fields = issue_fields[of H p x proposed e f s d, folded r_def]
  have none: "ea_verified e = 0 \<Longrightarrow> ar_final r = ABSTAIN"
    using issue_abstains_iff[OF e, of x] fields by (simp add: final_decision_def)
  have abst: "proposed = ABSTAIN \<Longrightarrow> ar_final r = ABSTAIN" by (simp add: fields final_decision_def)
  have clear: "?b = [] \<and> ar_final r = proposed" if "is_decisive (ar_final r)"
    using that by (auto simp: fields final_decision_def is_decisive_def split: if_splits)
  have auto_clear: "?b = [] \<and> is_decisive (ar_final r) \<and> ap_maturity p \<noteq> HEURISTIC_POLICY \<and>
      (ai_calibration x \<noteq> UNCALIBRATED \<or> \<not> ap_require_calibration_for_automation p)" if "ar_automation r"
    using that unfolding fields(3) by (auto simp: automation_def is_decisive_def)
  have changed: "\<not> (ar_final r \<noteq> proposed \<and> is_decisive (ar_final r))" using clear by blast
  have uncal: "ai_calibration x = UNCALIBRATED \<Longrightarrow>
      ''ASSURANCE_POLICY_UNCALIBRATED'' \<in> set (issue_reasons p x proposed e f d)"
    by (simp add: issue_reasons_def calibration_reasons_def)
  define st where "st = \<lparr>ps_proposed = ar_proposed r, ps_final = ar_final r,
     ps_status = ar_status r, ps_evidence = ea_state (ar_evidence r),
     ps_fragility = ef_state (ar_fragility r), ps_distribution = dv_state (ar_distribution r),
     ps_maturity = ar_policy_status r, ps_calibration = ar_calibration r\<rparr>"
  have ps: "ps_proposed st = proposed" "ps_final st = ar_final r"
    "ps_status st = status_of proposed (ar_final r) (ar_automation r)" "ps_evidence st = ea_state e"
    "ps_fragility st = ef_state f" "ps_distribution st = dv_state d" "ps_maturity st = ap_maturity p"
    "ps_calibration st = ai_calibration x"
    by (simp_all add: st_def fields)
  have 1: "policy_bound H (result_to_dict r) st (Some p)" by (simp add: policy_bound_def fields ps)
  have 2: "decisive_ok st ?b (ai_failures x) (Some p)"
    using clear no_blockers[of p x e f d] unfolding decisive_ok_def ps by auto
  have 3: "\<not> (fragility_blocks st (Some p) \<and> (ar_automation r \<or> is_decisive (ar_final r)))"
    using clear auto_clear no_blockers[of p x e f d] unfolding fragility_blocks_def ps by auto
  have 4: "automation_ok st (ar_automation r) (Some p)"
    using auto_clear clear no_blockers[of p x e f d] unfolding automation_ok_def ps
    by (auto simp: status_of_def)
  have 5: "status_ok st (ar_automation r)"
    using changed auto_clear clear unfolding status_ok_def ps by (auto simp: status_of_def)
  have 6: "calibration_ok st (result_to_dict r)"
    using uncal unfolding calibration_ok_def ps by (simp add: fields)
  have 7: "\<not> (ea_verified e = 0 \<and> ar_final r \<noteq> ABSTAIN \<and> proposed \<noteq> ABSTAIN)" using none by blast
  have 8: "\<not> (proposed = ABSTAIN \<and> ar_final r \<noteq> ABSTAIN)" using abst by blast
  have "states_ok H (result_to_dict r) st (Some p)"
    unfolding states_ok_def Let_def result_get diagnostics_get strs_of_vstrs evidence_get fields(5,15,16)
      veq_vnat_0 ps(1,2) pyval.inject eq_True
    by (simp only: 1 2 3 4 5 6 7 8 simp_thms)
  moreover have "parse_states (result_to_dict r) = Some st"
    unfolding st_def by (rule parse_states_result)
  ultimately show ?thesis by blast
qed

section \<open>Properties\<close>

text \<open>What a caller of the engine supplies.\<close>

definition input_ok :: "digest \<Rightarrow> assurance_policy \<Rightarrow> assurance_input \<Rightarrow> bool" where
  "input_ok H p x = (scores_in_range (dependencies_from_paths H (ai_paths x)) \<and>
     fusion_policy_ok (ai_fusion_policy x) \<and> baseline_ok (ai_score x) \<and>
     reference_ok (ai_reference x) \<and> [] \<notin> set (ai_failures x) \<and>
     (case ai_reliability x of None \<Rightarrow> True | Some v \<Rightarrow> is_finite v) \<and>
     ap_version p \<noteq> [] \<and> hex64 (policy_hash H p))"

lemma issued_result_verifies:
  assumes "evaluate H p x = Inr r" and ok: "input_ok H p x"
  shows "verify_assurance_payload H (result_to_dict r) (Some p)"
proof -
  let ?deps = "dependencies_from_paths H (ai_paths x)"
  define e where "e = assess_evidence H (ai_paths x) (ap_minimum_verified_coverage p) []"
  define d where "d = assess_distribution_validity (ai_financial x) (ai_observability x) (ai_sector x) (ai_reference x)"
  from assms(1) obtain proposed f s where
    f: "analyze_fragility ?deps (ai_score x) proposed p (ai_fusion_policy x) = Inr f" and
    s: "decision_sufficient_evidence ?deps proposed p (ai_fusion_policy x) = Inr s" and
    r: "r = issue H p x proposed e f s d"
    by (auto simp: evaluate_def e_def d_def Let_def bind_result_Inr_iff split: option.splits)
  have range: "scores_in_range ?deps" "fusion_policy_ok (ai_fusion_policy x)" "baseline_ok (ai_score x)"
    using ok by (simp_all add: input_ok_def)
  note fields = issue_fields[of H p x proposed e f s d, folded r]
  have nodes: "ea_evidence_ids e = evidence_nodes ?deps"
    by (simp add: e_def assess_evidence_shape nodes_are_verified_ids)
  have frag: "let n = length (evidence_nodes ?deps); rows = map ablation_to_dict (ef_ablations f) in
      length rows = n \<and> list_all2 (ablation_ok (VStr (decision_value proposed)) n) (evidence_nodes ?deps) rows \<and>
      aggregates_ok (fragility_to_dict f) rows n \<and> fragility_state_ok (fragility_to_dict f) n (Some p)"
    by (rule fragility_accepted[OF f range dependency_strings])
  have suff: "sufficient_ok (sufficient_to_dict s) (VStr (decision_value proposed)) (evidence_nodes ?deps) (Some p)"
    by (rule sufficient_accepted[OF s nodes_nonempty])
  have evid: "evidence_ok (evidence_to_dict e)" "counts_ok (evidence_to_dict e) (Some p)"
    using evidence_accepted[OF e_def] by auto
  have dist: "distribution_ok (distribution_to_dict d)"
    using ok by (intro distribution_accepted[OF _ d_def]) (simp add: input_ok_def)
  have known: "list_all (\<lambda>c. c \<in> set reason_code_names) (ar_reasons r)"
    using known_reasons fields(11) by simp
  have diag: "diagnostics_ok (result_to_dict r)"
  proof -
    have "[] \<notin> set (ar_reasons r)"
      using known by (auto simp: list_all_iff reason_code_names_def)
    moreover have "\<forall>v. ad_reliability (ar_diagnostics r) = Some v \<longrightarrow> is_finite v"
      using ok fields(17) by (auto simp: input_ok_def split: if_splits)
    ultimately show ?thesis
      using ok fields(15,16) blockers_nonempty[of p x e f d]
      by (cases "ad_reliability (ar_diagnostics r)") (simp_all add: diagnostics_ok_def Let_def input_ok_def is_number_def)
  qed
  have structures: "verify_structures (result_to_dict r) (Some p)"
    unfolding verify_structures_def Let_def result_get fields(1,5-8) evidence_get fragility_get
      strs_of_vstrs nodes elems.simps is_list.simps
    using frag suff evid(1) dist diag by (simp add: Let_def)
  have header: "header_ok (result_to_dict r)"
    using ok fields(12,13) by (simp add: header_ok_def input_ok_def)
  have cert: "VStr (canonical_hash H (VDict (authorization_content r))) = VStr (ar_certificate_hash r)"
    using fields(14) by simp
  have transition: "verify_transition (result_to_dict r) (Some p)"
    unfolding r by (rule transition_accepted[OF e_def])
  obtain st where "parse_states (result_to_dict r) = Some st" "states_ok H (result_to_dict r) st (Some p)"
    using states_accepted[OF e_def] r by blast
  then show ?thesis
    unfolding verify_assurance_payload_def
    using structures header cert transition known evid(2) fields(5) by simp
qed

text \<open>C1: no result of the engine is rejected at publication. For every input with scores
  between 0 and 100 and non-empty labels, the result that \<open>evaluate\<close> issues passes the
  complete verification of its serialised form under the policy of the engine, so
  \<open>authorize\<close> returns its final decision.\<close>

theorem issued_results_authorized:
  assumes "evaluate H p x = Inr r" and ok: "input_ok H p x"
  shows "authorized_final_decision H (Some r) p = Inr (ar_final r)"
  using issued_result_verifies[OF assms] by (simp add: authorized_final_decision_def verify_assurance_result_def)

text \<open>The sample inputs of the witnesses: verified paths with a score of 75 each, a reference
  profile that contains the only feature, and a digest of the right shape.\<close>

definition sample_digest :: digest where
  "sample_digest s = replicate 63 CHR ''a'' @ [hex_digit (int (length s) mod 16)]"

definition sample_path :: "string \<Rightarrow> string \<Rightarrow> int \<Rightarrow> pyval" where
  "sample_path domain i score = VDict [
     (''reason_code'', VStr ''R1''), (''risk_domain'', VStr domain), (''evidence_path_status'', VStr ''VERIFIED''),
     (''source_evidence'', VList [VDict [(''id'', VStr i)]]),
     (''fusion_contribution'', VDict [(''dimension_score'', VInt score)])]"

definition sample_reference :: reference_profile where
  "sample_reference = \<lparr>rp_name = ''ref'', rp_version = ''1'', rp_scope = ''VALIDATED_EXTERNAL'',
     rp_feature_bounds = [(''current_ratio'', Fin 0, Fin 5)], rp_allowed_sectors = [],
     rp_required_features = [''current_ratio''], rp_minimum_availability = None,
     rp_maximum_outside = Fin (1/8)\<rparr>"

definition sample_input :: "pyval list \<Rightarrow> assurance_input" where
  "sample_input paths = \<lparr>ai_proposed = ''FLAG'', ai_score = Some (Fin 80), ai_paths = paths,
     ai_financial = [(''current_ratio'', Some (Fin 1))], ai_observability = [(''current_ratio'', True)],
     ai_sector = None, ai_disagreement = Fin 0, ai_calibration = VALIDATED_EXTERNAL,
     ai_reliability = None, ai_reference = Some sample_reference, ai_failures = [], ai_fusion_policy = []\<rparr>"

lemma issued_results_authorized_witness:
  "\<exists>r. evaluate sample_digest default_assurance_policy (sample_input [sample_path ''liquidity'' ''e1'' 75]) = Inr r \<and>
     authorized_final_decision sample_digest (Some r) default_assurance_policy = Inr (ar_final r)"
proof -
  let ?x = "sample_input [sample_path ''liquidity'' ''e1'' 75]"
  have "is_ok (evaluate sample_digest default_assurance_policy ?x)" by code_simp
  then obtain r where r: "evaluate sample_digest default_assurance_policy ?x = Inr r"
    by (auto simp: is_ok_iff)
  have "input_ok sample_digest default_assurance_policy ?x" by code_simp
  from issued_results_authorized[OF r this] r show ?thesis by blast
qed

lemma transition_facts:
  fixes v p
  defines "blockers \<equiv> strs_of (vget (vget v ''diagnostics'') ''authorization_blockers'')"
    and "failures \<equiv> strs_of (vget (vget v ''diagnostics'') ''runtime_failures'')"
  assumes "verify_transition v (Some p)"
  shows "concat (map snd (transition_findings v (Some p) blockers (strs_of (vget v ''reason_codes'')) failures)) = blockers"
    "vget v ''final_decision'' = transition_final v blockers failures"
    "vget v ''automation_allowed'' = VBool (blockers = [] \<and>
       (vget v ''final_decision'' = VStr ''PASS'' \<or> vget v ''final_decision'' = VStr ''FLAG'') \<and>
       vget v ''policy_status'' \<noteq> VStr ''HEURISTIC_POLICY'' \<and>
       (vget v ''calibration_status'' \<noteq> VStr ''UNCALIBRATED'' \<or> \<not> ap_require_calibration_for_automation p))"
proof -
  obtain bs where bs: "bs = concat (map snd (transition_findings v (Some p) blockers
      (strs_of (vget v ''reason_codes'')) failures))" by blast
  have "blockers = bs \<and> vget v ''final_decision'' = transition_final v bs failures \<and>
      vget v ''automation_allowed'' = VBool (bs = [] \<and>
       (transition_final v bs failures = VStr ''PASS'' \<or> transition_final v bs failures = VStr ''FLAG'') \<and>
       vget v ''policy_status'' \<noteq> VStr ''HEURISTIC_POLICY'' \<and>
       (vget v ''calibration_status'' \<noteq> VStr ''UNCALIBRATED'' \<or> \<not> ap_require_calibration_for_automation p))"
    using assms(3) unfolding verify_transition_def Let_def bs blockers_def failures_def
    by (simp only: option.case)
  then show "concat (map snd (transition_findings v (Some p) blockers (strs_of (vget v ''reason_codes'')) failures)) = blockers"
    "vget v ''final_decision'' = transition_final v blockers failures"
    "vget v ''automation_allowed'' = VBool (blockers = [] \<and>
       (vget v ''final_decision'' = VStr ''PASS'' \<or> vget v ''final_decision'' = VStr ''FLAG'') \<and>
       vget v ''policy_status'' \<noteq> VStr ''HEURISTIC_POLICY'' \<and>
       (vget v ''calibration_status'' \<noteq> VStr ''UNCALIBRATED'' \<or> \<not> ap_require_calibration_for_automation p))"
    unfolding bs by (simp_all only:)
qed

lemma no_findings:
  assumes "concat (map snd (transition_findings v (Some p) recorded reasons failures)) = []"
  shows "vget (vget v ''evidence_assurance'') ''state'' = VStr ''VERIFIED''"
    "vget (vget v ''evidence_fragility'') ''state'' \<noteq> VStr ''FRAGILE''"
    "vget (vget v ''distribution_validity'') ''state'' \<noteq> VStr ''WARNING''"
    "vget (vget v ''distribution_validity'') ''state'' \<noteq> VStr ''OUTSIDE_REFERENCE''"
    "failures = []"
  using assms by (auto simp: transition_findings_def Let_def split: if_splits)

lemma decisive_payload:
  assumes "verify_assurance_payload H v (Some p)"
    and "vget v ''final_decision'' = VStr ''PASS'' \<or> vget v ''final_decision'' = VStr ''FLAG''"
  shows "vget v ''proposed_decision'' = vget v ''final_decision'' \<and>
    vget v ''policy_version'' = VStr (ap_version p) \<and> vget v ''policy_hash'' = VStr (policy_hash H p) \<and>
    vget (vget v ''evidence_assurance'') ''state'' = VStr ''VERIFIED'' \<and>
    (\<exists>n>0. vget (vget v ''evidence_assurance'') ''material_path_count'' = VInt n \<and>
       vget (vget v ''evidence_assurance'') ''verified_path_count'' = VInt n) \<and>
    strs_of (vget (vget v ''diagnostics'') ''authorization_blockers'') = [] \<and>
    strs_of (vget (vget v ''diagnostics'') ''runtime_failures'') = [] \<and>
    vget (vget v ''distribution_validity'') ''state'' \<noteq> VStr ''WARNING'' \<and>
    vget (vget v ''distribution_validity'') ''state'' \<noteq> VStr ''OUTSIDE_REFERENCE'' \<and>
    vget (vget v ''evidence_fragility'') ''state'' \<noteq> VStr ''FRAGILE''"
proof -
  let ?e = "vget v ''evidence_assurance''" and ?d = "vget v ''diagnostics''"
  obtain s where s: "parse_states v = Some s" "states_ok H v s (Some p)" "verify_transition v (Some p)"
    and counts: "counts_ok ?e (Some p)"
    using assms(1) by (auto simp: verify_assurance_payload_def split: option.splits)
  have bound: "policy_bound H v s (Some p)" using s(2) by (simp add: states_ok_def Let_def)
  note trans = transition_facts[OF s(3)]
  have clear: "strs_of (vget ?d ''authorization_blockers'') = []"
    "vget v ''proposed_decision'' = vget v ''final_decision''"
    using trans(2) assms(2) by (auto simp: transition_final_def Let_def split: if_splits)
  note found = no_findings[OF trans(1)[unfolded clear(1)]]
  have "\<exists>n>0. vget ?e ''material_path_count'' = VInt n \<and> vget ?e ''verified_path_count'' = VInt n"
    using found(1) counts
    by (auto simp: counts_ok_def parse_evidence_state_def expected_evidence_state_def split: pyval.splits if_splits)
  then show ?thesis using bound found trans(1) clear by (simp add: policy_bound_def)
qed

text \<open>C2: the publication boundary is sound. A serialised result that verifies under a policy
  and carries a decisive final decision (\<open>PASS\<close> or \<open>FLAG\<close>) was issued for that very policy,
  did not change the proposed decision, and records complete verified evidence (at least one
  material path, all of them verified), no blocker, no runtime failure, a distribution
  state without warning and an evidence state that is not fragile, whatever else the payload
  claims.\<close>

theorem decisive_payload_sound:
  assumes "verify_assurance_payload H v (Some p)"
    and "vget v ''final_decision'' = VStr ''PASS'' \<or> vget v ''final_decision'' = VStr ''FLAG''"
  shows "vget v ''proposed_decision'' = vget v ''final_decision'' \<and>
    vget v ''policy_version'' = VStr (ap_version p) \<and> vget v ''policy_hash'' = VStr (policy_hash H p) \<and>
    vget (vget v ''evidence_assurance'') ''state'' = VStr ''VERIFIED'' \<and>
    (\<exists>n>0. vget (vget v ''evidence_assurance'') ''material_path_count'' = VInt n \<and>
       vget (vget v ''evidence_assurance'') ''verified_path_count'' = VInt n) \<and>
    strs_of (vget (vget v ''diagnostics'') ''authorization_blockers'') = [] \<and>
    strs_of (vget (vget v ''diagnostics'') ''runtime_failures'') = [] \<and>
    vget (vget v ''distribution_validity'') ''state'' \<noteq> VStr ''WARNING'' \<and>
    vget (vget v ''distribution_validity'') ''state'' \<noteq> VStr ''OUTSIDE_REFERENCE'' \<and>
    vget (vget v ''evidence_fragility'') ''state'' \<noteq> VStr ''FRAGILE''"
  by (rule decisive_payload[OF assms])

definition sample_paths :: "pyval list" where
  "sample_paths = [sample_path ''liquidity'' ''e1'' 75, sample_path ''leverage'' ''e2'' 75]"

definition mature_policy :: assurance_policy where
  "mature_policy = default_assurance_policy\<lparr>ap_maturity := MATURE_EXTERNAL\<rparr>"

lemma sample_accepted:
  "case evaluate sample_digest mature_policy (sample_input sample_paths) of
     Inl e \<Rightarrow> False
   | Inr r \<Rightarrow> verify_assurance_payload sample_digest (result_to_dict r) (Some mature_policy) \<and>
       ar_final r = FLAG \<and> ar_automation r"
  by code_simp

lemma decisive_payload_sound_witness:
  "\<exists>v. vget v ''final_decision'' = VStr ''FLAG'' \<and>
     vget (vget v ''evidence_assurance'') ''state'' = VStr ''VERIFIED''"
proof -
  obtain r where "verify_assurance_payload sample_digest (result_to_dict r) (Some mature_policy)"
    "vget (result_to_dict r) ''final_decision'' = VStr ''FLAG''"
    using sample_accepted by (auto split: sum.splits)
  then show ?thesis using decisive_payload_sound by blast
qed

text \<open>C12: automation is never granted beyond the policy. A verified payload that allows
  automation carries an unchanged decisive decision, complete verified evidence, and was
  issued under a policy whose maturity is at least internally calibrated and, where the
  policy demands it, with a calibrated model; in particular no payload that allows automation
  verifies under the default development policy.\<close>

theorem automation_requires_maturity:
  assumes "verify_assurance_payload H v (Some p)" and "vget v ''automation_allowed'' = VBool True"
  shows "ap_maturity p \<noteq> HEURISTIC_POLICY \<and> p \<noteq> default_assurance_policy \<and>
    (vget v ''final_decision'' = VStr ''PASS'' \<or> vget v ''final_decision'' = VStr ''FLAG'') \<and>
    vget v ''final_decision'' = vget v ''proposed_decision'' \<and>
    vget v ''assurance_status'' = VStr ''PASSED'' \<and>
    vget (vget v ''evidence_assurance'') ''state'' = VStr ''VERIFIED'' \<and>
    (ap_require_calibration_for_automation p \<longrightarrow> vget v ''calibration_status'' \<noteq> VStr ''UNCALIBRATED'')"
proof -
  obtain s where s: "parse_states v = Some s" "states_ok H v s (Some p)" "verify_transition v (Some p)"
    using assms(1) by (auto simp: verify_assurance_payload_def split: option.splits)
  have auto_ok: "automation_ok s True (Some p)" and bound: "policy_bound H v s (Some p)"
    using s(2) assms(2) by (simp_all add: states_ok_def Let_def)
  have mature: "ap_maturity p \<noteq> HEURISTIC_POLICY"
    using auto_ok bound by (auto simp: automation_ok_def policy_bound_def)
  have trans: "vget v ''final_decision'' = VStr ''PASS'' \<or> vget v ''final_decision'' = VStr ''FLAG''"
    "ap_require_calibration_for_automation p \<longrightarrow> vget v ''calibration_status'' \<noteq> VStr ''UNCALIBRATED''"
    using transition_facts(3)[OF s(3)] assms(2) by auto
  have parsed: "ps_final s = ps_proposed s" "ps_status s = PASSED" "ps_evidence s = EV_VERIFIED"
    using auto_ok by (auto simp: automation_ok_def)
  have str: "str_of w = t \<Longrightarrow> t \<noteq> [] \<Longrightarrow> w = VStr t" for w t by (cases w) auto
  have "str_of (vget v ''proposed_decision'') = decision_value (ps_proposed s)"
    "str_of (vget v ''final_decision'') = decision_value (ps_final s)"
    "parse_status (str_of (vget v ''assurance_status'')) = Some (ps_status s)"
    "parse_evidence_state (str_of (vget (vget v ''evidence_assurance'') ''state'')) = Some (ps_evidence s)"
    using s(1) by (auto simp: parse_states_def parse_decision_iff split: option.splits)
  moreover have "decision_value x \<noteq> []" for x by (cases x) simp_all
  ultimately have eqs: "str_of (vget v ''proposed_decision'') = str_of (vget v ''final_decision'')"
    "str_of (vget v ''final_decision'') \<noteq> []"
    "vget v ''assurance_status'' = VStr ''PASSED''"
    "vget (vget v ''evidence_assurance'') ''state'' = VStr ''VERIFIED''"
    using parsed by (auto simp: parse_status_def parse_evidence_state_def intro!: str split: if_splits)
  have same: "vget v ''final_decision'' = vget v ''proposed_decision''"
    using str[OF refl] eqs(1,2) by (metis str)
  from same eqs(3,4) show ?thesis using mature trans by (auto simp: default_assurance_policy_def)
qed

lemma automation_requires_maturity_witness:
  "\<exists>v. vget v ''automation_allowed'' = VBool True \<and> vget v ''assurance_status'' = VStr ''PASSED''"
proof -
  obtain r where "verify_assurance_payload sample_digest (result_to_dict r) (Some mature_policy)"
    "vget (result_to_dict r) ''automation_allowed'' = VBool True"
    using sample_accepted by (auto split: sum.splits)
  then show ?thesis using automation_requires_maturity by blast
qed

text \<open>C11: the engine never weakens the proposed disposition. In the order \<open>PASS\<close>, \<open>FLAG\<close>,
  \<open>REVIEW\<close>, \<open>ABSTAIN\<close> the final decision is at least the proposed one, it is the proposed one,
  \<open>REVIEW\<close> or \<open>ABSTAIN\<close>, and it is \<open>ABSTAIN\<close> whenever no material path is verified or a
  parser failure, stale data or missing evidence was reported.\<close>

theorem final_at_least_proposed:
  assumes "evaluate H p x = Inr r"
  shows "ar_proposed r \<le> ar_final r \<and> ar_final r \<in> {ar_proposed r, REVIEW, ABSTAIN} \<and>
    (ea_verified (ar_evidence r) = 0 \<longrightarrow> ar_final r = ABSTAIN) \<and>
    (\<forall>f\<in>set (ai_failures x). f \<in> set blocking_failures \<longrightarrow> ar_final r = ABSTAIN)"
proof -
  define e where "e = assess_evidence H (ai_paths x) (ap_minimum_verified_coverage p) []"
  from assms obtain proposed f s d where r: "r = issue H p x proposed e f s d"
    by (auto simp: evaluate_def e_def Let_def bind_result_Inr_iff split: option.splits)
  have "ar_proposed r = proposed" "ar_evidence r = e"
    and final: "ar_final r = final_decision proposed (issue_abstains x e) (issue_blockers p x e f d)"
    by (simp_all add: r issue_fields)
  moreover have "issue_abstains x e" if "ea_verified e = 0 \<or> (\<exists>f\<in>set (ai_failures x). f \<in> set blocking_failures)"
    using that issue_abstains_iff[OF e_def, of x] by (auto simp: list_ex_iff)
  moreover have "q \<le> REVIEW \<or> q = ABSTAIN" for q by (cases q) (simp_all add: less_eq_decision_def)
  ultimately show ?thesis by (auto simp: final_decision_def)
qed

lemma final_at_least_proposed_witness:
  "\<exists>r. evaluate sample_digest default_assurance_policy (sample_input []) = Inr r \<and> ar_proposed r \<le> ar_final r"
proof -
  have "is_ok (evaluate sample_digest default_assurance_policy (sample_input []))" by code_simp
  then obtain r where "evaluate sample_digest default_assurance_policy (sample_input []) = Inr r"
    by (auto simp: is_ok_iff)
  then show ?thesis using final_at_least_proposed by blast
qed

end
