(* ===== verification/Decision.thy ===== *)
theory Decision
  imports Engine
begin

text \<open>
  Decision traces, analysis snapshots and their replay (\<open>enterprise/decision.py\<close>), and the
  decision certificate (\<open>enterprise/decision_bundle.py\<close>, \<open>assurance/certificate.py\<close>). A
  value that is not a dictionary where the code calls \<open>.get\<close> raises \<open>AttributeError\<close> in
  Python and is read as an empty dictionary. \<open>uuid4().hex\<close> and the clock are arguments.
\<close>

section \<open>Decision traces\<close>

text \<open>\<open>{item["rule_id"]: item for item in triggered_rules}\<close>\<close>

fun rules_by_id :: "pyval list \<Rightarrow> (pyval \<times> pyval) list \<Rightarrow> (pyval \<times> pyval) list result" where
  "rules_by_id [] acc = Inr acc"
| "rules_by_id (r # rs) acc =
     (if has_key (items r) ''rule_id'' then rules_by_id rs (AList.update (vget r ''rule_id'') r acc)
      else Inl (KeyError ''rule_id''))"

definition vget_or :: "pyval \<Rightarrow> string \<Rightarrow> pyval \<Rightarrow> pyval" where
  "vget_or v k d = dict_get (items v) k d"

definition proposal_of :: "pyval \<Rightarrow> pyval" where
  "proposal_of fusion = vget_or fusion ''proposed_decision'' (vget fusion ''decision'')"

definition path_status :: "bool \<Rightarrow> pyval" where
  "path_status verified = VStr (if verified then ''VERIFIED'' else ''UNVERIFIED'')"

definition rule_path :: "pyval \<Rightarrow> pyval \<Rightarrow> pyval \<Rightarrow> (pyval \<times> pyval) list \<Rightarrow> string \<Rightarrow> pyval \<Rightarrow> pyval \<Rightarrow> pyval" where
  "rule_path assessment fusion versions rules domain dimension reason =
     (let signal = (case map_of rules reason of None \<Rightarrow> VDict [] | Some r \<Rightarrow> r);
          required = vget_or signal ''required_inputs'' (VList []);
          provenance = vget_or signal ''input_provenance'' (VDict [])
      in VDict [
        (''reason_code'', reason),
        (''risk_domain'', VStr domain),
        (''source_evidence'', vget_or signal ''source_refs'' (VList [])),
        (''required_inputs'', required),
        (''input_provenance'', provenance),
        (''rule_or_model'', por (vget signal ''family'') reason),
        (''rule_version'', vget_or versions ''rules'' (VStr ''UNPINNED'')),
        (''fusion_version'', vget_or versions ''fusion'' (VStr ''UNPINNED'')),
        (''confidence'', vget assessment ''confidence''),
        (''coverage'', vget_or dimension ''coverage'' (VFloat (Fin 0))),
        (''disagreement'', vget_or fusion ''disagreement'' (VFloat (Fin 0))),
        (''fusion_contribution'', VDict [
          (''method'', vget fusion ''method''),
          (''dimension_score'', vget dimension ''score''),
          (''role'', VStr (if VStr domain \<in> set (elems (vget_or fusion ''drivers'' (VList []))) then ''escalator''
             else ''supporting''))]),
        (''decision_dependency'', VDict [
          (''proposed_decision'', proposal_of fusion),
          (''risk_dimension'', VStr domain),
          (''computational_contribution'', vget dimension ''score'')]),
        (''evidence_path_status'', path_status (verified_numeric_inputs required provenance)),
        (''path'', vstrs [''document'', ''evidence_span'', ''fact'', ''metric'', ''rule/model'', ''dimension'',
           ''fusion'', ''decision''])])"

definition pad3 :: "nat \<Rightarrow> string" where
  "pad3 n = (let s = str_int (int n) in replicate (3 - length s) CHR ''0'' @ s)"

definition contradiction_path :: "pyval \<Rightarrow> pyval \<Rightarrow> pyval \<Rightarrow> nat \<Rightarrow> pyval \<Rightarrow> pyval" where
  "contradiction_path assessment fusion versions index c =
     (let evidence = vget_or c ''evidence'' (VDict []);
          required = vget_or c ''required_inputs'' (VList []);
          provenance = vget_or c ''input_provenance'' (VDict []);
          verified = (vget evidence ''verification_status'' = VStr ''verified'' \<and>
            verified_numeric_inputs required provenance);
          category = vget_or c ''category'' (VStr ''disclosure_tension'');
          dimension = (case vget c ''category'' of
              VStr k \<Rightarrow> vget_or (vget_or assessment ''dimensions'' (VDict [])) k (VDict [])
            | _ \<Rightarrow> VDict [])
      in VDict [
        (''reason_code'', VStr (''DISCLOSURE_TENSION_'' @ pad3 (index + 1))),
        (''risk_domain'', category),
        (''source_evidence'', VList [evidence]),
        (''required_inputs'', required),
        (''input_provenance'', provenance),
        (''rule_or_model'', VStr ''narrative_numeric_consistency''),
        (''rule_version'', vget_or versions ''rules'' (VStr ''UNPINNED'')),
        (''fusion_version'', vget_or versions ''fusion'' (VStr ''UNPINNED'')),
        (''confidence'', vget_or evidence ''confidence'' (VFloat (Fin 0))),
        (''coverage'', VFloat (Fin (if verified then 1 else 0))),
        (''disagreement'', vget_or fusion ''disagreement'' (VFloat (Fin 0))),
        (''fusion_contribution'', VDict [
          (''method'', vget fusion ''method''),
          (''dimension_score'', vget dimension ''score''),
          (''role'', VStr ''cross_modal_review'')]),
        (''decision_dependency'', VDict [
          (''proposed_decision'', proposal_of fusion),
          (''risk_dimension'', category),
          (''computational_contribution'', vget dimension ''score'')]),
        (''evidence_path_status'', path_status verified),
        (''path'', vstrs [''document'', ''evidence_span'', ''claim'', ''consistency_check'', ''dimension'',
           ''fusion'', ''decision''])])"

definition trace_paths :: "pyval \<Rightarrow> pyval \<Rightarrow> pyval \<Rightarrow> (pyval \<times> pyval) list \<Rightarrow> pyval list" where
  "trace_paths assessment fusion versions rules =
     concat (map (\<lambda>(domain, dimension).
         map (rule_path assessment fusion versions rules domain dimension)
           (elems (vget_or dimension ''key_drivers'' (VList []))))
       (items (vget_or assessment ''dimensions'' (VDict []))))
     @ map (\<lambda>(index, c). contradiction_path assessment fusion versions index c)
         (List.enumerate 0 (elems (vget_or assessment ''contradictions'' (VList []))))"

definition marked_verified :: "pyval \<Rightarrow> bool" where
  "marked_verified path = (vget path ''evidence_path_status'' = VStr ''VERIFIED'')"

definition build_decision_trace :: "pyval \<Rightarrow> pyval \<Rightarrow> pyval \<Rightarrow> pyval result" where
  "build_decision_trace assessment fusion versions =
     bind_result (rules_by_id (elems (vget_or assessment ''triggered_rules'' (VList []))) []) (\<lambda>rules.
       let paths = trace_paths assessment fusion versions rules;
           valid = length (filter marked_verified paths)
       in Inr (VDict [
         (''proposed_decision'', proposal_of fusion),
         (''decision'', proposal_of fusion),
         (''decision_reason_codes'', vget_or fusion ''reason_codes'' (VList [])),
         (''paths'', VList paths),
         (''verified_path_count'', vnat valid),
         (''material_path_count'', vnat (length paths)),
         (''proof_coverage'', VFloat (if paths = [] then Fin 0
            else pround 3 (int_div (int valid) (int (length paths)))))]))"

section \<open>Snapshots and replay\<close>

definition new_id :: "string \<Rightarrow> string \<Rightarrow> string" where
  "new_id kind hex = kind @ ''_'' @ hex"

record analysis_snapshot =
  sn_id :: string
  sn_organization_id :: string
  sn_entity_id :: string
  sn_input_hash :: string
  sn_output_hash :: string
  sn_document_versions :: pyval
  sn_component_versions :: pyval
  sn_frozen_input :: pyval
  sn_frozen_output :: pyval
  sn_created_at :: string

definition material_hash :: "digest \<Rightarrow> pyval \<Rightarrow> string" where
  "material_hash H v = canonical_hash H (material_decision_payload v)"

definition create_snapshot :: "digest \<Rightarrow> string \<Rightarrow> string \<Rightarrow> string \<Rightarrow> string \<Rightarrow> pyval \<Rightarrow> pyval
    \<Rightarrow> pyval \<Rightarrow> pyval \<Rightarrow> analysis_snapshot" where
  "create_snapshot H hex now organization_id entity_id frozen_input frozen_output documents components =
     \<lparr>sn_id = new_id ''snapshot'' hex, sn_organization_id = organization_id, sn_entity_id = entity_id,
      sn_input_hash = material_hash H frozen_input, sn_output_hash = material_hash H frozen_output,
      sn_document_versions = documents, sn_component_versions = components,
      sn_frozen_input = frozen_input, sn_frozen_output = frozen_output, sn_created_at = now\<rparr>"

definition replay_diff :: "digest \<Rightarrow> analysis_snapshot \<Rightarrow> pyval \<Rightarrow> pyval" where
  "replay_diff H s replayed =
     (let replay_hash = material_hash H replayed; match = (replay_hash = sn_output_hash s)
      in VDict [(''snapshot_id'', VStr (sn_id s)),
          (''historical_output_hash'', VStr (sn_output_hash s)),
          (''replayed_output_hash'', VStr replay_hash),
          (''match'', VBool match),
          (''classification'', VStr (if match then ''IDENTICAL'' else ''DRIFT_DETECTED''))])"

definition version_diff :: "pyval \<Rightarrow> pyval \<Rightarrow> pyval" where
  "version_diff historical current = VDict (map (\<lambda>k. (k, VDict [
       (''historical'', vget historical k), (''current'', vget current k)]))
     (filter (\<lambda>k. \<not> veq (vget historical k) (vget current k))
       (sorted_set (map fst (items historical) @ map fst (items current)))))"

definition replay_snapshot :: "digest \<Rightarrow> analysis_snapshot \<Rightarrow> (pyval \<Rightarrow> pyval result) \<Rightarrow> pyval \<Rightarrow> pyval result" where
  "replay_snapshot H s runner current =
     (if \<not> veq current (sn_component_versions s)
      then Inr (VDict [(''snapshot_id'', VStr (sn_id s)), (''status'', VStr ''VERSION_MISMATCH''),
        (''historical_result'', sn_frozen_output s), (''recomputed_result'', VNone),
        (''version_diff'', version_diff (sn_component_versions s) current)])
      else bind_result (runner (sn_frozen_input s)) (\<lambda>recomputed.
        Inr (VDict [(''snapshot_id'', VStr (sn_id s)), (''status'', VStr ''REPLAYED''),
          (''historical_result'', sn_frozen_output s), (''recomputed_result'', recomputed),
          (''diff'', replay_diff H s recomputed)])))"

section \<open>The decision certificate\<close>

record decision_bundle =
  db_bundle_id :: string
  db_organization_id :: string
  db_entity_id :: string
  db_created_at :: string
  db_document_hashes :: pyval
  db_input_hash :: string
  db_output_hash :: string
  db_risk_state :: pyval
  db_risk_delta :: pyval
  db_evidence_paths :: "pyval list"
  db_calculations :: pyval
  db_agent_trace :: "pyval list"
  db_component_versions :: pyval
  db_human_review :: pyval
  db_final_decision :: string
  db_epistemics :: pyval
  db_telemetry :: "pyval list"
  db_bundle_hash :: string
  db_proposed_decision :: string
  db_assurance :: pyval
  db_sufficient :: pyval
  db_policy_version :: string
  db_policy_hash :: string
  db_calibration_status :: string
  db_replay :: pyval
  db_certificate_version :: string
  db_certificate_hash :: string

text \<open>The fields that the digest of a certificate covers, in the order of the code.\<close>

definition bundle_content :: "decision_bundle \<Rightarrow> obj" where
  "bundle_content b = [
     (''organization_id'', VStr (db_organization_id b)),
     (''entity_id'', VStr (db_entity_id b)),
     (''document_hashes'', db_document_hashes b),
     (''input_hash'', VStr (db_input_hash b)),
     (''output_hash'', VStr (db_output_hash b)),
     (''risk_state'', db_risk_state b),
     (''risk_delta'', db_risk_delta b),
     (''evidence_paths'', VList (db_evidence_paths b)),
     (''calculations'', db_calculations b),
     (''agent_trace'', VList (db_agent_trace b)),
     (''component_versions'', db_component_versions b),
     (''human_review'', db_human_review b),
     (''final_decision'', VStr (db_final_decision b)),
     (''epistemics'', db_epistemics b),
     (''component_telemetry'', VList (db_telemetry b)),
     (''proposed_decision'', VStr (db_proposed_decision b)),
     (''assurance'', db_assurance b),
     (''decision_sufficient_evidence'', db_sufficient b),
     (''policy_version'', VStr (db_policy_version b)),
     (''policy_hash'', VStr (db_policy_hash b)),
     (''calibration_status'', VStr (db_calibration_status b)),
     (''replay'', db_replay b),
     (''certificate_version'', VStr (db_certificate_version b))]"

definition v03_fields :: "string list" where
  "v03_fields = [''proposed_decision'', ''assurance'', ''decision_sufficient_evidence'', ''policy_version'',
     ''policy_hash'', ''calibration_status'', ''replay'', ''certificate_version'']"

definition unspecified :: string where
  "unspecified = ''UNSPECIFIED''"

text \<open>The arguments of \<open>build_decision_bundle\<close>; an optional dictionary that is \<open>None\<close> is
  \<open>VNone\<close>.\<close>

record bundle_request =
  br_organization_id :: string
  br_entity_id :: string
  br_document_hashes :: pyval
  br_frozen_input :: pyval
  br_frozen_output :: pyval
  br_risk_state :: pyval
  br_evidence_paths :: "pyval list"
  br_calculations :: pyval
  br_agent_trace :: "pyval list"
  br_component_versions :: pyval
  br_final_decision :: string
  br_risk_delta :: pyval
  br_human_review :: pyval
  br_epistemics :: pyval
  br_telemetry :: "pyval list"
  br_proposed_decision :: "string option"
  br_assurance :: pyval
  br_sufficient :: pyval
  br_policy_version :: string
  br_policy_hash :: string
  br_calibration_status :: string
  br_replay :: pyval

definition certificate_version :: string where
  "certificate_version = ''decision-certificate-v0.4''"

definition or_empty :: "pyval \<Rightarrow> pyval" where
  "or_empty v = por v (VDict [])"

text \<open>A field that is left at its default is copied from the assurance result.\<close>

definition inherited :: "string \<Rightarrow> string \<Rightarrow> pyval \<Rightarrow> string" where
  "inherited given unset recorded = (if given = unset then str_of recorded else given)"

definition build_decision_bundle :: "digest \<Rightarrow> string \<Rightarrow> assurance_policy option \<Rightarrow> bundle_request
    \<Rightarrow> decision_bundle result" where
  "build_decision_bundle H now policy q =
     (let assurance = br_assurance q;
          proposed = (case br_proposed_decision q of None \<Rightarrow> br_final_decision q
            | Some p \<Rightarrow> if p = [] then br_final_decision q else p)
      in if \<not> (case policy of None \<Rightarrow> False | Some p \<Rightarrow> verify_assurance_payload H assurance (Some p))
         then Inl (ValueError ''a valid AssuranceResult is required for a Decision Certificate'')
         else if vget assurance ''proposed_decision'' \<noteq> VStr proposed
         then Inl (ValueError ''certificate proposal does not match AssuranceResult'')
         else if vget assurance ''final_decision'' \<noteq> VStr (br_final_decision q)
         then Inl (ValueError ''certificate final decision does not match AssuranceResult'')
         else
           (let b = \<lparr>db_bundle_id = [], db_organization_id = br_organization_id q,
                     db_entity_id = br_entity_id q, db_created_at = now,
                     db_document_hashes = br_document_hashes q,
                     db_input_hash = material_hash H (br_frozen_input q),
                     db_output_hash = material_hash H (br_frozen_output q),
                     db_risk_state = br_risk_state q, db_risk_delta = br_risk_delta q,
                     db_evidence_paths = br_evidence_paths q, db_calculations = br_calculations q,
                     db_agent_trace = br_agent_trace q, db_component_versions = br_component_versions q,
                     db_human_review = br_human_review q, db_final_decision = br_final_decision q,
                     db_epistemics = or_empty (br_epistemics q), db_telemetry = br_telemetry q,
                     db_bundle_hash = [], db_proposed_decision = proposed,
                     db_assurance = or_empty assurance,
                     db_sufficient = or_empty (por (br_sufficient q) (vget assurance ''decision_sufficient_evidence'')),
                     db_policy_version = inherited (br_policy_version q) unspecified (vget assurance ''policy_version''),
                     db_policy_hash = inherited (br_policy_hash q) unspecified (vget assurance ''policy_hash''),
                     db_calibration_status = inherited (br_calibration_status q) ''UNCALIBRATED'' (vget assurance ''calibration_status''),
                     db_replay = or_empty (br_replay q), db_certificate_version = certificate_version,
                     db_certificate_hash = []\<rparr>;
                d = material_hash H (VDict (bundle_content b))
            in Inr (b\<lparr>db_bundle_id := ''bundle_'' @ take 20 d, db_bundle_hash := d, db_certificate_hash := d\<rparr>)))"

definition is_legacy :: "decision_bundle \<Rightarrow> bool" where
  "is_legacy b = (db_certificate_version b = ''decision-bundle-v0.3'' \<and> db_certificate_hash b = [] \<and>
     \<not> truthy (db_assurance b) \<and> \<not> truthy (db_sufficient b) \<and>
     db_policy_version b = unspecified \<and> db_policy_hash b = unspecified \<and> \<not> truthy (db_replay b))"

definition bound_to_assurance :: "decision_bundle \<Rightarrow> bool" where
  "bound_to_assurance b = (let a = db_assurance b in
     vget a ''proposed_decision'' = VStr (db_proposed_decision b) \<and>
     vget a ''final_decision'' = VStr (db_final_decision b) \<and>
     vget a ''policy_version'' = VStr (db_policy_version b) \<and>
     vget a ''policy_hash'' = VStr (db_policy_hash b) \<and>
     vget a ''calibration_status'' = VStr (db_calibration_status b) \<and>
     veq (vget a ''decision_sufficient_evidence'') (db_sufficient b))"

definition claim_fields :: "string list" where
  "claim_fields = [''material_path_count'', ''verified_path_count'', ''coverage'', ''verified_evidence_ids'',
     ''supported_claims'']"

definition evidence_claim :: "pyval \<Rightarrow> pyval" where
  "evidence_claim e = VDict (map (\<lambda>k. (k, vget e k)) claim_fields)"

definition evidence_recomputed :: "digest \<Rightarrow> decision_bundle \<Rightarrow> assurance_policy option \<Rightarrow> bool" where
  "evidence_recomputed H b policy =
     (let minimum = (case policy of None \<Rightarrow> lit 4 10 | Some p \<Rightarrow> ap_minimum_verified_coverage p);
          actual = evidence_to_dict (assess_evidence H (db_evidence_paths b) minimum []);
          recorded = vget (db_assurance b) ''evidence_assurance''
      in list_all (has_key (items recorded)) claim_fields \<and>
         canonical_hash H (evidence_claim actual) = canonical_hash H (evidence_claim recorded))"

definition verify_decision_bundle :: "digest \<Rightarrow> decision_bundle \<Rightarrow> assurance_policy option \<Rightarrow> bool" where
  "verify_decision_bundle H b policy =
     (let certificate = (db_certificate_version b = certificate_version);
          d = material_hash H (VDict (bundle_content b));
          matches = (d = db_bundle_hash b \<and> (db_certificate_hash b = [] \<or> d = db_certificate_hash b))
      in if certificate then
           db_certificate_hash b \<noteq> [] \<and> verify_assurance_payload H (db_assurance b) policy \<and>
           bound_to_assurance b \<and> evidence_recomputed H b policy \<and>
           db_bundle_id b = ''bundle_'' @ take 20 d \<and> matches
         else is_legacy b \<and> (matches \<or>
           canonical_hash H (VDict (filter (\<lambda>(k, _). k \<notin> set v03_fields) (bundle_content b))) = db_bundle_hash b))"

definition verify_decision_certificate :: "digest \<Rightarrow> decision_bundle \<Rightarrow> assurance_policy option \<Rightarrow> bool" where
  "verify_decision_certificate H b policy =
     (db_certificate_version b = certificate_version \<and> db_certificate_hash b \<noteq> [] \<and>
      verify_decision_bundle H b policy)"

end
