(* ===== verification/Certificate.thy ===== *)
theory Certificate
  imports Authority Decision
begin

text \<open>
  What a decision certificate establishes. The digest of the evidence that a certificate
  recomputes determines the recorded counts, because the canonical text of the claim can be
  read back (section 1); hence an accepted decisive certificate carries complete verified
  evidence itself, not only a record that says so. Certificates that are built from an
  issued assurance result are accepted. Traces and replays are covered in the last sections.
\<close>

section \<open>Reading the canonical text back\<close>

text \<open>A number has neither a comma nor a colon in its text.\<close>

definition plain :: "string \<Rightarrow> bool" where
  "plain s = (CHR '','' \<notin> set s \<and> CHR '':'' \<notin> set s)"

lemma plain_simps [simp]:
  "plain []" "plain (c # s) \<longleftrightarrow> c \<noteq> CHR '','' \<and> c \<noteq> CHR '':'' \<and> plain s"
  "plain (s @ t) \<longleftrightarrow> plain s \<and> plain t"
  by (auto simp: plain_def)

lemma plain_replicate [simp]: "plain (replicate n c) \<longleftrightarrow> n = 0 \<or> plain [c]"
  by (auto simp: plain_def)

lemma plain_subset: "plain s \<Longrightarrow> set t \<subseteq> set s \<Longrightarrow> plain t"
  by (auto simp: plain_def)

lemma plain_digits [simp]: "0 \<le> n \<Longrightarrow> plain (digits n)"
  using digits_chars[of n] by (fastforce simp: plain_def)

lemma plain_str_int [simp]: "plain (str_int i)"
  by (simp add: str_int_def)

lemma plain_take [simp]: "plain s \<Longrightarrow> plain (take n s)"
  by (erule plain_subset) (rule set_take_subset)

lemma plain_drop [simp]: "plain s \<Longrightarrow> plain (drop n s)"
  by (erule plain_subset) (rule set_drop_subset)

lemma plain_drop_zeros: "plain s \<Longrightarrow> plain (drop_zeros s)"
  by (erule plain_subset) (auto simp: drop_zeros_def dest: set_dropWhileD)

lemma plain_float_digits: "float_digits q = (ds, p) \<Longrightarrow> plain ds"
  by (auto simp: float_digits_def Let_def intro!: plain_drop_zeros split: prod.splits)

lemma plain_repr_pos [simp]: "plain (repr_pos q)"
  using plain_float_digits by (auto simp: repr_pos_def pad2_def split: prod.splits)

lemma plain_number: "is_number v \<Longrightarrow> plain (dumps (canon v))"
  by (cases v) (auto simp: is_number_def elim!: is_finite.elims)

lemma cut:
  assumes "xs @ c # ys = xs' @ c # ys'" "c \<notin> set xs" "c \<notin> set xs'"
  shows "xs = xs' \<and> ys = ys'"
  using assms by (induction xs arbitrary: xs') (auto simp: Cons_eq_append_conv)

lemma cut_last:
  assumes "xs @ c # ys = xs' @ c # ys'" "c \<notin> set ys" "c \<notin> set ys'"
  shows "ys = ys'"
proof -
  have "rev ys @ c # rev xs = rev ys' @ c # rev xs'"
    using arg_cong[OF assms(1), of rev] by simp
  from cut[OF this] assms(2,3) show ?thesis by simp
qed

lemma sort_key_map_pairs: "sort_key fst (map (\<lambda>k. (k, g k)) ks) = map (\<lambda>k. (k, g k)) (sort ks)"
proof -
  have "insort_key fst (k, g k) (map (\<lambda>k. (k, g k)) ks) = map (\<lambda>k. (k, g k)) (insort k ks)" for k ks
    by (induction ks) auto
  then show ?thesis by (induction ks) auto
qed

lemma sort_claim_fields: "sort claim_fields = [''coverage'', ''material_path_count'', ''supported_claims'',
    ''verified_evidence_ids'', ''verified_path_count'']"
  by code_simp

lemma claim_text: "\<exists>mid. dumps (canon (evidence_claim e)) =
    ''{'' @ json_str ''coverage'' @ '':'' @ dumps (canon (vget e ''coverage'')) @ '','' @
    json_str ''material_path_count'' @ '':'' @ dumps (canon (vget e ''material_path_count'')) @ '','' @ mid @ '':'' @
    dumps (canon (vget e ''verified_path_count'')) @ ''}''"
proof -
  let ?t = "\<lambda>k. json_str k @ '':'' @ dumps (canon (vget e k))"
  have "map (\<lambda>(k, v). (k, canon v)) (map (\<lambda>k. (k, vget e k)) claim_fields) =
      map (\<lambda>k. (k, canon (vget e k))) claim_fields"
    by simp
  then have c: "canon (evidence_claim e) = VDict (map (\<lambda>k. (k, canon (vget e k))) (sort claim_fields))"
    by (simp only: evidence_claim_def canon.simps sort_key_map_pairs)
  have "dumps (canon (evidence_claim e)) =
    ''{'' @ ?t ''coverage'' @ '','' @ ?t ''material_path_count'' @ '','' @
      (?t ''supported_claims'' @ '','' @ ?t ''verified_evidence_ids'' @ '','' @ json_str ''verified_path_count'') @
      '':'' @ dumps (canon (vget e ''verified_path_count'')) @ ''}''"
    unfolding c sort_claim_fields by (simp del: canon.simps)
  then show ?thesis by (auto simp del: canon.simps dumps.simps)
qed

lemma claim_counts:
  assumes eq: "dumps (canon (evidence_claim e)) = dumps (canon (evidence_claim f))"
    and num: "is_number (vget e ''coverage'')" "is_number (vget f ''coverage'')"
    and e: "vget e ''material_path_count'' = VInt m" "vget e ''verified_path_count'' = VInt n"
    and f: "vget f ''material_path_count'' = VInt m'" "vget f ''verified_path_count'' = VInt n'"
    and pos: "0 \<le> m" "0 \<le> n" "0 \<le> m'" "0 \<le> n'"
  shows "m = m' \<and> n = n'"
proof -
  obtain x y where eq': "''{'' @ json_str ''coverage'' @ '':'' @ dumps (canon (vget e ''coverage'')) @ '','' @
      json_str ''material_path_count'' @ '':'' @ str_int m @ '','' @ x @ '':'' @ str_int n @ ''}'' =
    ''{'' @ json_str ''coverage'' @ '':'' @ dumps (canon (vget f ''coverage'')) @ '','' @
      json_str ''material_path_count'' @ '':'' @ str_int m' @ '','' @ y @ '':'' @ str_int n' @ ''}''"
    using eq claim_text[of e] claim_text[of f] unfolding e f canon.simps dumps.simps by metis
  define a b where "a = dumps (canon (vget e ''coverage''))" and "b = dumps (canon (vget f ''coverage''))"
  have ab: "plain a" "plain b" using num by (simp_all add: a_def b_def plain_number)
  have "a @ CHR '','' # json_str ''material_path_count'' @ '':'' @ str_int m @ '','' @ x @ '':'' @ str_int n @ ''}'' =
      b @ CHR '','' # json_str ''material_path_count'' @ '':'' @ str_int m' @ '','' @ y @ '':'' @ str_int n' @ ''}''"
    using eq' unfolding a_def[symmetric] b_def[symmetric] by simp
  from cut[OF this] ab have "str_int m @ CHR '','' # x @ '':'' @ str_int n @ ''}'' =
      str_int m' @ CHR '','' # y @ '':'' @ str_int n' @ ''}''"
    by (simp add: plain_def)
  from cut[OF this] have "str_int m = str_int m'" "x @ CHR '':'' # str_int n @ ''}'' = y @ CHR '':'' # str_int n' @ ''}''"
    using plain_str_int[of m] plain_str_int[of m'] by (auto simp: plain_def)
  moreover from cut_last[OF this(2)] have "str_int n = str_int n'"
    using plain_str_int[of n] plain_str_int[of n'] by (auto simp: plain_def)
  ultimately show ?thesis using pos by (simp add: str_int_inject)
qed


section \<open>Accepted certificates\<close>

lemma certificate_facts:
  assumes "verify_decision_certificate H b (Some p)"
  shows "verify_assurance_payload H (db_assurance b) (Some p)" "bound_to_assurance b"
    "evidence_recomputed H b (Some p)"
    "db_bundle_hash b = material_hash H (VDict (bundle_content b))"
    "db_certificate_hash b = material_hash H (VDict (bundle_content b))"
    "db_bundle_id b = ''bundle_'' @ take 20 (material_hash H (VDict (bundle_content b)))"
  using assms by (auto simp: verify_decision_certificate_def verify_decision_bundle_def Let_def)

text \<open>The two texts whose digests the verifier compares for the evidence of a certificate.\<close>

definition actual_claim :: "digest \<Rightarrow> decision_bundle \<Rightarrow> assurance_policy \<Rightarrow> string" where
  "actual_claim H b p = dumps (canon (evidence_claim (evidence_to_dict
     (assess_evidence H (db_evidence_paths b) (ap_minimum_verified_coverage p) []))))"

definition recorded_claim :: "decision_bundle \<Rightarrow> string" where
  "recorded_claim b = dumps (canon (evidence_claim (vget (db_assurance b) ''evidence_assurance'')))"

lemma assess_counts:
  "ea_material (assess_evidence H ps mn []) = length (unique_material_paths H ps)"
  "ea_verified (assess_evidence H ps mn []) = length (verified_paths H ps)"
  by (simp_all add: assess_evidence_def verified_paths_def Let_def)

lemma assessed_coverage_finite: "is_finite (ea_coverage (assess_evidence H ps mn []))"
  unfolding assess_evidence_shape using coverage_finite[of "length (verified_paths H ps)"]
  by (simp add: verified_paths_def)

text \<open>A request that passes on the issued result and the paths it was issued for; the optional
  arguments are left out or repeat what the result records.\<close>

definition faithful_request :: "bundle_request \<Rightarrow> assurance_result \<Rightarrow> assurance_input \<Rightarrow> bool" where
  "faithful_request q r x =
     (br_assurance q = result_to_dict r \<and> br_evidence_paths q = ai_paths x \<and>
      br_proposed_decision q = Some (decision_value (ar_proposed r)) \<and>
      br_final_decision q = decision_value (ar_final r) \<and>
      br_sufficient q \<in> set [VNone, sufficient_to_dict (ar_sufficient r)] \<and>
      br_policy_version q \<in> set [unspecified, ar_policy_version r] \<and>
      br_policy_hash q \<in> set [unspecified, ar_policy_hash r] \<and>
      br_calibration_status q \<in> set [''UNCALIBRATED'', calibration_value (ar_calibration r)])"

lemma veq_strings: "veq_list (map VStr xs) (map VStr xs)"
  by (induction xs) auto

lemma veq_sufficient: "veq (sufficient_to_dict s) (sufficient_to_dict s)"
  by (simp add: sufficient_to_dict_def vstrs_def vnat_def veq_strings feq_def fle_refl_iff fint_def)

lemma evaluate_fields:
  assumes "evaluate H p x = Inr r"
  shows "ar_evidence r = assess_evidence H (ai_paths x) (ap_minimum_verified_coverage p) []"
    "ar_policy_version r = ap_version p" "ar_policy_hash r = policy_hash H p"
  using assms by (auto simp: evaluate_def Let_def bind_result_Inr_iff issue_fields split: option.splits)

lemma truthy_result: "truthy (result_to_dict r)" "truthy (sufficient_to_dict s)"
  by (simp_all add: result_to_dict_def sufficient_to_dict_def)

lemma built_certificate:
  assumes r: "evaluate H p x = Inr r" and ok: "input_ok H p x" and q: "faithful_request q r x"
    and hash: "\<And>s. H s \<noteq> []"
  obtains b where "build_decision_bundle H now (Some p) q = Inr b" "verify_decision_certificate H b (Some p)"
    "actual_claim H b p = recorded_claim b" "db_evidence_paths b = ai_paths x"
    "db_final_decision b = decision_value (ar_final r)"
proof -
  have valid: "verify_assurance_payload H (result_to_dict r) (Some p)"
    by (rule issued_result_verifies[OF r ok])
  note q = q[unfolded faithful_request_def]
  have given: "inherited (br_policy_version q) unspecified (VStr (ap_version p)) = ap_version p"
    "inherited (br_policy_hash q) unspecified (VStr (policy_hash H p)) = policy_hash H p"
    "inherited (br_calibration_status q) ''UNCALIBRATED'' (VStr (calibration_value (ar_calibration r))) =
       calibration_value (ar_calibration r)"
    using q by (auto simp: inherited_def evaluate_fields[OF r])
  have some: "(case br_proposed_decision q of None \<Rightarrow> br_final_decision q
      | Some p \<Rightarrow> if p = [] then br_final_decision q else p) = decision_value (ar_proposed r)"
    using q by (cases "ar_proposed r") simp_all
  have suff: "or_empty (por (br_sufficient q) (sufficient_to_dict (ar_sufficient r))) = sufficient_to_dict (ar_sufficient r)"
    and assur: "or_empty (result_to_dict r) = result_to_dict r"
    using q by (auto simp: por_def or_empty_def truthy_result)
  define c where "c = \<lparr>db_bundle_id = [], db_organization_id = br_organization_id q,
     db_entity_id = br_entity_id q, db_created_at = now, db_document_hashes = br_document_hashes q,
     db_input_hash = material_hash H (br_frozen_input q), db_output_hash = material_hash H (br_frozen_output q),
     db_risk_state = br_risk_state q, db_risk_delta = br_risk_delta q,
     db_evidence_paths = ai_paths x, db_calculations = br_calculations q,
     db_agent_trace = br_agent_trace q, db_component_versions = br_component_versions q,
     db_human_review = br_human_review q, db_final_decision = decision_value (ar_final r),
     db_epistemics = or_empty (br_epistemics q), db_telemetry = br_telemetry q,
     db_bundle_hash = [], db_proposed_decision = decision_value (ar_proposed r),
     db_assurance = result_to_dict r, db_sufficient = sufficient_to_dict (ar_sufficient r),
     db_policy_version = ap_version p, db_policy_hash = policy_hash H p,
     db_calibration_status = calibration_value (ar_calibration r), db_replay = or_empty (br_replay q),
     db_certificate_version = certificate_version, db_certificate_hash = []\<rparr>"
  define d where "d = material_hash H (VDict (bundle_content c))"
  define b where "b = c\<lparr>db_bundle_id := ''bundle_'' @ take 20 d, db_bundle_hash := d, db_certificate_hash := d\<rparr>"
  have "build_decision_bundle H now (Some p) q = Inr b"
    unfolding build_decision_bundle_def Let_def some
    using q valid
    by (simp add: given suff assur evaluate_fields[OF r] b_def d_def c_def)
  moreover have content: "bundle_content b = bundle_content c" by (simp add: b_def bundle_content_def)
  have claims: "actual_claim H b p = recorded_claim b"
    by (simp add: actual_claim_def recorded_claim_def b_def c_def evaluate_fields[OF r])
  have "evidence_recomputed H b (Some p)"
    using claims by (simp add: evidence_recomputed_def actual_claim_def recorded_claim_def canonical_hash_def
        Let_def b_def c_def evidence_to_dict_def claim_fields_def has_key_def result_to_dict_def
        authorization_content_def)
  moreover have "bound_to_assurance b"
    by (simp add: bound_to_assurance_def b_def c_def Let_def evaluate_fields[OF r] veq_sufficient)
  moreover have "db_certificate_hash b \<noteq> []"
    using hash by (simp add: b_def d_def material_hash_def canonical_hash_def)
  ultimately have "build_decision_bundle H now (Some p) q = Inr b" "bound_to_assurance b"
      "evidence_recomputed H b (Some p)" "db_certificate_hash b \<noteq> []" "bundle_content b = bundle_content c"
    by (simp_all add: content)
  moreover have "db_certificate_version b = certificate_version" "db_assurance b = result_to_dict r"
      "db_bundle_id b = ''bundle_'' @ take 20 d" "db_bundle_hash b = d" "db_certificate_hash b = d"
      "db_evidence_paths b = ai_paths x" "db_final_decision b = decision_value (ar_final r)"
    by (simp_all add: b_def c_def)
  moreover from calculation have "verify_decision_certificate H b (Some p)"
    using valid by (simp add: verify_decision_certificate_def verify_decision_bundle_def Let_def d_def[symmetric])
  ultimately show thesis using claims that by blast
qed

text \<open>C9: an accepted certificate with a decisive decision is backed by its own evidence. If a
  certificate verifies under a policy and its final decision is \<open>PASS\<close> or \<open>FLAG\<close>, then it was
  issued for that policy, the decision is the proposed one, and the evidence paths stored in
  the certificate are not empty and all of them verified, provided the digest does not collide
  on the two evidence claims that the verifier compares.\<close>

theorem decisive_certificate_backed:
  assumes "verify_decision_certificate H b (Some p)"
    and final: "db_final_decision b = ''PASS'' \<or> db_final_decision b = ''FLAG''"
    and collision: "H (actual_claim H b p) = H (recorded_claim b) \<Longrightarrow> actual_claim H b p = recorded_claim b"
  shows "db_proposed_decision b = db_final_decision b \<and> db_policy_version b = ap_version p \<and>
    db_policy_hash b = policy_hash H p \<and> db_evidence_paths b \<noteq> [] \<and>
    (\<forall>path\<in>set (unique_material_paths H (db_evidence_paths b)). verified_path path)"
proof -
  let ?a = "db_assurance b" and ?ps = "db_evidence_paths b"
  let ?act = "assess_evidence H ?ps (ap_minimum_verified_coverage p) []"
  let ?rec = "vget ?a ''evidence_assurance''"
  note cert = certificate_facts[OF assms(1)]
  have bound: "vget ?a ''proposed_decision'' = VStr (db_proposed_decision b)"
    "vget ?a ''final_decision'' = VStr (db_final_decision b)"
    "vget ?a ''policy_version'' = VStr (db_policy_version b)"
    "vget ?a ''policy_hash'' = VStr (db_policy_hash b)"
    using cert(2) by (simp_all add: bound_to_assurance_def Let_def)
  have "vget ?a ''final_decision'' = VStr ''PASS'' \<or> vget ?a ''final_decision'' = VStr ''FLAG''"
    using final bound(2) by auto
  from decisive_payload[OF cert(1) this] bound obtain n where
    n: "0 < n" "vget ?rec ''material_path_count'' = VInt n" "vget ?rec ''verified_path_count'' = VInt n"
    and same: "db_proposed_decision b = db_final_decision b" "db_policy_version b = ap_version p"
      "db_policy_hash b = policy_hash H p"
    by auto
  have num: "is_number (vget ?rec ''coverage'')"
    using cert(1) n by (auto simp: verify_assurance_payload_def counts_ok_def)
  have "H (actual_claim H b p) = H (recorded_claim b)"
    using cert(3) by (simp add: evidence_recomputed_def actual_claim_def recorded_claim_def
        canonical_hash_def Let_def)
  then have "actual_claim H b p = recorded_claim b" by (rule collision)
  then have "int (ea_material ?act) = n \<and> int (ea_verified ?act) = n"
    unfolding actual_claim_def recorded_claim_def
    by (rule claim_counts[OF _ _ num _ _ n(2,3)])
      (use n(1) in \<open>simp_all add: vnat_def is_number_def assessed_coverage_finite\<close>)
  then have len: "length (unique_material_paths H ?ps) = length (verified_paths H ?ps)"
    "unique_material_paths H ?ps \<noteq> []"
    using n(1) by (auto simp: assess_counts)
  then have "\<forall>path\<in>set (unique_material_paths H ?ps). verified_path path"
    unfolding verified_paths_def by (metis length_filter_less not_less_iff_gr_or_eq)
  then show ?thesis using same len(2) by auto
qed

text \<open>A sample certificate.\<close>

definition sample_request :: "assurance_result \<Rightarrow> assurance_input \<Rightarrow> bundle_request" where
  "sample_request r x = \<lparr>br_organization_id = ''org'', br_entity_id = ''entity'', br_document_hashes = VDict [],
     br_frozen_input = VDict [], br_frozen_output = VDict [], br_risk_state = VDict [],
     br_evidence_paths = ai_paths x, br_calculations = VDict [], br_agent_trace = [],
     br_component_versions = VDict [], br_final_decision = decision_value (ar_final r),
     br_risk_delta = VNone, br_human_review = VNone, br_epistemics = VNone, br_telemetry = [],
     br_proposed_decision = Some (decision_value (ar_proposed r)), br_assurance = result_to_dict r,
     br_sufficient = VNone, br_policy_version = unspecified, br_policy_hash = unspecified,
     br_calibration_status = ''UNCALIBRATED'', br_replay = VNone\<rparr>"

lemma sample_request_faithful: "faithful_request (sample_request r x) r x"
  by (simp add: faithful_request_def sample_request_def)

lemma sample_digest_nonempty: "sample_digest s \<noteq> []"
  by (simp add: sample_digest_def)

lemma sample_input_ok: "input_ok sample_digest mature_policy (sample_input sample_paths)"
  by code_simp

lemma decisive_certificate_backed_witness:
  "\<exists>b :: decision_bundle. db_final_decision b = ''FLAG'' \<and> db_policy_version b = ap_version mature_policy \<and> db_evidence_paths b \<noteq> []"
proof -
  let ?x = "sample_input sample_paths"
  obtain r where r: "evaluate sample_digest mature_policy ?x = Inr r" "ar_final r = FLAG"
    using sample_accepted by (auto split: sum.splits)
  obtain b where b: "verify_decision_certificate sample_digest b (Some mature_policy)"
    "actual_claim sample_digest b mature_policy = recorded_claim b"
    "db_final_decision b = decision_value (ar_final r)"
    by (rule built_certificate[OF r(1) sample_input_ok sample_request_faithful sample_digest_nonempty]) blast
  have flag: "db_final_decision b = ''FLAG''" using b(3) r(2) by simp
  from decisive_certificate_backed[OF b(1) disjI2[OF flag] b(2)] flag show ?thesis
    by (intro exI[of _ b] conjI) simp_all
qed

text \<open>C20: certificates round-trip through the verifier. When an engine issues a result and a
  certificate is built from it and from the paths it was issued for, the construction does not
  raise and the certificate is accepted under the same policy, with the recorded evidence claim
  equal to the recomputed one; with any other policy argument of a different hash, or with a
  result that does not verify, no certificate is built.\<close>

theorem certificate_round_trip:
  assumes "evaluate H p x = Inr r" and "input_ok H p x" and "faithful_request q r x" and "\<And>s. H s \<noteq> []"
  shows "(\<exists>b. build_decision_bundle H now (Some p) q = Inr b \<and> verify_decision_certificate H b (Some p) \<and>
      actual_claim H b p = recorded_claim b) \<and>
    build_decision_bundle H now None q =
      Inl (ValueError ''a valid AssuranceResult is required for a Decision Certificate'') \<and>
    (policy_hash H p' \<noteq> policy_hash H p \<longrightarrow> build_decision_bundle H now (Some p') q =
      Inl (ValueError ''a valid AssuranceResult is required for a Decision Certificate''))"
proof (intro conjI impI)
  show "\<exists>b. build_decision_bundle H now (Some p) q = Inr b \<and> verify_decision_certificate H b (Some p) \<and>
      actual_claim H b p = recorded_claim b"
    by (rule built_certificate[OF assms, of now]) blast
  show "build_decision_bundle H now None q =
      Inl (ValueError ''a valid AssuranceResult is required for a Decision Certificate'')"
    by (simp add: build_decision_bundle_def Let_def)
  assume "policy_hash H p' \<noteq> policy_hash H p"
  then have "\<not> policy_bound H (result_to_dict r) s (Some p')" for s
    by (simp add: policy_bound_def evaluate_fields[OF assms(1)])
  then have "\<not> verify_assurance_payload H (result_to_dict r) (Some p')"
    by (auto simp: verify_assurance_payload_def states_ok_def Let_def split: option.splits)
  then show "build_decision_bundle H now (Some p') q =
      Inl (ValueError ''a valid AssuranceResult is required for a Decision Certificate'')"
    using assms(3) by (simp add: build_decision_bundle_def Let_def faithful_request_def)
qed

lemma certificate_round_trip_witness:
  "\<exists>q b. build_decision_bundle sample_digest [] (Some mature_policy) q = Inr b \<and>
     verify_decision_certificate sample_digest b (Some mature_policy)"
proof -
  obtain r where r: "evaluate sample_digest mature_policy (sample_input sample_paths) = Inr r"
    using sample_accepted by (auto split: sum.splits)
  show ?thesis
    using certificate_round_trip[OF r sample_input_ok sample_request_faithful sample_digest_nonempty]
    by blast
qed

section \<open>Replay\<close>

lemma payload_idem [simp]: "material_decision_payload (material_decision_payload v) = material_decision_payload v"
proof (induction v rule: material_decision_payload.induct)
  case (1 d)
  let ?f = "filter (\<lambda>(k, v). k \<notin> set non_material_replay_fields)"
  have "?f (map (\<lambda>(k, v). (k, material_decision_payload v)) (?f d)) =
      map (\<lambda>(k, v). (k, material_decision_payload v)) (?f d)"
    by (auto simp: filter_id_conv)
  then show ?case using 1 by (fastforce simp: comp_def)
qed (auto simp: comp_def)

text \<open>Adding or changing a telemetry field anywhere at the top of a dictionary.\<close>

lemma payload_update:
  "k \<in> set non_material_replay_fields \<Longrightarrow>
     material_decision_payload (VDict (AList.update k x d)) = material_decision_payload (VDict d)"
  by (induction d) auto

definition replay_status :: "pyval result \<Rightarrow> string" where
  "replay_status r = (case r of Inl e \<Rightarrow> ''RAISED'' | Inr v \<Rightarrow> str_of (vget v ''status''))"

definition replay_class :: "pyval result \<Rightarrow> string" where
  "replay_class r = (case r of Inl e \<Rightarrow> [] | Inr v \<Rightarrow> str_of (vget (vget v ''diff'') ''classification''))"

text \<open>replay compares decisions, not telemetry. If the components are unchanged and the
  runner returns the frozen output up to \<open>latency_ms\<close> and \<open>created_at\<close> fields at any depth, the
  snapshot is reported \<open>REPLAYED\<close> and \<open>IDENTICAL\<close>; if the material output differs and the
  digest does not collide on it, it is reported as drift. When the component versions differ
  nothing is recomputed, whatever the runner is.\<close>

theorem replay_compares_decisions:
  fixes H hex now org entity inp out docs components
  defines "s \<equiv> create_snapshot H hex now org entity inp out docs components"
  shows "(veq current components \<and> runner inp = Inr out' \<and>
       material_decision_payload out' = material_decision_payload out \<longrightarrow>
       replay_status (replay_snapshot H s runner current) = ''REPLAYED'' \<and>
       replay_class (replay_snapshot H s runner current) = ''IDENTICAL'') \<and>
    (veq current components \<and> runner inp = Inr out' \<and> material_hash H out' \<noteq> material_hash H out \<longrightarrow>
       replay_class (replay_snapshot H s runner current) = ''DRIFT_DETECTED'') \<and>
    (\<not> veq current components \<longrightarrow> replay_status (replay_snapshot H s runner current) = ''VERSION_MISMATCH'' \<and>
       replay_snapshot H s runner current = replay_snapshot H s runner' current)"
  by (auto simp: s_def create_snapshot_def replay_snapshot_def replay_diff_def replay_status_def
      replay_class_def material_hash_def Let_def)

lemma replay_compares_decisions_witness:
  "let out = VDict [(''score'', VInt 5), (''latency_ms'', VInt 12)];
       s = create_snapshot sample_digest ''00'' [] ''org'' ''entity'' VNone out (VDict []) (VDict [])
   in replay_class (replay_snapshot sample_digest s
        (\<lambda>_. Inr (VDict [(''score'', VInt 5), (''latency_ms'', VInt 99)])) (VDict [])) = ''IDENTICAL''"
proof -
  let ?out' = "VDict [(''score'', VInt 5), (''latency_ms'', VInt 99)]"
  have "material_decision_payload ?out' =
      material_decision_payload (VDict [(''score'', VInt 5), (''latency_ms'', VInt 12)])"
    by (simp add: non_material_replay_fields_def)
  then show ?thesis
    using replay_compares_decisions[of "VDict []" "VDict []" "\<lambda>_. Inr ?out'" VNone ?out'
        "VDict [(''score'', VInt 5), (''latency_ms'', VInt 12)]" sample_digest "''00''" "[]" "''org''" "''entity''" "VDict []"]
    by (simp add: Let_def)
qed

section \<open>Decision traces\<close>

lemma rules_by_id_ok: "is_ok (rules_by_id rs acc) \<longleftrightarrow> (\<forall>r\<in>set rs. has_key (items r) ''rule_id'')"
  by (induction rs arbitrary: acc) auto

lemma unique_filter_le:
  "length (filter P (unique_material_paths H ps)) \<le> length (filter P ps)"
proof -
  have "length (filter P (map snd (foldl (\<lambda>u p. setdefault (f p) p u) d ps))) \<le>
      length (filter P (map snd d)) + length (filter P ps)" for f :: "pyval \<Rightarrow> string" and d
  proof (induction ps arbitrary: d)
    case (Cons p ps)
    have "length (filter P (map snd (setdefault (f p) p d))) \<le>
        length (filter P (map snd d)) + (if P p then 1 else 0)"
      by (simp add: setdefault_def)
    then show ?case using Cons.IH[of "setdefault (f p) p d"] by (cases "P p") simp_all
  qed simp
  from this[of _ "[]"] show ?thesis by (simp add: unique_material_paths_def)
qed

lemma verified_is_marked: "verified_path p \<Longrightarrow> marked_verified p"
  by (simp add: verified_path_def verified_material_path_def marked_verified_def Let_def)

lemma assess_verified_marked:
  "ea_verified (assess_evidence H ps mn removed) \<le> length (filter marked_verified ps)"
proof -
  have "ea_verified (assess_evidence H ps mn removed) \<le> length (filter verified_path (unique_material_paths H ps))"
    unfolding assess_evidence_def Let_def case_prod_beta evidence_assurance.simps
    by (rule length_filter_mono) simp
  also have "\<dots> \<le> length (filter verified_path ps)" by (rule unique_filter_le)
  also have "\<dots> \<le> length (filter marked_verified ps)"
    by (rule length_filter_mono[OF verified_is_marked])
  finally show ?thesis .
qed

text \<open>the decision trace counts honestly. It is built exactly when every triggered rule
  carries its id (otherwise \<open>KeyError\<close>); its material count is the number of its paths, its
  verified count the number of paths marked verified, its proof coverage lies in [0, 1], and
  the assurance layer, which also demands source evidence and deduplicates, never counts more
  verified paths in it than the trace claims, whatever evidence is removed.\<close>

theorem decision_trace_counts:
  "is_ok (build_decision_trace a f c) =
     (\<forall>r\<in>set (elems (vget_or a ''triggered_rules'' (VList []))). has_key (items r) ''rule_id'') \<and>
   (\<forall>t. build_decision_trace a f c = Inr t \<longrightarrow>
      (let paths = elems (vget t ''paths'') in
        vget t ''material_path_count'' = vnat (length paths) \<and>
        vget t ''verified_path_count'' = vnat (length (filter marked_verified paths)) \<and>
        ea_verified (assess_evidence H paths mn removed) \<le> length (filter marked_verified paths) \<and>
        (\<exists>x. vget t ''proof_coverage'' = VFloat x \<and> fle (Fin 0) x \<and> fle x (Fin 1))))"
proof (intro conjI allI impI)
  show "is_ok (build_decision_trace a f c) =
     (\<forall>r\<in>set (elems (vget_or a ''triggered_rules'' (VList []))). has_key (items r) ''rule_id'')"
    unfolding build_decision_trace_def rules_by_id_ok[symmetric, of _ "[]"] is_ok_bind Let_def
    by (auto simp: is_ok_iff)
next
  fix t assume "build_decision_trace a f c = Inr t"
  then obtain rules where t: "\<exists>ps. ps = trace_paths a f c rules \<and> vget t ''paths'' = VList ps \<and>
      vget t ''material_path_count'' = vnat (length ps) \<and>
      vget t ''verified_path_count'' = vnat (length (filter marked_verified ps)) \<and>
      vget t ''proof_coverage'' = VFloat (if ps = [] then Fin 0
            else pround 3 (int_div (int (length (filter marked_verified ps))) (int (length ps))))"
    by (auto simp: build_decision_trace_def bind_result_Inr_iff Let_def)
  then obtain ps where ps: "vget t ''paths'' = VList ps"
      "vget t ''material_path_count'' = vnat (length ps)"
      "vget t ''verified_path_count'' = vnat (length (filter marked_verified ps))"
      "vget t ''proof_coverage'' = VFloat (if ps = [] then Fin 0
            else pround 3 (int_div (int (length (filter marked_verified ps))) (int (length ps))))"
    by blast
  have "fle (Fin 0) (pround 3 (coverage_of v m)) \<and> fle (pround 3 (coverage_of v m)) (Fin 1)" if "v \<le> m" for v m
    using pround_between[of 0 1 "coverage_of v m" 3] coverage_nonneg[of v m] coverage_le_1[OF that]
    by (simp add: fint_def del: pround.simps)
  from this[of "length (filter marked_verified ps)" "length ps"] ps(4)
  have "\<exists>x. vget t ''proof_coverage'' = VFloat x \<and> fle (Fin 0) x \<and> fle x (Fin 1)"
    by (auto simp: coverage_of_def simp del: pround.simps)
  then show "let paths = elems (vget t ''paths'') in
        vget t ''material_path_count'' = vnat (length paths) \<and>
        vget t ''verified_path_count'' = vnat (length (filter marked_verified paths)) \<and>
        ea_verified (assess_evidence H paths mn removed) \<le> length (filter marked_verified paths) \<and>
        (\<exists>x. vget t ''proof_coverage'' = VFloat x \<and> fle (Fin 0) x \<and> fle x (Fin 1))"
    using ps assess_verified_marked by (simp add: Let_def)
qed

lemma decision_trace_counts_witness:
  "let a = VDict [(''triggered_rules'', VList [VDict [(''rule_id'', VStr ''R1'')]])] in
     is_ok (build_decision_trace a (VDict []) (VDict []))"
  using decision_trace_counts[of "VDict [(''triggered_rules'', VList [VDict [(''rule_id'', VStr ''R1'')]])]"
      "VDict []" "VDict []"]
  by (simp add: Let_def vget_or_def dict_get_def has_key_def)

end
