(* ===== verification/Pyparse.thy ===== *)
theory Pyparse
  imports Pyval
begin

text \<open>
  Text to numbers and dates, as the Python standard library reads them: \<open>float(str)\<close>,
  \<open>float(value)\<close> and \<open>date.fromisoformat\<close>. Digits are ASCII digits.
\<close>

section \<open>Numbers\<close>

text \<open>A run of digits with single underscores between digits.\<close>

fun digit_run :: "bool \<Rightarrow> string \<Rightarrow> (string \<times> string)" where
  "digit_run after [] = ([], [])"
| "digit_run after (c # s) =
     (if is_digit c then (let (ds, r) = digit_run True s in (c # ds, r))
      else if c = CHR ''_'' \<and> after \<and> s \<noteq> [] \<and> is_digit (hd s) then digit_run False s
      else ([], c # s))"

definition read_sign :: "string \<Rightarrow> bool \<times> string" where
  "read_sign s = (case s of [] \<Rightarrow> (False, [])
     | c # r \<Rightarrow> if c = CHR ''-'' then (True, r) else if c = CHR ''+'' then (False, r) else (False, s))"

text \<open>The exponent part; \<open>None\<close> when the text is malformed.\<close>

definition read_exponent :: "string \<Rightarrow> int option" where
  "read_exponent s = (case s of [] \<Rightarrow> Some 0
     | c # r \<Rightarrow> if c \<noteq> CHR ''e'' then None else
         (let (neg, r') = read_sign r; (ds, rest) = digit_run False r'
          in if ds = [] \<or> rest \<noteq> [] then None else Some (if neg then - undigits ds else undigits ds)))"

definition read_decimal :: "string \<Rightarrow> rat option" where
  "read_decimal s =
     (let (whole, r) = digit_run False s;
          (frac, rest) = (case r of [] \<Rightarrow> ([], []) | c # r' \<Rightarrow>
             if c = CHR ''.'' then digit_run False r' else ([], r))
      in if whole = [] \<and> frac = [] then None
         else map_option (\<lambda>e. of_int (undigits (whole @ frac)) * pow10 (e - int (length frac)))
                (read_exponent rest))"

definition float_of_str :: "string \<Rightarrow> pyfloat option" where
  "float_of_str text =
     (let (neg, s) = read_sign (lower (strip text)) in
      if s = ''inf'' \<or> s = ''infinity'' then Some (if neg then NInf else PInf)
      else if s = ''nan'' then Some NaN
      else map_option (\<lambda>q. fl (if neg then - q else q)) (read_decimal s))"

text \<open>\<open>float(v)\<close>: an integer that rounds to no finite float is an \<open>OverflowError\<close>.\<close>

fun py_float :: "pyval \<Rightarrow> pyfloat result" where
  "py_float (VBool b) = Inr (Fin (if b then 1 else 0))"
| "py_float (VInt i) = (if is_finite (fl (of_int i)) then Inr (fl (of_int i))
     else Inl (OverflowError ''int too large to convert to float''))"
| "py_float (VFloat x) = Inr x"
| "py_float (VStr s) = (case float_of_str s of Some x \<Rightarrow> Inr x
     | None \<Rightarrow> Inl (ValueError (''could not convert string to float: '' @ repr (VStr s))))"
| "py_float v = Inl (TypeError ''float() argument must be a string or a real number'')"

section \<open>Calendar dates\<close>

text \<open>A date is its proleptic Gregorian ordinal; 1 January of year 1 is day 1.\<close>

definition is_leap :: "int \<Rightarrow> bool" where
  "is_leap y = (y mod 4 = 0 \<and> (y mod 100 \<noteq> 0 \<or> y mod 400 = 0))"

definition days_before_year :: "int \<Rightarrow> int" where
  "days_before_year y = (let k = y - 1 in k * 365 + k div 4 - k div 100 + k div 400)"

definition month_lengths :: "int \<Rightarrow> int list" where
  "month_lengths y = [31, if is_leap y then 29 else 28, 31, 30, 31, 30, 31, 31, 30, 31, 30, 31]"

definition ymd_ordinal :: "int \<Rightarrow> int \<Rightarrow> int \<Rightarrow> int option" where
  "ymd_ordinal y m d =
     (if 1 \<le> y \<and> y \<le> 9999 \<and> 1 \<le> m \<and> m \<le> 12 \<and> 1 \<le> d \<and> d \<le> month_lengths y ! nat (m - 1)
      then Some (days_before_year y + sum_list (take (nat (m - 1)) (month_lengths y)) + d) else None)"

definition week_ordinal :: "int \<Rightarrow> int \<Rightarrow> int \<Rightarrow> int option" where
  "week_ordinal y w d =
     (let first = days_before_year y + 1;
          long = (first mod 7 = 4 \<or> (first mod 7 = 3 \<and> is_leap y));
          weekday = (first + 6) mod 7;
          monday = first - weekday + (if 3 < weekday then 7 else 0);
          n = monday + (w - 1) * 7 + (d - 1)
      in if 1 \<le> y \<and> y \<le> 9999 \<and> (1 \<le> w \<and> w < 53 \<or> w = 53 \<and> long) \<and> 1 \<le> d \<and> d < 8 \<and> 1 \<le> n \<and> n \<le> 3652059
         then Some n else None)"

definition digits_at :: "string \<Rightarrow> nat \<Rightarrow> nat \<Rightarrow> int option" where
  "digits_at s i n = (let t = take n (drop i s) in
     if length t = n \<and> all_digits t then Some (undigits t) else None)"

text \<open>\<open>YYYY-MM-DD\<close>, \<open>YYYYMMDD\<close>, and the ISO week forms with and without separators.\<close>

definition date_of_iso :: "string \<Rightarrow> int option" where
  "date_of_iso s =
     (let n = length s; sep = (4 < n \<and> s ! 4 = CHR ''-''); pos = (if sep then 5 else 4) in
      if n \<noteq> 7 \<and> n \<noteq> 8 \<and> n \<noteq> 10 then None
      else case digits_at s 0 4 of None \<Rightarrow> None | Some y \<Rightarrow>
        if s ! pos = CHR ''W'' then
          (case digits_at s (pos + 1) 2 of None \<Rightarrow> None | Some w \<Rightarrow>
             if n = pos + 3 then week_ordinal y w 1
             else if sep \<and> s ! (pos + 3) \<noteq> CHR ''-'' then None
             else (let j = pos + 3 + (if sep then 1 else 0) in
               if n \<noteq> j + 1 then None
               else case digits_at s j 1 of None \<Rightarrow> None | Some d \<Rightarrow> week_ordinal y w d))
        else
          (case digits_at s pos 2 of None \<Rightarrow> None | Some m \<Rightarrow>
             if sep \<and> (n \<le> pos + 2 \<or> s ! (pos + 2) \<noteq> CHR ''-'') then None
             else (let j = pos + 2 + (if sep then 1 else 0) in
               if n \<noteq> j + 2 then None
               else case digits_at s j 2 of None \<Rightarrow> None | Some d \<Rightarrow> ymd_ordinal y m d)))"

section \<open>Samples of the readers\<close>

lemma date_of_iso_samples:
  "map date_of_iso [''2024-02-29'', ''20240229'', ''2024-W09-4'', ''2024W094'', ''2024-W09'', ''2023-02-29'', ''2024-2-29'']
     = [Some 738945, Some 738945, Some 738945, Some 738945, Some 738942, None, None]"
  by code_simp

lemma float_of_str_samples:
  "map float_of_str ['' -1.5e2 '', ''1_000'', ''1__0'', ''.'', ''.5'', ''-inf'']
     = [Some (Fin (-150)), Some (Fin 1000), None, None, Some (Fin (1/2)), Some NInf]"
  by code_simp

end
