(* ===== verification/Cases.thy ===== *)
theory Cases
  imports Decision Pyparse
begin

text \<open>
  The enterprise domain model and the risk-case workflow (\<open>enterprise/domain.py\<close>,
  \<open>enterprise/auth.py\<close>, \<open>enterprise/workflow.py\<close>). Objects are values: a function that
  mutates a case returns the new case with its result, and \<open>deepcopy\<close> is the identity. The
  calls of \<open>uuid4().hex\<close> and of the clock that an operation makes are numbered, and the
  environment \<open>env\<close> holds what the k-th call returned.
\<close>

record env =
  en_uuid :: "nat \<Rightarrow> string"
  en_clock :: "nat \<Rightarrow> string"
  en_today :: int

section \<open>Enumerations and records\<close>

datatype role = ADMIN | RISK_MANAGER | ANALYST | REVIEWER | VIEWER

fun role_value :: "role \<Rightarrow> string" where
  "role_value ADMIN = ''admin''"
| "role_value RISK_MANAGER = ''risk_manager''"
| "role_value ANALYST = ''analyst''"
| "role_value REVIEWER = ''reviewer''"
| "role_value VIEWER = ''viewer''"

datatype risk_domain = LIQUIDITY | SOLVENCY | PROFITABILITY | CASH_FLOW | EARNINGS_QUALITY
  | ACCOUNTING | COVENANT | COUNTERPARTY | GOVERNANCE | GOING_CONCERN | DISCLOSURE_TENSION

fun domain_value :: "risk_domain \<Rightarrow> string" where
  "domain_value LIQUIDITY = ''liquidity''"
| "domain_value SOLVENCY = ''solvency_leverage''"
| "domain_value PROFITABILITY = ''profitability''"
| "domain_value CASH_FLOW = ''cash_flow''"
| "domain_value EARNINGS_QUALITY = ''earnings_quality''"
| "domain_value ACCOUNTING = ''accounting_anomaly''"
| "domain_value COVENANT = ''covenant_refinancing''"
| "domain_value COUNTERPARTY = ''counterparty_concentration''"
| "domain_value GOVERNANCE = ''governance_audit''"
| "domain_value GOING_CONCERN = ''business_going_concern''"
| "domain_value DISCLOSURE_TENSION = ''disclosure_tension''"

datatype case_status = DETECTED | OPEN | UNDER_REVIEW | MITIGATING | ACCEPTED | RESOLVED | CLOSED

fun case_status_value :: "case_status \<Rightarrow> string" where
  "case_status_value DETECTED = ''detected''"
| "case_status_value OPEN = ''open''"
| "case_status_value UNDER_REVIEW = ''under_review''"
| "case_status_value MITIGATING = ''mitigating''"
| "case_status_value ACCEPTED = ''accepted''"
| "case_status_value RESOLVED = ''resolved''"
| "case_status_value CLOSED = ''closed''"

record principal =
  pr_user_id :: string
  pr_organization_id :: string
  pr_role :: role

record organization =
  og_id :: string
  og_name :: string
  og_created_at :: string

record entity =
  en_id :: string
  en_organization_id :: string
  en_name :: string
  en_parent_id :: "string option"
  en_sector :: string

record policy_version =
  po_id :: string
  po_organization_id :: string
  po_version :: int
  po_name :: string
  po_thresholds :: pyval
  po_created_by :: string
  po_created_at :: string
  po_status :: string

record risk_case =
  rc_id :: string
  rc_organization_id :: string
  rc_entity_id :: string
  rc_domain :: risk_domain
  rc_severity :: string
  rc_trajectory :: string
  rc_confidence :: pyfloat
  rc_evidence_coverage :: pyfloat
  rc_status :: case_status
  rc_owner_id :: "string option"
  rc_reviewer_id :: "string option"
  rc_due_date :: "string option"
  rc_rationale :: string
  rc_evidence_ids :: "string list"
  rc_reason_codes :: "string list"
  rc_decision_trace :: pyval
  rc_snapshot_id :: "string option"
  rc_fusion_version :: pyval
  rc_actions :: "pyval list"
  rc_resolution_evidence :: "string list"
  rc_monitoring_state :: string
  rc_comments :: "pyval list"
  rc_created_at :: string
  rc_updated_at :: string
  rc_version :: nat

record audit_event =
  ae_id :: string
  ae_organization_id :: string
  ae_actor_id :: string
  ae_action :: string
  ae_object_type :: string
  ae_object_id :: string
  ae_payload :: pyval
  ae_occurred_at :: string

record model_record =
  mo_id :: string
  mo_organization_id :: string
  mo_component :: string
  mo_version :: string
  mo_owner :: string
  mo_intended_use :: string
  mo_limitations :: string
  mo_validation_status :: string
  mo_dataset_version :: "string option"
  mo_prompt_hash :: "string option"
  mo_rule_version :: "string option"
  mo_fusion_version :: "string option"
  mo_policy_version :: "string option"
  mo_metrics :: pyval
  mo_last_validation :: "string option"
  mo_deployment_state :: string

definition case_to_dict :: "risk_case \<Rightarrow> pyval" where
  "case_to_dict c = VDict [
     (''id'', VStr (rc_id c)),
     (''organization_id'', VStr (rc_organization_id c)),
     (''entity_id'', VStr (rc_entity_id c)),
     (''domain'', VStr (domain_value (rc_domain c))),
     (''severity'', VStr (rc_severity c)),
     (''trajectory'', VStr (rc_trajectory c)),
     (''confidence'', VFloat (rc_confidence c)),
     (''evidence_coverage'', VFloat (rc_evidence_coverage c)),
     (''status'', VStr (case_status_value (rc_status c))),
     (''owner_id'', vopt VStr (rc_owner_id c)),
     (''reviewer_id'', vopt VStr (rc_reviewer_id c)),
     (''due_date'', vopt VStr (rc_due_date c)),
     (''rationale'', VStr (rc_rationale c)),
     (''evidence_ids'', vstrs (rc_evidence_ids c)),
     (''reason_codes'', vstrs (rc_reason_codes c)),
     (''decision_trace'', rc_decision_trace c),
     (''snapshot_id'', vopt VStr (rc_snapshot_id c)),
     (''fusion_version'', rc_fusion_version c),
     (''actions'', VList (rc_actions c)),
     (''resolution_evidence'', vstrs (rc_resolution_evidence c)),
     (''monitoring_state'', VStr (rc_monitoring_state c)),
     (''comments'', VList (rc_comments c)),
     (''created_at'', VStr (rc_created_at c)),
     (''updated_at'', VStr (rc_updated_at c)),
     (''version'', vnat (rc_version c))]"

section \<open>Authorization\<close>

definition permissions :: "role \<Rightarrow> string list" where
  "permissions r = (case r of
     ADMIN \<Rightarrow> [''read'', ''write'', ''review'', ''configure'', ''manage_users'']
   | RISK_MANAGER \<Rightarrow> [''read'', ''write'', ''review'', ''configure'']
   | ANALYST \<Rightarrow> [''read'', ''write'']
   | REVIEWER \<Rightarrow> [''read'', ''review'']
   | VIEWER \<Rightarrow> [''read''])"

definition authorize :: "principal \<Rightarrow> string \<Rightarrow> string \<Rightarrow> unit result" where
  "authorize p permission org =
     (if pr_organization_id p \<noteq> org then Inl (PermissionError ''cross-organization access denied'')
      else if permission \<notin> set (permissions (pr_role p))
      then Inl (PermissionError (''role '' @ role_value (pr_role p) @ '' lacks '' @ permission))
      else Inr ())"

section \<open>Workflow of a case\<close>

definition transitions :: "case_status \<Rightarrow> case_status list" where
  "transitions s = (case s of
     DETECTED \<Rightarrow> [OPEN, CLOSED]
   | OPEN \<Rightarrow> [UNDER_REVIEW, CLOSED]
   | UNDER_REVIEW \<Rightarrow> [MITIGATING, ACCEPTED, RESOLVED]
   | MITIGATING \<Rightarrow> [UNDER_REVIEW, RESOLVED]
   | ACCEPTED \<Rightarrow> [UNDER_REVIEW, CLOSED]
   | RESOLVED \<Rightarrow> [CLOSED, OPEN]
   | CLOSED \<Rightarrow> [])"

definition transition_case :: "string \<Rightarrow> risk_case \<Rightarrow> case_status \<Rightarrow> (risk_case \<times> case_status \<times> case_status) result" where
  "transition_case now c target =
     (let previous = rc_status c in
      if target \<notin> set (transitions previous)
      then Inl (ValueError (''invalid transition: '' @ case_status_value previous @ '' -> '' @ case_status_value target))
      else Inr (c\<lparr>rc_status := target, rc_updated_at := now\<rparr>, previous, target))"

definition record_override :: "string \<Rightarrow> risk_case \<Rightarrow> string \<Rightarrow> string \<Rightarrow> string \<Rightarrow> string \<Rightarrow> (risk_case \<times> pyval) result" where
  "record_override now c actor_id original override reason =
     (if \<not> nonblank reason then Inl (ValueError ''override reason is required'')
      else (let event = VDict [(''kind'', VStr ''human_override''), (''actor_id'', VStr actor_id),
          (''original_prediction'', VStr original), (''override'', VStr override),
          (''reason'', VStr reason), (''timestamp'', VStr now)]
        in Inr (c\<lparr>rc_comments := rc_comments c @ [event], rc_updated_at := now\<rparr>, event)))"

definition add_mitigation_action :: "string \<Rightarrow> string \<Rightarrow> risk_case \<Rightarrow> string \<Rightarrow> string \<Rightarrow> string \<Rightarrow> string
    \<Rightarrow> (risk_case \<times> pyval) result" where
  "add_mitigation_action hex now c actor_id description owner_id due_date =
     (if \<not> nonblank description \<or> \<not> nonblank owner_id \<or> \<not> nonblank due_date
      then Inl (ValueError ''description, owner and due date are required'')
      else (let action = VDict [(''id'', VStr (new_id ''action'' hex)), (''description'', VStr description),
          (''owner_id'', VStr owner_id), (''due_date'', VStr due_date), (''status'', VStr ''open''),
          (''created_by'', VStr actor_id), (''created_at'', VStr now)]
        in Inr (c\<lparr>rc_actions := rc_actions c @ [action], rc_owner_id := Some owner_id,
               rc_due_date := Some due_date, rc_updated_at := now\<rparr>, action)))"

definition record_resolution_evidence :: "string \<Rightarrow> risk_case \<Rightarrow> string \<Rightarrow> risk_case result" where
  "record_resolution_evidence now c evidence_id =
     (if \<not> nonblank evidence_id then Inl (ValueError ''resolution evidence is required'')
      else Inr (c\<lparr>rc_resolution_evidence := (if evidence_id \<in> set (rc_resolution_evidence c)
            then rc_resolution_evidence c else rc_resolution_evidence c @ [evidence_id]),
          rc_updated_at := now\<rparr>))"

definition reopen_case :: "string \<Rightarrow> risk_case \<Rightarrow> string \<Rightarrow> string \<Rightarrow> (risk_case \<times> pyval) result" where
  "reopen_case now c actor_id reason =
     (if \<not> (rc_status c = RESOLVED \<or> rc_status c = ACCEPTED)
      then Inl (ValueError ''only accepted or resolved cases can be reopened'')
      else if \<not> nonblank reason then Inl (ValueError ''reopen reason is required'')
      else (let event = VDict [(''kind'', VStr ''case_reopened''), (''actor_id'', VStr actor_id),
          (''from'', VStr (case_status_value (rc_status c))), (''reason'', VStr reason), (''timestamp'', VStr now)]
        in Inr (c\<lparr>rc_status := OPEN, rc_monitoring_state := ''reopened'',
               rc_comments := rc_comments c @ [event], rc_updated_at := now\<rparr>, event)))"

end
