(* ===== verification/Temporal.thy ===== *)
theory Temporal
  imports Cases
begin

text \<open>
  The temporal risk state of an entity (\<open>enterprise/temporal.py\<close>): snapshots per reporting
  period, the change between two of them, and the trajectory of a series of scores. A
  dictionary of scores is an association list, \<open>None\<close> a missing value.
\<close>

type_synonym score_dict = "(string \<times> pyfloat option) list"

record risk_snapshot =
  rk_entity_id :: string
  rk_period :: string
  rk_filing_id :: string
  rk_risk_score :: "pyfloat option"
  rk_dimension_scores :: score_dict
  rk_metrics :: score_dict
  rk_evidence_paths :: "(string \<times> string list) list"
  rk_decision :: string
  rk_coverage :: pyfloat
  rk_reliability :: "pyfloat option"
  rk_calibration_status :: string

record evidence_delta =
  dl_added :: "string list"
  dl_removed :: "string list"
  dl_retained :: "string list"

record attribution =
  at_driver :: string
  at_risk_change :: pyfloat
  at_direction :: string
  at_evidence_path_ids :: "string list"

record risk_delta =
  rd_from_period :: string
  rd_to_period :: string
  rd_score_change :: "pyfloat option"
  rd_dimension_changes :: "(string \<times> pyfloat) list"
  rd_metric_changes :: "(string \<times> pyfloat) list"
  rd_evidence_delta :: evidence_delta
  rd_attribution :: "attribution list"

record entity_risk_state =
  rs_entity_id :: string
  rs_snapshots :: "risk_snapshot list"
  rs_deltas :: "risk_delta list"

section \<open>Comparing two periods\<close>

definition known :: "score_dict \<Rightarrow> string \<Rightarrow> pyfloat option" where
  "known d k = dict_get d k None"

definition numeric_changes :: "score_dict \<Rightarrow> score_dict \<Rightarrow> (string \<times> pyfloat) list" where
  "numeric_changes previous current = List.map_filter (\<lambda>k.
       case (known previous k, known current k) of
         (Some a, Some b) \<Rightarrow> Some (k, pround 6 (fsub b a))
       | _ \<Rightarrow> None)
     (sorted_set (filter (\<lambda>k. k \<in> set (map fst current)) (map fst previous)))"

definition cited :: "risk_snapshot \<Rightarrow> string list" where
  "cited s = concat (map snd (rk_evidence_paths s))"

definition evidence_delta_of :: "risk_snapshot \<Rightarrow> risk_snapshot \<Rightarrow> evidence_delta" where
  "evidence_delta_of previous current =
     \<lparr>dl_added = sorted_set (filter (\<lambda>i. i \<notin> set (cited previous)) (cited current)),
      dl_removed = sorted_set (filter (\<lambda>i. i \<notin> set (cited current)) (cited previous)),
      dl_retained = sorted_set (filter (\<lambda>i. i \<in> set (cited current)) (cited previous))\<rparr>"

text \<open>\<open>sorted(items, key=abs, reverse=True)\<close>, which keeps the order of equal keys.\<close>

fun insert_desc :: "(string \<times> pyfloat) \<Rightarrow> (string \<times> pyfloat) list \<Rightarrow> (string \<times> pyfloat) list" where
  "insert_desc x [] = [x]"
| "insert_desc x (y # ys) = (if flt (fabs (snd x)) (fabs (snd y)) then y # insert_desc x ys else x # y # ys)"

definition sort_desc :: "(string \<times> pyfloat) list \<Rightarrow> (string \<times> pyfloat) list" where
  "sort_desc xs = foldr insert_desc xs []"

definition attribute :: "risk_snapshot \<Rightarrow> string \<times> pyfloat \<Rightarrow> attribution" where
  "attribute current = (\<lambda>(name, change).
     \<lparr>at_driver = name, at_risk_change = pround 3 change,
      at_direction = (if flt (Fin 0) change then ''deterioration'' else ''improvement''),
      at_evidence_path_ids = dict_get (rk_evidence_paths current) name []\<rparr>)"

definition compare_risk_snapshots :: "risk_snapshot \<Rightarrow> risk_snapshot \<Rightarrow> risk_delta result" where
  "compare_risk_snapshots previous current =
     (if rk_entity_id previous \<noteq> rk_entity_id current
      then Inl (ValueError ''cannot compare different entities'')
      else (let dimensions = numeric_changes (rk_dimension_scores previous) (rk_dimension_scores current)
        in Inr \<lparr>rd_from_period = rk_period previous, rd_to_period = rk_period current,
             rd_score_change = (case (rk_risk_score previous, rk_risk_score current) of
                 (Some a, Some b) \<Rightarrow> Some (pround 3 (fsub b a)) | _ \<Rightarrow> None),
             rd_dimension_changes = dimensions,
             rd_metric_changes = numeric_changes (rk_metrics previous) (rk_metrics current),
             rd_evidence_delta = evidence_delta_of previous current,
             rd_attribution = map (attribute current)
               (filter (\<lambda>(name, change). change \<noteq> Fin 0) (sort_desc dimensions))\<rparr>))"

section \<open>The state of an entity\<close>

definition update_state :: "entity_risk_state \<Rightarrow> risk_snapshot \<Rightarrow> (entity_risk_state \<times> risk_delta option) result" where
  "update_state s x =
     (if rk_entity_id x \<noteq> rs_entity_id s then Inl (ValueError ''snapshot belongs to a different entity'')
      else if list_ex (\<lambda>item. rk_period item = rk_period x) (rs_snapshots s)
      then Inl (ValueError (''risk snapshot already exists for '' @ rk_period x))
      else let s' = s\<lparr>rs_snapshots := rs_snapshots s @ [x]\<rparr> in
        if rs_snapshots s = [] then Inr (s', None)
        else if rk_period x \<le> rk_period (last (rs_snapshots s))
        then Inl (ValueError ''risk snapshots must be appended in reporting-period order'')
        else bind_result (compare_risk_snapshots (last (rs_snapshots s)) x) (\<lambda>d.
          Inr (s'\<lparr>rs_deltas := rs_deltas s @ [d]\<rparr>, Some d)))"

definition current_snapshot :: "entity_risk_state \<Rightarrow> risk_snapshot option" where
  "current_snapshot s = (if rs_snapshots s = [] then None else Some (last (rs_snapshots s)))"

fun pairwise_changes :: "pyfloat list \<Rightarrow> pyfloat list" where
  "pairwise_changes (a # b # xs) = fsub b a # pairwise_changes (b # xs)"
| "pairwise_changes _ = []"

definition classify_trajectory :: "pyfloat option list \<Rightarrow> string" where
  "classify_trajectory values =
     (let observed = List.map_filter id values in
      if length observed < 2 then ''insufficient_history''
      else let change = last (pairwise_changes observed) in
        if list_all (fle (Fin 60)) (drop (length observed - 2) observed) then ''persistent_weakness''
        else if fle (Fin 20) change then ''sharply_deteriorating''
        else if fle (Fin 5) change then ''deteriorating''
        else if fle change (Fin (-20)) then ''recovery''
        else if fle change (Fin (-5)) then ''improving''
        else ''stable'')"

section \<open>Laws of the comparison\<close>

lemma map_filter_Some: "y \<in> set (List.map_filter f xs) \<longleftrightarrow> (\<exists>x\<in>set xs. f x = Some y)"
  by (force simp: List.map_filter_def)

lemma numeric_changes_iff:
  "(k, x) \<in> set (numeric_changes p c) \<longleftrightarrow>
     (\<exists>a b. known p k = Some a \<and> known c k = Some b \<and> x = pround 6 (fsub b a))"
proof -
  have key: "k \<in> fst ` set d" if "known d k = Some a" for d a
    using that by (auto simp: known_def dict_get_def split: option.splits dest: map_of_SomeD intro: rev_image_eqI)
  have f: "(case (known p j, known c j) of (Some a, Some b) \<Rightarrow> Some (j, pround 6 (fsub b a)) | _ \<Rightarrow> None) = Some (k, x)
      \<longleftrightarrow> j = k \<and> (\<exists>a b. known p k = Some a \<and> known c k = Some b \<and> x = pround 6 (fsub b a))" for j
    by (auto simp del: pround.simps split: option.splits)
  show ?thesis
    unfolding numeric_changes_def map_filter_Some f using key by auto
qed

lemma set_insert_desc [simp]: "set (insert_desc x ys) = insert x (set ys)"
  by (induction ys) auto

lemma set_sort_desc [simp]: "set (sort_desc xs) = set xs"
  by (induction xs) (simp_all add: sort_desc_def)


lemma insert_desc_sorted:
  "sorted_wrt (\<lambda>a b. \<not> flt (fabs (snd a)) (fabs (snd b))) ys \<Longrightarrow> \<forall>y\<in>set (x # ys). snd y \<noteq> NaN \<Longrightarrow>
     sorted_wrt (\<lambda>a b. \<not> flt (fabs (snd a)) (fabs (snd b))) (insert_desc x ys)"
proof (induction ys)
  case (Cons y ys)
  have nn: "fabs (snd z) \<noteq> NaN" if "z \<in> set (x # y # ys)" for z
    using Cons.prems(2) that by (cases "snd z") auto
  show ?case
  proof (cases "flt (fabs (snd x)) (fabs (snd y))")
    case True
    then have "\<not> flt (fabs (snd y)) (fabs (snd x))" by (auto simp: flt_def)
    then show ?thesis using Cons True by auto
  next
    case False
    have nlt: "\<not> flt a b \<longleftrightarrow> fle b a" if "a \<noteq> NaN" "b \<noteq> NaN" for a b
      using that fle_total[of a b] by (auto simp: flt_def)
    have "\<not> flt (fabs (snd x)) (fabs (snd z))" if "z \<in> set ys" for z
    proof -
      have "fle (fabs (snd z)) (fabs (snd y))" "fle (fabs (snd y)) (fabs (snd x))"
        using False Cons.prems(1) that nn[of x] nn[of y] nn[of z] nlt by auto
      then show ?thesis using nlt nn[of x] nn[of z] that fle_trans by simp
    qed
    then show ?thesis using False Cons.prems(1) by simp
  qed
qed simp

lemma sort_desc_sorted:
  "\<forall>y\<in>set ys. snd y \<noteq> NaN \<Longrightarrow> sorted_wrt (\<lambda>a b. \<not> flt (fabs (snd a)) (fabs (snd b))) (sort_desc ys)"
proof (induction ys)
  case (Cons y ys)
  have "\<forall>z\<in>set (y # sort_desc ys). snd z \<noteq> NaN" using Cons.prems by simp
  then show ?case using insert_desc_sorted Cons by (simp add: sort_desc_def)
qed (simp add: sort_desc_def)

section \<open>The state of an entity is kept in order\<close>

definition state_inv :: "entity_risk_state \<Rightarrow> bool" where
  "state_inv s = (list_all (\<lambda>x. rk_entity_id x = rs_entity_id s) (rs_snapshots s) \<and>
     sorted_wrt (<) (map rk_period (rs_snapshots s)) \<and>
     length (rs_deltas s) = length (rs_snapshots s) - 1 \<and>
     (\<forall>i<length (rs_deltas s).
        compare_risk_snapshots (rs_snapshots s ! i) (rs_snapshots s ! Suc i) = Inr (rs_deltas s ! i)))"

lemma compare_same_entity:
  "rk_entity_id a = rk_entity_id b \<Longrightarrow> \<exists>d. compare_risk_snapshots a b = Inr d \<and>
     rd_from_period d = rk_period a \<and> rd_to_period d = rk_period b"
  by (simp add: compare_risk_snapshots_def Let_def)

lemma sorted_wrt_snoc:
  "sorted_wrt (<) xs \<Longrightarrow> xs \<noteq> [] \<Longrightarrow> last xs < (x :: 'a :: linorder) \<Longrightarrow> sorted_wrt (<) (xs @ [x])"
  by (induction xs rule: rev_induct) (auto simp: sorted_wrt_append)

lemma update_state_cases:
  assumes "update_state s x = Inr (s', d)"
  shows "rk_entity_id x = rs_entity_id s" "rs_snapshots s' = rs_snapshots s @ [x]" "rs_entity_id s' = rs_entity_id s"
    "rs_snapshots s = [] \<Longrightarrow> d = None \<and> rs_deltas s' = rs_deltas s"
    "rs_snapshots s \<noteq> [] \<Longrightarrow> rk_period (last (rs_snapshots s)) < rk_period x \<and>
       (\<exists>r. d = Some r \<and> rs_deltas s' = rs_deltas s @ [r] \<and> compare_risk_snapshots (last (rs_snapshots s)) x = Inr r)"
  using assms by (auto simp: update_state_def Let_def bind_result_Inr_iff not_le split: if_splits)

text \<open>an entity's risk history stays in reporting order. Starting from an empty history,
  every accepted update appends one snapshot of the same entity with a strictly later period,
  the periods stay strictly increasing, and the recorded deltas are exactly the comparisons of
  the consecutive snapshots; an update is refused exactly for another entity, a known period
  or a period that is not later than the last one.\<close>

theorem risk_history_ordered:
  assumes "state_inv s"
  shows "(\<forall>s' d. update_state s x = Inr (s', d) \<longrightarrow> state_inv s' \<and> current_snapshot s' = Some x) \<and>
    is_ok (update_state s x) = (rk_entity_id x = rs_entity_id s \<and>
      (rs_snapshots s \<noteq> [] \<longrightarrow> rk_period (last (rs_snapshots s)) < rk_period x))"
proof (intro conjI allI impI)
  fix s' d assume u: "update_state s x = Inr (s', d)"
  note f = update_state_cases[OF u]
  show "state_inv s'"
  proof (cases "rs_snapshots s = []")
    case True
    then show ?thesis using assms f by (auto simp: state_inv_def)
  next
    case False
    from f(5)[OF this] obtain r where r: "rk_period (last (rs_snapshots s)) < rk_period x"
      "rs_deltas s' = rs_deltas s @ [r]" "compare_risk_snapshots (last (rs_snapshots s)) x = Inr r" by blast
    have "sorted_wrt (<) (map rk_period (rs_snapshots s) @ [rk_period x])"
      by (rule sorted_wrt_snoc) (use assms False r(1) in \<open>auto simp: state_inv_def last_map\<close>)
    moreover have "compare_risk_snapshots (rs_snapshots s' ! i) (rs_snapshots s' ! Suc i) = Inr (rs_deltas s' ! i)"
      if "i < length (rs_deltas s')" for i
    proof (cases "i < length (rs_deltas s)")
      case True
      then have "i < length (rs_snapshots s)" "Suc i < length (rs_snapshots s)"
        using assms by (auto simp: state_inv_def)
      then show ?thesis using True assms f(2) r(2) by (simp add: state_inv_def nth_append)
    next
      case F: False
      then have "i = length (rs_snapshots s) - 1" "Suc i = length (rs_snapshots s)"
        using that assms r(2) False by (auto simp: state_inv_def less_Suc_eq Suc_diff_Suc)
      then show ?thesis using r f(2) assms False by (simp add: nth_append last_conv_nth state_inv_def)
    qed
    ultimately show ?thesis using assms f(1-3) r(2) False by (auto simp: state_inv_def)
  qed
  show "current_snapshot s' = Some x" using f(2) by (simp add: current_snapshot_def)
next
  have same: "rk_entity_id (last (rs_snapshots s)) = rs_entity_id s" if "rs_snapshots s \<noteq> []"
    using assms that by (auto simp: state_inv_def list_all_iff)
  have "rk_period y \<le> rk_period (last (rs_snapshots s))" if "y \<in> set (rs_snapshots s)" for y
  proof -
    have ne: "rs_snapshots s \<noteq> []" using that by auto
    have "sorted_wrt (<) (map rk_period (butlast (rs_snapshots s)) @ [rk_period (last (rs_snapshots s))])"
      using assms ne by (metis append_butlast_last_id list.simps(8,9) map_append state_inv_def)
    moreover have "y \<in> set (butlast (rs_snapshots s)) \<or> y = last (rs_snapshots s)"
      using that ne by (metis UnE append_butlast_last_id empty_iff insert_iff list.set(1,2) set_append)
    ultimately show ?thesis by (auto simp: sorted_wrt_append)
  qed
  then have later: "\<not> list_ex (\<lambda>i. rk_period i = rk_period x) (rs_snapshots s)"
    if "rk_period (last (rs_snapshots s)) < rk_period x"
    using that by (fastforce simp: list_ex_iff)
  show "is_ok (update_state s x) = (rk_entity_id x = rs_entity_id s \<and>
      (rs_snapshots s \<noteq> [] \<longrightarrow> rk_period (last (rs_snapshots s)) < rk_period x))"
    using later same compare_same_entity[of "last (rs_snapshots s)" x]
    by (auto simp: update_state_def Let_def not_le)
qed

definition sample_snapshot :: "string \<Rightarrow> int \<Rightarrow> risk_snapshot" where
  "sample_snapshot period score = \<lparr>rk_entity_id = ''e'', rk_period = period, rk_filing_id = ''f'',
     rk_risk_score = Some (Fin (of_int score)), rk_dimension_scores = [(''liquidity'', Some (Fin (of_int score)))],
     rk_metrics = [], rk_evidence_paths = [(''liquidity'', [''p1''])], rk_decision = ''REVIEW'', rk_coverage = Fin 1,
     rk_reliability = None, rk_calibration_status = ''UNCALIBRATED''\<rparr>"

lemma risk_history_ordered_witness:
  "is_ok (update_state \<lparr>rs_entity_id = ''e'', rs_snapshots = [sample_snapshot ''2023'' 50], rs_deltas = []\<rparr>
     (sample_snapshot ''2024'' 60))"
proof -
  let ?s = "\<lparr>rs_entity_id = ''e'', rs_snapshots = [sample_snapshot ''2023'' 50], rs_deltas = []\<rparr>"
  have "state_inv ?s" by (simp add: state_inv_def sample_snapshot_def)
  moreover have "''2023'' < ''2024''" by code_simp
  ultimately show ?thesis
    using risk_history_ordered[of ?s "sample_snapshot ''2024'' 60"] by (simp add: sample_snapshot_def)
qed


text \<open>Periods are compared as text, so an annual period sorts before the quarters of its year.\<close>

lemma annual_after_quarter_refused:
  "\<not> is_ok (update_state \<lparr>rs_entity_id = ''e'', rs_snapshots = [sample_snapshot ''2024-Q3'' 50], rs_deltas = []\<rparr>
     (sample_snapshot ''2024'' 60))"
  by code_simp

section \<open>What a delta says\<close>

lemma distinct_numeric_changes: "distinct (map fst (numeric_changes p c))"
proof -
  let ?f = "\<lambda>k. case (known p k, known c k) of (Some a, Some b) \<Rightarrow> Some (k, pround 6 (fsub b a)) | _ \<Rightarrow> None"
  have "map fst (List.map_filter ?f ks) = filter (\<lambda>k. ?f k \<noteq> None) ks" for ks
    by (induction ks) (auto simp: List.map_filter_simps simp del: pround.simps split: option.splits)
  then show ?thesis unfolding numeric_changes_def by simp
qed

text \<open>a delta between two snapshots of an entity reports exactly the changes. A dimension
  appears once, precisely when both periods carry a score for it, with the rounded difference;
  the evidence lists partition what the two periods cite; the attribution names precisely the
  dimensions that changed, in order of decreasing absolute change.\<close>

theorem delta_reports_changes:
  assumes "compare_risk_snapshots a b = Inr d"
    and finite: "\<forall>(k, x)\<in>set (numeric_changes (rk_dimension_scores a) (rk_dimension_scores b)). x \<noteq> NaN"
  shows "distinct (map fst (rd_dimension_changes d)) \<and>
    (\<forall>k x. (k, x) \<in> set (rd_dimension_changes d) \<longleftrightarrow>
       (\<exists>u v. known (rk_dimension_scores a) k = Some u \<and> known (rk_dimension_scores b) k = Some v \<and>
              x = pround 6 (fsub v u))) \<and>
    set (dl_added (rd_evidence_delta d)) \<union> set (dl_retained (rd_evidence_delta d)) = set (cited b) \<and>
    set (dl_removed (rd_evidence_delta d)) \<union> set (dl_retained (rd_evidence_delta d)) = set (cited a) \<and>
    set (dl_added (rd_evidence_delta d)) \<inter> set (cited a) = {} \<and>
    set (map at_driver (rd_attribution d)) = {k. \<exists>x. (k, x) \<in> set (rd_dimension_changes d) \<and> x \<noteq> Fin 0} \<and>
    (\<exists>cs. rd_attribution d = map (attribute b) cs \<and>
       sorted_wrt (\<lambda>x y. \<not> flt (fabs (snd x)) (fabs (snd y))) cs)"
proof -
  let ?dims = "numeric_changes (rk_dimension_scores a) (rk_dimension_scores b)"
  let ?cs = "filter (\<lambda>(name, change). change \<noteq> Fin 0) (sort_desc ?dims)"
  have d: "rd_dimension_changes d = ?dims" "rd_evidence_delta d = evidence_delta_of a b"
    "rd_attribution d = map (attribute b) ?cs"
    using assms(1) by (auto simp: compare_risk_snapshots_def Let_def split: if_splits)
  have "sorted_wrt (\<lambda>x y. \<not> flt (fabs (snd x)) (fabs (snd y))) (sort_desc ?dims)"
    by (rule sort_desc_sorted) (use finite in auto)
  then have "sorted_wrt (\<lambda>x y. \<not> flt (fabs (snd x)) (fabs (snd y))) ?cs" by (rule sorted_wrt_filter)
  moreover have "set (map at_driver (rd_attribution d)) = {k. \<exists>x. (k, x) \<in> set ?dims \<and> x \<noteq> Fin 0}"
    unfolding d(3) by (force simp: attribute_def)
  ultimately show ?thesis
    unfolding d by (auto simp: distinct_numeric_changes numeric_changes_iff evidence_delta_of_def simp del: pround.simps)
qed

lemma delta_reports_changes_witness:
  "\<exists>d. compare_risk_snapshots (sample_snapshot ''2023'' 50) (sample_snapshot ''2024'' 60) = Inr d \<and>
     distinct (map fst (rd_dimension_changes d))"
proof -
  let ?a = "sample_snapshot ''2023'' 50" and ?b = "sample_snapshot ''2024'' 60"
  obtain d where d: "compare_risk_snapshots ?a ?b = Inr d"
    using compare_same_entity[of ?a ?b] by (auto simp: sample_snapshot_def)
  have "list_all (\<lambda>(k, x). x \<noteq> NaN) (numeric_changes (rk_dimension_scores ?a) (rk_dimension_scores ?b))"
    by code_simp
  then have "\<forall>(k, x)\<in>set (numeric_changes (rk_dimension_scores ?a) (rk_dimension_scores ?b)). x \<noteq> NaN"
    by (simp only: list_all_iff)
  from delta_reports_changes[OF d this] d show ?thesis by blast
qed

text \<open>The trajectory looks at the last two known scores only.\<close>

lemma last_change: "2 \<le> length xs \<Longrightarrow> last (pairwise_changes xs) = fsub (last xs) (last (butlast xs))"
proof (induction xs rule: pairwise_changes.induct)
  case (1 a b xs)
  then show ?case by (cases xs) auto
qed auto


lemma last_two: "2 \<le> length xs \<Longrightarrow> drop (length xs - 2) xs = [last (butlast xs), last xs]"
proof (induction xs rule: rev_induct)
  case (snoc x xs)
  then show ?case
    by (cases xs rule: rev_cases) (auto simp: numeral_2_eq_2 butlast_append split: if_splits)
qed simp

definition trajectory_between :: "pyfloat \<Rightarrow> pyfloat \<Rightarrow> string" where
  "trajectory_between a b =
     (if fle (Fin 60) a \<and> fle (Fin 60) b then ''persistent_weakness''
      else if fle (Fin 20) (fsub b a) then ''sharply_deteriorating''
      else if fle (Fin 5) (fsub b a) then ''deteriorating''
      else if fle (fsub b a) (Fin (-20)) then ''recovery''
      else if fle (fsub b a) (Fin (-5)) then ''improving'' else ''stable'')"

text \<open>the trajectory of a series of scores depends only on its last two known values: with
  fewer than two it is unknown, and otherwise it is the band of the last change, persistent
  weakness taking precedence when both values are at least 60.\<close>

theorem trajectory_last_two:
  "classify_trajectory values =
     (let known_values = List.map_filter id values in
      if length known_values < 2 then ''insufficient_history''
      else trajectory_between (last (butlast known_values)) (last known_values))"
  by (simp add: classify_trajectory_def trajectory_between_def last_change last_two not_less Let_def)

end
