(* ===== verification/Repository.thy ===== *)
theory Repository
  imports Temporal
begin

text \<open>
  The tenant-scoped repository (\<open>enterprise/repository.py\<close>): \<open>InMemoryEnterpriseRepository\<close>, the
  reference implementation of the persistence contract that the service uses. The
  dictionaries are association lists in insertion order, the lock is not modelled (every
  operation is one step), and an operation that raises leaves the repository unchanged, so
  it returns either an error or the new repository with its result. \<open>IModel\<close> stands for every
  item that is kept with the model records.
\<close>

datatype item = IOrganization organization | IEntity entity | IPolicy policy_version
  | ICase risk_case | ISnapshot analysis_snapshot | IModel model_record

record repository =
  st_organizations :: "(string, organization) dict"
  st_entities :: "(string, entity) dict"
  st_policies :: "(string, policy_version) dict"
  st_cases :: "(string, risk_case) dict"
  st_models :: "(string, model_record) dict"
  st_snapshots :: "(string, analysis_snapshot) dict"
  st_risk_snapshots :: "(string \<times> string \<times> string, risk_snapshot) dict"
  st_bundles :: "(string, decision_bundle) dict"
  st_events :: "audit_event list"
  st_event_ids :: "string list"

definition empty_repository :: repository where
  "empty_repository = \<lparr>st_organizations = [], st_entities = [], st_policies = [], st_cases = [], st_models = [],
     st_snapshots = [], st_risk_snapshots = [], st_bundles = [], st_events = [], st_event_ids = []\<rparr>"

section \<open>Saving\<close>

fun item_id :: "item \<Rightarrow> string" where
  "item_id (IOrganization x) = og_id x"
| "item_id (IEntity x) = en_id x"
| "item_id (IPolicy x) = po_id x"
| "item_id (ICase x) = rc_id x"
| "item_id (ISnapshot x) = sn_id x"
| "item_id (IModel x) = mo_id x"

fun item_organization_id :: "item \<Rightarrow> string" where
  "item_organization_id (IOrganization x) = og_id x"
| "item_organization_id (IEntity x) = en_organization_id x"
| "item_organization_id (IPolicy x) = po_organization_id x"
| "item_organization_id (ICase x) = rc_organization_id x"
| "item_organization_id (ISnapshot x) = sn_organization_id x"
| "item_organization_id (IModel x) = mo_organization_id x"

text \<open>The organization that owns the stored item of the same kind and id, if there is one. An
  organization has no \<open>organization_id\<close>.\<close>

fun existing_owner :: "repository \<Rightarrow> item \<Rightarrow> string option" where
  "existing_owner s (IOrganization x) = None"
| "existing_owner s (IEntity x) = map_option en_organization_id (map_of (st_entities s) (en_id x))"
| "existing_owner s (IPolicy x) = map_option po_organization_id (map_of (st_policies s) (po_id x))"
| "existing_owner s (ICase x) = map_option rc_organization_id (map_of (st_cases s) (rc_id x))"
| "existing_owner s (ISnapshot x) = map_option sn_organization_id (map_of (st_snapshots s) (sn_id x))"
| "existing_owner s (IModel x) = map_option mo_organization_id (map_of (st_models s) (mo_id x))"

definition check_event :: "repository \<Rightarrow> string \<Rightarrow> audit_event option \<Rightarrow> unit result" where
  "check_event s org event = (case event of None \<Rightarrow> Inr () | Some e \<Rightarrow>
     if ae_organization_id e \<noteq> org
     then Inl (ValueError ''mutation and audit event must belong to the same tenant'')
     else if ae_id e \<in> set (st_event_ids s)
     then Inl (ValueError (''audit event already exists: '' @ ae_id e))
     else Inr ())"

definition log_event :: "audit_event option \<Rightarrow> repository \<Rightarrow> repository" where
  "log_event event s = (case event of None \<Rightarrow> s
     | Some e \<Rightarrow> s\<lparr>st_events := st_events s @ [e], st_event_ids := st_event_ids s @ [ae_id e]\<rparr>)"

definition check_version :: "repository \<Rightarrow> item \<Rightarrow> unit result" where
  "check_version s x = (case x of
     ICase c \<Rightarrow> (case map_of (st_cases s) (rc_id c) of None \<Rightarrow> Inr ()
       | Some current \<Rightarrow> if rc_organization_id c \<noteq> rc_organization_id current \<or> rc_version c \<noteq> rc_version current
           then Inl (ValueError (''concurrent risk case update rejected: '' @ rc_id c)) else Inr ())
   | _ \<Rightarrow> Inr ())"

definition saved_form :: "repository \<Rightarrow> item \<Rightarrow> item" where
  "saved_form s x = (case x of
     ICase c \<Rightarrow> ICase (if has_key (st_cases s) (rc_id c) then c\<lparr>rc_version := rc_version c + 1\<rparr> else c)
   | _ \<Rightarrow> x)"

fun put :: "item \<Rightarrow> repository \<Rightarrow> repository" where
  "put (IOrganization x) s = s\<lparr>st_organizations := AList.update (og_id x) x (st_organizations s)\<rparr>"
| "put (IEntity x) s = s\<lparr>st_entities := AList.update (en_id x) x (st_entities s)\<rparr>"
| "put (IPolicy x) s = s\<lparr>st_policies := AList.update (po_id x) x (st_policies s)\<rparr>"
| "put (ICase x) s = s\<lparr>st_cases := AList.update (rc_id x) x (st_cases s)\<rparr>"
| "put (ISnapshot x) s = s\<lparr>st_snapshots := AList.update (sn_id x) x (st_snapshots s)\<rparr>"
| "put (IModel x) s = s\<lparr>st_models := AList.update (mo_id x) x (st_models s)\<rparr>"

definition save :: "repository \<Rightarrow> item \<Rightarrow> audit_event option \<Rightarrow> (repository \<times> item) result" where
  "save s x event =
     bind_result (check_event s (item_organization_id x) event) (\<lambda>_.
       if (case x of ISnapshot n \<Rightarrow> has_key (st_snapshots s) (sn_id n) | _ \<Rightarrow> False)
       then Inl (ValueError (''analysis snapshot already exists: '' @ item_id x))
       else if (case existing_owner s x of None \<Rightarrow> False | Some org \<Rightarrow> item_organization_id x \<noteq> org)
       then Inl (ValueError (''cross-tenant identifier collision rejected: '' @ item_id x))
       else bind_result (check_version s x) (\<lambda>_.
         let y = saved_form s x in Inr (log_event event (put y s), y)))"

section \<open>Reading\<close>

definition own :: "('a \<Rightarrow> string) \<Rightarrow> (string, 'a) dict \<Rightarrow> string \<Rightarrow> string \<Rightarrow> 'a result" where
  "own org_of d org k = (case map_of d k of None \<Rightarrow> Inl (KeyError k)
     | Some x \<Rightarrow> if org_of x \<noteq> org then Inl (KeyError k) else Inr x)"

definition get_case :: "repository \<Rightarrow> string \<Rightarrow> string \<Rightarrow> risk_case result" where
  "get_case s = own rc_organization_id (st_cases s)"

definition get_entity :: "repository \<Rightarrow> string \<Rightarrow> string \<Rightarrow> entity result" where
  "get_entity s = own en_organization_id (st_entities s)"

definition get_policy :: "repository \<Rightarrow> string \<Rightarrow> string \<Rightarrow> policy_version result" where
  "get_policy s = own po_organization_id (st_policies s)"

definition get_snapshot :: "repository \<Rightarrow> string \<Rightarrow> string \<Rightarrow> analysis_snapshot result" where
  "get_snapshot s = own sn_organization_id (st_snapshots s)"

definition list_cases :: "repository \<Rightarrow> string \<Rightarrow> risk_case list" where
  "list_cases s org = filter (\<lambda>c. rc_organization_id c = org) (map snd (st_cases s))"

definition list_events :: "repository \<Rightarrow> string \<Rightarrow> audit_event list" where
  "list_events s org = filter (\<lambda>e. ae_organization_id e = org) (st_events s)"

definition list_snapshots :: "repository \<Rightarrow> string \<Rightarrow> analysis_snapshot list" where
  "list_snapshots s org = filter (\<lambda>x. sn_organization_id x = org) (map snd (st_snapshots s))"

definition append_event :: "repository \<Rightarrow> audit_event \<Rightarrow> repository result" where
  "append_event s e =
     (if \<not> has_key (st_organizations s) (ae_organization_id e)
      then Inl (ValueError ''audit event organization does not exist'')
      else if ae_id e \<in> set (st_event_ids s)
      then Inl (ValueError (''audit event already exists: '' @ ae_id e))
      else Inr (log_event (Some e) s))"

text \<open>\<open>max(matches, key=created_at)\<close>: the first of the latest.\<close>

fun latest :: "analysis_snapshot \<Rightarrow> analysis_snapshot list \<Rightarrow> analysis_snapshot" where
  "latest x [] = x"
| "latest x (y # ys) = latest (if sn_created_at x < sn_created_at y then y else x) ys"

definition find_snapshot :: "repository \<Rightarrow> string \<Rightarrow> string \<Rightarrow> string \<Rightarrow> string \<Rightarrow> analysis_snapshot option" where
  "find_snapshot s org entity_id input_hash output_hash =
     (case filter (\<lambda>x. sn_organization_id x = org \<and> sn_entity_id x = entity_id \<and>
         sn_input_hash x = input_hash \<and> sn_output_hash x = output_hash) (map snd (st_snapshots s)) of
        [] \<Rightarrow> None | x # xs \<Rightarrow> Some (latest x xs))"

definition save_risk_snapshot :: "repository \<Rightarrow> string \<Rightarrow> risk_snapshot \<Rightarrow> audit_event option
    \<Rightarrow> (repository \<times> risk_snapshot) result" where
  "save_risk_snapshot s org x event =
     (let key = (org, rk_entity_id x, rk_period x) in
      bind_result (check_event s org event) (\<lambda>_.
        if has_key (st_risk_snapshots s) key
        then Inl (ValueError (''risk snapshot already exists for '' @ rk_period x))
        else Inr (log_event event (s\<lparr>st_risk_snapshots := AList.update key x (st_risk_snapshots s)\<rparr>), x)))"

definition list_risk_snapshots :: "repository \<Rightarrow> string \<Rightarrow> string \<Rightarrow> risk_snapshot list" where
  "list_risk_snapshots s org entity_id = sort_key rk_period
     (map snd (filter (\<lambda>((o', e', _), _). o' = org \<and> e' = entity_id) (st_risk_snapshots s)))"

definition save_decision_bundle :: "digest \<Rightarrow> repository \<Rightarrow> decision_bundle \<Rightarrow> (repository \<times> decision_bundle) result" where
  "save_decision_bundle H s b =
     (if \<not> verify_decision_bundle H b None then Inl (ValueError ''decision bundle hash verification failed'')
      else if has_key (st_bundles s) (db_bundle_id b)
      then Inl (ValueError (''decision bundle already exists: '' @ db_bundle_id b))
      else bind_result (get_entity s (db_organization_id b) (db_entity_id b)) (\<lambda>_.
        Inr (s\<lparr>st_bundles := AList.update (db_bundle_id b) b (st_bundles s)\<rparr>, b)))"

definition get_decision_bundle :: "digest \<Rightarrow> repository \<Rightarrow> string \<Rightarrow> string \<Rightarrow> string \<Rightarrow> decision_bundle result" where
  "get_decision_bundle H s org entity_id bundle_id =
     (case map_of (st_bundles s) bundle_id of None \<Rightarrow> Inl (KeyError bundle_id)
      | Some b \<Rightarrow>
         if db_organization_id b \<noteq> org \<or> db_entity_id b \<noteq> entity_id then Inl (KeyError bundle_id)
         else if db_bundle_id b \<noteq> bundle_id \<or> \<not> verify_decision_bundle H b None
         then Inl (ValueError ''persisted decision bundle identity/hash verification failed'')
         else Inr b)"

end
