(* ===== verification/Store.thy ===== *)
theory Store
  imports Repository
begin

text \<open>
  The contract of the repository. \<open>case_store\<close> states what a client of the persistence layer may
  rely on for risk cases (own-tenant reads, read-after-write, one audit event per write,
  optimistic versions); its consequences are proved once inside the locale, and the
  in-memory repository is an instance. The other laws are about the whole repository state.
\<close>

section \<open>The state invariant\<close>

definition keyed :: "('a \<Rightarrow> 'k) \<Rightarrow> ('k, 'a) dict \<Rightarrow> bool" where
  "keyed f d = (wf_dict d \<and> (\<forall>(k, x)\<in>set d. f x = k))"

lemma keyed_Nil [simp]: "keyed f []"
  by (simp add: keyed_def)

lemma keyed_update [simp]: "keyed f d \<Longrightarrow> keyed f (AList.update (f x) x d)"
  using set_update_subset[of "f x" x d] by (fastforce simp: keyed_def)

lemma keyed_lookup: "keyed f d \<Longrightarrow> map_of d k = Some x \<Longrightarrow> f x = k"
  by (auto simp: keyed_def dest: map_of_SomeD)

lemma keyed_values: "keyed f d \<Longrightarrow> x \<in> set (map snd d) \<longleftrightarrow> map_of d (f x) = Some x"
  by (force simp: keyed_def map_of_wf_iff)

definition repo_inv :: "repository \<Rightarrow> bool" where
  "repo_inv s = (keyed og_id (st_organizations s) \<and> keyed en_id (st_entities s) \<and> keyed po_id (st_policies s) \<and>
     keyed rc_id (st_cases s) \<and> keyed mo_id (st_models s) \<and> keyed sn_id (st_snapshots s) \<and>
     wf_dict (st_risk_snapshots s) \<and>
     (\<forall>((org, e, p), x)\<in>set (st_risk_snapshots s). rk_entity_id x = e \<and> rk_period x = p) \<and>
     keyed db_bundle_id (st_bundles s) \<and>
     st_event_ids s = map ae_id (st_events s) \<and> distinct (map ae_id (st_events s)))"

lemma repo_inv_empty [simp]: "repo_inv empty_repository"
  by (simp add: repo_inv_def empty_repository_def)

lemma log_event_simps [simp]:
  "st_organizations (log_event e s) = st_organizations s" "st_entities (log_event e s) = st_entities s"
  "st_policies (log_event e s) = st_policies s" "st_cases (log_event e s) = st_cases s"
  "st_models (log_event e s) = st_models s" "st_snapshots (log_event e s) = st_snapshots s"
  "st_risk_snapshots (log_event e s) = st_risk_snapshots s" "st_bundles (log_event e s) = st_bundles s"
  "st_events (log_event (Some x) s) = st_events s @ [x]"
  "st_event_ids (log_event (Some x) s) = st_event_ids s @ [ae_id x]"
  "log_event None s = s"
  by (simp_all add: log_event_def split: option.splits)

lemma check_event_iff:
  "check_event s org event = Inr u \<longleftrightarrow>
     (\<forall>e. event = Some e \<longrightarrow> ae_organization_id e = org \<and> ae_id e \<notin> set (st_event_ids s))"
  by (auto simp: check_event_def split: option.splits)

lemma log_event_inv: "repo_inv s \<Longrightarrow> check_event s org event = Inr u \<Longrightarrow> repo_inv (log_event event s)"
  by (cases event) (auto simp: repo_inv_def check_event_iff)

lemma check_event_put [simp]:
  "st_event_ids (put x s) = st_event_ids s" "st_events (put x s) = st_events s"
  by (cases x; simp)+

lemma put_inv: "repo_inv s \<Longrightarrow> repo_inv (put x s)"
  by (cases x) (simp_all add: repo_inv_def)

lemma save_cases:
  assumes "save s x event = Inr (s', y)"
  shows "s' = log_event event (put y s)" "y = saved_form s x"
    "check_event s (item_organization_id x) event = Inr ()" "check_version s x = Inr ()"
    "existing_owner s x = None \<or> existing_owner s x = Some (item_organization_id x)"
    "\<And>n. x = ISnapshot n \<Longrightarrow> \<not> has_key (st_snapshots s) (sn_id n)"
  using assms by (auto simp: save_def bind_result_Inr_iff Let_def split: option.splits if_splits)

lemma saved_form_simps [simp]:
  "item_organization_id (saved_form s x) = item_organization_id x" "item_id (saved_form s x) = item_id x"
  by (cases x; simp add: saved_form_def)+

lemma save_inv: "repo_inv s \<Longrightarrow> save s x event = Inr (s', y) \<Longrightarrow> repo_inv s'"
  using save_cases[of s x event s' y] put_inv[of s y]
    log_event_inv[of "put y s" "item_organization_id x" event "()"]
  by (auto simp: check_event_iff)

lemma append_event_inv: "repo_inv s \<Longrightarrow> append_event s e = Inr s' \<Longrightarrow> repo_inv s'"
  by (auto simp: append_event_def repo_inv_def split: if_splits)

lemma save_risk_snapshot_cases:
  assumes "save_risk_snapshot s org x event = Inr (s', y)"
  shows "s' = log_event event (s\<lparr>st_risk_snapshots :=
      AList.update (org, rk_entity_id x, rk_period x) x (st_risk_snapshots s)\<rparr>)"
    "y = x" "check_event s org event = Inr ()" "\<not> has_key (st_risk_snapshots s) (org, rk_entity_id x, rk_period x)"
  using assms by (auto simp: save_risk_snapshot_def bind_result_Inr_iff Let_def split: if_splits)

lemma save_risk_snapshot_inv:
  assumes "repo_inv s" "save_risk_snapshot s org x event = Inr (s', y)"
  shows "repo_inv s'"
proof -
  let ?d = "AList.update (org, rk_entity_id x, rk_period x) x (st_risk_snapshots s)"
  note c = save_risk_snapshot_cases[OF assms(2)]
  have "\<forall>((o', e, p), z)\<in>set ?d. rk_entity_id z = e \<and> rk_period z = p"
    using assms(1) set_update_subset[of "(org, rk_entity_id x, rk_period x)" x "st_risk_snapshots s"]
    by (fastforce simp: repo_inv_def)
  then have "repo_inv (s\<lparr>st_risk_snapshots := ?d\<rparr>)" using assms(1) by (simp add: repo_inv_def)
  moreover have "check_event (s\<lparr>st_risk_snapshots := ?d\<rparr>) org event = Inr ()"
    using c(3) by (simp add: check_event_iff)
  ultimately show ?thesis unfolding c(1) by (rule log_event_inv)
qed

lemma save_decision_bundle_cases:
  assumes "save_decision_bundle H s b = Inr (s', b')"
  shows "s' = s\<lparr>st_bundles := AList.update (db_bundle_id b) b (st_bundles s)\<rparr>" "b' = b"
    "verify_decision_bundle H b None" "\<not> has_key (st_bundles s) (db_bundle_id b)"
    "is_ok (get_entity s (db_organization_id b) (db_entity_id b))"
  using assms by (auto simp: save_decision_bundle_def bind_result_Inr_iff is_ok_iff split: if_splits)

lemma save_decision_bundle_inv: "repo_inv s \<Longrightarrow> save_decision_bundle H s b = Inr (s', b') \<Longrightarrow> repo_inv s'"
  using save_decision_bundle_cases[of H s b s' b'] by (simp add: repo_inv_def)

section \<open>What a client relies on\<close>

locale case_store =
  fixes valid :: "'s \<Rightarrow> bool"
    and read_case :: "'s \<Rightarrow> string \<Rightarrow> string \<Rightarrow> risk_case result"
    and write_case :: "'s \<Rightarrow> risk_case \<Rightarrow> audit_event \<Rightarrow> ('s \<times> risk_case) result"
    and history :: "'s \<Rightarrow> audit_event list"
  assumes read_own: "valid s \<Longrightarrow> read_case s org k = Inr c \<Longrightarrow> rc_organization_id c = org \<and> rc_id c = k"
    and write_valid: "valid s \<Longrightarrow> write_case s c e = Inr (s', c') \<Longrightarrow> valid s'"
    and read_written: "valid s \<Longrightarrow> write_case s c e = Inr (s', c') \<Longrightarrow>
      read_case s' (rc_organization_id c) (rc_id c) = Inr c'"
    and read_other: "valid s \<Longrightarrow> write_case s c e = Inr (s', c') \<Longrightarrow>
      org \<noteq> rc_organization_id c \<or> k \<noteq> rc_id c \<Longrightarrow> read_case s' org k = read_case s org k"
    and write_version: "valid s \<Longrightarrow> write_case s c e = Inr (s', c') \<Longrightarrow>
      read_case s (rc_organization_id c) (rc_id c) = Inr d \<Longrightarrow>
      rc_version c = rc_version d \<and> c' = c\<lparr>rc_version := Suc (rc_version d)\<rparr>"
    and write_logged: "valid s \<Longrightarrow> write_case s c e = Inr (s', c') \<Longrightarrow>
      history s' = history s @ [e] \<and> ae_id e \<notin> ae_id ` set (history s) \<and>
      ae_organization_id e = rc_organization_id c"
begin

text \<open>Two writers that read the same version: the second one is rejected.\<close>

lemma stale_write_rejected:
  assumes "valid s" and c: "read_case s org k = Inr c" and w: "write_case s c1 e1 = Inr (s1, c1')"
    and c1: "rc_organization_id c1 = org" "rc_id c1 = k"
    and c2: "rc_organization_id c2 = org" "rc_id c2 = k" "rc_version c2 = rc_version c"
  shows "\<not> is_ok (write_case s1 c2 e2)"
proof
  assume "is_ok (write_case s1 c2 e2)"
  then obtain s2 c2' where w2: "write_case s1 c2 e2 = Inr (s2, c2')" by (auto simp: is_ok_iff)
  have "rc_version c1' = Suc (rc_version c)"
    using write_version[OF assms(1) w] c c1 by simp
  moreover have "rc_version c2 = rc_version c1'"
    using write_version[OF write_valid[OF assms(1) w] w2] read_written[OF assms(1) w] c1 c2 by simp
  ultimately show False using c2(3) by simp
qed

fun writes :: "'s \<Rightarrow> (risk_case \<times> audit_event) list \<Rightarrow> 's \<times> (risk_case \<times> audit_event) list" where
  "writes s [] = (s, [])"
| "writes s ((c, e) # ws) = (case write_case s c e of Inl _ \<Rightarrow> writes s ws
     | Inr (s', c') \<Rightarrow> (let (t, done) = writes s' ws in (t, (c, e) # done)))"

text \<open>Along any sequence of attempted writes the log grows by exactly the accepted events, and
  the version of a case counts the accepted writes to it.\<close>

lemma writes_counted:
  "valid s \<Longrightarrow> writes s ws = (t, ok) \<Longrightarrow> read_case s org k = Inr c \<Longrightarrow>
     valid t \<and> history t = history s @ map snd ok \<and>
     (\<exists>d. read_case t org k = Inr d \<and> rc_version d = rc_version c +
        length (filter (\<lambda>(x, e). rc_organization_id x = org \<and> rc_id x = k) ok))"
proof (induction s ws arbitrary: c t ok rule: writes.induct)
  case (2 s x e ws)
  show ?case
  proof (cases "write_case s x e")
    case (Inl a)
    then show ?thesis using 2 by simp
  next
    case (Inr p)
    then obtain s' x' where w: "write_case s x e = Inr (s', x')" by (cases p) simp
    obtain ok' where ok: "writes s' ws = (t, ok')" "ok = (x, e) # ok'"
      using "2.prems"(2) w by (auto split: prod.splits)
    note IH = "2.IH"(2)[OF w refl write_valid[OF "2.prems"(1) w] ok(1)]
    note h = write_logged[OF "2.prems"(1) w]
    show ?thesis
    proof (cases "rc_organization_id x = org \<and> rc_id x = k")
      case True
      have "read_case s' org k = Inr x'" using read_written[OF "2.prems"(1) w] True by simp
      moreover have "rc_version x' = Suc (rc_version c)"
        using write_version[OF "2.prems"(1) w] "2.prems"(3) True by simp
      ultimately show ?thesis using IH h ok(2) True by simp
    next
      case False
      then have "read_case s' org k = Inr c" using read_other[OF "2.prems"(1) w] "2.prems"(3) by auto
      then show ?thesis using IH h ok(2) False by auto
    qed
  qed
qed simp

end


section \<open>The in-memory repository keeps the contract\<close>

definition save_case :: "repository \<Rightarrow> risk_case \<Rightarrow> audit_event \<Rightarrow> (repository \<times> risk_case) result" where
  "save_case s c e = bind_result (save s (ICase c) (Some e)) (\<lambda>(s', x).
     case x of ICase c' \<Rightarrow> Inr (s', c') | _ \<Rightarrow> Inl (TypeError []))"

lemma own_iff: "own f d org k = Inr x \<longleftrightarrow> map_of d k = Some x \<and> f x = org"
  by (auto simp: own_def split: option.splits)

lemma own_cong: "map_of d k = map_of d' k \<Longrightarrow> own f d org k = own f d' org k"
  by (simp add: own_def)

lemma own_update: "f x \<noteq> org \<or> k \<noteq> j \<Longrightarrow> (\<And>y. map_of d j = Some y \<Longrightarrow> f y = f x) \<Longrightarrow>
    own f (AList.update j x d) org k = own f d org k"
  by (auto simp: own_def split: option.splits)

lemma save_case_save: "save_case s c e = Inr (s', c') \<Longrightarrow> save s (ICase c) (Some e) = Inr (s', ICase c')"
  by (auto simp: save_case_def bind_result_def split: sum.splits prod.splits item.splits)

lemma save_case_cases:
  assumes "save_case s c e = Inr (s', c')"
  shows "s' = log_event (Some e) (put (ICase c') s)"
    "c' = (if has_key (st_cases s) (rc_id c) then c\<lparr>rc_version := Suc (rc_version c)\<rparr> else c)"
    "ae_organization_id e = rc_organization_id c" "ae_id e \<notin> set (st_event_ids s)"
    "\<And>d. map_of (st_cases s) (rc_id c) = Some d \<Longrightarrow>
       rc_organization_id d = rc_organization_id c \<and> rc_version d = rc_version c"
proof -
  note f = save_cases[OF save_case_save[OF assms]]
  show "s' = log_event (Some e) (put (ICase c') s)"
    "c' = (if has_key (st_cases s) (rc_id c) then c\<lparr>rc_version := Suc (rc_version c)\<rparr> else c)"
    "ae_organization_id e = rc_organization_id c" "ae_id e \<notin> set (st_event_ids s)"
    "\<And>d. map_of (st_cases s) (rc_id c) = Some d \<Longrightarrow>
       rc_organization_id d = rc_organization_id c \<and> rc_version d = rc_version c"
    using f by (auto simp: saved_form_def check_event_iff check_version_def split: if_splits)
qed

interpretation mem: case_store repo_inv get_case save_case st_events
proof unfold_locales
  fix s org k c
  assume "repo_inv s" "get_case s org k = Inr c"
  then show "rc_organization_id c = org \<and> rc_id c = k"
    by (auto simp: get_case_def own_iff repo_inv_def dest: keyed_lookup)
next
  fix s c e s' c'
  assume "repo_inv s" "save_case s c e = Inr (s', c')"
  then show "repo_inv s'" by (rule save_inv[OF _ save_case_save])
next
  fix s c e s' c'
  assume w: "save_case s c e = Inr (s', c')"
  show "get_case s' (rc_organization_id c) (rc_id c) = Inr c'"
    using save_case_cases[OF w] by (simp add: get_case_def own_iff)
next
  fix s c e s' c' org k
  assume w: "save_case s c e = Inr (s', c')" and "org \<noteq> rc_organization_id c \<or> k \<noteq> rc_id c"
  then show "get_case s' org k = get_case s org k"
    using save_case_cases[OF w] own_update[of rc_organization_id c' org k "rc_id c'" "st_cases s"]
    by (auto simp: get_case_def split: if_splits)
next
  fix s c e s' c' d
  assume w: "save_case s c e = Inr (s', c')" and "get_case s (rc_organization_id c) (rc_id c) = Inr d"
  then show "rc_version c = rc_version d \<and> c' = c\<lparr>rc_version := Suc (rc_version d)\<rparr>"
    using save_case_cases[OF w] by (auto simp: get_case_def own_iff has_key_def)
next
  fix s c e s' c'
  assume inv: "repo_inv s" and w: "save_case s c e = Inr (s', c')"
  show "st_events s' = st_events s @ [e] \<and> ae_id e \<notin> ae_id ` set (st_events s) \<and>
      ae_organization_id e = rc_organization_id c"
    using save_case_cases[OF w] inv by (simp add: repo_inv_def)
qed


section \<open>Runs of the repository\<close>

inductive repo_step :: "digest \<Rightarrow> repository \<Rightarrow> repository \<Rightarrow> bool" for H where
  Save: "save s x event = Inr (s', y) \<Longrightarrow> repo_step H s s'"
| Append: "append_event s e = Inr s' \<Longrightarrow> repo_step H s s'"
| SaveRisk: "save_risk_snapshot s org r event = Inr (s', y) \<Longrightarrow> repo_step H s s'"
| SaveBundle: "save_decision_bundle H s b = Inr (s', b') \<Longrightarrow> repo_step H s s'"

inductive_cases repo_stepE: "repo_step H s s'"

text \<open>The parts of the repository that only ever grow.\<close>

definition extends :: "repository \<Rightarrow> repository \<Rightarrow> bool" where
  "extends s s' = ((\<exists>es. st_events s' = st_events s @ es) \<and>
     map_of (st_snapshots s) \<subseteq>\<^sub>m map_of (st_snapshots s') \<and>
     map_of (st_risk_snapshots s) \<subseteq>\<^sub>m map_of (st_risk_snapshots s') \<and>
     map_of (st_bundles s) \<subseteq>\<^sub>m map_of (st_bundles s') \<and>
     fst ` set (st_cases s) \<subseteq> fst ` set (st_cases s'))"

lemma extends_refl [simp]: "extends s s"
  by (simp add: extends_def)

lemma extends_trans: "extends s t \<Longrightarrow> extends t u \<Longrightarrow> extends s u"
  unfolding extends_def by (force intro: map_le_trans)

lemma map_le_update: "\<not> has_key d k \<Longrightarrow> map_of d \<subseteq>\<^sub>m map_of (AList.update k x d)"
  by (auto simp: map_le_def has_key_def)

lemma st_events_log_event: "\<exists>es. st_events (log_event event s) = st_events s @ es"
  by (cases event) auto

lemma put_simps [simp]:
  "st_risk_snapshots (put x s) = st_risk_snapshots s" "st_bundles (put x s) = st_bundles s"
  by (cases x; simp)+

lemma put_snapshots: "(\<And>n. x = ISnapshot n \<Longrightarrow> \<not> has_key (st_snapshots s) (sn_id n)) \<Longrightarrow>
    map_of (st_snapshots s) \<subseteq>\<^sub>m map_of (st_snapshots (put x s))"
  by (cases x) (simp_all add: map_le_update del: map_of_update)

lemma put_cases: "fst ` set (st_cases s) \<subseteq> fst ` set (st_cases (put x s))"
  by (cases x) auto

lemma saved_form_snapshot: "saved_form s x = ISnapshot n \<longleftrightarrow> x = ISnapshot n"
  by (cases x) (simp_all add: saved_form_def)

lemma repo_step_extends: "repo_step H s s' \<Longrightarrow> extends s s'"
proof (erule repo_stepE)
  fix x event y assume "save s x event = Inr (s', y)"
  note c = save_cases[OF this]
  have "map_of (st_snapshots s) \<subseteq>\<^sub>m map_of (st_snapshots (put y s))"
    by (rule put_snapshots) (use c(2,6) saved_form_snapshot in auto)
  then show ?thesis
    using put_cases[of s y] st_events_log_event[of event "put y s"] by (simp add: c(1) extends_def)
next
  fix e assume "append_event s e = Inr s'"
  then show ?thesis by (auto simp: append_event_def extends_def split: if_splits)
next
  fix org r event y assume "save_risk_snapshot s org r event = Inr (s', y)"
  note c = save_risk_snapshot_cases[OF this]
  show ?thesis
    unfolding c(1) extends_def log_event_simps
    using st_events_log_event[of event "s\<lparr>st_risk_snapshots :=
        AList.update (org, rk_entity_id r, rk_period r) r (st_risk_snapshots s)\<rparr>"] map_le_update[OF c(4)]
    by (simp del: map_of_update)
next
  fix b b' assume "save_decision_bundle H s b = Inr (s', b')"
  note c = save_decision_bundle_cases[OF this]
  show ?thesis using map_le_update[OF c(4)] by (simp add: c(1) extends_def del: map_of_update)
qed

lemma repo_step_inv: "repo_step H s s' \<Longrightarrow> repo_inv s \<Longrightarrow> repo_inv s'"
  by (erule repo_stepE) (auto intro: save_inv append_event_inv save_risk_snapshot_inv save_decision_bundle_inv)

text \<open>C19: the repository is consistent and its audit log is append-only. In every repository that
  a sequence of its operations reaches from an empty one, each dictionary maps identifiers to
  items that carry them, and audit event identifiers are unique; and from then on no sequence
  of operations removes or reorders an audit event, or overwrites an analysis snapshot, a risk
  snapshot or a decision bundle, or loses a case.\<close>

theorem repository_grows_consistently:
  assumes "(repo_step H)\<^sup>*\<^sup>* empty_repository s" and "(repo_step H)\<^sup>*\<^sup>* s s'"
  shows "repo_inv s' \<and> extends s s'"
proof -
  have inv: "repo_inv b" if "(repo_step H)\<^sup>*\<^sup>* a b" "repo_inv a" for a b
    using that by (induction rule: rtranclp_induct) (auto intro: repo_step_inv)
  have "extends s s'" using assms(2)
    by (induction rule: rtranclp_induct) (auto intro: extends_trans repo_step_extends)
  then show ?thesis using inv[OF assms(1)] inv[OF assms(2)] by simp
qed

definition sample_event :: "string \<Rightarrow> string \<Rightarrow> audit_event" where
  "sample_event i org = \<lparr>ae_id = i, ae_organization_id = org, ae_actor_id = ''u'', ae_action = ''a'',
     ae_object_type = ''t'', ae_object_id = ''o'', ae_payload = VNone, ae_occurred_at = ''now''\<rparr>"

definition sample_organization :: organization where
  "sample_organization = \<lparr>og_id = ''org1'', og_name = ''Acme'', og_created_at = ''now''\<rparr>"

definition sample_case :: risk_case where
  "sample_case = \<lparr>rc_id = ''case1'', rc_organization_id = ''org1'', rc_entity_id = ''ent1'', rc_domain = LIQUIDITY,
     rc_severity = ''high'', rc_trajectory = ''stable'', rc_confidence = Fin 0, rc_evidence_coverage = Fin 0,
     rc_status = DETECTED, rc_owner_id = None, rc_reviewer_id = None, rc_due_date = None, rc_rationale = [],
     rc_evidence_ids = [], rc_reason_codes = [], rc_decision_trace = VDict [], rc_snapshot_id = None,
     rc_fusion_version = VNone, rc_actions = [], rc_resolution_evidence = [], rc_monitoring_state = ''active'',
     rc_comments = [], rc_created_at = ''now'', rc_updated_at = ''now'', rc_version = 0\<rparr>"

lemma repository_grows_consistently_witness:
  "\<exists>s. save empty_repository (IOrganization sample_organization) (Some (sample_event ''e1'' ''org1'')) =
       Inr (s, IOrganization sample_organization) \<and> repo_inv s"
proof -
  obtain s where s: "save empty_repository (IOrganization sample_organization) (Some (sample_event ''e1'' ''org1'')) =
      Inr (s, IOrganization sample_organization)"
    by (simp add: save_def check_event_def sample_event_def sample_organization_def empty_repository_def
        check_version_def saved_form_def)
  then have "(repo_step sample_digest)\<^sup>*\<^sup>* empty_repository s" for sample_digest :: digest
    by (auto intro: repo_step.Save)
  then show ?thesis using repository_grows_consistently[of _ s s] s by blast
qed

text \<open>C28: optimistic concurrency. When two actors have read a case at the same version, then after
  one of them has saved its change the other's save is rejected, whatever it changes.\<close>

theorem concurrent_case_update_rejected:
  assumes "repo_inv s" and "get_case s org k = Inr c" and "save_case s c1 e1 = Inr (s1, c1')"
    and "rc_organization_id c1 = org \<and> rc_id c1 = k"
    and "rc_organization_id c2 = org \<and> rc_id c2 = k \<and> rc_version c2 = rc_version c"
  shows "\<not> is_ok (save_case s1 c2 e2)"
  using mem.stale_write_rejected[OF assms(1-3)] assms(4,5) by blast

lemma concurrent_case_update_rejected_witness:
  "let s = empty_repository\<lparr>st_cases := [(''case1'', sample_case)]\<rparr> in
     \<exists>s1 c1. save_case s (sample_case\<lparr>rc_status := OPEN\<rparr>) (sample_event ''e1'' ''org1'') = Inr (s1, c1) \<and>
       \<not> is_ok (save_case s1 (sample_case\<lparr>rc_status := CLOSED\<rparr>) (sample_event ''e2'' ''org1''))"
proof -
  let ?s = "empty_repository\<lparr>st_cases := [(''case1'', sample_case)]\<rparr>"
  have inv: "repo_inv ?s" by (simp add: repo_inv_def empty_repository_def keyed_def sample_case_def)
  have get: "get_case ?s ''org1'' ''case1'' = Inr sample_case"
    by (simp add: get_case_def own_def sample_case_def)
  obtain s1 c1 where w: "save_case ?s (sample_case\<lparr>rc_status := OPEN\<rparr>) (sample_event ''e1'' ''org1'') = Inr (s1, c1)"
    by (simp add: save_case_def save_def check_event_def sample_event_def sample_case_def check_version_def
        saved_form_def empty_repository_def has_key_def)
  have "\<not> is_ok (save_case s1 (sample_case\<lparr>rc_status := CLOSED\<rparr>) (sample_event ''e2'' ''org1''))"
    by (rule concurrent_case_update_rejected[OF inv get w]) (simp_all add: sample_case_def)
  then show ?thesis using w by (simp add: Let_def)
qed


section \<open>Tenants do not see each other\<close>

lemma filter_update: "\<not> P x \<Longrightarrow> (\<And>y. map_of d k = Some y \<Longrightarrow> \<not> P y) \<Longrightarrow>
    filter P (map snd (AList.update k x d)) = filter P (map snd d)"
  by (induction d) (auto split: if_splits)

text \<open>What one tenant can observe through the readers of the repository.\<close>

definition view :: "repository \<Rightarrow> string \<Rightarrow> (string \<Rightarrow> risk_case result) \<times> (string \<Rightarrow> entity result) \<times>
    (string \<Rightarrow> policy_version result) \<times> (string \<Rightarrow> analysis_snapshot result) \<times>
    risk_case list \<times> analysis_snapshot list \<times> audit_event list" where
  "view s org = (get_case s org, get_entity s org, get_policy s org, get_snapshot s org,
     list_cases s org, list_snapshots s org, list_events s org)"

lemmas readers = get_case_def get_entity_def get_policy_def get_snapshot_def list_cases_def
  list_snapshots_def list_events_def

lemma put_view:
  assumes "existing_owner s x = None \<or> existing_owner s x = Some (item_organization_id x)"
    and "item_organization_id x \<noteq> org"
  shows "view (put x s) org = view s org"
  using assms by (cases x) (auto simp: view_def readers fun_eq_iff own_def intro!: filter_update split: option.splits)

lemma log_event_view:
  "(\<And>e. event = Some e \<Longrightarrow> ae_organization_id e \<noteq> org) \<Longrightarrow> view (log_event event s) org = view s org"
  by (cases event) (auto simp: view_def readers fun_eq_iff own_def)

lemma existing_owner_saved: "existing_owner s (saved_form s x) = existing_owner s x"
  by (cases x) (simp_all add: saved_form_def)

lemma save_view:
  assumes "save s x event = Inr (s', y)" and "item_organization_id x \<noteq> org"
  shows "view s' org = view s org"
proof -
  note c = save_cases[OF assms(1)]
  have "view (put y s) org = view s org"
    by (rule put_view) (use c(2,5) assms(2) existing_owner_saved in auto)
  moreover have "view (log_event event (put y s)) org = view (put y s) org"
    by (rule log_event_view) (use c(3) assms(2) in \<open>auto simp: check_event_iff\<close>)
  ultimately show ?thesis by (simp add: c(1))
qed

lemma append_event_view: "append_event s e = Inr s' \<Longrightarrow> ae_organization_id e \<noteq> org \<Longrightarrow> view s' org = view s org"
  using log_event_view[of "Some e" org s] by (simp add: append_event_def split: if_splits)

lemma save_risk_snapshot_view:
  assumes "save_risk_snapshot s org' r event = Inr (s', y)" and "org' \<noteq> org"
  shows "view s' org = view s org" "list_risk_snapshots s' org e = list_risk_snapshots s org e"
proof -
  note c = save_risk_snapshot_cases[OF assms(1)]
  let ?t = "s\<lparr>st_risk_snapshots := AList.update (org', rk_entity_id r, rk_period r) r (st_risk_snapshots s)\<rparr>"
  have "view (log_event event ?t) org = view ?t org"
    by (rule log_event_view) (use c(3) assms(2) in \<open>auto simp: check_event_iff\<close>)
  moreover have "view ?t org = view s org" by (simp add: view_def readers)
  ultimately show "view s' org = view s org" by (simp add: c(1))
  have "filter (\<lambda>((o', e', _), _). o' = org \<and> e' = e) (AList.update (org', k) x d) =
      filter (\<lambda>((o', e', _), _). o' = org \<and> e' = e) d" for k x and d :: "(string \<times> string \<times> string, risk_snapshot) dict"
    using assms(2) by (induction d) auto
  then show "list_risk_snapshots s' org e = list_risk_snapshots s org e"
    by (simp add: c(1) list_risk_snapshots_def)
qed

text \<open>C18: tenants are isolated. Whatever a tenant reads belongs to it, and a save for one tenant, an
  audit event of one tenant and a risk snapshot of one tenant change nothing that another
  tenant can read (cases, entities, policies, snapshots, audit events); in particular a
  colliding identifier cannot be used to overwrite another tenant's item.\<close>

theorem tenants_isolated:
  "(\<forall>k x. get_case s org k = Inr x \<longrightarrow> rc_organization_id x = org) \<and>
   (\<forall>k x. get_entity s org k = Inr x \<longrightarrow> en_organization_id x = org) \<and>
   (\<forall>k x. get_policy s org k = Inr x \<longrightarrow> po_organization_id x = org) \<and>
   (\<forall>k x. get_snapshot s org k = Inr x \<longrightarrow> sn_organization_id x = org) \<and>
   (\<forall>x event s' y. save s x event = Inr (s', y) \<and> item_organization_id x \<noteq> org \<longrightarrow> view s' org = view s org) \<and>
   (\<forall>e s'. append_event s e = Inr s' \<and> ae_organization_id e \<noteq> org \<longrightarrow> view s' org = view s org) \<and>
   (\<forall>org' r event s' y. save_risk_snapshot s org' r event = Inr (s', y) \<and> org' \<noteq> org \<longrightarrow>
      view s' org = view s org \<and> (\<forall>e. list_risk_snapshots s' org e = list_risk_snapshots s org e))"
  using save_view append_event_view save_risk_snapshot_view by (auto simp: readers own_iff)

lemma tenants_isolated_witness:
  "let s = empty_repository\<lparr>st_cases := [(''case1'', sample_case)]\<rparr> in
     \<exists>s' y. save s (IOrganization (sample_organization\<lparr>og_id := ''org2''\<rparr>)) None = Inr (s', y) \<and>
       view s' ''org1'' = view s ''org1''"
proof -
  let ?s = "empty_repository\<lparr>st_cases := [(''case1'', sample_case)]\<rparr>"
  let ?x = "IOrganization (sample_organization\<lparr>og_id := ''org2''\<rparr>)"
  obtain s' y where sv: "save ?s ?x None = Inr (s', y)"
    by (simp add: save_def check_event_def check_version_def saved_form_def)
  then have "view s' ''org1'' = view ?s ''org1''"
    using tenants_isolated[of ?s "''org1''"] by fastforce
  then show ?thesis using sv by (simp add: Let_def)
qed

section \<open>Reading back\<close>

lemma latest_props: "latest x xs \<in> insert x (set xs) \<and> (\<forall>y\<in>insert x (set xs). sn_created_at y \<le> sn_created_at (latest x xs))"
proof (induction xs arbitrary: x)
  case (Cons y ys)
  let ?z = "if sn_created_at x < sn_created_at y then y else x"
  have "sn_created_at x \<le> sn_created_at ?z" "sn_created_at y \<le> sn_created_at ?z" by (auto simp: not_less)
  then show ?case using Cons.IH[of ?z] by (auto intro: order_trans)
qed simp

text \<open>reuse of snapshots finds the latest identical analysis. Looking up a snapshot by its input
  and output hashes answers \<open>None\<close> exactly when the tenant has no such snapshot of the entity,
  and otherwise one of them that is at least as recent as every other.\<close>

theorem find_snapshot_latest:
  "let matches = {x \<in> set (list_snapshots s org). sn_entity_id x = e \<and> sn_input_hash x = ih \<and> sn_output_hash x = oh}
   in (find_snapshot s org e ih oh = None) = (matches = {}) \<and>
      (\<forall>x. find_snapshot s org e ih oh = Some x \<longrightarrow> x \<in> matches \<and>
         (\<forall>y\<in>matches. sn_created_at y \<le> sn_created_at x))"
proof -
  let ?m = "filter (\<lambda>x. sn_organization_id x = org \<and> sn_entity_id x = e \<and> sn_input_hash x = ih \<and>
      sn_output_hash x = oh) (map snd (st_snapshots s))"
  have set: "{x \<in> set (list_snapshots s org). sn_entity_id x = e \<and> sn_input_hash x = ih \<and> sn_output_hash x = oh} = set ?m"
    by (auto simp: list_snapshots_def)
  show ?thesis
  proof (cases ?m)
    case Nil
    then show ?thesis unfolding set find_snapshot_def by simp
  next
    case (Cons x xs)
    have "find_snapshot s org e ih oh = Some (latest x xs)" using Cons by (simp add: find_snapshot_def)
    then show ?thesis unfolding set Cons using latest_props[of x xs] by simp
  qed
qed

definition sample_snapshot :: "string \<Rightarrow> string \<Rightarrow> analysis_snapshot" where
  "sample_snapshot i created = \<lparr>sn_id = i, sn_organization_id = ''org1'', sn_entity_id = ''ent1'', sn_input_hash = ''in'',
     sn_output_hash = ''out'', sn_document_versions = VNone, sn_component_versions = VNone, sn_frozen_input = VNone,
     sn_frozen_output = VNone, sn_created_at = created\<rparr>"

definition sample_snapshots :: repository where
  "sample_snapshots = empty_repository\<lparr>st_snapshots := [(''s1'', sample_snapshot ''s1'' ''2024''), (''s2'', sample_snapshot ''s2'' ''2025'')]\<rparr>"

lemma find_snapshot_latest_witness:
  "\<exists>x. find_snapshot sample_snapshots ''org1'' ''ent1'' ''in'' ''out'' = Some x \<and>
     sn_created_at (sample_snapshot ''s2'' ''2025'') \<le> sn_created_at x"
proof -
  let ?m = "{x \<in> set (list_snapshots sample_snapshots ''org1''). sn_entity_id x = ''ent1'' \<and> sn_input_hash x = ''in'' \<and>
    sn_output_hash x = ''out''}"
  have in_m: "sample_snapshot ''s2'' ''2025'' \<in> ?m"
    by (simp add: list_snapshots_def sample_snapshots_def sample_snapshot_def)
  note l = find_snapshot_latest[of sample_snapshots "''org1''" "''ent1''" "''in''" "''out''", unfolded Let_def]
  from l in_m obtain x where "find_snapshot sample_snapshots ''org1'' ''ent1'' ''in'' ''out'' = Some x" by blast
  with l in_m show ?thesis by blast
qed

text \<open>C31: decision bundles round-trip and stay verified. A bundle that was saved is read back
  unchanged; every bundle that the repository hands out verifies and belongs to the tenant and
  entity it was asked for; a bundle id is never reused, and a bundle of an unknown entity or one
  that does not verify is not stored.\<close>

theorem bundles_round_trip:
  "(\<forall>s'. save_decision_bundle H s b = Inr (s', b') \<longrightarrow> b' = b \<and>
      get_decision_bundle H s' (db_organization_id b) (db_entity_id b) (db_bundle_id b) = Inr b \<and>
      (db_bundle_id c = db_bundle_id b \<longrightarrow> \<not> is_ok (save_decision_bundle H s' c))) \<and>
   (get_decision_bundle H s org e k = Inr b \<longrightarrow> verify_decision_bundle H b None \<and>
      db_organization_id b = org \<and> db_entity_id b = e \<and> db_bundle_id b = k) \<and>
   (is_ok (save_decision_bundle H s b) \<longrightarrow> verify_decision_bundle H b None \<and>
      is_ok (get_entity s (db_organization_id b) (db_entity_id b)))"
  by (auto simp: save_decision_bundle_def get_decision_bundle_def bind_result_Inr_iff is_ok_bind is_ok_iff
      has_key_def split: if_splits option.splits)


definition sample_bundle :: decision_bundle where
  "sample_bundle = \<lparr>db_bundle_id = ''bundle_1'', db_organization_id = ''org1'', db_entity_id = ''ent1'',
     db_created_at = ''now'', db_document_hashes = VDict [], db_input_hash = ''i'', db_output_hash = ''o'',
     db_risk_state = VDict [], db_risk_delta = VNone, db_evidence_paths = [], db_calculations = VDict [],
     db_agent_trace = [], db_component_versions = VDict [], db_human_review = VNone, db_final_decision = ''REVIEW'',
     db_epistemics = VDict [], db_telemetry = [], db_bundle_hash = ''h'', db_proposed_decision = ''ABSTAIN'',
     db_assurance = VDict [], db_sufficient = VDict [], db_policy_version = unspecified,
     db_policy_hash = unspecified, db_calibration_status = ''UNCALIBRATED'', db_replay = VDict [],
     db_certificate_version = ''decision-bundle-v0.3'', db_certificate_hash = []\<rparr>"

definition sample_store :: repository where
  "sample_store = empty_repository\<lparr>st_entities := [(''ent1'',
     \<lparr>en_id = ''ent1'', en_organization_id = ''org1'', en_name = ''Acme'', en_parent_id = None, en_sector = ''x''\<rparr>)]\<rparr>"

lemma bundles_round_trip_witness:
  "\<exists>s'. save_decision_bundle (\<lambda>_. ''h'') sample_store sample_bundle = Inr (s', sample_bundle) \<and>
     get_decision_bundle (\<lambda>_. ''h'') s' ''org1'' ''ent1'' ''bundle_1'' = Inr sample_bundle"
proof -
  have "verify_decision_bundle (\<lambda>_. ''h'') sample_bundle None"
    by (simp add: verify_decision_bundle_def sample_bundle_def certificate_version_def is_legacy_def
        material_hash_def canonical_hash_def Let_def)
  then obtain s' where "save_decision_bundle (\<lambda>_. ''h'') sample_store sample_bundle = Inr (s', sample_bundle)"
    by (simp add: save_decision_bundle_def sample_store_def empty_repository_def has_key_def get_entity_def
        own_def sample_bundle_def)
  then show ?thesis
    using bundles_round_trip[of "\<lambda>_. ''h''" sample_store sample_bundle sample_bundle]
    by (auto simp: sample_bundle_def)
qed

end
