(* ===== verification/Service.thy ===== *)
theory Service
  imports Store
begin

text \<open>
  The enterprise service (\<open>enterprise/service.py\<close>). Every operation takes the numbered calls of
  the clock and of \<open>uuid4\<close> (\<open>env\<close>), the repository, the principal and its arguments, and returns an error
  or the new repository with its result. A value of an unexpected shape inside a
  snapshot raises as in Python (\<open>AttributeError\<close>, \<open>TypeError\<close>).
\<close>

section \<open>Values of unknown shape\<close>

text \<open>\<open>v.get(k, d)\<close>, iteration over a value, and a dictionary key taken from a value.\<close>

definition attr_get :: "pyval \<Rightarrow> string \<Rightarrow> pyval \<Rightarrow> pyval result" where
  "attr_get v k d = (if is_dict v then Inr (vget_or v k d) else Inl (AttributeError ''get''))"

fun py_iter :: "pyval \<Rightarrow> pyval list result" where
  "py_iter (VList xs) = Inr xs"
| "py_iter (VDict d) = Inr (map (\<lambda>(k, _). VStr k) d)"
| "py_iter (VStr s) = Inr (map (\<lambda>c. VStr [c]) s)"
| "py_iter _ = Inl (TypeError ''object is not iterable'')"

fun filter_result :: "('a \<Rightarrow> bool result) \<Rightarrow> 'a list \<Rightarrow> 'a list result" where
  "filter_result f [] = Inr []"
| "filter_result f (x # xs) = bind_result (f x) (\<lambda>b.
     bind_result (filter_result f xs) (\<lambda>ys. Inr (if b then x # ys else ys)))"

section \<open>Verified evidence of a snapshot\<close>

definition domain_aliases :: "(string \<times> string) list" where
  "domain_aliases = [(''accounting'', ''accounting_anomaly''), (''governance'', ''governance_audit''),
     (''going_concern'', ''business_going_concern''), (''solvency'', ''solvency_leverage'')]"

definition aliased :: "pyval \<Rightarrow> pyval result" where
  "aliased v = (case v of VStr k \<Rightarrow> Inr (VStr (dict_get domain_aliases k k))
     | VList _ \<Rightarrow> Inl (TypeError ''unhashable type'') | VDict _ \<Rightarrow> Inl (TypeError ''unhashable type'')
     | _ \<Rightarrow> Inr v)"

definition in_domain :: "string \<Rightarrow> pyval \<Rightarrow> bool result" where
  "in_domain domain p = bind_result (aliased (vget p ''risk_domain'')) (\<lambda>d. Inr (d = VStr domain))"

definition snapshot_paths :: "analysis_snapshot \<Rightarrow> pyval list result" where
  "snapshot_paths n =
     bind_result (attr_get (sn_frozen_output n) ''agent'' (VDict [])) (\<lambda>agent.
     bind_result (attr_get agent ''decision_trace'' (VDict [])) (\<lambda>trace.
     bind_result (attr_get trace ''paths'' (VList [])) py_iter))"

definition verified_in_domain :: "string \<Rightarrow> pyval \<Rightarrow> bool result" where
  "verified_in_domain domain p = (if verified_material_path p then in_domain domain p else Inr False)"

definition verified_domain_paths :: "analysis_snapshot \<Rightarrow> string \<Rightarrow> pyval list result" where
  "verified_domain_paths n domain = bind_result (snapshot_paths n) (filter_result (verified_in_domain domain))"

definition evidence_digest :: "digest \<Rightarrow> analysis_snapshot \<Rightarrow> string \<Rightarrow> pyval \<Rightarrow> string" where
  "evidence_digest H n domain evidence = ''ev_'' @ take 24 (canonical_hash H (VDict [
     (''snapshot_id'', VStr (sn_id n)),
     (''risk_domain'', VStr domain),
     (''document'', vget evidence ''document''),
     (''page'', vget evidence ''page''),
     (''source_text'', vget evidence ''source_text''),
     (''period'', vget evidence ''period''),
     (''value'', vget evidence ''value'')]))"

definition cites_domain :: "string \<Rightarrow> pyval \<Rightarrow> bool result" where
  "cites_domain domain p = (if \<not> is_dict p then Inl (AttributeError ''get'')
     else bind_result (in_domain domain p) (\<lambda>m. Inr (verified_material_path p \<and> m)))"

definition verified_evidence_ids :: "digest \<Rightarrow> analysis_snapshot \<Rightarrow> string \<Rightarrow> string list result" where
  "verified_evidence_ids H n domain =
     bind_result (snapshot_paths n) (\<lambda>paths.
     bind_result (filter_result (cites_domain domain) paths) (\<lambda>verified.
       Inr (sorted_set (concat (map (\<lambda>p. map (evidence_digest H n domain)
         (elems (vget_or p ''source_evidence'' (VList [])))) verified)))))"

section \<open>Operations\<close>

text \<open>\<open>_event\<close>: the event takes the i-th identifier and the j-th clock reading.\<close>

definition make_event :: "env \<Rightarrow> nat \<Rightarrow> nat \<Rightarrow> string \<Rightarrow> string \<Rightarrow> string \<Rightarrow> string \<Rightarrow> string \<Rightarrow> pyval \<Rightarrow> audit_event" where
  "make_event en i j org actor action object_type object_id payload =
     \<lparr>ae_id = new_id ''evt'' (en_uuid en i), ae_organization_id = org, ae_actor_id = actor, ae_action = action,
      ae_object_type = object_type, ae_object_id = object_id, ae_payload = payload,
      ae_occurred_at = en_clock en j\<rparr>"

definition create_organization :: "env \<Rightarrow> repository \<Rightarrow> string \<Rightarrow> string \<Rightarrow> (repository \<times> organization) result" where
  "create_organization en s name actor_id =
     (let x = \<lparr>og_id = new_id ''org'' (en_uuid en 0), og_name = name, og_created_at = en_clock en 0\<rparr>;
          e = make_event en 1 1 (og_id x) actor_id ''organization.created'' ''organization'' (og_id x)
            (VDict [(''name'', VStr name)])
      in bind_result (save s (IOrganization x) (Some e)) (\<lambda>(s', _). Inr (s', x)))"

definition create_entity :: "env \<Rightarrow> repository \<Rightarrow> principal \<Rightarrow> string \<Rightarrow> string \<Rightarrow> string option
    \<Rightarrow> (repository \<times> entity) result" where
  "create_entity en s p name sector parent_id =
     bind_result (authorize p ''write'' (pr_organization_id p)) (\<lambda>_.
     bind_result (case parent_id of None \<Rightarrow> Inr () | Some k \<Rightarrow>
       bind_result (get_entity s (pr_organization_id p) k) (\<lambda>_. Inr ())) (\<lambda>_.
       let x = \<lparr>en_id = new_id ''ent'' (en_uuid en 0), en_organization_id = pr_organization_id p, en_name = name,
             en_parent_id = parent_id, en_sector = sector\<rparr>;
           e = make_event en 1 0 (pr_organization_id p) (pr_user_id p) ''entity.created'' ''entity'' (en_id x)
             (VDict [(''name'', VStr name)])
       in bind_result (save s (IEntity x) (Some e)) (\<lambda>(s', _). Inr (s', x))))"

definition create_policy :: "env \<Rightarrow> repository \<Rightarrow> principal \<Rightarrow> string \<Rightarrow> pyval \<Rightarrow> int
    \<Rightarrow> (repository \<times> policy_version) result" where
  "create_policy en s p name thresholds version =
     bind_result (authorize p ''configure'' (pr_organization_id p)) (\<lambda>_.
       let x = \<lparr>po_id = new_id ''pol'' (en_uuid en 0), po_organization_id = pr_organization_id p,
             po_version = version, po_name = name, po_thresholds = thresholds, po_created_by = pr_user_id p,
             po_created_at = en_clock en 0, po_status = ''draft''\<rparr>;
           e = make_event en 1 1 (pr_organization_id p) (pr_user_id p) ''policy.version_created'' ''policy'' (po_id x)
             (VDict [(''version'', VInt version), (''thresholds'', thresholds)])
       in bind_result (save s (IPolicy x) (Some e)) (\<lambda>(s', _). Inr (s', x)))"

definition create_case :: "env \<Rightarrow> repository \<Rightarrow> principal \<Rightarrow> risk_case \<Rightarrow> (repository \<times> risk_case) result" where
  "create_case en s p c =
     bind_result (authorize p ''write'' (rc_organization_id c)) (\<lambda>_.
     bind_result (get_entity s (rc_organization_id c) (rc_entity_id c)) (\<lambda>_.
     bind_result (case rc_snapshot_id c of None \<Rightarrow> Inr () | Some k \<Rightarrow>
       if k = [] then Inr ()
       else bind_result (get_snapshot s (rc_organization_id c) k) (\<lambda>n.
         if sn_organization_id n \<noteq> rc_organization_id c
         then Inl (PermissionError ''snapshot organization does not match risk case'')
         else if sn_entity_id n \<noteq> rc_entity_id c
         then Inl (ValueError ''snapshot entity does not match risk case'') else Inr ())) (\<lambda>_.
       save_case s c (make_event en 0 0 (rc_organization_id c) (pr_user_id p) ''risk_case.created'' ''risk_case''
         (rc_id c) (case_to_dict c)))))"

text \<open>The case events that the remaining operations write.\<close>

definition case_event :: "env \<Rightarrow> nat \<Rightarrow> nat \<Rightarrow> principal \<Rightarrow> risk_case \<Rightarrow> string \<Rightarrow> pyval \<Rightarrow> audit_event" where
  "case_event en i j p c action payload =
     make_event en i j (rc_organization_id c) (pr_user_id p) action ''risk_case'' (rc_id c) payload"

text \<open>The proof gate of the decisive states.\<close>

definition check_proof :: "repository \<Rightarrow> risk_case \<Rightarrow> unit result" where
  "check_proof s c = (case rc_snapshot_id c of
     None \<Rightarrow> Inl (ValueError ''a server-side analysis snapshot is required'')
   | Some k \<Rightarrow> if k = [] then Inl (ValueError ''a server-side analysis snapshot is required'')
     else bind_result (get_snapshot s (rc_organization_id c) k) (\<lambda>n.
       bind_result (verified_domain_paths n (domain_value (rc_domain c))) (\<lambda>verified.
       if verified = [] then Inl (ValueError ''a verified server-side evidence path is required'') else Inr ())))"

definition transition :: "env \<Rightarrow> repository \<Rightarrow> principal \<Rightarrow> string \<Rightarrow> case_status \<Rightarrow> (repository \<times> risk_case) result" where
  "transition en s p case_id target =
     bind_result (get_case s (pr_organization_id p) case_id) (\<lambda>c.
     bind_result (authorize p ''review'' (rc_organization_id c)) (\<lambda>_.
     bind_result (if target = ACCEPTED \<or> target = RESOLVED then check_proof s c else Inr ()) (\<lambda>_.
     if target = RESOLVED \<and> rc_resolution_evidence c = []
     then Inl (ValueError ''resolution evidence is required'')
     else bind_result (transition_case (en_clock en 0) c target) (\<lambda>(c', previous, current).
       save_case s c' (case_event en 0 1 p c' ''risk_case.transitioned''
         (VDict [(''from'', VStr (case_status_value previous)), (''to'', VStr (case_status_value current))]))))))"

definition add_action :: "env \<Rightarrow> repository \<Rightarrow> principal \<Rightarrow> string \<Rightarrow> string \<Rightarrow> string \<Rightarrow> string
    \<Rightarrow> (repository \<times> risk_case) result" where
  "add_action en s p case_id description owner_id due_date =
     (case date_of_iso due_date of
        None \<Rightarrow> Inl (ValueError ''due_date must be an ISO calendar date'')
      | Some due \<Rightarrow>
        if due < en_today en then Inl (ValueError ''due_date cannot be in the past'')
        else bind_result (get_case s (pr_organization_id p) case_id) (\<lambda>c.
          bind_result (authorize p ''write'' (rc_organization_id c)) (\<lambda>_.
          if owner_id \<noteq> pr_user_id p
          then Inl (ValueError ''action owner must match the authenticated user'')
          else bind_result (add_mitigation_action (en_uuid en 0) (en_clock en 0) c (pr_user_id p) description owner_id due_date)
            (\<lambda>(c', payload). save_case s c' (case_event en 1 1 p c' ''risk_case.action_added'' payload)))))"

definition add_resolution_evidence :: "digest \<Rightarrow> env \<Rightarrow> repository \<Rightarrow> principal \<Rightarrow> string \<Rightarrow> string
    \<Rightarrow> (repository \<times> risk_case) result" where
  "add_resolution_evidence H en s p case_id evidence_id =
     bind_result (get_case s (pr_organization_id p) case_id) (\<lambda>c.
     bind_result (authorize p ''review'' (rc_organization_id c)) (\<lambda>_.
     case rc_snapshot_id c of
       None \<Rightarrow> Inl (ValueError ''resolution evidence requires a server-side snapshot'')
     | Some k \<Rightarrow> if k = [] then Inl (ValueError ''resolution evidence requires a server-side snapshot'')
       else bind_result (get_snapshot s (rc_organization_id c) k) (\<lambda>n.
         bind_result (if evidence_id \<notin> set (rc_evidence_ids c) then Inr []
           else verified_evidence_ids H n (domain_value (rc_domain c))) (\<lambda>verified.
         if evidence_id \<notin> set verified
         then Inl (ValueError ''resolution evidence must be a verified case evidence ID'')
         else bind_result (record_resolution_evidence (en_clock en 0) c evidence_id) (\<lambda>c'.
           save_case s c' (case_event en 0 1 p c' ''risk_case.resolution_evidence_added''
             (VDict [(''evidence_id'', VStr evidence_id)])))))))"

definition reopen :: "env \<Rightarrow> repository \<Rightarrow> principal \<Rightarrow> string \<Rightarrow> string \<Rightarrow> (repository \<times> risk_case) result" where
  "reopen en s p case_id reason =
     bind_result (get_case s (pr_organization_id p) case_id) (\<lambda>c.
     bind_result (authorize p ''review'' (rc_organization_id c)) (\<lambda>_.
     bind_result (reopen_case (en_clock en 0) c (pr_user_id p) reason) (\<lambda>(c', payload).
       save_case s c' (case_event en 0 1 p c' ''risk_case.reopened'' payload))))"

text \<open>\<open>trace.get("final_decision") or trace.get("decision")\<close>\<close>

definition recorded_decision :: "risk_case \<Rightarrow> pyval" where
  "recorded_decision c = por (vget (rc_decision_trace c) ''final_decision'') (vget (rc_decision_trace c) ''decision'')"

definition override :: "env \<Rightarrow> repository \<Rightarrow> principal \<Rightarrow> string \<Rightarrow> string \<Rightarrow> string \<Rightarrow> string
    \<Rightarrow> (repository \<times> risk_case) result" where
  "override en s p case_id original overriding reason =
     bind_result (get_case s (pr_organization_id p) case_id) (\<lambda>c.
     bind_result (authorize p ''review'' (rc_organization_id c)) (\<lambda>_.
     case (parse_decision original, parse_decision overriding) of
       (Some d, Some d') \<Rightarrow>
         (let actual = recorded_decision c in
          if \<not> truthy actual then Inl (ValueError ''risk case has no recorded decision to override'')
          else if VStr (decision_value d) \<noteq> actual
          then Inl (ValueError ''override original does not match the recorded decision'')
          else if d = d' then Inl (ValueError ''override must change the recorded decision'')
          else bind_result (record_override (en_clock en 0) c (pr_user_id p) original overriding reason) (\<lambda>(c', payload).
            save_case s c' (case_event en 0 1 p c' ''risk_case.overridden'' payload)))
     | _ \<Rightarrow> Inl (ValueError ''override decisions must be valid Decision values'')))"

definition service_save_risk_snapshot :: "env \<Rightarrow> repository \<Rightarrow> principal \<Rightarrow> risk_snapshot
    \<Rightarrow> (repository \<times> risk_snapshot) result" where
  "service_save_risk_snapshot en s p x =
     bind_result (authorize p ''write'' (pr_organization_id p)) (\<lambda>_.
     bind_result (get_entity s (pr_organization_id p) (rk_entity_id x)) (\<lambda>_.
       save_risk_snapshot s (pr_organization_id p) x (Some (make_event en 0 0 (pr_organization_id p) (pr_user_id p)
         ''risk_snapshot.created'' ''risk_snapshot'' (rk_entity_id x @ '':'' @ rk_period x)
         (VDict [(''filing_id'', VStr (rk_filing_id x)), (''proposed_decision'', VStr (rk_decision x)),
           (''decision_semantics'', VStr ''LEGACY_ALIAS_FOR_PROPOSED_DECISION'')])))))"

definition risk_timeline :: "repository \<Rightarrow> principal \<Rightarrow> string \<Rightarrow> risk_snapshot list result" where
  "risk_timeline s p entity_id =
     bind_result (authorize p ''read'' (pr_organization_id p)) (\<lambda>_.
     bind_result (get_entity s (pr_organization_id p) entity_id) (\<lambda>_.
       Inr (list_risk_snapshots s (pr_organization_id p) entity_id)))"

definition service_save_bundle :: "digest \<Rightarrow> assurance_policy option \<Rightarrow> repository \<Rightarrow> principal \<Rightarrow> decision_bundle
    \<Rightarrow> (repository \<times> decision_bundle) result" where
  "service_save_bundle H policy s p b =
     bind_result (authorize p ''write'' (db_organization_id b)) (\<lambda>_.
     bind_result (get_entity s (db_organization_id b) (db_entity_id b)) (\<lambda>_.
     if db_certificate_hash b \<noteq> [] \<and> policy = None
     then Inl (ValueError ''v0.4 Decision Certificates require a trusted Assurance policy'')
     else if \<not> verify_decision_bundle H b policy then Inl (ValueError ''decision bundle hash verification failed'')
     else bind_result (save_decision_bundle H s b) (\<lambda>(s', saved).
       bind_result (get_decision_bundle H s' (db_organization_id b) (db_entity_id b) (db_bundle_id b)) (\<lambda>persisted.
         if db_bundle_hash persisted \<noteq> db_bundle_hash b
         then Inl (ValueError ''decision bundle persistence verification failed'') else Inr (s', saved)))))"

definition save_analysis_snapshot :: "env \<Rightarrow> repository \<Rightarrow> principal \<Rightarrow> analysis_snapshot
    \<Rightarrow> (repository \<times> analysis_snapshot) result" where
  "save_analysis_snapshot en s p n =
     bind_result (authorize p ''write'' (sn_organization_id n)) (\<lambda>_.
     bind_result (get_entity s (sn_organization_id n) (sn_entity_id n)) (\<lambda>_.
       let e = make_event en 0 0 (sn_organization_id n) (pr_user_id p) ''analysis.snapshot_created''
             ''analysis_snapshot'' (sn_id n) (VDict [(''input_hash'', VStr (sn_input_hash n)),
               (''output_hash'', VStr (sn_output_hash n)), (''component_versions'', sn_component_versions n)])
       in bind_result (save s (ISnapshot n) (Some e)) (\<lambda>(s', _). Inr (s', n))))"

definition record_analysis_execution :: "env \<Rightarrow> repository \<Rightarrow> principal \<Rightarrow> pyval \<Rightarrow> (repository \<times> audit_event) result" where
  "record_analysis_execution en s p payload =
     bind_result (authorize p ''write'' (pr_organization_id p)) (\<lambda>_.
     if \<not> has_key (items payload) ''snapshot_id'' then Inl (KeyError ''snapshot_id'')
     else let e = make_event en 0 0 (pr_organization_id p) (pr_user_id p) ''analysis.executed'' ''analysis_snapshot''
            (str_of (vget payload ''snapshot_id'')) payload
       in bind_result (append_event s e) (\<lambda>s'. Inr (s', e)))"

end
