(* ===== verification/Gate.thy ===== *)
theory Gate
  imports Service
begin

text \<open>
  What the service guarantees about risk cases: every change of a case is an authorized,
  audited read-modify-write (\<open>amends\<close>), the runs of the service are a step relation, and
  the proof gate of the decisive states is an invariant of it.
\<close>

section \<open>Reading the evidence of a snapshot\<close>

lemma filter_result_Inr: "filter_result f xs = Inr ys \<Longrightarrow> ys = filter (\<lambda>x. f x = Inr True) xs"
  by (induction xs arbitrary: ys) (auto simp: bind_result_Inr_iff split: if_splits)

lemma verified_in_domain_True:
  "verified_in_domain domain p = Inr True \<longleftrightarrow> verified_material_path p \<and> in_domain domain p = Inr True"
  by (simp add: verified_in_domain_def)

text \<open>The identifiers that count as verified evidence come from verified paths of the domain.\<close>

lemma verified_evidence_from_paths:
  assumes "verified_evidence_ids H n domain = Inr ids" and "i \<in> set ids"
  obtains paths p e where "snapshot_paths n = Inr paths" "p \<in> set paths" "verified_in_domain domain p = Inr True"
    "e \<in> set (elems (vget p ''source_evidence''))" "i = evidence_digest H n domain e"
proof -
  obtain paths ys where p: "snapshot_paths n = Inr paths" "filter_result (cites_domain domain) paths = Inr ys"
    "ids = sorted_set (concat (map (\<lambda>p. map (evidence_digest H n domain)
       (elems (vget_or p ''source_evidence'' (VList [])))) ys))"
    using assms(1) by (auto simp: verified_evidence_ids_def bind_result_Inr_iff)
  then obtain q e where q: "q \<in> set ys" "e \<in> set (elems (vget_or q ''source_evidence'' (VList [])))"
    "i = evidence_digest H n domain e"
    using assms(2) by auto
  have "q \<in> set paths" "cites_domain domain q = Inr True"
    using q(1) filter_result_Inr[OF p(2)] by auto
  then have "verified_in_domain domain q = Inr True"
    by (auto simp: cites_domain_def verified_in_domain_def bind_result_Inr_iff split: if_splits)
  moreover have "e \<in> set (elems (vget q ''source_evidence''))"
    using q(2) by (auto simp: vget_or_def vget_def get_def dict_get_def split: option.splits)
  ultimately show thesis using that p(1) \<open>q \<in> set paths\<close> q(3) by blast
qed

section \<open>Authorized, audited rewriting of a case\<close>

lemma authorize_iff: "authorize p permission org = Inr u \<longleftrightarrow>
    pr_organization_id p = org \<and> permission \<in> set (permissions (pr_role p))"
  by (simp add: authorize_def)

definition amends :: "principal \<Rightarrow> string \<Rightarrow> repository \<Rightarrow> string \<Rightarrow> risk_case \<Rightarrow> risk_case
    \<Rightarrow> repository \<Rightarrow> risk_case \<Rightarrow> bool" where
  "amends p permission s k c d s' d' =
     (get_case s (pr_organization_id p) k = Inr c \<and> permission \<in> set (permissions (pr_role p)) \<and>
      rc_organization_id d = rc_organization_id c \<and> rc_id d = rc_id c \<and>
      (\<exists>e. save_case s d e = Inr (s', d') \<and> ae_actor_id e = pr_user_id p \<and> ae_object_id e = rc_id c))"

lemma case_event_simps [simp]:
  "ae_actor_id (case_event en i j p c a v) = pr_user_id p" "ae_object_id (case_event en i j p c a v) = rc_id c"
  by (simp_all add: case_event_def make_event_def)

lemma amendsI:
  assumes "get_case s (pr_organization_id p) k = Inr c" "authorize p permission (rc_organization_id c) = Inr ()"
    and "save_case s d (case_event en i j p d a v) = Inr (s', d')"
    and "rc_organization_id d = rc_organization_id c" "rc_id d = rc_id c"
  shows "amends p permission s k c d s' d'"
  using assms by (auto simp: amends_def authorize_iff intro!: exI)

lemma transition_ok:
  assumes "transition en s p k target = Inr (s', d')"
  obtains c where "amends p ''review'' s k c (c\<lparr>rc_status := target, rc_updated_at := en_clock en 0\<rparr>) s' d'"
    "target \<in> set (transitions (rc_status c))"
    "target = ACCEPTED \<or> target = RESOLVED \<Longrightarrow> check_proof s c = Inr ()"
    "target = RESOLVED \<Longrightarrow> rc_resolution_evidence c \<noteq> []"
proof -
  obtain c where c: "get_case s (pr_organization_id p) k = Inr c" "authorize p ''review'' (rc_organization_id c) = Inr ()"
    "(if target = ACCEPTED \<or> target = RESOLVED then check_proof s c else Inr ()) = Inr ()"
    using assms by (auto simp: transition_def bind_result_Inr_iff)
  have r: "\<not> (target = RESOLVED \<and> rc_resolution_evidence c = [])"
  proof
    assume "target = RESOLVED \<and> rc_resolution_evidence c = []"
    then show False using assms c by (simp add: transition_def)
  qed
  then obtain t where t: "transition_case (en_clock en 0) c target = Inr t"
    using assms c by (auto simp: transition_def bind_result_Inr_iff)
  obtain d x y where xy: "t = (d, x, y)" by (cases t)
  have sv: "\<exists>v. save_case s d (case_event en 0 1 p d ''risk_case.transitioned'' v) = Inr (s', d')"
    using assms c r t unfolding transition_def xy by (simp only: bind_result_simps if_False prod.case) blast
  have d: "d = c\<lparr>rc_status := target, rc_updated_at := en_clock en 0\<rparr>" "target \<in> set (transitions (rc_status c))"
    using t xy by (auto simp: transition_case_def Let_def split: if_splits)
  obtain v where "save_case s d (case_event en 0 1 p d ''risk_case.transitioned'' v) = Inr (s', d')" using sv by blast
  from amendsI[OF c(1,2) this] d(1) have "amends p ''review'' s k c d s' d'" by simp
  moreover have "target = ACCEPTED \<or> target = RESOLVED \<Longrightarrow> check_proof s c = Inr ()" using c(3) by (auto split: if_splits)
  ultimately show thesis using that r d by blast
qed

lemma add_action_ok:
  assumes "add_action en s p k description owner due = Inr (s', d')"
  obtains c d where "amends p ''write'' s k c d s' d'" "owner = pr_user_id p"
    "\<exists>n. date_of_iso due = Some n \<and> en_today en \<le> n"
    "\<exists>a. d = c\<lparr>rc_actions := rc_actions c @ [a], rc_owner_id := Some owner, rc_due_date := Some due,
       rc_updated_at := en_clock en 0\<rparr>"
proof -
  obtain c d v where c: "get_case s (pr_organization_id p) k = Inr c" "authorize p ''write'' (rc_organization_id c) = Inr ()"
    "owner = pr_user_id p" "\<exists>n. date_of_iso due = Some n \<and> en_today en \<le> n"
    "add_mitigation_action (en_uuid en 0) (en_clock en 0) c (pr_user_id p) description owner due = Inr (d, v)"
    "save_case s d (case_event en 1 1 p d ''risk_case.action_added'' v) = Inr (s', d')"
    using assms by (auto simp: add_action_def bind_result_Inr_iff split: if_splits option.splits)
  have d: "\<exists>a. d = c\<lparr>rc_actions := rc_actions c @ [a], rc_owner_id := Some owner, rc_due_date := Some due,
       rc_updated_at := en_clock en 0\<rparr>"
    using c(5) by (auto simp: add_mitigation_action_def Let_def split: if_splits)
  from amendsI[OF c(1,2,6)] d have "amends p ''write'' s k c d s' d'" by auto
  then show thesis using that c(3,4) d by blast
qed

lemma add_resolution_evidence_ok:
  assumes "add_resolution_evidence H en s p k i = Inr (s', d')"
  obtains c d n ids where "amends p ''review'' s k c d s' d'" "i \<in> set (rc_evidence_ids c)"
    "rc_snapshot_id c \<noteq> None" "get_snapshot s (rc_organization_id c) (the (rc_snapshot_id c)) = Inr n"
    "verified_evidence_ids H n (domain_value (rc_domain c)) = Inr ids" "i \<in> set ids"
    "d = c\<lparr>rc_resolution_evidence := (if i \<in> set (rc_resolution_evidence c) then rc_resolution_evidence c
       else rc_resolution_evidence c @ [i]), rc_updated_at := en_clock en 0\<rparr>"
proof -
  obtain c where c: "get_case s (pr_organization_id p) k = Inr c" "authorize p ''review'' (rc_organization_id c) = Inr ()"
    using assms by (auto simp: add_resolution_evidence_def bind_result_Inr_iff)
  then obtain t where t: "rc_snapshot_id c = Some t" "t \<noteq> []"
    using assms by (auto simp: add_resolution_evidence_def split: option.splits if_splits)
  then obtain n where n: "get_snapshot s (rc_organization_id c) t = Inr n"
    using assms c by (auto simp: add_resolution_evidence_def bind_result_Inr_iff)
  have i: "i \<in> set (rc_evidence_ids c)"
    using assms c t n by (auto simp: add_resolution_evidence_def bind_result_Inr_iff split: if_splits)
  then obtain ids where ids: "verified_evidence_ids H n (domain_value (rc_domain c)) = Inr ids" "i \<in> set ids"
    using assms c t n by (auto simp: add_resolution_evidence_def bind_result_Inr_iff split: if_splits)
  define d where "d = c\<lparr>rc_resolution_evidence := (if i \<in> set (rc_resolution_evidence c) then rc_resolution_evidence c
       else rc_resolution_evidence c @ [i]), rc_updated_at := en_clock en 0\<rparr>"
  have "save_case s d (case_event en 0 1 p d ''risk_case.resolution_evidence_added''
      (VDict [(''evidence_id'', VStr i)])) = Inr (s', d')"
    using assms c t n i ids
    by (simp add: add_resolution_evidence_def record_resolution_evidence_def d_def split: if_splits)
  then have "amends p ''review'' s k c d s' d'"
    using c by (auto simp: amends_def authorize_iff d_def intro!: exI)
  then show thesis using that i t n ids d_def by simp
qed

lemma reopen_ok:
  assumes "reopen en s p k reason = Inr (s', d')"
  obtains c d where "amends p ''review'' s k c d s' d'" "rc_status c = RESOLVED \<or> rc_status c = ACCEPTED"
    "nonblank reason" "\<exists>a. d = c\<lparr>rc_status := OPEN, rc_monitoring_state := ''reopened'',
       rc_comments := rc_comments c @ [a], rc_updated_at := en_clock en 0\<rparr>"
proof -
  obtain c d v where c: "get_case s (pr_organization_id p) k = Inr c" "authorize p ''review'' (rc_organization_id c) = Inr ()"
    "reopen_case (en_clock en 0) c (pr_user_id p) reason = Inr (d, v)"
    "save_case s d (case_event en 0 1 p d ''risk_case.reopened'' v) = Inr (s', d')"
    using assms by (auto simp: reopen_def bind_result_Inr_iff)
  then have d: "\<exists>a. d = c\<lparr>rc_status := OPEN, rc_monitoring_state := ''reopened'',
       rc_comments := rc_comments c @ [a], rc_updated_at := en_clock en 0\<rparr>"
    "rc_status c = RESOLVED \<or> rc_status c = ACCEPTED" "nonblank reason"
    by (auto simp: reopen_case_def Let_def split: if_splits)
  from amendsI[OF c(1,2,4)] d(1) have "amends p ''review'' s k c d s' d'" by auto
  then show thesis using that d by blast
qed

lemma override_ok:
  assumes "override en s p k original overriding reason = Inr (s', d')"
  obtains c d where "amends p ''review'' s k c d s' d'" "nonblank reason" "original \<noteq> overriding"
    "recorded_decision c = VStr original"
    "\<exists>a. d = c\<lparr>rc_comments := rc_comments c @ [a], rc_updated_at := en_clock en 0\<rparr>"
proof -
  obtain c where c1: "get_case s (pr_organization_id p) k = Inr c" "authorize p ''review'' (rc_organization_id c) = Inr ()"
    using assms by (auto simp: override_def bind_result_Inr_iff)
  then obtain o1 o2 where o: "parse_decision original = Some o1" "parse_decision overriding = Some o2"
    using assms by (auto simp: override_def split: option.splits)
  have o': "o1 \<noteq> o2" "recorded_decision c = VStr (decision_value o1)"
    using assms c1 o by (auto simp: override_def Let_def split: if_splits)
  obtain d v where dv: "record_override (en_clock en 0) c (pr_user_id p) original overriding reason = Inr (d, v)"
    "save_case s d (case_event en 0 1 p d ''risk_case.overridden'' v) = Inr (s', d')"
    using assms c1 o by (auto simp: override_def Let_def bind_result_Inr_iff split: if_splits)
  note c = c1 o o' dv
  have d: "\<exists>a. d = c\<lparr>rc_comments := rc_comments c @ [a], rc_updated_at := en_clock en 0\<rparr>" "nonblank reason"
    using dv(1) by (auto simp: record_override_def Let_def split: if_splits)
  have "recorded_decision c = VStr original" "original \<noteq> overriding"
    using c(3-6) parse_decision_iff by auto
  moreover from amendsI[OF c(1,2,8)] d(1) have "amends p ''review'' s k c d s' d'" by auto
  ultimately show thesis using that d by blast
qed


section \<open>Runs of the service\<close>

text \<open>One accepted request of a principal. \<open>create_case\<close> itself stores whatever case it is given; here a
  case enters with a fresh identifier, in state \<open>detected\<close> and without resolution evidence, as
  its only caller builds it (the endpoint in \<open>enterprise/api.py\<close>, line 165).\<close>

inductive service_step :: "digest \<Rightarrow> assurance_policy option \<Rightarrow> principal \<Rightarrow> repository \<Rightarrow> repository \<Rightarrow> bool"
  for H policy p where
  Entity: "create_entity en s p name sector parent = Inr (s', x) \<Longrightarrow> service_step H policy p s s'"
| Policy: "create_policy en s p name thresholds version = Inr (s', y) \<Longrightarrow> service_step H policy p s s'"
| Case: "create_case en s p c = Inr (s', c') \<Longrightarrow> rc_status c = DETECTED \<Longrightarrow> rc_resolution_evidence c = [] \<Longrightarrow>
    \<not> has_key (st_cases s) (rc_id c) \<Longrightarrow> service_step H policy p s s'"
| Transition: "transition en s p k target = Inr (s', c') \<Longrightarrow> service_step H policy p s s'"
| Action: "add_action en s p k description owner due = Inr (s', c') \<Longrightarrow> service_step H policy p s s'"
| Resolution: "add_resolution_evidence H en s p k i = Inr (s', c') \<Longrightarrow> service_step H policy p s s'"
| Reopen: "reopen en s p k reason = Inr (s', c') \<Longrightarrow> service_step H policy p s s'"
| Override: "override en s p k original overriding reason = Inr (s', c') \<Longrightarrow> service_step H policy p s s'"
| RiskSnapshot: "service_save_risk_snapshot en s p r = Inr (s', r') \<Longrightarrow> service_step H policy p s s'"
| Bundle: "service_save_bundle H policy s p b = Inr (s', b') \<Longrightarrow> service_step H policy p s s'"
| Snapshot: "save_analysis_snapshot en s p n = Inr (s', n') \<Longrightarrow> service_step H policy p s s'"
| Execution: "record_analysis_execution en s p v = Inr (s', e) \<Longrightarrow> service_step H policy p s s'"

inductive_cases service_stepE: "service_step H policy p s s'"

text \<open>Any principal's request, or the creation of an organization.\<close>

definition system_step :: "digest \<Rightarrow> assurance_policy option \<Rightarrow> repository \<Rightarrow> repository \<Rightarrow> bool" where
  "system_step H policy s s' = ((\<exists>p. service_step H policy p s s') \<or>
     (\<exists>en name actor x. create_organization en s name actor = Inr (s', x)))"

lemma system_stepI: "service_step H policy p s s' \<Longrightarrow> system_step H policy s s'"
  by (auto simp: system_step_def)

text \<open>The snapshot a case refers to, and the changes of a case that the service allows.\<close>

definition case_snapshot :: "repository \<Rightarrow> risk_case \<Rightarrow> analysis_snapshot option" where
  "case_snapshot s c = (case rc_snapshot_id c of None \<Rightarrow> None
     | Some k \<Rightarrow> (case get_snapshot s (rc_organization_id c) k of Inr n \<Rightarrow> Some n | Inl _ \<Rightarrow> None))"

definition proven :: "repository \<Rightarrow> risk_case \<Rightarrow> bool" where
  "proven s c = (\<exists>n ps. case_snapshot s c = Some n \<and>
     verified_domain_paths n (domain_value (rc_domain c)) = Inr ps \<and> ps \<noteq> [])"

definition evidenced :: "digest \<Rightarrow> repository \<Rightarrow> risk_case \<Rightarrow> string \<Rightarrow> bool" where
  "evidenced H s c i = (i \<in> set (rc_evidence_ids c) \<and> (\<exists>n ids. case_snapshot s c = Some n \<and>
     verified_evidence_ids H n (domain_value (rc_domain c)) = Inr ids \<and> i \<in> set ids))"

definition status_step :: "case_status \<Rightarrow> case_status \<Rightarrow> bool" where
  "status_step a b = (b \<in> set (transitions a) \<or> a = ACCEPTED \<and> b = OPEN)"

definition decisive_status :: "case_status \<Rightarrow> bool" where
  "decisive_status a = (a = ACCEPTED \<or> a = RESOLVED)"

definition case_change :: "digest \<Rightarrow> repository \<Rightarrow> risk_case \<Rightarrow> risk_case \<Rightarrow> bool" where
  "case_change H s c d =
     (rc_entity_id d = rc_entity_id c \<and> rc_domain d = rc_domain c \<and> rc_snapshot_id d = rc_snapshot_id c \<and>
      rc_evidence_ids d = rc_evidence_ids c \<and> rc_decision_trace d = rc_decision_trace c \<and>
      (rc_status d = rc_status c \<or> status_step (rc_status c) (rc_status d)) \<and>
      (rc_status d \<noteq> rc_status c \<and> decisive_status (rc_status d) \<longrightarrow> proven s c) \<and>
      (rc_status d \<noteq> rc_status c \<and> rc_status d = RESOLVED \<longrightarrow> rc_resolution_evidence c \<noteq> []) \<and>
      (\<exists>is. rc_resolution_evidence d = rc_resolution_evidence c @ is \<and> (\<forall>i\<in>set is. evidenced H s c i)) \<and>
      (\<exists>es. rc_comments d = rc_comments c @ es) \<and> (\<exists>as. rc_actions d = rc_actions c @ as))"

lemma check_proof_proven: "check_proof s c = Inr () \<longleftrightarrow> proven s c \<and> rc_snapshot_id c \<noteq> Some []"
  by (auto simp: check_proof_def proven_def case_snapshot_def bind_result_Inr_iff split: option.splits sum.splits if_splits)

lemma transition_change:
  "target \<in> set (transitions (rc_status c)) \<Longrightarrow> (target = ACCEPTED \<or> target = RESOLVED \<Longrightarrow> check_proof s c = Inr ()) \<Longrightarrow>
   (target = RESOLVED \<Longrightarrow> rc_resolution_evidence c \<noteq> []) \<Longrightarrow>
   case_change H s c (c\<lparr>rc_status := target, rc_updated_at := t\<rparr>)"
  by (auto simp: case_change_def status_step_def decisive_status_def check_proof_proven)

text \<open>The ways in which a step changes the repository.\<close>

definition other_save :: "principal \<Rightarrow> repository \<Rightarrow> repository \<Rightarrow> bool" where
  "other_save p s s' = (\<exists>x e y. save s x (Some e) = Inr (s', y) \<and> item_organization_id x = pr_organization_id p \<and>
     ae_actor_id e = pr_user_id p \<and> (\<forall>c. x \<noteq> ICase c))"

lemma other_saveI:
  "save s x (Some e) = Inr (s', y) \<Longrightarrow> item_organization_id x = pr_organization_id p \<Longrightarrow>
     ae_actor_id e = pr_user_id p \<Longrightarrow> (\<And>c. x \<noteq> ICase c) \<Longrightarrow> other_save p s s'"
  by (auto simp: other_save_def)

lemma service_step_shapes:
  assumes "service_step H policy p s s'"
  obtains (item) "other_save p s s'"
  | (created) c e c' where "save_case s c e = Inr (s', c')" "rc_organization_id c = pr_organization_id p"
      "rc_status c = DETECTED" "rc_resolution_evidence c = []" "\<not> has_key (st_cases s) (rc_id c)"
      "ae_actor_id e = pr_user_id p"
  | (amended) permission k c d d' where "amends p permission s k c d s' d'" "case_change H s c d"
  | (risk) r e r' where "save_risk_snapshot s (pr_organization_id p) r (Some e) = Inr (s', r')" "ae_actor_id e = pr_user_id p"
  | (bundled) b b' where "save_decision_bundle H s b = Inr (s', b')" "db_organization_id b = pr_organization_id p"
      "service_save_bundle H policy s p b = Inr (s', b')"
  | (executed) e where "append_event s e = Inr s'" "ae_organization_id e = pr_organization_id p"
      "ae_actor_id e = pr_user_id p"
  using assms
proof (cases rule: service_step.cases)
  case (Entity en name sector parent x)
  then have "other_save p s s'"
    by (auto simp: create_entity_def bind_result_Inr_iff Let_def make_event_def intro!: other_saveI)
  then show thesis by (rule item)
next
  case (Policy en name thresholds version y)
  then have "other_save p s s'"
    by (auto simp: create_policy_def bind_result_Inr_iff Let_def make_event_def intro!: other_saveI)
  then show thesis by (rule item)
next
  case (Case en c c')
  then show thesis
    by (intro created[of c _ c']) (auto simp: create_case_def bind_result_Inr_iff authorize_iff make_event_def)
next
  case (Transition en k target c')
  from transition_ok[OF Transition(1)] show thesis by (metis amended transition_change)
next
  case (Action en k description owner due c')
  show thesis
  proof (rule add_action_ok[OF Action(1)])
    fix c d assume a: "amends p ''write'' s k c d s' c'"
      "\<exists>a. d = c\<lparr>rc_actions := rc_actions c @ [a], rc_owner_id := Some owner, rc_due_date := Some due,
         rc_updated_at := en_clock en 0\<rparr>"
    then have "case_change H s c d" by (auto simp: case_change_def)
    with a(1) show thesis by (rule amended)
  qed
next
  case (Resolution en k i c')
  show thesis
  proof (rule add_resolution_evidence_ok[OF Resolution(1)])
    fix c d n ids assume a: "amends p ''review'' s k c d s' c'" "i \<in> set (rc_evidence_ids c)"
      "rc_snapshot_id c \<noteq> None" "get_snapshot s (rc_organization_id c) (the (rc_snapshot_id c)) = Inr n"
      "verified_evidence_ids H n (domain_value (rc_domain c)) = Inr ids" "i \<in> set ids"
      "d = c\<lparr>rc_resolution_evidence := (if i \<in> set (rc_resolution_evidence c) then rc_resolution_evidence c
         else rc_resolution_evidence c @ [i]), rc_updated_at := en_clock en 0\<rparr>"
    then have "evidenced H s c i" by (auto simp: evidenced_def case_snapshot_def)
    then have "case_change H s c d" using a(7) by (auto simp: case_change_def)
    with a(1) show thesis by (rule amended)
  qed
next
  case (Reopen en k reason c')
  show thesis
  proof (rule reopen_ok[OF Reopen(1)])
    fix c d assume a: "amends p ''review'' s k c d s' c'" "rc_status c = RESOLVED \<or> rc_status c = ACCEPTED"
      "\<exists>a. d = c\<lparr>rc_status := OPEN, rc_monitoring_state := ''reopened'',
         rc_comments := rc_comments c @ [a], rc_updated_at := en_clock en 0\<rparr>"
    then have "case_change H s c d"
      by (auto simp: case_change_def status_step_def decisive_status_def transitions_def)
    with a(1) show thesis by (rule amended)
  qed
next
  case (Override en k original overriding reason c')
  show thesis
  proof (rule override_ok[OF Override(1)])
    fix c d assume a: "amends p ''review'' s k c d s' c'"
      "\<exists>a. d = c\<lparr>rc_comments := rc_comments c @ [a], rc_updated_at := en_clock en 0\<rparr>"
    then have "case_change H s c d" by (auto simp: case_change_def)
    with a(1) show thesis by (rule amended)
  qed
next
  case (RiskSnapshot en r r')
  then show thesis
    by (auto simp: service_save_risk_snapshot_def bind_result_Inr_iff make_event_def intro: risk)
next
  case (Bundle b b')
  then show thesis
    by (auto simp: service_save_bundle_def bind_result_Inr_iff authorize_iff intro: bundled split: if_splits)
next
  case (Snapshot en n n')
  then have "other_save p s s'"
    by (auto simp: save_analysis_snapshot_def bind_result_Inr_iff Let_def make_event_def authorize_iff intro!: other_saveI)
  then show thesis by (rule item)
next
  case (Execution en v e)
  then show thesis
    by (auto simp: record_analysis_execution_def bind_result_Inr_iff Let_def make_event_def intro: executed split: if_splits)
qed


section \<open>The invariant of the proof gate\<close>

lemma service_step_repo: "service_step H policy p s s' \<Longrightarrow> repo_step H s s'"
  by (erule service_step_shapes)
    (auto simp: other_save_def amends_def dest: save_case_save intro: repo_step.intros)

lemma system_step_repo: "system_step H policy s s' \<Longrightarrow> repo_step H s s'"
  by (auto simp: system_step_def create_organization_def bind_result_Inr_iff Let_def
      intro: service_step_repo repo_step.Save)

lemma system_run_repo: "(system_step H policy)\<^sup>*\<^sup>* s s' \<Longrightarrow> (repo_step H)\<^sup>*\<^sup>* s s'"
  by (induction rule: rtranclp_induct) (auto intro: rtranclp.rtrancl_into_rtrancl dest: system_step_repo)

lemma other_save_cases: "(\<And>c. x \<noteq> ICase c) \<Longrightarrow> save s x event = Inr (s', y) \<Longrightarrow> st_cases s' = st_cases s"
  using save_cases[of s x event s' y] by (cases x) (auto simp: saved_form_def)

lemma amends_stored:
  assumes "repo_inv s" and "amends p permission s k c d s' d'"
  shows "map_of (st_cases s) k = Some c" "rc_organization_id c = pr_organization_id p" "rc_id c = k"
    "st_cases s' = AList.update k (d\<lparr>rc_version := Suc (rc_version c)\<rparr>) (st_cases s)"
    "d' = d\<lparr>rc_version := Suc (rc_version c)\<rparr>"
proof -
  obtain e where a: "get_case s (pr_organization_id p) k = Inr c" "save_case s d e = Inr (s', d')"
    "rc_organization_id d = rc_organization_id c" "rc_id d = rc_id c"
    using assms(2) by (auto simp: amends_def)
  have id: "rc_organization_id c = pr_organization_id p" "rc_id c = k"
    using mem.read_own[OF assms(1) a(1)] by auto
  have ver: "d' = d\<lparr>rc_version := Suc (rc_version c)\<rparr>"
    using mem.write_version[OF assms(1) a(2)] a(1,3,4) id by simp
  show "map_of (st_cases s) k = Some c" using a(1) by (simp add: get_case_def own_iff)
  show "rc_organization_id c = pr_organization_id p" "rc_id c = k" by (rule id)+
  show "d' = d\<lparr>rc_version := Suc (rc_version c)\<rparr>" by (rule ver)
  show "st_cases s' = AList.update k (d\<lparr>rc_version := Suc (rc_version c)\<rparr>) (st_cases s)"
    using save_case_cases(1)[OF a(2)] ver id a(4) by simp
qed

definition gate_ok :: "digest \<Rightarrow> repository \<Rightarrow> risk_case \<Rightarrow> bool" where
  "gate_ok H s c = ((decisive_status (rc_status c) \<longrightarrow> proven s c) \<and>
     (rc_status c = RESOLVED \<longrightarrow> rc_resolution_evidence c \<noteq> []) \<and>
     (\<forall>i\<in>set (rc_resolution_evidence c). evidenced H s c i))"

lemma case_snapshot_mono: "extends s s' \<Longrightarrow> case_snapshot s c = Some n \<Longrightarrow> case_snapshot s' c = Some n"
  by (auto simp: case_snapshot_def get_snapshot_def own_def extends_def map_le_def dom_def
      split: option.splits sum.splits if_splits)

lemma proven_mono: "extends s s' \<Longrightarrow> proven s c \<Longrightarrow> proven s' c"
  using case_snapshot_mono by (fastforce simp: proven_def)

lemma evidenced_mono: "extends s s' \<Longrightarrow> evidenced H s c i \<Longrightarrow> evidenced H s' c i"
  using case_snapshot_mono by (fastforce simp: evidenced_def)

lemma gate_ok_mono: "extends s s' \<Longrightarrow> gate_ok H s c \<Longrightarrow> gate_ok H s' c"
  using proven_mono evidenced_mono by (fastforce simp: gate_ok_def)

lemma case_snapshot_cong:
  "rc_snapshot_id d = rc_snapshot_id c \<Longrightarrow> rc_organization_id d = rc_organization_id c \<Longrightarrow>
     case_snapshot s d = case_snapshot s c"
  by (simp add: case_snapshot_def split: option.split)

lemma gate_ok_change:
  assumes "gate_ok H s c" and "case_change H s c d" and "rc_organization_id d = rc_organization_id c"
  shows "gate_ok H s d"
proof -
  note ch = assms(2)[unfolded case_change_def]
  have same: "proven s d = proven s c" "\<And>i. evidenced H s d i = evidenced H s c i"
    using ch assms(3) case_snapshot_cong[of d c s] by (simp_all add: proven_def evidenced_def)
  have "rc_status c = RESOLVED \<Longrightarrow> rc_resolution_evidence c \<noteq> []" using assms(1) by (simp add: gate_ok_def)
  then have "rc_status d = RESOLVED \<longrightarrow> rc_resolution_evidence d \<noteq> []" using ch by (metis append_is_Nil_conv)
  moreover have "decisive_status (rc_status d) \<longrightarrow> proven s c"
    using ch assms(1) by (metis gate_ok_def)
  moreover have "\<forall>i\<in>set (rc_resolution_evidence d). evidenced H s c i"
    using ch assms(1) by (auto simp: gate_ok_def)
  ultimately show ?thesis by (simp add: gate_ok_def same)
qed

lemma gate_ok_version: "gate_ok H s (c\<lparr>rc_version := n\<rparr>) = gate_ok H s c"
  using case_snapshot_cong[of "c\<lparr>rc_version := n\<rparr>" c s] by (simp add: gate_ok_def proven_def evidenced_def)

definition gate_inv :: "digest \<Rightarrow> repository \<Rightarrow> bool" where
  "gate_inv H s = (repo_inv s \<and> (\<forall>k c. map_of (st_cases s) k = Some c \<longrightarrow> gate_ok H s c))"

lemma cases_unchanged:
  "extends s s' \<Longrightarrow> repo_inv s' \<Longrightarrow> st_cases s' = st_cases s \<Longrightarrow> gate_inv H s \<Longrightarrow> gate_inv H s'"
  by (auto simp: gate_inv_def intro: gate_ok_mono)

lemma service_step_gate:
  assumes step: "service_step H policy p s s'" and inv: "gate_inv H s"
  shows "gate_inv H s'"
proof -
  have r: "repo_inv s" "repo_inv s'" "extends s s'"
    using inv repo_step_inv[OF service_step_repo[OF step]] repo_step_extends[OF service_step_repo[OF step]]
    by (auto simp: gate_inv_def)
  note same = cases_unchanged[OF r(3,2) _ inv]
  from step show ?thesis
  proof (cases rule: service_step_shapes)
    case item
    then have "st_cases s' = st_cases s" using other_save_cases by (metis other_save_def)
    then show ?thesis by (rule same)
  next
    case (created c e c')
    note f = save_case_cases[OF created(1)]
    have "gate_ok H s' c" using created(3,4) by (simp add: gate_ok_def decisive_status_def)
    moreover have "st_cases s' = AList.update (rc_id c) c (st_cases s)" using f(1,2) created(5) by simp
    ultimately show ?thesis using inv r gate_ok_mono by (auto simp: gate_inv_def split: if_splits)
  next
    case (amended permission k c d d')
    note a = amends_stored[OF r(1) amended(1)]
    have "gate_ok H s c" using inv a(1) by (simp add: gate_inv_def)
    moreover have "rc_organization_id d = rc_organization_id c" using amended(1) by (simp add: amends_def)
    ultimately have "gate_ok H s d" using gate_ok_change amended(2) by blast
    then have "gate_ok H s' (d\<lparr>rc_version := Suc (rc_version c)\<rparr>)" using gate_ok_mono[OF r(3)] gate_ok_version by blast
    then show ?thesis using inv r gate_ok_mono by (auto simp: gate_inv_def a(4) split: if_splits)
  next
    case (risk u e r')
    show ?thesis by (rule same) (simp add: save_risk_snapshot_cases(1)[OF risk(1)])
  next
    case (bundled b b')
    show ?thesis by (rule same) (simp add: save_decision_bundle_cases(1)[OF bundled(1)])
  next
    case (executed e)
    then show ?thesis by (intro same) (auto simp: append_event_def split: if_splits)
  qed
qed

lemma system_step_gate: "system_step H policy s s' \<Longrightarrow> gate_inv H s \<Longrightarrow> gate_inv H s'"
proof -
  assume step: "system_step H policy s s'" and inv: "gate_inv H s"
  have "gate_inv H s'" if org: "create_organization en s name actor = Inr (s', x)" for en name actor x
  proof -
    obtain i e y where sv: "save s (IOrganization i) (Some e) = Inr (s', y)"
      using org by (auto simp: create_organization_def bind_result_Inr_iff Let_def)
    then have "repo_step H s s'" by (rule repo_step.Save)
    then show ?thesis
      using inv other_save_cases[OF _ sv] repo_step_inv repo_step_extends
      by (intro cases_unchanged[OF _ _ _ inv]) (auto simp: gate_inv_def)
  qed
  then show ?thesis using step inv service_step_gate by (auto simp: system_step_def)
qed

lemma gate_inv_empty: "gate_inv H empty_repository"
  by (simp add: gate_inv_def) (simp add: empty_repository_def)

text \<open>A run that ends with a resolved case.\<close>

definition sample_env :: "string \<Rightarrow> env" where
  "sample_env a = \<lparr>en_uuid = (\<lambda>i. a @ str_int (int i)), en_clock = (\<lambda>_. ''now''), en_today = 0\<rparr>"

definition sample_output :: pyval where
  "sample_output = VDict [(''agent'', VDict [(''decision_trace'', VDict [(''final_decision'', VStr ''FLAG''),
     (''paths'', VList [VDict [(''reason_code'', VStr ''R1''), (''risk_domain'', VStr ''liquidity''),
       (''evidence_path_status'', VStr ''VERIFIED''),
       (''source_evidence'', VList [VDict [(''document'', VStr ''10-K''), (''page'', VInt 3)]])]])])])]"

definition sample_principal :: principal where
  "sample_principal = \<lparr>pr_user_id = ''u'', pr_organization_id = ''org_a0'', pr_role = ADMIN\<rparr>"

definition sample_analysis :: analysis_snapshot where
  "sample_analysis = create_snapshot (\<lambda>_. ''aa'') ''c0'' ''now'' ''org_a0'' ''ent_b0'' (VDict []) sample_output (VDict []) (VDict [])"

definition sample_open_case :: risk_case where
  "sample_open_case = sample_case\<lparr>rc_organization_id := ''org_a0'', rc_entity_id := ''ent_b0'',
     rc_snapshot_id := Some ''snapshot_c0'', rc_evidence_ids := [''ev_aa'']\<rparr>"

definition sample_run :: "repository result" where
  "sample_run =
     bind_result (create_organization (sample_env ''a'') empty_repository ''Acme'' ''u'') (\<lambda>(s1, _).
     bind_result (create_entity (sample_env ''b'') s1 sample_principal ''Widgets'' ''retail'' None) (\<lambda>(s2, _).
     bind_result (save_analysis_snapshot (sample_env ''c'') s2 sample_principal sample_analysis) (\<lambda>(s3, _).
     bind_result (create_case (sample_env ''d'') s3 sample_principal sample_open_case) (\<lambda>(s4, _).
     bind_result (transition (sample_env ''e'') s4 sample_principal ''case1'' OPEN) (\<lambda>(s5, _).
     bind_result (transition (sample_env ''f'') s5 sample_principal ''case1'' UNDER_REVIEW) (\<lambda>(s6, _).
     bind_result (add_resolution_evidence (\<lambda>_. ''aa'') (sample_env ''g'') s6 sample_principal ''case1'' ''ev_aa'') (\<lambda>(s7, _).
     bind_result (transition (sample_env ''h'') s7 sample_principal ''case1'' RESOLVED) (\<lambda>(s8, _). Inr s8))))))))"

lemma sample_run_resolved:
  "case sample_run of Inl _ \<Rightarrow> False | Inr s \<Rightarrow> (case map_of (st_cases s) ''case1'' of None \<Rightarrow> False
     | Some c \<Rightarrow> rc_status c = RESOLVED \<and> rc_resolution_evidence c = [''ev_aa''])"
  by code_simp

lemma sample_run_fresh:
  "bind_result (create_organization (sample_env ''a'') empty_repository ''Acme'' ''u'') (\<lambda>(s1, _).
     bind_result (create_entity (sample_env ''b'') s1 sample_principal ''Widgets'' ''retail'' None) (\<lambda>(s2, _).
     bind_result (save_analysis_snapshot (sample_env ''c'') s2 sample_principal sample_analysis) (\<lambda>(s3, _).
       Inr (st_cases s3)))) = Inr []"
  by code_simp

lemma sample_run_reachable:
  assumes "sample_run = Inr s"
  shows "(system_step (\<lambda>_. ''aa'') policy)\<^sup>*\<^sup>* empty_repository s"
proof -
  let ?H = "(\<lambda>_. ''aa'') :: digest" and ?p = sample_principal
  obtain s1 s2 s3 s4 s5 s6 s7 o1 e2 n3 c4 c5 c6 c7 c8 where
    a: "create_organization (sample_env ''a'') empty_repository ''Acme'' ''u'' = Inr (s1, o1)" and
    b: "create_entity (sample_env ''b'') s1 ?p ''Widgets'' ''retail'' None = Inr (s2, e2)" and
    c: "save_analysis_snapshot (sample_env ''c'') s2 ?p sample_analysis = Inr (s3, n3)" and
    d: "create_case (sample_env ''d'') s3 ?p sample_open_case = Inr (s4, c4)" and
    e: "transition (sample_env ''e'') s4 ?p ''case1'' OPEN = Inr (s5, c5)" and
    f: "transition (sample_env ''f'') s5 ?p ''case1'' UNDER_REVIEW = Inr (s6, c6)" and
    g: "add_resolution_evidence ?H (sample_env ''g'') s6 ?p ''case1'' ''ev_aa'' = Inr (s7, c7)" and
    h: "transition (sample_env ''h'') s7 ?p ''case1'' RESOLVED = Inr (s, c8)"
    using assms by (auto simp: sample_run_def bind_result_Inr_iff)
  have "st_cases s3 = []" using sample_run_fresh a b c by simp
  then have "service_step ?H policy ?p s3 s4"
    by (intro service_step.Case[OF d]) (simp_all add: sample_open_case_def sample_case_def has_key_def)
  note steps = this[THEN system_stepI] service_step.Entity[OF b, THEN system_stepI]
    service_step.Snapshot[OF c, THEN system_stepI] service_step.Transition[OF e, THEN system_stepI]
    service_step.Transition[OF f, THEN system_stepI] service_step.Resolution[OF g, THEN system_stepI]
    service_step.Transition[OF h, THEN system_stepI]
  have "system_step ?H policy empty_repository s1" using a by (auto simp: system_step_def)
  then show ?thesis using steps by (meson rtranclp.rtrancl_into_rtrancl rtranclp.rtrancl_refl)
qed

text \<open>C5: the proof gate holds in every reachable state. However requests of principals are
  interleaved, a case that is accepted or resolved has a server-side snapshot of its own
  tenant with at least one verified evidence path of its risk domain, a resolved case cites
  resolution evidence, and all resolution evidence of any case belongs to the case and is
  verified in its snapshot.\<close>

theorem decisive_cases_proven:
  assumes "(system_step H policy)\<^sup>*\<^sup>* empty_repository s" and "map_of (st_cases s) k = Some c"
  shows "(rc_status c = ACCEPTED \<or> rc_status c = RESOLVED \<longrightarrow>
      (\<exists>n ps. case_snapshot s c = Some n \<and> sn_organization_id n = rc_organization_id c \<and>
         verified_domain_paths n (domain_value (rc_domain c)) = Inr ps \<and> ps \<noteq> [] \<and>
         (\<forall>path\<in>set ps. verified_material_path path))) \<and>
    (rc_status c = RESOLVED \<longrightarrow> rc_resolution_evidence c \<noteq> []) \<and>
    (\<forall>i\<in>set (rc_resolution_evidence c). evidenced H s c i)"
proof -
  have "gate_inv H s" using assms(1)
    by (induction rule: rtranclp_induct) (auto intro: gate_inv_empty system_step_gate)
  then have ok: "gate_ok H s c" using assms(2) by (simp add: gate_inv_def)
  have org: "sn_organization_id n = rc_organization_id c" if "case_snapshot s c = Some n" for n
    using that by (auto simp: case_snapshot_def get_snapshot_def own_iff split: option.splits sum.splits)
  have ver: "\<forall>path\<in>set ps. verified_material_path path" if "verified_domain_paths n x = Inr ps" for n x ps
    using that filter_result_Inr by (fastforce simp: verified_domain_paths_def bind_result_Inr_iff verified_in_domain_True)
  show ?thesis using ok org ver by (auto simp: gate_ok_def decisive_status_def proven_def; blast)
qed

lemma decisive_cases_proven_witness:
  "\<exists>s c n ps. map_of (st_cases s) ''case1'' = Some c \<and> rc_status c = RESOLVED \<and> case_snapshot s c = Some n \<and>
     verified_domain_paths n (domain_value (rc_domain c)) = Inr ps \<and> ps \<noteq> []"
proof -
  obtain s c where s: "sample_run = Inr s" "map_of (st_cases s) ''case1'' = Some c" "rc_status c = RESOLVED"
    using sample_run_resolved by (auto split: sum.splits option.splits)
  from decisive_cases_proven[OF sample_run_reachable[OF s(1)] s(2)] s(2,3) show ?thesis by blast
qed


section \<open>Histories of a case, and who may write them\<close>

lemma system_run_gate: "(system_step H policy)\<^sup>*\<^sup>* empty_repository s \<Longrightarrow> gate_inv H s"
  by (induction rule: rtranclp_induct) (auto intro: gate_inv_empty system_step_gate)

lemma case_change_version: "case_change H s c (d\<lparr>rc_version := n\<rparr>) = case_change H s c d"
  by (simp add: case_change_def)

lemma system_step_case:
  assumes inv: "repo_inv s" and step: "system_step H policy s s'" and c: "map_of (st_cases s) k = Some c"
  shows "\<exists>d. map_of (st_cases s') k = Some d \<and> (d = c \<or>
    case_change H s c d \<and> rc_version d = Suc (rc_version c) \<and> rc_organization_id d = rc_organization_id c)"
proof -
  have same: ?thesis if "st_cases s' = st_cases s" using that c by simp
  show ?thesis
  proof (cases "\<exists>p. service_step H policy p s s'")
    case False
    then obtain en name actor x where "create_organization en s name actor = Inr (s', x)"
      using step by (auto simp: system_step_def)
    then obtain i e y where "save s (IOrganization i) (Some e) = Inr (s', y)"
      by (auto simp: create_organization_def bind_result_Inr_iff Let_def)
    then show ?thesis using same other_save_cases[of "IOrganization i"] by blast
  next
    case True
    then obtain p where "service_step H policy p s s'" by blast
    then show ?thesis
    proof (cases rule: service_step_shapes)
      case item
      then show ?thesis using same other_save_cases by (metis other_save_def)
    next
      case (created c0 e c')
      then have "rc_id c0 \<noteq> k" using c by (auto simp: has_key_def)
      then show ?thesis using save_case_cases(1,2)[OF created(1)] created(5) c by simp
    next
      case (amended permission j c0 d d')
      note a = amends_stored[OF inv amended(1)]
      show ?thesis
      proof (cases "j = k")
        case True
        then have "c0 = c" using a(1) c by simp
        moreover have "case_change H s c (d\<lparr>rc_version := Suc (rc_version c)\<rparr>)"
          using amended(2) \<open>c0 = c\<close> case_change_version by metis
        moreover have "rc_organization_id d = rc_organization_id c0" using amended(1) by (simp add: amends_def)
        ultimately show ?thesis using a(4) True by simp
      next
        case False
        then show ?thesis using a(4) c by simp
      qed
    next
      case (risk u e r')
      show ?thesis by (rule same) (simp add: save_risk_snapshot_cases(1)[OF risk(1)])
    next
      case (bundled b b')
      show ?thesis by (rule same) (simp add: save_decision_bundle_cases(1)[OF bundled(1)])
    next
      case (executed e)
      then show ?thesis by (intro same) (auto simp: append_event_def split: if_splits)
    qed
  qed
qed

lemma case_change_keeps:
  assumes "case_change H s c d"
  shows "rc_domain d = rc_domain c \<and> rc_snapshot_id d = rc_snapshot_id c \<and> rc_evidence_ids d = rc_evidence_ids c \<and>
    (rc_status c = CLOSED \<longrightarrow> rc_status d = CLOSED)"
proof -
  have "rc_status d = rc_status c \<or> status_step (rc_status c) (rc_status d)"
    using assms by (simp only: case_change_def simp_thms)
  then have "rc_status c = CLOSED \<longrightarrow> rc_status d = CLOSED" by (auto simp: status_step_def transitions_def)
  then show ?thesis using assms by (simp only: case_change_def simp_thms)
qed

text \<open>C16: the life of a case is lawful. From any reachable state on, a case is never lost; each
  change of it increments its version by one and moves its status only along the transition
  table (or reopens an accepted case), keeps its entity, domain, snapshot, evidence and
  decision trace, and only appends to its resolution evidence, comments and actions; a closed
  case stays closed in every later state.\<close>

theorem case_history_lawful:
  assumes "(system_step H policy)\<^sup>*\<^sup>* empty_repository s" and "map_of (st_cases s) k = Some c"
  shows "(\<forall>s'. system_step H policy s s' \<longrightarrow> (\<exists>d. map_of (st_cases s') k = Some d \<and>
      (d = c \<or> case_change H s c d \<and> rc_version d = Suc (rc_version c)))) \<and>
    (\<forall>s'. (system_step H policy)\<^sup>*\<^sup>* s s' \<longrightarrow> (\<exists>d. map_of (st_cases s') k = Some d \<and>
      rc_version c \<le> rc_version d \<and> rc_domain d = rc_domain c \<and> rc_snapshot_id d = rc_snapshot_id c \<and>
      rc_evidence_ids d = rc_evidence_ids c \<and> (rc_status c = CLOSED \<longrightarrow> rc_status d = CLOSED)))"
proof (intro conjI allI impI)
  fix s' assume "system_step H policy s s'"
  then show "\<exists>d. map_of (st_cases s') k = Some d \<and> (d = c \<or> case_change H s c d \<and> rc_version d = Suc (rc_version c))"
    using system_step_case[OF _ _ assms(2)] system_run_gate[OF assms(1)] by (fastforce simp: gate_inv_def)
next
  fix s' assume "(system_step H policy)\<^sup>*\<^sup>* s s'"
  then show "\<exists>d. map_of (st_cases s') k = Some d \<and>
      rc_version c \<le> rc_version d \<and> rc_domain d = rc_domain c \<and> rc_snapshot_id d = rc_snapshot_id c \<and>
      rc_evidence_ids d = rc_evidence_ids c \<and> (rc_status c = CLOSED \<longrightarrow> rc_status d = CLOSED)"
  proof (induction rule: rtranclp_induct)
    case base
    then show ?case using assms(2) by simp
  next
    case (step t u)
    then obtain d where d: "map_of (st_cases t) k = Some d" "rc_version c \<le> rc_version d" "rc_domain d = rc_domain c"
      "rc_snapshot_id d = rc_snapshot_id c" "rc_evidence_ids d = rc_evidence_ids c"
      "rc_status c = CLOSED \<longrightarrow> rc_status d = CLOSED" by blast
    have "repo_inv t" using system_run_gate[OF rtranclp_trans[OF assms(1) step(1)]] by (simp add: gate_inv_def)
    from system_step_case[OF this step(2) d(1)] obtain e where "map_of (st_cases u) k = Some e"
      "e = d \<or> case_change H t d e \<and> rc_version e = Suc (rc_version d)" by blast
    moreover have "rc_version d \<le> rc_version e \<and> rc_domain e = rc_domain d \<and> rc_snapshot_id e = rc_snapshot_id d \<and>
        rc_evidence_ids e = rc_evidence_ids d \<and> (rc_status d = CLOSED \<longrightarrow> rc_status e = CLOSED)"
      using calculation(2) case_change_keeps[of H t d e] by (elim disjE) simp_all
    ultimately show ?case using d by (metis le_trans)
  qed
qed

lemma case_history_lawful_witness:
  "\<exists>s c. map_of (st_cases s) ''case1'' = Some c \<and> rc_status c = RESOLVED \<and>
     (\<forall>s'. (system_step (\<lambda>_. ''aa'') None)\<^sup>*\<^sup>* s s' \<longrightarrow> has_key (st_cases s') ''case1'')"
proof -
  obtain s c where s: "sample_run = Inr s" "map_of (st_cases s) ''case1'' = Some c" "rc_status c = RESOLVED"
    using sample_run_resolved by (auto split: sum.splits option.splits)
  from case_history_lawful[OF sample_run_reachable[OF s(1)] s(2), of None]
  have "\<forall>s'. (system_step (\<lambda>_. ''aa'') None)\<^sup>*\<^sup>* s s' \<longrightarrow> has_key (st_cases s') ''case1''"
    by (fastforce simp: has_key_def)
  then show ?thesis using s(2,3) by blast
qed


lemma service_step_role:
  assumes "service_step H policy p s s'"
  shows "pr_role p \<noteq> VIEWER"
proof
  assume v: "pr_role p = VIEWER"
  have no: "authorize p permission org \<noteq> Inr ()" if "permission \<noteq> ''read''" for permission org
    using that v by (simp add: authorize_iff permissions_def)
  have no': "\<not> amends p permission s k c d s' d'" if "permission \<noteq> ''read''" for permission k c d d'
    using that v by (simp add: amends_def permissions_def)
  from assms show False
  proof (cases rule: service_step.cases)
    case Transition
    then show ?thesis using no' by (auto elim: transition_ok)
  next
    case Action
    then show ?thesis using no' by (auto elim: add_action_ok)
  next
    case Resolution
    then show ?thesis using no' by (auto elim: add_resolution_evidence_ok)
  next
    case Reopen
    then show ?thesis using no' by (auto elim: reopen_ok)
  next
    case Override
    then show ?thesis using no' by (auto elim: override_ok)
  qed (auto simp: create_entity_def create_policy_def create_case_def service_save_risk_snapshot_def
      service_save_bundle_def save_analysis_snapshot_def record_analysis_execution_def bind_result_Inr_iff no)
qed

lemma save_logged: "save s x (Some e) = Inr (s', y) \<Longrightarrow>
    st_events s' = st_events s @ [e] \<and> ae_organization_id e = item_organization_id x"
  using save_cases[of s x "Some e" s' y] by (simp add: check_event_iff)

lemma stored_bundle_unread:
  assumes "save_decision_bundle H s b = Inr (s', b')" "org \<noteq> db_organization_id b"
  shows "get_decision_bundle H s' org e k = get_decision_bundle H s org e k"
proof (cases "k = db_bundle_id b")
  case True
  note c = save_decision_bundle_cases[OF assms(1)]
  have "map_of (st_bundles s) k = None" using c(4) True by (auto simp: has_key_def split: option.splits)
  then show ?thesis using c(1) True assms(2) by (simp add: get_decision_bundle_def update_conv')
next
  case False
  then show ?thesis using save_decision_bundle_cases(1)[OF assms(1)] by (simp add: get_decision_bundle_def update_conv')
qed

text \<open>C17: requests are confined and accountable. A request that changes the repository was made by
  a principal whose role may do more than read, and it leaves everything another tenant can read
  unchanged: its cases, entities, policies, snapshots, audit events, risk snapshots and decision bundles.
  Either it appends exactly one audit event, in the principal's tenant and under the principal's name, and
  leaves the stored bundles alone, or it is the saving of a decision bundle, which appends no audit event
  and changes nothing but that it stores one new bundle of the tenant that passes the verification.\<close>

theorem requests_confined:
  assumes step: "service_step H policy p s s'"
  shows "pr_role p \<noteq> VIEWER \<and>
    (\<forall>org. org \<noteq> pr_organization_id p \<longrightarrow> view s' org = view s org \<and>
       (\<forall>e. list_risk_snapshots s' org e = list_risk_snapshots s org e) \<and>
       (\<forall>e k. get_decision_bundle H s' org e k = get_decision_bundle H s org e k)) \<and>
    ((\<exists>e. st_events s' = st_events s @ [e] \<and> ae_actor_id e = pr_user_id p \<and>
        ae_organization_id e = pr_organization_id p) \<and> st_bundles s' = st_bundles s \<or>
     (\<exists>b. service_save_bundle H policy s p b = Inr (s', b) \<and> st_events s' = st_events s \<and>
        s' = s\<lparr>st_bundles := AList.update (db_bundle_id b) b (st_bundles s)\<rparr> \<and>
        \<not> has_key (st_bundles s) (db_bundle_id b) \<and> db_organization_id b = pr_organization_id p \<and> verify_decision_bundle H b None))"
proof -
  define logged where "logged = ((\<exists>e. st_events s' = st_events s @ [e] \<and> ae_actor_id e = pr_user_id p \<and>
      ae_organization_id e = pr_organization_id p) \<and> st_bundles s' = st_bundles s)"
  define quiet where "quiet = (\<forall>org. org \<noteq> pr_organization_id p \<longrightarrow> view s' org = view s org \<and>
      (\<forall>e. list_risk_snapshots s' org e = list_risk_snapshots s org e) \<and>
      (\<forall>e k. get_decision_bundle H s' org e k = get_decision_bundle H s org e k))"
  define stored where "stored = (\<exists>b. service_save_bundle H policy s p b = Inr (s', b) \<and> st_events s' = st_events s \<and>
      s' = s\<lparr>st_bundles := AList.update (db_bundle_id b) b (st_bundles s)\<rparr> \<and>
      \<not> has_key (st_bundles s) (db_bundle_id b) \<and> db_organization_id b = pr_organization_id p \<and> verify_decision_bundle H b None)"
  have by_save: "logged \<and> quiet" if "save s x (Some e) = Inr (s', y)" "item_organization_id x = pr_organization_id p"
    "ae_actor_id e = pr_user_id p" for x e y
  proof -
    have "st_risk_snapshots s' = st_risk_snapshots s" "st_bundles s' = st_bundles s" using save_cases(1)[OF that(1)] by simp_all
    then show ?thesis
      using save_view[OF that(1)] save_logged[OF that(1)] that(2,3)
      by (auto simp: logged_def quiet_def list_risk_snapshots_def get_decision_bundle_def)
  qed
  from step have "quiet \<and> (logged \<or> stored)"
  proof (cases rule: service_step_shapes)
    case item
    then show ?thesis using by_save by (auto simp: other_save_def)
  next
    case (created c e c')
    then show ?thesis using by_save[OF save_case_save[OF created(1)]] by simp
  next
    case (amended permission k c d d')
    then obtain e where e: "save_case s d e = Inr (s', d')" "ae_actor_id e = pr_user_id p"
      "rc_organization_id d = pr_organization_id p"
      by (auto simp: amends_def get_case_def own_iff)
    then show ?thesis using by_save[OF save_case_save[OF e(1)]] by simp
  next
    case (risk r e r')
    note c = save_risk_snapshot_cases[OF risk(1)]
    have "st_bundles s' = st_bundles s" using c(1) by simp
    moreover from this have "logged" using c(1,3) risk(2) by (auto simp: logged_def check_event_iff)
    ultimately show ?thesis using save_risk_snapshot_view[OF risk(1)] by (auto simp: quiet_def get_decision_bundle_def)
  next
    case (bundled b b')
    note c = save_decision_bundle_cases[OF bundled(1)]
    have "stored" using c bundled(2,3) by (auto simp: stored_def)
    moreover have "get_decision_bundle H s' org e k = get_decision_bundle H s org e k" if "org \<noteq> pr_organization_id p" for org e k
      using stored_bundle_unread[OF bundled(1)] that bundled(2) by simp
    ultimately show ?thesis using c(1) by (simp add: quiet_def view_def readers list_risk_snapshots_def)
  next
    case (executed e)
    have l: "s' = log_event (Some e) s" using executed(1) by (simp add: append_event_def split: if_splits)
    then have "logged" using executed(2,3) by (auto simp: logged_def)
    moreover have "quiet"
      using append_event_view[OF executed(1)] executed(2) l by (auto simp: quiet_def list_risk_snapshots_def get_decision_bundle_def)
    ultimately show ?thesis by simp
  qed
  then show ?thesis using service_step_role[OF step] unfolding logged_def quiet_def stored_def by blast
qed

lemma requests_confined_witness:
  "\<exists>s s'. service_step (\<lambda>_. ''aa'') None sample_principal s s' \<and> view s' ''other'' = view s ''other''"
proof -
  obtain s1 x s2 y where "create_entity (sample_env ''b'') s1 sample_principal ''Widgets'' ''retail'' None = Inr (s2, y)"
    using sample_run_fresh by (auto simp: bind_result_Inr_iff)
  then have step: "service_step (\<lambda>_. ''aa'') None sample_principal s1 s2" by (rule service_step.Entity)
  have "''other'' \<noteq> pr_organization_id sample_principal" by (simp add: sample_principal_def)
  with requests_confined[OF step] step show ?thesis by blast
qed

end
