(* ===== verification/RateLimits.thy ===== *)
theory RateLimits
  imports Store
begin

text \<open>
  Rate limiting (\<open>enterprise/security.py\<close>): the in-process \<open>SlidingWindowRateLimiter\<close> and the
  shared \<open>PostgresRateLimiter\<close>. Both keep the contract of the protocol \<open>RateLimiter\<close>, the locale
  \<open>rate_limiter\<close>: whatever is admitted stays on record for its whole window, and a request is
  admitted only below the limit.
\<close>

section \<open>The in-process limiter\<close>

record window_limiter =
  wl_limit :: int
  wl_window_seconds :: int
  wl_max_keys :: int
  wl_events :: "(string, pyfloat list) dict"

definition evict_if_needed :: "window_limiter \<Rightarrow> string \<Rightarrow> window_limiter result" where
  "evict_if_needed s key =
     (if has_key (wl_events s) key \<or> int (length (wl_events s)) < wl_max_keys s then Inr s
      else if wl_events s = [] then Inl (KeyError ''dictionary is empty'')
      else Inr (s\<lparr>wl_events := tl (wl_events s)\<rparr>))"

text \<open>The entry of the key moves to the end of the ordered dictionary.\<close>

definition move_to_end :: "string \<Rightarrow> pyfloat list \<Rightarrow> (string, pyfloat list) dict \<Rightarrow> (string, pyfloat list) dict" where
  "move_to_end key q d = filter (\<lambda>(k, _). k \<noteq> key) d @ [(key, q)]"

definition expired :: "window_limiter \<Rightarrow> pyfloat \<Rightarrow> pyfloat \<Rightarrow> bool" where
  "expired s now t = fle t (fsub now (fint (wl_window_seconds s)))"

definition window_allow :: "window_limiter \<Rightarrow> string \<Rightarrow> pyfloat \<Rightarrow> (window_limiter \<times> bool) result" where
  "window_allow s key now = bind_result (evict_if_needed s key) (\<lambda>s1.
     let events = dropWhile (expired s now) (dict_get (wl_events s1) key []);
         admitted = (int (length events) < wl_limit s);
         events' = (if admitted then events @ [now] else events)
     in Inr (s1\<lparr>wl_events := move_to_end key events' (wl_events s1)\<rparr>, admitted))"

section \<open>The shared limiter\<close>

text \<open>One row per admitted event; times are database time stamps in microseconds. The
  configuration holds the window and the retention as intervals of that unit. The table has only
  the scope \<open>api\<close>.\<close>

record row_limiter =
  rl_limit :: int
  rl_window :: int
  rl_retention :: int
  rl_window_seconds :: int
  rl_max_rows :: int
  rl_sweep_batch_size :: nat
  rl_sweep_batches :: nat
  rl_last_sweep :: pyfloat
  rl_rows :: "(string \<times> int) list"

definition sweep_due :: "row_limiter \<Rightarrow> pyfloat \<Rightarrow> row_limiter \<times> bool" where
  "sweep_due s current =
     (if flt (fsub current (rl_last_sweep s)) (fint (rl_window_seconds s)) then (s, False)
      else (s\<lparr>rl_last_sweep := current\<rparr>, True))"

text \<open>\<open>DELETE ... LIMIT n\<close>: the rows that are deleted are the first ones in table order; the second
  component is \<open>cursor.rowcount\<close>.\<close>

fun delete_expired :: "int \<Rightarrow> nat \<Rightarrow> (string \<times> int) list \<Rightarrow> (string \<times> int) list \<times> nat" where
  "delete_expired cutoff n [] = ([], 0)"
| "delete_expired cutoff n (r # rows) =
     (if n = 0 then (r # rows, 0)
      else if snd r < cutoff then (let (rs, c) = delete_expired cutoff (n - 1) rows in (rs, Suc c))
      else (let (rs, c) = delete_expired cutoff n rows in (r # rs, c)))"

fun sweep :: "nat \<Rightarrow> nat \<Rightarrow> int \<Rightarrow> (string \<times> int) list \<Rightarrow> (string \<times> int) list" where
  "sweep 0 batch cutoff rows = rows"
| "sweep (Suc batches) batch cutoff rows =
     (let (rows', deleted) = delete_expired cutoff batch rows
      in if deleted < batch then rows' else sweep batches batch cutoff rows')"

definition prune_key :: "string \<Rightarrow> int \<Rightarrow> (string \<times> int) list \<Rightarrow> (string \<times> int) list" where
  "prune_key key cutoff rows = filter (\<lambda>(k, t). \<not> (k = key \<and> t < cutoff)) rows"

definition unavailable :: py_error where
  "unavailable = RuntimeError ''RateLimiterUnavailable''"

text \<open>\<open>allow\<close>: \<open>now\<close> is the transaction time of the database, \<open>ticks\<close> the monotonic clock of the process and
  \<open>locked\<close> whether the sweep lock was obtained. When the limiter raises, the transaction is rolled
  back and only the time of the last sweep is kept.\<close>

definition row_allow :: "row_limiter \<Rightarrow> string \<Rightarrow> int \<Rightarrow> pyfloat \<Rightarrow> bool \<Rightarrow> row_limiter \<times> bool result" where
  "row_allow s key now ticks locked =
     (let (s1, due) = sweep_due s ticks;
          rows1 = (if due \<and> locked
            then sweep (rl_sweep_batches s) (rl_sweep_batch_size s) (now - rl_retention s) (rl_rows s)
            else rl_rows s);
          rows2 = prune_key key (now - rl_window s) rows1;
          live_total = (if 0 < rl_max_rows s
            then int (length (filter (\<lambda>(_, t). now - rl_retention s \<le> t) rows2)) else 0);
          live_for_key = int (length (filter (\<lambda>(k, _). k = key) rows2));
          admitted = (live_for_key < rl_limit s)
      in if 0 < rl_max_rows s \<and> rl_max_rows s \<le> live_total then (s1, Inl unavailable)
         else if admitted \<and> live_for_key = 0 \<and> 0 < rl_max_rows s \<and> rl_max_rows s div 2 \<le> live_total
         then (s1, Inl unavailable)
         else (s1\<lparr>rl_rows := (if admitted then rows2 @ [(key, now)] else rows2)\<rparr>, Inr admitted))"

section \<open>The contract of a rate limiter\<close>

text \<open>A sequence of requests, the admitted ones in order, and that the clock never runs backwards.\<close>

fun requests :: "('s \<Rightarrow> 'k \<Rightarrow> 't \<Rightarrow> 's \<times> bool) \<Rightarrow> 's \<Rightarrow> ('k \<times> 't) list \<Rightarrow> 's \<times> ('k \<times> 't) list" where
  "requests allow s [] = (s, [])"
| "requests allow s ((k, t) # rs) = (let (s', b) = allow s k t; (s'', adm) = requests allow s' rs
     in (s'', if b then (k, t) # adm else adm))"

fun chronological :: "('t \<Rightarrow> 't \<Rightarrow> bool) \<Rightarrow> 't \<Rightarrow> ('k \<times> 't) list \<Rightarrow> bool" where
  "chronological le t0 [] = True"
| "chronological le t0 ((k, t) # rs) = (le t0 t \<and> chronological le t rs)"

locale rate_limiter =
  fixes ok :: "'s \<Rightarrow> bool"
    and le :: "'t \<Rightarrow> 't \<Rightarrow> bool"
    and clock :: "'s \<Rightarrow> 't"
    and admissible :: "'k \<Rightarrow> bool"
    and allow :: "'s \<Rightarrow> 'k \<Rightarrow> 't \<Rightarrow> 's \<times> bool"
    and live :: "'s \<Rightarrow> 'k \<Rightarrow> 't \<Rightarrow> nat"
    and inside :: "'t \<Rightarrow> 't \<Rightarrow> bool"
    and limit :: nat
  assumes le_trans: "le x y \<Longrightarrow> le y z \<Longrightarrow> le x z"
    and allow_ok: "ok s \<Longrightarrow> admissible k \<Longrightarrow> le (clock s) t \<Longrightarrow> allow s k t = (s', b) \<Longrightarrow> ok s' \<and> clock s' = t"
    and recorded: "ok s \<Longrightarrow> admissible k \<Longrightarrow> le (clock s) t \<Longrightarrow> allow s k t = (s', b) \<Longrightarrow> le t u \<Longrightarrow>
      live s' j u = live s j u + (if b \<and> j = k \<and> inside t u then 1 else 0)"
    and below_limit: "ok s \<Longrightarrow> admissible k \<Longrightarrow> le (clock s) t \<Longrightarrow> allow s k t = (s', True) \<Longrightarrow> live s k t < limit"
    and fading: "ok s \<Longrightarrow> le (clock s) t \<Longrightarrow> le t u \<Longrightarrow> live s k u \<le> live s k t"
    and clock_refl: "ok s \<Longrightarrow> le (clock s) (clock s)"
begin

lemma requests_recorded:
  "ok s \<Longrightarrow> chronological le (clock s) rs \<Longrightarrow> list_all admissible (map fst rs) \<Longrightarrow> requests allow s rs = (s', adm) \<Longrightarrow>
     (\<And>j. live s j (clock s) \<le> limit) \<Longrightarrow>
     ok s' \<and> le (clock s) (clock s') \<and>
     (\<forall>j u. le (clock s') u \<longrightarrow> live s' j u = live s j u + length (filter (\<lambda>(k, t). k = j \<and> inside t u) adm)) \<and>
     (\<forall>j. live s' j (clock s') \<le> limit)"
proof (induction rs arbitrary: s adm)
  case Nil
  then show ?case using clock_refl by auto
next
  case (Cons r rs)
  obtain k t where r: "r = (k, t)" by (cases r)
  obtain s1 b where a: "allow s k t = (s1, b)" by (cases "allow s k t")
  obtain adm' where l: "requests allow s1 rs = (s', adm')" "adm = (if b then (k, t) # adm' else adm')"
    using Cons.prems(4) by (auto simp: r a split: prod.splits)
  have pre: "admissible k" "le (clock s) t" "chronological le t rs" "list_all admissible (map fst rs)"
    using Cons.prems(2,3) by (simp_all add: r)
  note ok1 = allow_ok[OF Cons.prems(1) pre(1,2) a]
  note rec = recorded[OF Cons.prems(1) pre(1,2) a]
  have tt: "le t t" using clock_refl[of s1] ok1 by simp
  have bound: "live s1 j (clock s1) \<le> limit" for j
  proof -
    have "live s j t \<le> limit" using fading[OF Cons.prems(1) clock_refl[OF Cons.prems(1)] pre(2), of j] Cons.prems(5)[of j]
      by simp
    moreover have "live s k t < limit" if b using below_limit[OF Cons.prems(1) pre(1,2)] a that by simp
    ultimately show ?thesis using rec[OF tt, of j] ok1 by auto
  qed
  have "chronological le (clock s1) rs" using pre(3) ok1 by simp
  from Cons.IH[OF conjunct1[OF ok1] this pre(4) l(1) bound] have IH: "ok s'" "le t (clock s')"
    "\<forall>j u. le (clock s') u \<longrightarrow> live s' j u = live s1 j u + length (filter (\<lambda>(k, t). k = j \<and> inside t u) adm')"
    "\<forall>j. live s' j (clock s') \<le> limit"
    using ok1 by auto
  have "live s' j u = live s j u + length (filter (\<lambda>(k, t). k = j \<and> inside t u) adm)" if "le (clock s') u" for j u
  proof -
    have "le t u" using le_trans[OF IH(2) that] .
    from rec[OF this, of j] IH(3) that l(2) show ?thesis by auto
  qed
  then show ?case using IH(1,4) le_trans[OF pre(2) IH(2)] by blast
qed

text \<open>In no window are more than \<open>limit\<close> requests of one key admitted.\<close>

lemma never_above_limit:
  assumes "ok s" "chronological le (clock s) rs" "list_all admissible (map fst rs)" "requests allow s rs = (s', adm)"
    and "\<And>j u. live s j u = 0" "le (clock s') u"
  shows "length (filter (\<lambda>(k, t). k = j \<and> inside t u) adm) \<le> limit"
proof -
  have r: "ok s'" "live s' j u = length (filter (\<lambda>(k, t). k = j \<and> inside t u) adm)" "live s' j (clock s') \<le> limit"
    using requests_recorded[OF assms(1-4)] assms(5,6) by auto
  then show ?thesis using fading[OF r(1) clock_refl[OF r(1)] assms(6), of j] by simp
qed

end


section \<open>The in-process limiter keeps it while no key is evicted\<close>

definition timed_allow :: "pyfloat \<times> window_limiter \<Rightarrow> string \<Rightarrow> pyfloat \<Rightarrow> (pyfloat \<times> window_limiter) \<times> bool" where
  "timed_allow cs k t = (case window_allow (snd cs) k t of
     Inr (s', b) \<Rightarrow> ((t, s'), b) | Inl e \<Rightarrow> ((t, snd cs), False))"

definition window_inside :: "int \<Rightarrow> pyfloat \<Rightarrow> pyfloat \<Rightarrow> bool" where
  "window_inside w t u = (\<not> fle t (fsub u (fint w)))"

definition window_live :: "int \<Rightarrow> pyfloat \<times> window_limiter \<Rightarrow> string \<Rightarrow> pyfloat \<Rightarrow> nat" where
  "window_live w cs k u = length (filter (\<lambda>t. window_inside w t u) (dict_get (wl_events (snd cs)) k []))"

definition window_ok :: "int \<Rightarrow> nat \<Rightarrow> string set \<Rightarrow> pyfloat \<times> window_limiter \<Rightarrow> bool" where
  "window_ok w n K cs = (let s = snd cs in fst cs \<noteq> NaN \<and> wl_window_seconds s = w \<and> wl_limit s = int n \<and>
     wf_dict (wl_events s) \<and> fst ` set (wl_events s) \<subseteq> K \<and> finite K \<and> int (card K) \<le> wl_max_keys s)"

lemma no_eviction:
  assumes "window_ok w n K (c, s)" and "k \<in> K"
  shows "evict_if_needed s k = Inr s"
proof (cases "has_key (wl_events s) k")
  case False
  have "length (wl_events s) = card (fst ` set (wl_events s))"
    using assms(1) by (simp add: window_ok_def wf_dict_def Let_def distinct_card flip: set_map)
  also have "\<dots> < card K"
    using assms False by (intro psubset_card_mono) (auto simp: window_ok_def Let_def has_key_iff)
  finally show ?thesis using assms(1) by (simp add: evict_if_needed_def window_ok_def Let_def)
qed (simp add: evict_if_needed_def)

lemma map_of_move_to_end: "map_of (move_to_end k q d) j = (if j = k then Some q else map_of d j)"
proof -
  have "map_of (filter (\<lambda>(i, _). i \<noteq> k) d) j = (if j = k then None else map_of d j)"
    by (induction d) auto
  then show ?thesis by (simp add: move_to_end_def map_add_def split: option.splits)
qed

lemma wf_move_to_end: "wf_dict d \<Longrightarrow> wf_dict (move_to_end k q d)"
  by (auto simp: wf_dict_def move_to_end_def distinct_map_filter case_prod_beta)

lemma keys_move_to_end: "fst ` set (move_to_end k q d) = insert k (fst ` set d)"
  by (auto simp: move_to_end_def image_iff)

lemma fsub_mono: "fle a b \<Longrightarrow> fle (fsub a (fint w)) (fsub b (fint w))"
  by (cases a; cases b) (auto simp: fsub_def fint_def intro: fle_fl)

lemma window_inside_fades: "fle t u \<Longrightarrow> window_inside w x u \<Longrightarrow> window_inside w x t"
  using fsub_mono[of t u w] fle_trans by (auto simp: window_inside_def)

lemma filter_dropWhile_none: "(\<And>x. P x \<Longrightarrow> \<not> Q x) \<Longrightarrow> filter Q (dropWhile P xs) = filter Q xs"
  by (induction xs) auto

lemma window_allow_form:
  assumes "window_ok w n K (c, s)" "k \<in> K" "timed_allow (c, s) k t = (cs', b)"
  defines "q \<equiv> dropWhile (expired s t) (dict_get (wl_events s) k [])"
  shows "b = (length q < n)" "cs' = (t, s\<lparr>wl_events := move_to_end k (if b then q @ [t] else q) (wl_events s)\<rparr>)"
  using assms(3) no_eviction[OF assms(1,2)] assms(1)
  by (auto simp: timed_allow_def window_allow_def Let_def q_def window_ok_def)

interpretation window: rate_limiter "window_ok w n K" fle fst "\<lambda>k. k \<in> K" timed_allow "window_live w" "window_inside w" n
  for w :: int and n :: nat and K :: "string set"
proof unfold_locales
  show "fle x y \<Longrightarrow> fle y z \<Longrightarrow> fle x z" for x y z by (rule fle_trans)
next
  fix cs k t cs' b
  assume ok: "window_ok w n K cs" and k: "k \<in> K" and t: "fle (fst cs) t" and a: "timed_allow cs k t = (cs', b)"
  obtain c s where cs: "cs = (c, s)" by (cases cs)
  note f = window_allow_form[OF ok[unfolded cs] k a[unfolded cs]]
  have "t \<noteq> NaN" using t by (cases t; cases "fst cs") auto
  then show "window_ok w n K cs' \<and> fst cs' = t"
    unfolding f(2) using ok k by (auto simp: cs window_ok_def Let_def wf_move_to_end keys_move_to_end)
next
  fix cs k t cs' b u j
  assume ok: "window_ok w n K cs" and k: "k \<in> K" and t: "fle (fst cs) t" and a: "timed_allow cs k t = (cs', b)"
    and u: "fle t u"
  obtain c s where cs: "cs = (c, s)" by (cases cs)
  note f = window_allow_form[OF ok[unfolded cs] k a[unfolded cs]]
  let ?q = "dict_get (wl_events s) k []"
  have "\<not> window_inside w x u" if "expired s t x" for x
    using that ok window_inside_fades[OF u, of w x] by (auto simp: expired_def window_inside_def cs window_ok_def Let_def)
  then have same: "filter (\<lambda>x. window_inside w x u) (dropWhile (expired s t) ?q) = filter (\<lambda>x. window_inside w x u) ?q"
    by (rule filter_dropWhile_none)
  show "window_live w cs' j u = window_live w cs j u + (if b \<and> j = k \<and> window_inside w t u then 1 else 0)"
  proof (cases "j = k")
    case True
    have "dict_get (wl_events (snd cs')) k [] = (if b then dropWhile (expired s t) ?q @ [t] else dropWhile (expired s t) ?q)"
      unfolding f(2) by (simp add: dict_get_def map_of_move_to_end)
    then show ?thesis using same True by (simp add: window_live_def cs)
  next
    case False
    then show ?thesis unfolding f(2) by (simp add: window_live_def cs dict_get_def map_of_move_to_end)
  qed
next
  fix cs k t cs'
  assume ok: "window_ok w n K cs" and k: "k \<in> K" and t: "fle (fst cs) t" and a: "timed_allow cs k t = (cs', True)"
  obtain c s where cs: "cs = (c, s)" by (cases cs)
  note f = window_allow_form[OF ok[unfolded cs] k a[unfolded cs]]
  let ?q = "dict_get (wl_events s) k []"
  have eq: "filter (\<lambda>x. window_inside w x t) (dropWhile (expired s t) ?q) = filter (\<lambda>x. window_inside w x t) ?q"
    by (rule filter_dropWhile_none) (use ok in \<open>auto simp: expired_def window_inside_def cs window_ok_def Let_def\<close>)
  have "window_live w cs k t = length (filter (\<lambda>x. window_inside w x t) (dropWhile (expired s t) ?q))"
    unfolding eq by (simp add: window_live_def cs)
  also have "\<dots> \<le> length (dropWhile (expired s t) ?q)" by (rule length_filter_le)
  also have "\<dots> < n" by (rule iffD1[OF f(1) TrueI])
  finally show "window_live w cs k t < n" .
next
  fix cs t u k
  assume "fle t u"
  then show "window_live w cs k u \<le> window_live w cs k t"
    unfolding window_live_def by (rule length_filter_mono[OF window_inside_fades])
next
  fix cs assume "window_ok w n K cs"
  then show "fle (fst cs) (fst cs)" by (simp add: fle_refl_iff window_ok_def Let_def)
qed


section \<open>The shared limiter keeps it\<close>

text \<open>The i-th request finds the monotonic clock at \<open>ticks i\<close> and the sweep lock as \<open>locks i\<close>; an
  unavailable limiter admits nothing.\<close>

definition row_request :: "(nat \<Rightarrow> pyfloat) \<Rightarrow> (nat \<Rightarrow> bool) \<Rightarrow> nat \<times> int \<times> row_limiter \<Rightarrow> string \<Rightarrow> int
    \<Rightarrow> (nat \<times> int \<times> row_limiter) \<times> bool" where
  "row_request ticks locks = (\<lambda>(i, c, s) k t. let (s', r) = row_allow s k t (ticks i) (locks i) in
     ((Suc i, t, s'), (case r of Inr b \<Rightarrow> b | Inl _ \<Rightarrow> False)))"

definition row_live :: "int \<Rightarrow> nat \<times> int \<times> row_limiter \<Rightarrow> string \<Rightarrow> int \<Rightarrow> nat" where
  "row_live w = (\<lambda>(i, c, s) k u. length (filter (\<lambda>(j, t). j = k \<and> u - w \<le> t) (rl_rows s)))"

definition row_ok :: "int \<Rightarrow> nat \<Rightarrow> nat \<times> int \<times> row_limiter \<Rightarrow> bool" where
  "row_ok w n = (\<lambda>(i, c, s). rl_window s = w \<and> rl_limit s = int n \<and> w \<le> rl_retention s)"

lemma delete_expired_keeps:
  "(\<And>r. P r \<Longrightarrow> cutoff \<le> snd r) \<Longrightarrow> filter P (fst (delete_expired cutoff n rows)) = filter P rows"
  by (induction cutoff n rows rule: delete_expired.induct) (force split: prod.splits)+

lemma sweep_keeps:
  "(\<And>r. P r \<Longrightarrow> cutoff \<le> snd r) \<Longrightarrow> filter P (sweep batches batch cutoff rows) = filter P rows"
proof (induction batches arbitrary: rows)
  case (Suc b)
  have d: "filter P (fst (delete_expired cutoff batch rows)) = filter P rows"
    by (rule delete_expired_keeps) (use Suc.prems in auto)
  show ?case using Suc d by (auto split: prod.splits)
qed simp

lemma prune_key_keeps:
  "(\<And>r. P r \<Longrightarrow> cutoff \<le> snd r) \<Longrightarrow> filter P (prune_key key cutoff rows) = filter P rows"
  unfolding prune_key_def filter_filter by (rule filter_cong) force+

text \<open>The rows of a request before it is decided: nothing inside a window was deleted.\<close>

definition rows_after_cleaning :: "row_limiter \<Rightarrow> string \<Rightarrow> int \<Rightarrow> pyfloat \<Rightarrow> bool \<Rightarrow> (string \<times> int) list" where
  "rows_after_cleaning s key now ticks locked = prune_key key (now - rl_window s)
     (if snd (sweep_due s ticks) \<and> locked
      then sweep (rl_sweep_batches s) (rl_sweep_batch_size s) (now - rl_retention s) (rl_rows s) else rl_rows s)"

lemma cleaning_keeps:
  assumes "rl_window s \<le> rl_retention s" and "\<And>r. P r \<Longrightarrow> now - rl_window s \<le> snd r"
  shows "filter P (rows_after_cleaning s key now ticks locked) = filter P (rl_rows s)"
proof -
  have "now - rl_retention s \<le> snd r" if "P r" for r using assms(2)[OF that] assms(1) by simp
  then show ?thesis
    unfolding rows_after_cleaning_def
    using prune_key_keeps[of P "now - rl_window s"] sweep_keeps[of P "now - rl_retention s"] assms(2) by simp
qed

lemma row_allow_cases:
  fixes s :: row_limiter
  assumes "row_allow s key now ticks locked = (s', r)"
  defines "rows \<equiv> rows_after_cleaning s key now ticks locked"
  shows "(\<exists>e. r = Inl e \<and> rl_rows s' = rl_rows s) \<or>
    (\<exists>b. r = Inr b \<and> b = (int (length (filter (\<lambda>(k, _). k = key) rows)) < rl_limit s) \<and>
       rl_rows s' = (if b then rows @ [(key, now)] else rows))"
    "rl_window s' = rl_window s \<and> rl_limit s' = rl_limit s \<and> rl_retention s' = rl_retention s"
  using assms(1)
  by (auto simp: row_allow_def rows_def rows_after_cleaning_def sweep_due_def Let_def split: if_splits)

interpretation shared: rate_limiter "row_ok w n" "(\<le>)" "\<lambda>(i, c, s). c" "\<lambda>_. True" "row_request ticks locks"
    "row_live w" "\<lambda>t u. u - w \<le> t" n
  for w :: int and n :: nat and ticks :: "nat \<Rightarrow> pyfloat" and locks :: "nat \<Rightarrow> bool"
proof unfold_locales
  show "x \<le> z" if "x \<le> y" "y \<le> z" for x y z :: int using that by simp
next
  fix st k t st' b
  assume ok: "row_ok w n st" and a: "row_request ticks locks st k t = (st', b)"
  obtain i c s where st: "st = (i, c, s)" by (cases st)
  obtain s' r where r: "row_allow s k t (ticks i) (locks i) = (s', r)" by fastforce
  show "row_ok w n st' \<and> (case st' of (i, c, s) \<Rightarrow> c) = t"
    using ok a row_allow_cases(2)[OF r] r by (auto simp: st row_request_def row_ok_def)
next
  fix st k t st' b u j
  assume ok: "row_ok w n st" and a: "row_request ticks locks st k t = (st', b)" and u: "t \<le> u"
  obtain i c s where st: "st = (i, c, s)" by (cases st)
  obtain s' r where r: "row_allow s k t (ticks i) (locks i) = (s', r)" by fastforce
  let ?P = "\<lambda>(i :: string, x :: int). i = j \<and> u - w \<le> x"
  have "filter ?P (rows_after_cleaning s k t (ticks i) (locks i)) = filter ?P (rl_rows s)"
    by (rule cleaning_keeps) (use ok u in \<open>auto simp: st row_ok_def\<close>)
  then show "row_live w st' j u = row_live w st j u + (if b \<and> j = k \<and> u - w \<le> t then 1 else 0)"
    using a r row_allow_cases(1)[OF r] by (auto simp: st row_request_def row_live_def)
next
  fix st k t st'
  assume ok: "row_ok w n st" and a: "row_request ticks locks st k t = (st', True)"
  obtain i c s where st: "st = (i, c, s)" by (cases st)
  obtain s' r where r: "row_allow s k t (ticks i) (locks i) = (s', r)" by fastforce
  let ?rows = "rows_after_cleaning s k t (ticks i) (locks i)" and ?P = "\<lambda>(i :: string, x :: int). i = k \<and> t - w \<le> x"
  have "r = Inr True" using a r by (auto simp: st row_request_def split: sum.splits)
  then have less: "int (length (filter (\<lambda>(i, _). i = k) ?rows)) < int n"
    using row_allow_cases(1)[OF r] ok by (auto simp: st row_ok_def)
  have "filter ?P ?rows = filter ?P (rl_rows s)"
    by (rule cleaning_keeps) (use ok in \<open>auto simp: st row_ok_def\<close>)
  then have "row_live w st k t = length (filter ?P ?rows)" by (simp add: st row_live_def)
  also have "\<dots> \<le> length (filter (\<lambda>(i, _). i = k) ?rows)" by (rule length_filter_mono) auto
  finally show "row_live w st k t < n" using less by linarith
next
  fix st :: "nat \<times> int \<times> row_limiter" and k and t u :: int
  assume "t \<le> u"
  then show "row_live w st k u \<le> row_live w st k t"
    unfolding row_live_def case_prod_beta by (intro length_filter_mono) auto
next
  fix st :: "nat \<times> int \<times> row_limiter"
  show "(case st of (i, c, s) \<Rightarrow> c) \<le> (case st of (i, c, s) \<Rightarrow> c)" by simp
qed


section \<open>Limits are kept\<close>

text \<open>A fresh in-process limiter never admits more than \<open>limit\<close> requests of one key inside one window,
  whatever the order of the requests of up to \<open>max_keys\<close> clients (beyond that number a key is evicted and
  its quota starts anew).\<close>

theorem window_limit_never_exceeded:
  assumes "wl_events s = []" "wl_limit s = int n" "wl_window_seconds s = w" "int (card (set (map fst rs))) \<le> wl_max_keys s"
    and "t0 \<noteq> NaN" "chronological fle t0 rs" "requests timed_allow (t0, s) rs = ((t1, s'), adm)" "fle t1 u"
  shows "length (filter (\<lambda>(k, t). k = j \<and> window_inside w t u) adm) \<le> n"
proof (rule window.never_above_limit[where K = "set (map fst rs)" and s = "(t0, s)" and s' = "(t1, s')"])
  show "window_ok w n (set (map fst rs)) (t0, s)" using assms(1-5) by (simp add: window_ok_def)
  show "window_live w (t0, s) j u = 0" for j u by (simp add: window_live_def assms(1) dict_get_def)
qed (use assms in \<open>simp_all add: list_all_iff\<close>)

definition sample_window :: window_limiter where
  "sample_window = \<lparr>wl_limit = 2, wl_window_seconds = 60, wl_max_keys = 5, wl_events = []\<rparr>"

definition sample_requests :: "(string \<times> pyfloat) list" where
  "sample_requests = [(''a'', fint 10), (''a'', fint 11), (''b'', fint 12), (''a'', fint 13), (''a'', fint 75)]"

lemma sample_requests_admitted: "requests timed_allow (fint 0, sample_window) sample_requests =
  ((fint 75, sample_window\<lparr>wl_events := [(''b'', [fint 12]), (''a'', [fint 75])]\<rparr>),
   [(''a'', fint 10), (''a'', fint 11), (''b'', fint 12), (''a'', fint 75)])"
  by code_simp

theorem window_limit_never_exceeded_witness:
  "length (filter (\<lambda>(k, t). k = ''a'' \<and> window_inside 60 t (fint 75))
     [(''a'', fint 10), (''a'', fint 11), (''b'', fint 12), (''a'', fint 75)]) \<le> 2"
  by (rule window_limit_never_exceeded[OF _ _ _ _ _ _ sample_requests_admitted]) code_simp+

text \<open>C27: The shared limiter never admits more than \<open>limit\<close> requests of one key inside one window, whatever
  the sweeps, the sweep lock and the capacity limit do: cleaning up deletes no event that still counts.\<close>

theorem shared_limit_never_exceeded:
  assumes "rl_rows s = []" "rl_limit s = int n" "rl_window s = w" "w \<le> rl_retention s"
    and "chronological (\<le>) t0 rs" "requests (row_request ticks locks) (i, t0, s) rs = ((i', t1, s'), adm)" "t1 \<le> u"
  shows "length (filter (\<lambda>(k, t). k = j \<and> u - w \<le> t) adm) \<le> n"
proof (rule shared.never_above_limit[where s = "(i, t0, s)" and s' = "(i', t1, s')"])
  show "row_ok w n (i, t0, s)" using assms(1-4) by (simp add: row_ok_def)
  show "row_live w (i, t0, s) j u = 0" for j u by (simp add: row_live_def assms(1))
qed (use assms in \<open>simp_all add: list_all_iff\<close>)

definition sample_table :: row_limiter where
  "sample_table = \<lparr>rl_limit = 1, rl_window = 60, rl_retention = 120, rl_window_seconds = 60, rl_max_rows = 6,
     rl_sweep_batch_size = 1, rl_sweep_batches = 3, rl_last_sweep = fint 0, rl_rows = []\<rparr>"

text \<open>The third new key is refused because the table is half full, the old client is served again
  after its window.\<close>

lemma sample_table_admitted:
  "requests (row_request (\<lambda>i. fint (30 * int i)) (\<lambda>i. True)) (0, 0, sample_table)
     [(''a'', 10), (''a'', 20), (''b'', 30), (''c'', 40), (''d'', 50), (''a'', 80), (''a'', 81)] =
   ((7, 81, sample_table\<lparr>rl_last_sweep := fint 180,
       rl_rows := [(''b'', 30), (''c'', 40), (''a'', 80)]\<rparr>),
    [(''a'', 10), (''b'', 30), (''c'', 40), (''a'', 80)])"
  by code_simp

theorem shared_limit_never_exceeded_witness:
  "length (filter (\<lambda>(k, t). k = ''a'' \<and> 100 - 60 \<le> t)
     [(''a'', 10), (''b'', 30), (''c'', 40), (''a'', 80 :: int)]) \<le> 1"
  by (rule shared_limit_never_exceeded[OF _ _ _ _ _ sample_table_admitted]) code_simp+

end
