(* ===== verification/Access.thy ===== *)
theory Access
  imports Cases
begin

text \<open>
  API keys (\<open>enterprise/security.py\<close>): the in-memory \<open>CredentialStore\<close> and the durable
  \<open>PostgresCredentialStore\<close>, whose table is a list of rows with the constraints of
  \<open>migrations/003_runtime_integrity.sql\<close>. \<open>H\<close> is the SHA-256 digest, and the tokens of
  \<open>secrets.token_hex\<close> and \<open>secrets.token_urlsafe\<close> are arguments. The locale
  \<open>credential_store\<close> is the protocol \<open>DurableCredentialStore\<close> with the laws both stores keep.
\<close>

section \<open>Keys\<close>

record api_credential =
  cr_id :: string
  cr_organization_id :: string
  cr_key_hash :: string
  cr_prefix :: string
  cr_user_id :: string
  cr_role :: role
  cr_active :: bool

definition issue_api_key :: "digest \<Rightarrow> string \<Rightarrow> string \<Rightarrow> string \<Rightarrow> string \<Rightarrow> role \<Rightarrow> string \<times> api_credential" where
  "issue_api_key H hex token org user r =
     (let prefix = ''frk_'' @ hex; raw = prefix @ ''_'' @ token
      in (raw, \<lparr>cr_id = hex, cr_organization_id = org, cr_key_hash = H raw, cr_prefix = prefix,
                cr_user_id = user, cr_role = r, cr_active = True\<rparr>))"

definition verify_api_key :: "digest \<Rightarrow> string \<Rightarrow> api_credential \<Rightarrow> bool" where
  "verify_api_key H raw c = (cr_active c \<and> H raw = cr_key_hash c)"

text \<open>\<open>s.split(c, n)\<close> and the prefix of a key, \<open>"_".join(raw.split("_", 2)[:2])\<close>.\<close>

fun split_max :: "nat \<Rightarrow> char \<Rightarrow> string \<Rightarrow> string list" where
  "split_max n c [] = [[]]"
| "split_max n c (x # xs) =
     (if n = 0 then [x # xs]
      else if x = c then [] # split_max (n - 1) c xs
      else (case split_max n c xs of [] \<Rightarrow> [[x]] | p # ps \<Rightarrow> (x # p) # ps))"

definition key_prefix :: "string \<Rightarrow> string" where
  "key_prefix raw = join ''_'' (take 2 (split_max 2 (CHR ''_'') raw))"

definition invalid_key :: py_error where
  "invalid_key = PermissionError ''invalid API key''"

definition credential_principal :: "api_credential \<Rightarrow> principal" where
  "credential_principal c = \<lparr>pr_user_id = cr_user_id c, pr_organization_id = cr_organization_id c, pr_role = cr_role c\<rparr>"

lemma split_max_nonempty: "split_max n c xs \<noteq> []"
  by (induction n c xs rule: split_max.induct) (auto split: list.splits)

lemma split_max_zero [simp]: "split_max 0 c xs = [xs]"
  by (cases xs) auto

lemma split_max_word: "c \<notin> set w \<Longrightarrow> 0 < n \<Longrightarrow> split_max n c (w @ c # xs) = w # split_max (n - 1) c xs"
  by (induction w) auto

lemma key_prefix_issued:
  assumes "CHR ''_'' \<notin> set hex"
  shows "key_prefix (''frk_'' @ hex @ ''_'' @ token) = ''frk_'' @ hex"
proof -
  have "split_max 2 (CHR ''_'') (''frk'' @ CHR ''_'' # hex @ CHR ''_'' # token) = [''frk'', hex, token]"
    using split_max_word[of "CHR ''_''" "''frk''" 2] split_max_word[OF assms, of 1] by simp
  then show ?thesis by (simp add: key_prefix_def)
qed

section \<open>The in-memory store\<close>

type_synonym credentials = "(string, api_credential) dict"

definition register :: "credentials \<Rightarrow> api_credential \<Rightarrow> credentials" where
  "register s c = AList.update (cr_prefix c) c s"

definition authenticate :: "digest \<Rightarrow> credentials \<Rightarrow> string \<Rightarrow> principal result" where
  "authenticate H s raw = (case map_of s (key_prefix raw) of
     None \<Rightarrow> Inl invalid_key
   | Some c \<Rightarrow> if \<not> verify_api_key H raw c then Inl invalid_key else Inr (credential_principal c))"

definition rotate :: "digest \<Rightarrow> credentials \<Rightarrow> string \<Rightarrow> string \<Rightarrow> string \<Rightarrow> (credentials \<times> string \<times> api_credential) result" where
  "rotate H s credential_id hex token =
     (case find (\<lambda>c. cr_id c = credential_id) (map snd s) of
        None \<Rightarrow> Inl (KeyError credential_id)
      | Some current \<Rightarrow>
          (let s1 = AList.update (cr_prefix current) (current\<lparr>cr_active := False\<rparr>) s;
               (raw, replacement) = issue_api_key H hex token (cr_organization_id current) (cr_user_id current) (cr_role current)
           in Inr (register s1 replacement, raw, replacement)))"

section \<open>The durable store\<close>

record credential_row =
  ro_id :: string
  ro_prefix :: string
  ro_organization_id :: string
  ro_user_id :: string
  ro_role :: string
  ro_secret_hash :: string
  ro_active :: bool
  ro_revoked_at :: "string option"

definition parse_role :: "string \<Rightarrow> role option" where
  "parse_role s = find (\<lambda>r. role_value r = s) [ADMIN, RISK_MANAGER, ANALYST, REVIEWER, VIEWER]"

text \<open>\<open>_insert\<close>; \<open>id\<close> is the primary key and \<open>credential_prefix\<close> is unique.\<close>

definition insert_row :: "credential_row list \<Rightarrow> api_credential \<Rightarrow> credential_row list result" where
  "insert_row t c =
     (if cr_id c \<in> ro_id ` set t \<or> cr_prefix c \<in> ro_prefix ` set t then Inl (RuntimeError ''UniqueViolation'')
      else Inr (t @ [\<lparr>ro_id = cr_id c, ro_prefix = cr_prefix c, ro_organization_id = cr_organization_id c,
        ro_user_id = cr_user_id c, ro_role = role_value (cr_role c), ro_secret_hash = cr_key_hash c,
        ro_active = cr_active c, ro_revoked_at = None\<rparr>]))"

definition row_credential :: "credential_row \<Rightarrow> role \<Rightarrow> api_credential" where
  "row_credential r x = \<lparr>cr_id = ro_id r, cr_organization_id = ro_organization_id r, cr_key_hash = ro_secret_hash r,
     cr_prefix = ro_prefix r, cr_user_id = ro_user_id r, cr_role = x, cr_active = ro_active r\<rparr>"

definition row_authenticate :: "digest \<Rightarrow> credential_row list \<Rightarrow> string \<Rightarrow> principal result" where
  "row_authenticate H t raw = (case find (\<lambda>r. ro_prefix r = key_prefix raw) t of
     None \<Rightarrow> Inl invalid_key
   | Some row \<Rightarrow> (case parse_role (ro_role row) of
       None \<Rightarrow> Inl invalid_key
     | Some x \<Rightarrow> (let c = row_credential row x
         in if \<not> verify_api_key H raw c then Inl invalid_key else Inr (credential_principal c))))"

text \<open>\<open>UPDATE api_credentials SET active=false, revoked_at=... WHERE id=...\<close>\<close>

definition revoke_rows :: "string \<Rightarrow> string \<Rightarrow> credential_row list \<Rightarrow> credential_row list" where
  "revoke_rows now i t = map (\<lambda>r. if ro_id r = i then r\<lparr>ro_active := False, ro_revoked_at := Some now\<rparr> else r) t"

definition row_rotate :: "digest \<Rightarrow> credential_row list \<Rightarrow> string \<Rightarrow> string \<Rightarrow> string \<Rightarrow> string
    \<Rightarrow> (credential_row list \<times> string \<times> api_credential) result" where
  "row_rotate H t now credential_id hex token =
     (case find (\<lambda>r. ro_id r = credential_id \<and> ro_active r) t of
        None \<Rightarrow> Inl (KeyError credential_id)
      | Some row \<Rightarrow> (case parse_role (ro_role row) of
          None \<Rightarrow> Inl (ValueError (ro_role row @ '' is not a valid Role''))
        | Some x \<Rightarrow>
            (let (raw, replacement) = issue_api_key H hex token (ro_organization_id row) (ro_user_id row) x;
                 t1 = revoke_rows now credential_id t
             in bind_result (insert_row t1 replacement) (\<lambda>t2. Inr (t2, raw, replacement)))))"

section \<open>The contract of a credential store\<close>

text \<open>What a store holds is seen as the credential each prefix names. Rotation revokes the credential
  it is asked for, whatever the replacement is.\<close>

locale credential_store =
  fixes H :: digest
    and ok :: "'s \<Rightarrow> bool"
    and holds :: "'s \<Rightarrow> string \<Rightarrow> api_credential option"
    and login :: "'s \<Rightarrow> string \<Rightarrow> principal result"
    and add :: "'s \<Rightarrow> api_credential \<Rightarrow> 's result"
    and replace :: "'s \<Rightarrow> string \<Rightarrow> string \<Rightarrow> string \<Rightarrow> string \<Rightarrow> ('s \<times> string \<times> api_credential) result"
  assumes login_law: "ok s \<Longrightarrow> login s raw = (case holds s (key_prefix raw) of None \<Rightarrow> Inl invalid_key
      | Some c \<Rightarrow> if verify_api_key H raw c then Inr (credential_principal c) else Inl invalid_key)"
    and add_law: "ok s \<Longrightarrow> add s c = Inr s' \<Longrightarrow> ok s' \<and> holds s' = (holds s)(cr_prefix c \<mapsto> c)"
    and replace_law: "ok s \<Longrightarrow> replace s now i hex token = Inr (s', raw, new) \<Longrightarrow> ok s' \<and> (\<exists>old.
      holds s (cr_prefix old) = Some old \<and> cr_id old = i \<and>
      (raw, new) = issue_api_key H hex token (cr_organization_id old) (cr_user_id old) (cr_role old) \<and>
      holds s' = (holds s)(cr_prefix old \<mapsto> old\<lparr>cr_active := False\<rparr>, cr_prefix new \<mapsto> new))"
begin

lemma login_after_replace:
  assumes "ok s" "replace s now i hex token = Inr (s', raw, new)" "CHR ''_'' \<notin> set hex"
  shows "login s' raw = Inr (credential_principal new)"
proof -
  from replace_law[OF assms(1,2)] obtain old where r: "ok s'"
    "(raw, new) = issue_api_key H hex token (cr_organization_id old) (cr_user_id old) (cr_role old)"
    "holds s' = (holds s)(cr_prefix old \<mapsto> old\<lparr>cr_active := False\<rparr>, cr_prefix new \<mapsto> new)" by blast
  have "raw = ''frk_'' @ hex @ ''_'' @ token" "cr_prefix new = ''frk_'' @ hex" "verify_api_key H raw new"
    using r(2) by (auto simp: issue_api_key_def Let_def verify_api_key_def)
  then show ?thesis using r(1,3) key_prefix_issued[OF assms(3)] by (simp add: login_law)
qed

definition refused :: "string \<Rightarrow> 's \<Rightarrow> bool" where
  "refused p s = (ok s \<and> (\<exists>c. holds s p = Some c \<and> \<not> cr_active c))"

lemma refused_login: "refused p s \<Longrightarrow> key_prefix raw = p \<Longrightarrow> login s raw = Inl invalid_key"
  by (auto simp: refused_def login_law verify_api_key_def)

lemma refused_replace:
  assumes "refused p s" "replace s now i hex token = Inr (s', raw, new)" "''frk_'' @ hex \<noteq> p"
  shows "refused p s'"
proof -
  have ok: "ok s" using assms(1) by (simp add: refused_def)
  from replace_law[OF ok assms(2)] obtain old where r: "ok s'"
    "(raw, new) = issue_api_key H hex token (cr_organization_id old) (cr_user_id old) (cr_role old)"
    "holds s' = (holds s)(cr_prefix old \<mapsto> old\<lparr>cr_active := False\<rparr>, cr_prefix new \<mapsto> new)" by blast
  have "cr_prefix new = ''frk_'' @ hex" using r(2) by (simp add: issue_api_key_def Let_def)
  then show ?thesis using r(1,3) assms(1,3) by (auto simp: refused_def)
qed

lemma refused_add: "refused p s \<Longrightarrow> add s c = Inr s' \<Longrightarrow> cr_prefix c \<noteq> p \<Longrightarrow> refused p s'"
  using add_law by (auto simp: refused_def)

end

text \<open>Requests to a store; one that raises leaves the store as it was.\<close>

datatype credential_request =
    Register api_credential
  | Rotate string string string string

fun new_prefix :: "credential_request \<Rightarrow> string" where
  "new_prefix (Register c) = cr_prefix c"
| "new_prefix (Rotate now i hex token) = ''frk_'' @ hex"

definition request_with :: "('s \<Rightarrow> api_credential \<Rightarrow> 's result)
    \<Rightarrow> ('s \<Rightarrow> string \<Rightarrow> string \<Rightarrow> string \<Rightarrow> string \<Rightarrow> ('s \<times> string \<times> api_credential) result) \<Rightarrow> 's \<Rightarrow> credential_request \<Rightarrow> 's" where
  "request_with add replace s q = (case q of
     Register c \<Rightarrow> (case add s c of Inr s' \<Rightarrow> s' | Inl _ \<Rightarrow> s)
   | Rotate now i hex token \<Rightarrow> (case replace s now i hex token of Inr (s', _, _) \<Rightarrow> s' | Inl _ \<Rightarrow> s))"

context credential_store
begin

lemma refused_request: "refused p s \<Longrightarrow> new_prefix q \<noteq> p \<Longrightarrow> refused p (request_with add replace s q)"
  by (cases q) (auto simp: request_with_def split: sum.splits intro: refused_add refused_replace)

lemma refused_forever:
  "refused p s \<Longrightarrow> p \<notin> new_prefix ` set qs \<Longrightarrow> refused p (foldl (request_with add replace) s qs)"
proof (induction qs arbitrary: s)
  case (Cons q qs)
  have "refused p (request_with add replace s q)" by (rule refused_request) (use Cons.prems in auto)
  then show ?case using Cons by simp
qed simp

lemma replaced_refused:
  assumes "ok s" "replace s now i hex token = Inr (s', raw, new)" "holds s p = Some c" "cr_id c = i" "''frk_'' @ hex \<noteq> p"
    and "\<And>q d. holds s q = Some d \<Longrightarrow> cr_id d = i \<Longrightarrow> q = p"
  shows "refused p s'"
proof -
  from replace_law[OF assms(1,2)] obtain old where r: "ok s'" "holds s (cr_prefix old) = Some old" "cr_id old = i"
    "(raw, new) = issue_api_key H hex token (cr_organization_id old) (cr_user_id old) (cr_role old)"
    "holds s' = (holds s)(cr_prefix old \<mapsto> old\<lparr>cr_active := False\<rparr>, cr_prefix new \<mapsto> new)" by blast
  have "cr_prefix new = ''frk_'' @ hex" "cr_prefix old = p"
    using r(4) assms(6)[OF r(2,3)] by (simp_all add: issue_api_key_def Let_def)
  then show ?thesis using r(1,5) assms(5) by (auto simp: refused_def)
qed

text \<open>After a rotation the old key is refused by every later store, and the new one is the same principal.\<close>

lemma rotation:
  assumes "ok s" "replace s now i hex token = Inr (s', raw, new)" "holds s (key_prefix key) = Some c" "cr_id c = i"
    and "\<And>q d. holds s q = Some d \<Longrightarrow> cr_id d = i \<Longrightarrow> q = key_prefix key"
    and "CHR ''_'' \<notin> set hex" "key_prefix key \<notin> insert (''frk_'' @ hex) (new_prefix ` set qs)"
  shows "login s' raw = Inr (credential_principal c)"
    "login (foldl (request_with add replace) s' qs) key = Inl invalid_key"
proof -
  from replace_law[OF assms(1,2)] obtain old where r: "holds s (cr_prefix old) = Some old" "cr_id old = i"
    "(raw, new) = issue_api_key H hex token (cr_organization_id old) (cr_user_id old) (cr_role old)" by blast
  have "old = c" using r(1) assms(3) assms(5)[OF r(1,2)] by simp
  then have "credential_principal new = credential_principal c"
    using r(3) by (simp add: issue_api_key_def Let_def credential_principal_def)
  then show "login s' raw = Inr (credential_principal c)" using login_after_replace[OF assms(1,2,6)] by simp
  have "refused (key_prefix key) s'"
    by (rule replaced_refused[OF assms(1,2,3,4)]) (use assms(5,7) in auto)
  from refused_forever[OF this] assms(7)
  show "login (foldl (request_with add replace) s' qs) key = Inl invalid_key"
    by (auto intro: refused_login)
qed

end

section \<open>Both stores keep it\<close>

definition credentials_ok :: "credentials \<Rightarrow> bool" where
  "credentials_ok s = (wf_dict s \<and> (\<forall>(p, c)\<in>set s. cr_prefix c = p))"

lemma find_credential: "find P (map snd s) = Some c \<Longrightarrow> \<exists>p. (p, c) \<in> set s \<and> P c"
  by (induction s) (auto split: if_splits)

interpretation memory: credential_store H credentials_ok map_of "authenticate H" "\<lambda>s c. Inr (register s c)"
    "\<lambda>s now. rotate H s"
  for H :: digest
proof unfold_locales
  show "authenticate H s raw = (case map_of s (key_prefix raw) of None \<Rightarrow> Inl invalid_key
      | Some c \<Rightarrow> if verify_api_key H raw c then Inr (credential_principal c) else Inl invalid_key)" for s raw
    by (simp add: authenticate_def split: option.split)
next
  fix s c s'
  assume ok: "credentials_ok s" and s': "Inr (register s c) = (Inr s' :: credentials result)"
  have "s' = AList.update (cr_prefix c) c s" using s' by (simp add: register_def)
  then show "credentials_ok s' \<and> map_of s' = (map_of s)(cr_prefix c \<mapsto> c)"
    using ok set_update_subset[of "cr_prefix c" c s] by (auto simp: credentials_ok_def)
next
  fix s i hex token s' raw new
  assume ok: "credentials_ok s" and r: "rotate H s i hex token = Inr (s', raw, new)"
  from r obtain old where f: "find (\<lambda>c. cr_id c = i) (map snd s) = Some old"
    "(raw, new) = issue_api_key H hex token (cr_organization_id old) (cr_user_id old) (cr_role old)"
    "s' = register (AList.update (cr_prefix old) (old\<lparr>cr_active := False\<rparr>) s) new"
    by (auto simp: rotate_def Let_def split: option.splits prod.splits)
  let ?s1 = "AList.update (cr_prefix old) (old\<lparr>cr_active := False\<rparr>) s"
  have id: "cr_id old = i" "map_of s (cr_prefix old) = Some old"
    using find_credential[OF f(1)] ok by (auto simp: credentials_ok_def map_of_wf_iff)
  have "set ?s1 \<subseteq> insert (cr_prefix old, old\<lparr>cr_active := False\<rparr>) (set s)" by (rule set_update_subset)
  then have ok': "credentials_ok s'"
    using ok set_update_subset[of "cr_prefix new" new ?s1] by (auto simp: credentials_ok_def f(3) register_def)
  have "map_of s' = (map_of s)(cr_prefix old \<mapsto> old\<lparr>cr_active := False\<rparr>, cr_prefix new \<mapsto> new)"
    by (simp add: f(3) register_def)
  then show "credentials_ok s' \<and> (\<exists>old. map_of s (cr_prefix old) = Some old \<and> cr_id old = i \<and>
      (raw, new) = issue_api_key H hex token (cr_organization_id old) (cr_user_id old) (cr_role old) \<and>
      map_of s' = (map_of s)(cr_prefix old \<mapsto> old\<lparr>cr_active := False\<rparr>, cr_prefix new \<mapsto> new))"
    using ok' id f(2) by blast
qed

text \<open>The table: what it holds under a prefix, and its constraints.\<close>

definition credential_of_row :: "credential_row \<Rightarrow> api_credential" where
  "credential_of_row r = row_credential r (the (parse_role (ro_role r)))"

definition rows_hold :: "credential_row list \<Rightarrow> string \<Rightarrow> api_credential option" where
  "rows_hold t = map_of (map (\<lambda>r. (ro_prefix r, credential_of_row r)) t)"

definition rows_ok :: "credential_row list \<Rightarrow> bool" where
  "rows_ok t = (distinct (map ro_id t) \<and> distinct (map ro_prefix t) \<and> (\<forall>r\<in>set t. parse_role (ro_role r) \<noteq> None))"

lemma parse_role_value [simp]: "parse_role (role_value r) = Some r"
  by (cases r) (simp_all add: parse_role_def)

lemma rows_hold_find: "rows_hold t p = map_option credential_of_row (find (\<lambda>r. ro_prefix r = p) t)"
  by (induction t) (auto simp: rows_hold_def)

lemma option_eqI: "(\<And>c. a = Some c \<longleftrightarrow> b = Some c) \<Longrightarrow> a = b"
  by (cases a; cases b) auto

lemma find_row: "find P t = Some r \<Longrightarrow> r \<in> set t \<and> P r"
  by (metis find_Some_iff nth_mem)

lemma rows_hold_iff: "rows_ok t \<Longrightarrow> rows_hold t p = Some c \<longleftrightarrow> (\<exists>r\<in>set t. ro_prefix r = p \<and> c = credential_of_row r)"
  unfolding rows_hold_def by (subst map_of_eq_Some_iff) (auto simp: rows_ok_def comp_def)

lemma credential_of_row_simps [simp]:
  "cr_id (credential_of_row r) = ro_id r" "cr_prefix (credential_of_row r) = ro_prefix r"
  "cr_organization_id (credential_of_row r) = ro_organization_id r" "cr_user_id (credential_of_row r) = ro_user_id r"
  "cr_role (credential_of_row r) = the (parse_role (ro_role r))" "cr_active (credential_of_row r) = ro_active r"
  by (simp_all add: credential_of_row_def row_credential_def)

lemma insert_row_law:
  assumes "rows_ok t" "insert_row t c = Inr t'"
  shows "rows_ok t' \<and> rows_hold t' = (rows_hold t)(cr_prefix c \<mapsto> c)"
proof -
  from assms(2) obtain r where r: "t' = t @ [r]" "cr_id c \<notin> ro_id ` set t" "cr_prefix c \<notin> ro_prefix ` set t"
    "ro_id r = cr_id c" "ro_prefix r = cr_prefix c" "ro_role r = role_value (cr_role c)" "credential_of_row r = c"
    by (auto simp: insert_row_def credential_of_row_def row_credential_def split: if_splits)
  have "rows_ok t'" using assms(1) r by (auto simp: rows_ok_def)
  moreover have "rows_hold t' p = ((rows_hold t)(cr_prefix c \<mapsto> c)) p" for p
  proof (cases "p = cr_prefix c")
    case True
    have "rows_hold t p = None" using r(3) True by (auto simp: rows_hold_def map_of_eq_None_iff)
    then show ?thesis using True r by (simp add: rows_hold_def map_add_def)
  qed (simp add: r rows_hold_def map_add_def split: option.splits)
  ultimately show ?thesis by auto
qed

lemma revoke_row:
  fixes now :: string
  assumes "rows_ok t" "r \<in> set t"
  defines "t1 \<equiv> revoke_rows now (ro_id r) t"
  shows "rows_ok t1" "rows_hold t1 = (rows_hold t)(ro_prefix r \<mapsto> (credential_of_row r)\<lparr>cr_active := False\<rparr>)"
proof -
  have same: "x = r" if "x \<in> set t" "ro_id x = ro_id r" for x
    using assms(1,2) that by (auto simp: rows_ok_def distinct_map dest: inj_onD)
  have same': "x = r" if "x \<in> set t" "ro_prefix x = ro_prefix r" for x
    using assms(1,2) that by (auto simp: rows_ok_def distinct_map dest: inj_onD)
  have "map ro_id t1 = map ro_id t" "map ro_prefix t1 = map ro_prefix t" by (auto simp: t1_def revoke_rows_def)
  moreover have "\<forall>x\<in>set t1. parse_role (ro_role x) \<noteq> None"
    using assms(1) by (auto simp: rows_ok_def t1_def revoke_rows_def)
  ultimately show ok: "rows_ok t1" using assms(1) by (simp add: rows_ok_def)
  have m: "rows_hold t1 p = Some c \<longleftrightarrow> ((rows_hold t)(ro_prefix r \<mapsto> (credential_of_row r)\<lparr>cr_active := False\<rparr>)) p = Some c" for p c
  proof (cases "p = ro_prefix r")
    case True
    have "x \<in> set t1 \<and> ro_prefix x = p \<longleftrightarrow> x = r\<lparr>ro_active := False, ro_revoked_at := Some now\<rparr>" for x
      using assms(2) same'[of x] True by (auto simp: t1_def revoke_rows_def dest: same' split: if_splits intro!: image_eqI[of _ _ r])
    then have "(\<exists>x\<in>set t1. ro_prefix x = p \<and> c = credential_of_row x) \<longleftrightarrow> c = (credential_of_row r)\<lparr>cr_active := False\<rparr>"
      unfolding Bex_def conj_assoc[symmetric] by (simp add: credential_of_row_def row_credential_def)
    then show ?thesis using True by (auto simp: rows_hold_iff[OF ok])
  next
    case False
    have "(\<exists>x\<in>set t1. ro_prefix x = p \<and> c = credential_of_row x) \<longleftrightarrow> (\<exists>x\<in>set t. ro_prefix x = p \<and> c = credential_of_row x)"
      unfolding t1_def revoke_rows_def set_map bex_simps(7)
    proof (rule bex_cong[OF refl])
      fix x assume "x \<in> set t"
      then have "ro_id x = ro_id r \<Longrightarrow> ro_prefix x \<noteq> p" using same False by blast
      then show "(ro_prefix (if ro_id x = ro_id r then x\<lparr>ro_active := False, ro_revoked_at := Some now\<rparr> else x) = p \<and>
          c = credential_of_row (if ro_id x = ro_id r then x\<lparr>ro_active := False, ro_revoked_at := Some now\<rparr> else x)) =
        (ro_prefix x = p \<and> c = credential_of_row x)" by (cases "ro_id x = ro_id r") simp_all
    qed
    then show ?thesis using False by (simp add: rows_hold_iff[OF ok] rows_hold_iff[OF assms(1)])
  qed
  show "rows_hold t1 = (rows_hold t)(ro_prefix r \<mapsto> (credential_of_row r)\<lparr>cr_active := False\<rparr>)"
    by (intro ext option_eqI m)
qed

lemma row_rotate_form:
  assumes "row_rotate H t now i hex token = Inr (t', raw, new)"
  obtains r where "find (\<lambda>x. ro_id x = i \<and> ro_active x) t = Some r"
    "(raw, new) = issue_api_key H hex token (ro_organization_id r) (ro_user_id r) (the (parse_role (ro_role r)))"
    "insert_row (revoke_rows now i t) new = Inr t'"
  using assms by (auto simp: row_rotate_def Let_def bind_result_Inr_iff split: option.splits prod.splits)

interpretation durable: credential_store H rows_ok rows_hold "row_authenticate H" insert_row "row_rotate H"
  for H :: digest
proof unfold_locales
  fix t raw assume ok: "rows_ok t"
  have "parse_role (ro_role r) \<noteq> None" if "find P t = Some r" for P r
    using find_row[OF that] ok by (simp add: rows_ok_def)
  then show "row_authenticate H t raw = (case rows_hold t (key_prefix raw) of None \<Rightarrow> Inl invalid_key
      | Some c \<Rightarrow> if verify_api_key H raw c then Inr (credential_principal c) else Inl invalid_key)"
    by (fastforce simp: row_authenticate_def rows_hold_find credential_of_row_def Let_def split: option.split)
next
  show "rows_ok t \<Longrightarrow> insert_row t c = Inr t' \<Longrightarrow> rows_ok t' \<and> rows_hold t' = (rows_hold t)(cr_prefix c \<mapsto> c)" for t c t'
    by (rule insert_row_law)
next
  fix t now i hex token t' raw new
  assume ok: "rows_ok t" and a: "row_rotate H t now i hex token = Inr (t', raw, new)"
  from a obtain r where f: "find (\<lambda>x. ro_id x = i \<and> ro_active x) t = Some r"
    "(raw, new) = issue_api_key H hex token (ro_organization_id r) (ro_user_id r) (the (parse_role (ro_role r)))"
    "insert_row (revoke_rows now i t) new = Inr t'"
    by (rule row_rotate_form)
  have r: "r \<in> set t" "ro_id r = i" using find_row[OF f(1)] by auto
  note rev = revoke_row[OF ok r(1), of now, unfolded r(2)]
  from insert_row_law[OF rev(1) f(3)] have "rows_ok t' \<and>
      rows_hold t' = (rows_hold t)(ro_prefix r \<mapsto> (credential_of_row r)\<lparr>cr_active := False\<rparr>, cr_prefix new \<mapsto> new)"
    by (simp add: rev(2))
  then show "rows_ok t' \<and> (\<exists>old. rows_hold t (cr_prefix old) = Some old \<and> cr_id old = i \<and>
      (raw, new) = issue_api_key H hex token (cr_organization_id old) (cr_user_id old) (cr_role old) \<and>
      rows_hold t' = (rows_hold t)(cr_prefix old \<mapsto> old\<lparr>cr_active := False\<rparr>, cr_prefix new \<mapsto> new))"
    using f(2) r by (intro conjI exI[of _ "credential_of_row r"]) (auto simp: rows_hold_iff[OF ok])
qed

section \<open>Properties\<close>

text \<open>The simulation relation: a table and an in-memory store that hold the same credentials.\<close>

definition same_credentials :: "credential_row list \<Rightarrow> credentials \<Rightarrow> bool" where
  "same_credentials t s = (rows_ok t \<and> credentials_ok s \<and> map_of s = rows_hold t)"

lemma rows_hold_id:
  assumes "rows_ok t" "rows_hold t p = Some c" "rows_hold t q = Some d" "cr_id c = cr_id d"
  shows "c = d"
proof -
  obtain r x where "r \<in> set t" "x \<in> set t" "c = credential_of_row r" "d = credential_of_row x"
    using assms(1-3) by (auto simp: rows_hold_iff)
  then show ?thesis using assms(1,4) by (auto simp: rows_ok_def distinct_map dest: inj_onD)
qed

lemma rotate_simulated:
  assumes "same_credentials t s" "row_rotate H t now i hex token = Inr (t', raw, new)"
  shows "\<exists>s'. rotate H s i hex token = Inr (s', raw, new) \<and> same_credentials t' s'"
proof -
  have ok: "rows_ok t" "credentials_ok s" "map_of s = rows_hold t" using assms(1) by (simp_all add: same_credentials_def)
  from durable.replace_law[OF ok(1) assms(2)] obtain old where o: "rows_ok t'"
    "rows_hold t (cr_prefix old) = Some old" "cr_id old = i"
    "(raw, new) = issue_api_key H hex token (cr_organization_id old) (cr_user_id old) (cr_role old)"
    "rows_hold t' = (rows_hold t)(cr_prefix old \<mapsto> old\<lparr>cr_active := False\<rparr>, cr_prefix new \<mapsto> new)" by blast
  have "(cr_prefix old, old) \<in> set s" using o(2) ok(3) by (metis map_of_SomeD)
  then have "find (\<lambda>c. cr_id c = i) (map snd s) \<noteq> None" using o(3) by (auto simp: find_None_iff image_iff intro: bexI[of _ "(cr_prefix old, old)"])
  then have "is_ok (rotate H s i hex token)" by (auto simp: rotate_def is_ok_def Let_def split: prod.split)
  then obtain s' raw' new' where m: "rotate H s i hex token = Inr (s', raw', new')" by (auto simp: is_ok_iff)
  from memory.replace_law[OF ok(2) m] obtain old' where o': "credentials_ok s'"
    "map_of s (cr_prefix old') = Some old'" "cr_id old' = i"
    "(raw', new') = issue_api_key H hex token (cr_organization_id old') (cr_user_id old') (cr_role old')"
    "map_of s' = (map_of s)(cr_prefix old' \<mapsto> old'\<lparr>cr_active := False\<rparr>, cr_prefix new' \<mapsto> new')" by blast
  have old: "old' = old" using rows_hold_id[OF ok(1), of "cr_prefix old'" old' "cr_prefix old" old] o o' ok(3) by simp
  have new: "(raw', new') = (raw, new)" unfolding o'(4) o(4) old by (rule refl)
  then show ?thesis using m o(1,5) o'(1,5) ok(3) by (simp add: same_credentials_def old)
qed

text \<open>C23: The durable credential store refines the in-memory one: stores that hold the same credentials
  answer every login alike, and every registration or rotation that the table accepts is one of the
  in-memory store with the same key and leads again to stores that hold the same credentials.\<close>

theorem durable_store_refines_memory:
  assumes "same_credentials t s"
  shows "(\<forall>raw. row_authenticate H t raw = authenticate H s raw) \<and>
    (\<forall>c t'. insert_row t c = Inr t' \<longrightarrow> same_credentials t' (register s c)) \<and>
    (\<forall>now i hex token t' key new. row_rotate H t now i hex token = Inr (t', key, new) \<longrightarrow>
      (\<exists>s'. rotate H s i hex token = Inr (s', key, new) \<and> same_credentials t' s'))"
proof (intro conjI allI impI)
  have ok: "rows_ok t" "credentials_ok s" "map_of s = rows_hold t" using assms by (simp_all add: same_credentials_def)
  show "row_authenticate H t raw = authenticate H s raw" for raw
    unfolding durable.login_law[OF ok(1)] memory.login_law[OF ok(2)] ok(3) by (rule refl)
  show "same_credentials t' (register s c)" if "insert_row t c = Inr t'" for c t'
    using durable.add_law[OF ok(1) that] memory.add_law[OF ok(2), of c "register s c"] ok(3)
    by (simp add: same_credentials_def)
  show "\<exists>s'. rotate H s i hex token = Inr (s', key, new) \<and> same_credentials t' s'"
    if "row_rotate H t now i hex token = Inr (t', key, new)" for now i hex token t' key new
    by (rule rotate_simulated[OF assms that])
qed

definition sample_key :: "string \<times> api_credential" where
  "sample_key = issue_api_key (\<lambda>x. x) ''a1'' ''k_1'' ''org_1'' ''u'' ANALYST"

definition sample_rows :: "credential_row list" where
  "sample_rows = [\<lparr>ro_id = ''a1'', ro_prefix = ''frk_a1'', ro_organization_id = ''org_1'', ro_user_id = ''u'',
     ro_role = ''analyst'', ro_secret_hash = ''frk_a1_k_1'', ro_active = True, ro_revoked_at = None\<rparr>]"

lemma sample_rows_ok: "rows_ok sample_rows" "rows_hold sample_rows ''frk_a1'' = Some (snd sample_key)"
  by code_simp+

lemma sample_same_credentials: "same_credentials sample_rows (register [] (snd sample_key))"
proof -
  have "credentials_ok (register [] (snd sample_key))" by code_simp
  moreover have "map_of (register [] (snd sample_key)) = rows_hold sample_rows"
    by (simp add: fun_eq_iff sample_key_def sample_rows_def register_def rows_hold_def issue_api_key_def
        credential_of_row_def row_credential_def parse_role_def Let_def)
  ultimately show ?thesis using sample_rows_ok(1) by (simp add: same_credentials_def)
qed

theorem durable_store_refines_memory_witness:
  "(\<forall>raw. row_authenticate (\<lambda>x. x) sample_rows raw = authenticate (\<lambda>x. x) (register [] (snd sample_key)) raw) \<and>
   (\<exists>s'. rotate (\<lambda>x. x) (register [] (snd sample_key)) ''a1'' ''b2'' ''k2''
      = Inr (s', issue_api_key (\<lambda>x. x) ''b2'' ''k2'' ''org_1'' ''u'' ANALYST))"
proof -
  have r: "\<exists>t'. row_rotate (\<lambda>x. x) sample_rows ''now'' ''a1'' ''b2'' ''k2''
      = Inr (t', fst (issue_api_key (\<lambda>x. x) ''b2'' ''k2'' ''org_1'' ''u'' ANALYST),
          snd (issue_api_key (\<lambda>x. x) ''b2'' ''k2'' ''org_1'' ''u'' ANALYST))"
    by (simp add: row_rotate_def sample_rows_def parse_role_def issue_api_key_def insert_row_def revoke_rows_def Let_def)
  show ?thesis
    using durable_store_refines_memory[OF sample_same_credentials, of "\<lambda>x. x"] r by (metis prod.collapse)
qed

text \<open>C22: After a credential was rotated in the durable store, its new key logs in as the same principal and
  its old key is refused, also after every later registration or rotation that does not reuse its prefix.
  The hypothesis on the token states that \<open>token_hex\<close> yields hexadecimal digits.\<close>

theorem rotated_key_refused:
  assumes "rows_ok t" "row_authenticate H t key = Inr who" "rows_hold t (key_prefix key) = Some c"
    and "row_rotate H t now (cr_id c) hex token = Inr (t', raw, new)"
    and "CHR ''_'' \<notin> set hex" "key_prefix key \<notin> insert (''frk_'' @ hex) (new_prefix ` set requests)"
  shows "row_authenticate H t' raw = Inr who \<and>
    row_authenticate H (foldl (request_with insert_row (row_rotate H)) t' requests) key = Inl invalid_key"
proof -
  have same: "q = key_prefix key" if "rows_hold t q = Some d" "cr_id d = cr_id c" for q d
    using that assms(1,3) by (auto simp: rows_hold_iff rows_ok_def distinct_map dest: inj_onD)
  note r = durable.rotation[OF assms(1,4,3) refl same assms(5,6)]
  have "who = credential_principal c"
    using assms(2,3) by (simp add: durable.login_law[OF assms(1)] split: if_splits)
  with r show ?thesis by simp
qed

definition rotated_rows :: "credential_row list" where
  "rotated_rows = (case row_rotate (\<lambda>x. x) sample_rows ''now'' ''a1'' ''b2'' ''k2'' of Inr (t, _) \<Rightarrow> t | Inl _ \<Rightarrow> [])"

theorem rotated_key_refused_witness:
  "row_authenticate (\<lambda>x. x) rotated_rows ''frk_b2_k2''
     = Inr \<lparr>pr_user_id = ''u'', pr_organization_id = ''org_1'', pr_role = ANALYST\<rparr> \<and>
   row_authenticate (\<lambda>x. x) (foldl (request_with insert_row (row_rotate (\<lambda>x. x))) rotated_rows
     [Rotate ''later'' ''b2'' ''c3'' ''k3'', Rotate ''later'' ''a1'' ''d4'' ''k4'']) ''frk_a1_k_1'' = Inl invalid_key"
proof -
  have r: "row_rotate (\<lambda>x. x) sample_rows ''now'' (cr_id (snd sample_key)) ''b2'' ''k2''
      = Inr (rotated_rows, fst (issue_api_key (\<lambda>x. x) ''b2'' ''k2'' ''org_1'' ''u'' ANALYST),
          snd (issue_api_key (\<lambda>x. x) ''b2'' ''k2'' ''org_1'' ''u'' ANALYST))" by code_simp
  have a: "row_authenticate (\<lambda>x. x) sample_rows ''frk_a1_k_1''
      = Inr \<lparr>pr_user_id = ''u'', pr_organization_id = ''org_1'', pr_role = ANALYST\<rparr>" by code_simp
  have p: "key_prefix ''frk_a1_k_1'' = ''frk_a1''" by code_simp
  have f: "fst (issue_api_key (\<lambda>x. x) ''b2'' ''k2'' ''org_1'' ''u'' ANALYST) = ''frk_b2_k2''" by code_simp
  note h = rotated_key_refused[OF sample_rows_ok(1) a sample_rows_ok(2)[folded p] r]
  show ?thesis by (rule h[unfolded f]) (simp_all add: p)
qed

text \<open>A divergence of the two stores: in memory a credential that is already revoked can be rotated, which
  issues a valid key; the durable store rejects it.\<close>

theorem revoked_credential_rotates_in_memory:
  assumes "CHR ''_'' \<notin> set hex" "credentials_ok s" "find (\<lambda>c. cr_id c = i) (map snd s) = Some c" "\<not> cr_active c"
  shows "\<exists>s' raw new. rotate H s i hex token = Inr (s', raw, new) \<and> authenticate H s' raw = Inr (credential_principal c)"
proof -
  obtain s' raw new where r: "rotate H s i hex token = Inr (s', raw, new)"
    "(raw, new) = issue_api_key H hex token (cr_organization_id c) (cr_user_id c) (cr_role c)"
    using assms(3) by (cases "issue_api_key H hex token (cr_organization_id c) (cr_user_id c) (cr_role c)")
      (auto simp: rotate_def Let_def)
  have "credential_principal new = credential_principal c"
    using r(2) by (simp add: issue_api_key_def Let_def credential_principal_def)
  then show ?thesis using r(1) memory.login_after_replace[OF assms(2) r(1) assms(1)] by auto
qed

end
