(* ===== verification/Graph.thy ===== *)
theory Graph
  imports Prelude
begin

text \<open>
  The temporal evidence graph (\<open>enterprise/evidence_graph.py\<close>): nodes and typed, reasoned links between them,
  and the enumeration of the simple paths that lead to a node from nodes without incoming links, capped at a
  number of paths. On a cyclic graph these are not all the acyclic paths to the node (\<open>cyclic_graph_no_path\<close>).
\<close>

section \<open>Nodes and edges\<close>

datatype evidence_relation = SUPPORTS | CONTRADICTS | SUPERSEDES | DERIVED_FROM | CONFIRMS | WEAKENS | INVALIDATES

record 'p evidence_node =
  en_id :: string
  en_kind :: string
  en_period :: string
  en_payload :: 'p

record evidence_edge =
  ee_source :: string
  ee_target :: string
  ee_relation :: evidence_relation
  ee_reason :: string

record 'p evidence_graph =
  eg_nodes :: "(string, 'p evidence_node) dict"
  eg_edges :: "evidence_edge list"

definition empty_graph :: "'p evidence_graph" where
  "empty_graph = \<lparr>eg_nodes = [], eg_edges = []\<rparr>"

definition add_node :: "'p evidence_graph \<Rightarrow> 'p evidence_node \<Rightarrow> 'p evidence_graph result" where
  "add_node g n =
     (case map_of (eg_nodes g) (en_id n) of
        Some m \<Rightarrow> if m \<noteq> n then Inl (ValueError (''evidence node id collision: '' @ en_id n))
          else Inr (g\<lparr>eg_nodes := AList.update (en_id n) n (eg_nodes g)\<rparr>)
      | None \<Rightarrow> Inr (g\<lparr>eg_nodes := AList.update (en_id n) n (eg_nodes g)\<rparr>))"

definition link :: "'p evidence_graph \<Rightarrow> string \<Rightarrow> string \<Rightarrow> evidence_relation \<Rightarrow> string \<Rightarrow> 'p evidence_graph result" where
  "link g source target relation reason =
     (if \<not> has_key (eg_nodes g) source \<or> \<not> has_key (eg_nodes g) target
        then Inl (KeyError ''both evidence nodes must exist before linking'')
      else if strip reason = [] then Inl (ValueError ''evidence relationship requires a reason'')
      else Inr (g\<lparr>eg_edges := eg_edges g @ [\<lparr>ee_source = source, ee_target = target, ee_relation = relation, ee_reason = reason\<rparr>]\<rparr>))"

section \<open>Paths\<close>

text \<open>The sources of the edges into a node, in the order of the edges.\<close>

definition parents :: "evidence_edge list \<Rightarrow> string \<Rightarrow> string list" where
  "parents edges v = map ee_source (filter (\<lambda>e. ee_target e = v) edges)"

lemma parents_sources: "set (parents edges v) \<subseteq> ee_source ` set edges"
  by (auto simp: parents_def)

text \<open>The inner loop: extensions are added one by one until the cap is reached.\<close>

definition take_paths :: "nat \<Rightarrow> 'a list \<Rightarrow> 'a list \<Rightarrow> 'a list" where
  "take_paths cap out new = out @ take (cap - length out) new"

text \<open>The walk; a parent that was seen is skipped, and once the cap is reached no parent is visited.\<close>

function walk :: "nat \<Rightarrow> evidence_edge list \<Rightarrow> string set \<Rightarrow> string \<Rightarrow> string list list"
  and walk_parents :: "nat \<Rightarrow> evidence_edge list \<Rightarrow> string set \<Rightarrow> string \<Rightarrow> string list \<Rightarrow> string list list \<Rightarrow> string list list" where
  "walk cap edges seen v = (let ps = parents edges v in if ps = [] then [[v]] else walk_parents cap edges seen v ps [])"
| "walk_parents cap edges seen v [] out = out"
| "walk_parents cap edges seen v (p # ps) out =
     (if p \<in> seen then walk_parents cap edges seen v ps out
      else (let out = take_paths cap out (map (\<lambda>path. path @ [v]) (walk cap edges (insert p seen) p))
            in if cap \<le> length out then out else walk_parents cap edges seen v ps out))"
  by pat_completeness auto

termination
proof (relation "measures [\<lambda>x. case x of Inl (_, edges, seen, _) \<Rightarrow> 2 * card (ee_source ` set edges - seen) + 1
      | Inr (_, edges, seen, _, ps, _) \<Rightarrow> 2 * card (ee_source ` set edges \<union> set ps - seen),
    \<lambda>x. case x of Inl _ \<Rightarrow> 0 | Inr (_, _, _, _, ps, _) \<Rightarrow> length ps]", goal_cases)
  case (2 cap edges seen v ps)
  have "ee_source ` set edges \<union> set ps = ee_source ` set edges" using parents_sources[of edges v] 2 by auto
  then show ?case by simp
next
  case (3 cap edges seen v p ps out)
  have "card (ee_source ` set edges \<union> set ps - seen) \<le> card (ee_source ` set edges \<union> set (p # ps) - seen)"
    by (rule card_mono) auto
  then show ?case by auto
next
  case (4 cap edges seen v p ps out)
  have "card (ee_source ` set edges - insert p seen) < card (ee_source ` set edges \<union> set (p # ps) - seen)"
    using 4 by (intro psubset_card_mono) auto
  then show ?case by simp
next
  case (5 cap edges seen v p ps out x)
  have "card (ee_source ` set edges \<union> set ps - seen) \<le> card (ee_source ` set edges \<union> set (p # ps) - seen)"
    by (rule card_mono) auto
  then show ?case by auto
qed auto

declare walk.simps [simp del] walk_parents.simps [simp del]

definition paths_to :: "'p evidence_graph \<Rightarrow> string \<Rightarrow> int \<Rightarrow> string list list result" where
  "paths_to g target max_paths =
     (if \<not> has_key (eg_nodes g) target then Inl (KeyError target)
      else if max_paths < 1 then Inl (ValueError ''max_paths must be at least 1'')
      else Inr (walk (nat max_paths) (eg_edges g) {target} target))"

definition relation_value :: "evidence_relation \<Rightarrow> string" where
  "relation_value r = (case r of SUPPORTS \<Rightarrow> ''SUPPORTS'' | CONTRADICTS \<Rightarrow> ''CONTRADICTS'' | SUPERSEDES \<Rightarrow> ''SUPERSEDES''
     | DERIVED_FROM \<Rightarrow> ''DERIVED_FROM'' | CONFIRMS \<Rightarrow> ''CONFIRMS'' | WEAKENS \<Rightarrow> ''WEAKENS'' | INVALIDATES \<Rightarrow> ''INVALIDATES'')"

section \<open>What an evidence path is\<close>

text \<open>A simple path along the edges from a node that rests on nothing to the target.\<close>

fun linked :: "evidence_edge list \<Rightarrow> string list \<Rightarrow> bool" where
  "linked edges (a # b # path) = (a \<in> set (parents edges b) \<and> linked edges (b # path))"
| "linked edges _ = True"

definition evidence_path :: "evidence_edge list \<Rightarrow> string \<Rightarrow> string list \<Rightarrow> bool" where
  "evidence_path edges target path = (path \<noteq> [] \<and> last path = target \<and> distinct path \<and> parents edges (hd path) = [] \<and>
     linked edges path)"

lemma linked_snoc: "linked edges (q @ [v]) \<longleftrightarrow> linked edges q \<and> (q \<noteq> [] \<longrightarrow> last q \<in> set (parents edges v))"
  by (induction edges q rule: linked.induct) auto

lemma evidence_path_snoc:
  "evidence_path edges v (q @ [v']) \<longleftrightarrow> v' = v \<and> (if q = [] then parents edges v = []
     else evidence_path edges (last q) q \<and> last q \<in> set (parents edges v) \<and> v \<notin> set q)"
  by (auto simp: evidence_path_def linked_snoc)

lemma evidence_path_Nil [simp]: "\<not> evidence_path edges v []"
  by (simp add: evidence_path_def)

lemma evidence_path_root: "parents edges v = [] \<Longrightarrow> evidence_path edges v path \<longleftrightarrow> path = [v]"
  by (cases path rule: rev_cases) (auto simp: evidence_path_snoc)

section \<open>The walk finds them\<close>

definition found_path :: "evidence_edge list \<Rightarrow> string set \<Rightarrow> string \<Rightarrow> string list \<Rightarrow> bool" where
  "found_path edges seen v path = (evidence_path edges v path \<and> set path \<inter> seen = {v})"

lemma found_path_snoc:
  assumes "found_path edges (insert p seen) p q" "p \<in> set (parents edges v)" "p \<notin> seen" "v \<in> seen"
  shows "found_path edges seen v (q @ [v])"
proof -
  have q: "last q = p" "q \<noteq> []" "evidence_path edges p q" "set q \<inter> insert p seen = {p}"
    using assms(1) unfolding found_path_def evidence_path_def by simp_all
  have seen: "set q \<inter> seen = {}" using equalityD1[OF q(4)] assms(3) by blast
  have "v \<notin> set q" using seen assms(4) by blast
  then have "evidence_path edges v (q @ [v])" unfolding evidence_path_snoc q(1) using q(2,3) assms(2) by simp
  moreover have "set (q @ [v]) \<inter> seen = {v}" using seen assms(4) by auto
  ultimately show ?thesis by (simp add: found_path_def)
qed

lemma walk_sound:
  "1 \<le> cap \<Longrightarrow> v \<in> seen \<Longrightarrow> length (walk cap edges seen v) \<le> cap \<and> list_all (found_path edges seen v) (walk cap edges seen v)"
  "1 \<le> cap \<Longrightarrow> v \<in> seen \<Longrightarrow> set ps \<subseteq> set (parents edges v) \<Longrightarrow> length out \<le> cap \<Longrightarrow> list_all (found_path edges seen v) out \<Longrightarrow>
     length (walk_parents cap edges seen v ps out) \<le> cap \<and> list_all (found_path edges seen v) (walk_parents cap edges seen v ps out)"
proof (induction cap edges seen v and cap edges seen v ps out rule: walk_walk_parents.induct)
  case (1 cap edges seen v)
  then show ?case by (auto simp: walk.simps[of cap edges seen v] Let_def found_path_def evidence_path_root)
next
  case (2 cap edges seen v out)
  then show ?case by (simp add: walk_parents.simps)
next
  case (3 cap edges seen v p ps out)
  define new where "new = take_paths cap out (map (\<lambda>path. path @ [v]) (walk cap edges (insert p seen) p))"
  show ?case
  proof (cases "p \<in> seen")
    case True
    then show ?thesis using 3 by (simp add: walk_parents.simps)
  next
    case False
    have "list_all (found_path edges (insert p seen) p) (walk cap edges (insert p seen) p)"
      using 3(2)[OF False] 3(4) by simp
    then have "list_all (found_path edges seen v) new" "length new \<le> cap"
      using 3(5-8) False by (auto simp: new_def take_paths_def list_all_iff intro!: found_path_snoc dest!: in_set_takeD)
    then show ?thesis using 3(3)[OF False refl] 3(4-6) False unfolding new_def[symmetric]
      by (simp add: walk_parents.simps new_def[symmetric] Let_def)
  qed
qed

lemma walk_parents_keeps: "set out \<subseteq> set (walk_parents cap edges seen v ps out)"
  by (induction ps arbitrary: out) (fastforce simp: walk_parents.simps Let_def take_paths_def)+

lemma walk_complete:
  "v \<in> seen \<Longrightarrow> length (walk cap edges seen v) < cap \<Longrightarrow> found_path edges seen v path \<Longrightarrow> path \<in> set (walk cap edges seen v)"
  "v \<in> seen \<Longrightarrow> length (walk_parents cap edges seen v ps out) < cap \<Longrightarrow> last q \<in> set ps \<Longrightarrow> last q \<notin> seen \<Longrightarrow>
     found_path edges (insert (last q) seen) (last q) q \<Longrightarrow> q @ [v] \<in> set (walk_parents cap edges seen v ps out)"
proof (induction cap edges seen v and cap edges seen v ps out arbitrary: path and q rule: walk_walk_parents.induct)
  case (1 cap edges seen v)
  show ?case
  proof (cases "parents edges v = []")
    case True
    then show ?thesis using 1(4) by (simp add: walk.simps[of cap edges seen v] found_path_def evidence_path_root)
  next
    case False
    have path: "evidence_path edges v path" "set path \<inter> seen = {v}" using 1(4) by (auto simp: found_path_def)
    obtain q where q: "path = q @ [v]" "q \<noteq> []" "evidence_path edges (last q) q" "last q \<in> set (parents edges v)" "v \<notin> set q"
      using path(1) False by (cases path rule: rev_cases) (simp_all add: evidence_path_snoc split: if_splits)
    have "set q \<subseteq> set path" using q(1) by auto
    then have "set q \<inter> seen = {}" using equalityD1[OF path(2)] q(5) by blast
    moreover have "last q \<in> set q" using q(2) by simp
    ultimately have "last q \<notin> seen" "set q \<inter> insert (last q) seen = {last q}" by blast+
    then have "found_path edges (insert (last q) seen) (last q) q" "last q \<notin> seen"
      using q(3) by (simp_all add: found_path_def)
    then show ?thesis using 1(1)[OF refl False 1(2), of q] 1(3) False q(1,4) by (simp add: walk.simps[of cap edges seen v] Let_def)
  qed
next
  case (2 cap edges seen v out)
  then show ?case by simp
next
  case (3 cap edges seen v p ps out)
  show ?case
  proof (cases "p \<in> seen")
    case True
    then show ?thesis using 3 by (auto simp: walk_parents.simps(2)[of cap edges seen v p ps out])
  next
    case False
    define new where "new = take_paths cap out (map (\<lambda>path. path @ [v]) (walk cap edges (insert p seen) p))"
    have eq: "walk_parents cap edges seen v (p # ps) out = (if cap \<le> length new then new else walk_parents cap edges seen v ps new)"
      using False by (simp add: walk_parents.simps new_def Let_def)
    then have less: "length new < cap" using 3(5) by (auto split: if_splits)
    then have rec: "walk_parents cap edges seen v (p # ps) out = walk_parents cap edges seen v ps new" using eq by simp
    have short: "length (walk cap edges (insert p seen) p) < cap" "set new = set out \<union> (\<lambda>path. path @ [v]) ` set (walk cap edges (insert p seen) p)"
      using less by (auto simp: new_def take_paths_def)
    show ?thesis
    proof (cases "last q = p")
      case True
      then have "q \<in> set (walk cap edges (insert p seen) p)" using 3(2)[OF False _ short(1)] 3(8) by simp
      then show ?thesis unfolding rec using walk_parents_keeps[of new] short(2) by blast
    next
      case ne: False
      then show ?thesis unfolding rec using 3(3)[OF False refl] less 3(4-8) rec unfolding new_def by simp
    qed
  qed
qed

section \<open>Graphs that are built step by step\<close>

inductive graph_step :: "'p evidence_graph \<Rightarrow> 'p evidence_graph \<Rightarrow> bool" where
  added: "add_node g n = Inr g' \<Longrightarrow> graph_step g g'"
| linked: "link g s t r reason = Inr g' \<Longrightarrow> graph_step g g'"

definition graph_ok :: "'p evidence_graph \<Rightarrow> bool" where
  "graph_ok g = (wf_dict (eg_nodes g) \<and> list_all (\<lambda>(k, n). en_id n = k) (eg_nodes g) \<and>
     list_all (\<lambda>e. has_key (eg_nodes g) (ee_source e) \<and> has_key (eg_nodes g) (ee_target e) \<and> strip (ee_reason e) \<noteq> []) (eg_edges g))"

text \<open>Evidence that was recorded is never changed or lost.\<close>

definition graph_extends :: "'p evidence_graph \<Rightarrow> 'p evidence_graph \<Rightarrow> bool" where
  "graph_extends g g' = ((\<forall>k n. map_of (eg_nodes g) k = Some n \<longrightarrow> map_of (eg_nodes g') k = Some n) \<and>
     (\<exists>es. eg_edges g' = eg_edges g @ es))"

lemma added_nodes:
  assumes "add_node g n = Inr g'"
  shows "eg_nodes g' = AList.update (en_id n) n (eg_nodes g)" "eg_edges g' = eg_edges g"
    "map_of (eg_nodes g) (en_id n) \<in> {None, Some n}"
  using assms by (auto simp: add_node_def split: option.splits if_splits)

lemma graph_step_ok:
  assumes "graph_step g g'" "graph_ok g"
  shows "graph_ok g' \<and> graph_extends g g'"
  using assms(1)
proof cases
  case (added n)
  note a = added_nodes[OF added]
  have keys: "has_key (eg_nodes g') k \<longleftrightarrow> k = en_id n \<or> has_key (eg_nodes g) k" for k
    by (simp add: has_key_def a(1) update_conv')
  have "list_all (\<lambda>(k, n). en_id n = k) (eg_nodes g')"
    using assms(2) set_update_subset[of "en_id n" n "eg_nodes g"] by (fastforce simp: a(1) graph_ok_def list_all_iff)
  then show ?thesis using assms(2) a(3)
    by (auto simp: graph_ok_def graph_extends_def keys a(2) list_all_iff) (auto simp: a(1) update_conv')
next
  case (linked s t r reason)
  then show ?thesis using assms(2) by (auto simp: link_def graph_ok_def graph_extends_def split: if_splits)
qed

lemma graph_extends_refl: "graph_extends g g"
  by (simp add: graph_extends_def)

lemma graph_extends_trans: "graph_extends f g \<Longrightarrow> graph_extends g h \<Longrightarrow> graph_extends f h"
  by (auto simp: graph_extends_def)

lemma graph_grows: "graph_step\<^sup>*\<^sup>* g g' \<Longrightarrow> graph_ok g \<Longrightarrow> graph_ok g' \<and> graph_extends g g'"
proof (induction rule: rtranclp_induct)
  case (step g' g'')
  then show ?case using graph_step_ok graph_extends_trans by blast
qed (simp add: graph_extends_refl)

lemma empty_graph_ok: "graph_ok empty_graph"
  by (simp add: graph_ok_def empty_graph_def wf_dict_def)

lemma path_recorded:
  assumes "graph_ok g" "evidence_path (eg_edges g) t path" "has_key (eg_nodes g) t"
  shows "list_all (has_key (eg_nodes g)) path"
proof -
  have source: "has_key (eg_nodes g) u" if "u \<in> set (parents (eg_edges g) v)" for u v
    using that assms(1) by (auto simp: parents_def graph_ok_def list_all_iff)
  show ?thesis using assms(2,3)
  proof (induction path arbitrary: t rule: rev_induct)
    case (snoc v q)
    then show ?case using source by (auto simp: evidence_path_snoc split: if_splits)
  qed simp
qed

text \<open>The walk only ends a path at a node without incoming links. In a graph with a cycle an acyclic path
  may be impossible to extend although its first node has incoming links; no such path is returned.\<close>

definition cyclic_graph :: "nat evidence_graph" where
  "cyclic_graph = \<lparr>eg_nodes = map (\<lambda>i. (i, \<lparr>en_id = i, en_kind = ''claim'', en_period = ''2024'', en_payload = 0\<rparr>)) [''a'', ''b'', ''t''],
     eg_edges = map (\<lambda>(a, b). \<lparr>ee_source = a, ee_target = b, ee_relation = SUPPORTS, ee_reason = ''r''\<rparr>)
       [(''a'', ''b''), (''b'', ''a''), (''b'', ''t'')]\<rparr>"

lemma cyclic_graph_no_path:
  "linked (eg_edges cyclic_graph) [''a'', ''b'', ''t''] \<and> parents (eg_edges cyclic_graph) ''a'' = [''b''] \<and>
   paths_to cyclic_graph ''t'' 5 = Inr []"
  by (simp add: paths_to_def has_key_def, simp add: cyclic_graph_def walk.simps walk_parents.simps parents_def take_paths_def)

text \<open>C35: The paths to a node are exactly its complete evidence chains: the simple paths along links that start at a node
  without incoming links. In every graph that is built by adding nodes and links, a query for a recorded node
  with a positive cap returns, whatever cycles the links have; it returns at most as many paths as the cap
  allows; every path is such a chain over recorded nodes; and when the cap is not reached, no such chain is
  missing. (An acyclic path that starts on a cycle is not one of them and is not returned.) Evidence that was
  recorded before is still recorded, unchanged.\<close>

theorem evidence_paths_exact:
  assumes "graph_step\<^sup>*\<^sup>* empty_graph g0" "graph_step\<^sup>*\<^sup>* g0 g" "has_key (eg_nodes g) t" "1 \<le> n"
  shows "\<exists>ps. paths_to g t n = Inr ps \<and> int (length ps) \<le> n \<and>
    (\<forall>path\<in>set ps. evidence_path (eg_edges g) t path \<and> list_all (has_key (eg_nodes g)) path) \<and>
    (int (length ps) < n \<longrightarrow> set ps = {path. evidence_path (eg_edges g) t path}) \<and> graph_extends g0 g"
proof -
  have g0: "graph_ok g0" using graph_grows[OF assms(1) empty_graph_ok] by blast
  have g: "graph_ok g" "graph_extends g0 g" using graph_grows[OF assms(2) g0] by blast+
  let ?w = "walk (nat n) (eg_edges g) {t} t"
  have sound: "length ?w \<le> nat n" "list_all (found_path (eg_edges g) {t} t) ?w"
    using walk_sound(1)[of "nat n" t "{t}"] assms(4) by auto
  have "path \<in> set ?w" if "length ?w < nat n" "evidence_path (eg_edges g) t path" for path
    using walk_complete(1)[of t "{t}" "nat n" "eg_edges g" path] that last_in_set[of path]
    by (auto simp: found_path_def evidence_path_def)
  moreover have "evidence_path (eg_edges g) t path" if "path \<in> set ?w" for path
    using that sound(2) by (simp add: list_all_iff found_path_def)
  ultimately show ?thesis
    using sound(1) assms(3,4) g path_recorded[OF g(1) _ assms(3)] by (auto simp: paths_to_def)
qed

definition sample_node :: "string \<Rightarrow> nat evidence_node" where
  "sample_node i = \<lparr>en_id = i, en_kind = ''claim'', en_period = ''2024'', en_payload = 0\<rparr>"

definition sample_graph :: "nat evidence_graph" where
  "sample_graph = \<lparr>eg_nodes = [(''a'', sample_node ''a''), (''b'', sample_node ''b'')],
     eg_edges = [\<lparr>ee_source = ''a'', ee_target = ''b'', ee_relation = SUPPORTS, ee_reason = ''r''\<rparr>]\<rparr>"

lemma sample_graph_built: "graph_step\<^sup>*\<^sup>* empty_graph sample_graph"
proof -
  let ?g1 = "\<lparr>eg_nodes = [(''a'', sample_node ''a'')], eg_edges = []\<rparr>"
  let ?g2 = "\<lparr>eg_nodes = [(''a'', sample_node ''a''), (''b'', sample_node ''b'')], eg_edges = []\<rparr>"
  have "graph_step empty_graph ?g1"
    by (rule graph_step.added[of _ "sample_node ''a''"]) (simp add: add_node_def empty_graph_def sample_node_def)
  moreover have "graph_step ?g1 ?g2"
    by (rule graph_step.added[of _ "sample_node ''b''"]) (simp add: add_node_def sample_node_def)
  moreover have "graph_step ?g2 sample_graph"
    by (rule graph_step.linked[of _ "''a''" "''b''" SUPPORTS "''r''"])
      (simp add: link_def sample_graph_def has_key_def strip_def is_space_def)
  ultimately show ?thesis by (meson rtranclp.rtrancl_into_rtrancl rtranclp.rtrancl_refl)
qed

lemma evidence_paths_exact_witness: "\<exists>ps. paths_to sample_graph ''b'' 5 = Inr ps \<and> set ps = {[''a'', ''b'']}"
proof -
  have k: "has_key (eg_nodes sample_graph) ''b''" by (simp add: sample_graph_def has_key_def)
  have w: "paths_to sample_graph ''b'' 5 = Inr [[''a'', ''b'']]"
    by (simp add: paths_to_def k, simp add: sample_graph_def walk.simps walk_parents.simps parents_def take_paths_def)
  show ?thesis using evidence_paths_exact[OF rtranclp.rtrancl_refl sample_graph_built k, of 5] w by auto
qed

end
