(* ===== verification/Jobs.thy ===== *)
theory Jobs
  imports Pyval
begin

text \<open>
  The job queue (\<open>enterprise/jobs.py\<close>): idempotent enqueueing per tenant and key, claiming in order, and retries
  up to a number of attempts. A job that was handed out is represented by its entry in the queue.
\<close>

section \<open>The queue\<close>

record job =
  jb_organization_id :: string
  jb_kind :: string
  jb_idempotency_key :: string
  jb_payload :: pyval
  jb_id :: string
  jb_status :: string
  jb_attempts :: int
  jb_max_attempts :: int
  jb_error :: "string option"
  jb_created_at :: string

record job_queue =
  jq_jobs :: "(string, job) dict"
  jq_keys :: "(string \<times> string, string) dict"

definition empty_queue :: job_queue where
  "empty_queue = \<lparr>jq_jobs = [], jq_keys = []\<rparr>"

definition job_identity :: "job \<Rightarrow> string \<times> string" where
  "job_identity j = (jb_organization_id j, jb_idempotency_key j)"

definition enqueue :: "job_queue \<Rightarrow> job \<Rightarrow> (job_queue \<times> job) result" where
  "enqueue q j =
     (case map_of (jq_keys q) (job_identity j) of
        Some i \<Rightarrow> (case map_of (jq_jobs q) i of None \<Rightarrow> Inl (KeyError i) | Some old \<Rightarrow> Inr (q, old))
      | None \<Rightarrow> Inr (\<lparr>jq_jobs = AList.update (jb_id j) j (jq_jobs q), jq_keys = AList.update (job_identity j) (jb_id j) (jq_keys q)\<rparr>, j))"

definition claimable :: "job \<Rightarrow> bool" where
  "claimable j = (jb_status j \<in> set [''queued'', ''retry''] \<and> jb_attempts j < jb_max_attempts j)"

definition started :: "job \<Rightarrow> job" where
  "started j = j\<lparr>jb_status := ''running'', jb_attempts := jb_attempts j + 1\<rparr>"

fun claim_first :: "(string, job) dict \<Rightarrow> ((string, job) dict \<times> job) option" where
  "claim_first [] = None"
| "claim_first ((i, j) # js) = (if claimable j then Some ((i, started j) # js, started j)
     else map_option (\<lambda>(rest, x). ((i, j) # rest, x)) (claim_first js))"

definition claim :: "job_queue \<Rightarrow> job_queue \<times> job option" where
  "claim q = (case claim_first (jq_jobs q) of None \<Rightarrow> (q, None) | Some (js, j) \<Rightarrow> (q\<lparr>jq_jobs := js\<rparr>, Some j))"

definition failed :: "string \<Rightarrow> job \<Rightarrow> job" where
  "failed error j = j\<lparr>jb_error := Some error, jb_status := if jb_attempts j < jb_max_attempts j then ''retry'' else ''failed''\<rparr>"

definition fail :: "job_queue \<Rightarrow> string \<Rightarrow> string \<Rightarrow> job_queue result" where
  "fail q i error = (case map_of (jq_jobs q) i of None \<Rightarrow> Inl (KeyError i)
     | Some j \<Rightarrow> Inr (q\<lparr>jq_jobs := AList.update i (failed error j) (jq_jobs q)\<rparr>))"

definition complete_job :: "job_queue \<Rightarrow> string \<Rightarrow> job_queue result" where
  "complete_job q i = (case map_of (jq_jobs q) i of None \<Rightarrow> Inl (KeyError i)
     | Some j \<Rightarrow> Inr (q\<lparr>jq_jobs := AList.update i (j\<lparr>jb_status := ''completed''\<rparr>) (jq_jobs q)\<rparr>))"

section \<open>Runs of the queue\<close>

text \<open>The operations as steps; a new job has a fresh identifier and no attempts. The number counts the claims that
  handed out a job.\<close>

definition fresh_job :: "job_queue \<Rightarrow> job \<Rightarrow> bool" where
  "fresh_job q j = (\<not> has_key (jq_jobs q) (jb_id j) \<and> jb_attempts j = 0 \<and> jb_status j = ''queued'' \<and> 0 \<le> jb_max_attempts j)"

inductive queue_run :: "job_queue \<Rightarrow> nat \<Rightarrow> job_queue \<Rightarrow> bool" where
  start: "queue_run q 0 q"
| enqueued: "queue_run q n q' \<Longrightarrow> fresh_job q' j \<Longrightarrow> enqueue q' j = Inr (q'', j') \<Longrightarrow> queue_run q n q''"
| claimed: "queue_run q n q' \<Longrightarrow> claim q' = (q'', Some j) \<Longrightarrow> queue_run q (Suc n) q''"
| idle: "queue_run q n q' \<Longrightarrow> claim q' = (q'', None) \<Longrightarrow> queue_run q n q''"
| fails: "queue_run q n q' \<Longrightarrow> fail q' i error = Inr q'' \<Longrightarrow> queue_run q n q''"
| completes: "queue_run q n q' \<Longrightarrow> complete_job q' i = Inr q'' \<Longrightarrow> queue_run q n q''"

text \<open>One job per tenant and key, filed under its identifier, with at most the permitted attempts.\<close>

definition queue_ok :: "job_queue \<Rightarrow> bool" where
  "queue_ok q = (wf_dict (jq_jobs q) \<and>
     (\<forall>i j. map_of (jq_jobs q) i = Some j \<longrightarrow> jb_id j = i \<and> 0 \<le> jb_attempts j \<and> jb_attempts j \<le> jb_max_attempts j \<and>
        map_of (jq_keys q) (job_identity j) = Some i) \<and>
     (\<forall>k i. map_of (jq_keys q) k = Some i \<longrightarrow> (\<exists>j. map_of (jq_jobs q) i = Some j \<and> job_identity j = k)))"

text \<open>What never changes about a job.\<close>

definition job_core :: "job \<Rightarrow> string \<times> string \<times> string \<times> string \<times> pyval \<times> int \<times> string" where
  "job_core j = (jb_id j, jb_organization_id j, jb_idempotency_key j, jb_kind j, jb_payload j, jb_max_attempts j, jb_created_at j)"

definition queue_extends :: "job_queue \<Rightarrow> job_queue \<Rightarrow> bool" where
  "queue_extends q q' = (\<forall>i j. map_of (jq_jobs q) i = Some j \<longrightarrow>
     (\<exists>j'. map_of (jq_jobs q') i = Some j' \<and> job_core j' = job_core j \<and> jb_attempts j \<le> jb_attempts j'))"

definition total_attempts :: "job_queue \<Rightarrow> int" where
  "total_attempts q = sum_list (map (jb_attempts \<circ> snd) (jq_jobs q))"

section \<open>Every step keeps the queue in order\<close>

lemma total_update:
  "map_of js i = Some j \<Longrightarrow> sum_list (map (f \<circ> snd) (AList.update i j' js)) = sum_list (map (f \<circ> snd) js) + (f j' - f j :: int)"
  by (induction js) auto

lemma total_insert: "map_of js i = None \<Longrightarrow> sum_list (map (f \<circ> snd) (AList.update i j' js)) = sum_list (map (f \<circ> snd) js) + (f j' :: int)"
  by (induction js) (auto split: if_splits)

lemma claim_first_Some:
  "claim_first js = Some (js', x) \<Longrightarrow> wf_dict js \<Longrightarrow>
     \<exists>before i j after. js = before @ (i, j) # after \<and> list_all (\<lambda>(_, k). \<not> claimable k) before \<and> claimable j \<and>
       x = started j \<and> map_of js i = Some j \<and> js' = AList.update i (started j) js"
proof (induction js arbitrary: js')
  case (Cons kj js)
  obtain i j where kj: "kj = (i, j)" by (cases kj)
  show ?case
  proof (cases "claimable j")
    case True
    then have "kj # js = [] @ (i, j) # js \<and> list_all (\<lambda>(_, k). \<not> claimable k) [] \<and> claimable j \<and> x = started j \<and>
        map_of (kj # js) i = Some j \<and> js' = AList.update i (started j) (kj # js)"
      using Cons.prems kj by auto
    then show ?thesis by blast
  next
    case False
    then obtain rest where r: "claim_first js = Some (rest, x)" "js' = (i, j) # rest" using Cons.prems kj by auto
    have "wf_dict js" using Cons.prems(2) by (simp add: wf_dict_def)
    then obtain before k l after where k: "js = before @ (k, l) # after" "list_all (\<lambda>(_, k). \<not> claimable k) before" "claimable l"
      "x = started l" "map_of js k = Some l" "rest = AList.update k (started l) js"
      using Cons.IH[OF r(1)] by blast
    have "k \<noteq> i" using Cons.prems(2) k(1) by (auto simp: kj wf_dict_def)
    moreover have "kj # js = ((i, j) # before) @ (k, l) # after" "list_all (\<lambda>(_, k). \<not> claimable k) ((i, j) # before)"
      using k(1,2) False kj by auto
    moreover have "map_of (kj # js) k = Some l" "js' = AList.update k (started l) (kj # js)"
      using k(5,6) r(2) kj \<open>k \<noteq> i\<close> by auto
    ultimately show ?thesis using k(3,4) by blast
  qed
qed simp

lemma claim_first_None: "claim_first js = None \<longleftrightarrow> list_all (\<lambda>(_, j). \<not> claimable j) js"
  by (induction js) (auto split: if_splits option.splits)

text \<open>A step that changes the progress of one job.\<close>

lemma progress_ok:
  assumes "queue_ok q" "map_of (jq_jobs q) i = Some j" "job_core j' = job_core j" "jb_attempts j \<le> jb_attempts j'"
    "jb_attempts j' \<le> jb_max_attempts j"
  shows "queue_ok (q\<lparr>jq_jobs := AList.update i j' (jq_jobs q)\<rparr>)" "queue_extends q (q\<lparr>jq_jobs := AList.update i j' (jq_jobs q)\<rparr>)"
    "total_attempts (q\<lparr>jq_jobs := AList.update i j' (jq_jobs q)\<rparr>) = total_attempts q + (jb_attempts j' - jb_attempts j)"
proof -
  have core: "jb_id j' = jb_id j" "job_identity j' = job_identity j" "jb_max_attempts j' = jb_max_attempts j"
    using assms(3) by (simp_all add: job_core_def job_identity_def)
  show "queue_ok (q\<lparr>jq_jobs := AList.update i j' (jq_jobs q)\<rparr>)"
    using assms(1,2,4,5) core by (fastforce simp: queue_ok_def update_conv')
  show "queue_extends q (q\<lparr>jq_jobs := AList.update i j' (jq_jobs q)\<rparr>)"
    using assms(2-4) by (auto simp: queue_extends_def update_conv')
  show "total_attempts (q\<lparr>jq_jobs := AList.update i j' (jq_jobs q)\<rparr>) = total_attempts q + (jb_attempts j' - jb_attempts j)"
    using total_update[OF assms(2), of jb_attempts j'] by (simp add: total_attempts_def)
qed

lemma queue_extends_refl: "queue_extends q q"
  by (simp add: queue_extends_def)

lemma claim_step:
  assumes "queue_ok q" "claim q = (q', Some x)"
  shows "queue_ok q' \<and> queue_extends q q' \<and> total_attempts q' = total_attempts q + 1"
proof -
  obtain js where c: "claim_first (jq_jobs q) = Some (js, x)" "q' = q\<lparr>jq_jobs := js\<rparr>"
    using assms(2) by (auto simp: claim_def split: option.splits)
  have "wf_dict (jq_jobs q)" using assms(1) by (simp add: queue_ok_def)
  from claim_first_Some[OF c(1) this] obtain i j where j: "claimable j" "map_of (jq_jobs q) i = Some j"
    "js = AList.update i (started j) (jq_jobs q)" by blast
  have "job_core (started j) = job_core j" "jb_attempts (started j) = jb_attempts j + 1" by (simp_all add: job_core_def started_def)
  with progress_ok[OF assms(1) j(2), of "started j"] j(1,3) show ?thesis
    by (auto simp: c(2) claimable_def)
qed

lemma fail_step:
  assumes "queue_ok q" "fail q i e = Inr q'"
  shows "queue_ok q' \<and> queue_extends q q' \<and> total_attempts q' = total_attempts q"
proof -
  obtain j where j: "map_of (jq_jobs q) i = Some j" "q' = q\<lparr>jq_jobs := AList.update i (failed e j) (jq_jobs q)\<rparr>"
    using assms(2) by (auto simp: fail_def split: option.splits)
  have "jb_attempts j \<le> jb_max_attempts j" using assms(1) j(1) by (auto simp: queue_ok_def)
  with progress_ok[OF assms(1) j(1), of "failed e j"] show ?thesis by (simp add: j(2) failed_def job_core_def)
qed

lemma complete_step:
  assumes "queue_ok q" "complete_job q i = Inr q'"
  shows "queue_ok q' \<and> queue_extends q q' \<and> total_attempts q' = total_attempts q"
proof -
  obtain j where j: "map_of (jq_jobs q) i = Some j" "q' = q\<lparr>jq_jobs := AList.update i (j\<lparr>jb_status := ''completed''\<rparr>) (jq_jobs q)\<rparr>"
    using assms(2) by (auto simp: complete_job_def split: option.splits)
  have "jb_attempts j \<le> jb_max_attempts j" using assms(1) j(1) by (auto simp: queue_ok_def)
  with progress_ok[OF assms(1) j(1), of "j\<lparr>jb_status := ''completed''\<rparr>"] show ?thesis by (simp add: j(2) job_core_def)
qed

lemma enqueue_step:
  assumes "queue_ok q" "fresh_job q j" "enqueue q j = Inr (q', j')"
  shows "queue_ok q' \<and> queue_extends q q' \<and> total_attempts q' = total_attempts q"
proof (cases "map_of (jq_keys q) (job_identity j)")
  case None
  have fresh: "map_of (jq_jobs q) (jb_id j) = None" using assms(2) by (simp add: fresh_job_def has_key_def)
  have q': "q' = \<lparr>jq_jobs = AList.update (jb_id j) j (jq_jobs q), jq_keys = AList.update (job_identity j) (jb_id j) (jq_keys q)\<rparr>"
    using assms(3) None by (auto simp: enqueue_def)
  have "queue_ok q'"
    using assms(1,2) fresh None unfolding queue_ok_def q' fresh_job_def by (auto simp: update_conv' split: if_splits) fastforce+
  moreover have "queue_extends q q'" using fresh by (auto simp: queue_extends_def q' update_conv')
  moreover have "total_attempts q' = total_attempts q"
    using assms(2) total_insert[OF fresh, of jb_attempts j] by (simp add: total_attempts_def q' fresh_job_def)
  ultimately show ?thesis by blast
next
  case (Some i)
  then have "q' = q" using assms(3) by (auto simp: enqueue_def split: option.splits)
  then show ?thesis using assms(1) queue_extends_refl by simp
qed

lemma queue_extends_trans: "queue_extends a b \<Longrightarrow> queue_extends b c \<Longrightarrow> queue_extends a c"
  unfolding queue_extends_def by (metis order_trans)

lemma run_keeps:
  "queue_run q n q' \<Longrightarrow> queue_ok q \<Longrightarrow> queue_ok q' \<and> queue_extends q q' \<and> total_attempts q' = total_attempts q + int n"
proof (induction rule: queue_run.induct)
  case (start q)
  then show ?case by (simp add: queue_extends_refl)
next
  case (enqueued q n q' j q'' j')
  then show ?case using enqueue_step queue_extends_trans by metis
next
  case (claimed q n q' q'' j)
  then have ih: "queue_ok q'" "queue_extends q q'" "total_attempts q' = total_attempts q + int n" by blast+
  show ?case using claim_step[OF ih(1) claimed.hyps(2)] ih queue_extends_trans by auto
next
  case (idle q n q' q'')
  then show ?case by (auto simp: claim_def split: option.splits)
next
  case (fails q n q' i error q'')
  then show ?case using fail_step queue_extends_trans by metis
next
  case (completes q n q' i q'')
  then show ?case using complete_step queue_extends_trans by metis
qed

text \<open>C36: Jobs are run at most as often as permitted and never twice for one request. Along every run of the queue in
  which new jobs have fresh identifiers there is one job per tenant and idempotency key, a repeated request
  returns the stored job and changes nothing, no job is lost or changes its tenant, kind, payload or limit,
  the number of claims that handed out a job is exactly the number of attempts recorded, and it never
  exceeds the limits of the jobs. A claim hands out the first job that is waiting with attempts left, and
  none only when no such job exists.\<close>

theorem jobs_run_at_most_permitted:
  assumes "queue_run empty_queue n q" "queue_run q k q'"
  shows "(\<forall>i j. map_of (jq_jobs q) i = Some j \<longrightarrow> enqueue q j = Inr (q, j) \<and> jb_attempts j \<le> jb_max_attempts j) \<and>
    queue_extends q q' \<and> total_attempts q' = total_attempts q + int k \<and>
    int (n + k) \<le> sum_list (map (jb_max_attempts \<circ> snd) (jq_jobs q')) \<and>
    (case snd (claim q) of None \<Rightarrow> \<forall>j\<in>snd ` set (jq_jobs q). \<not> claimable j
     | Some x \<Rightarrow> \<exists>before i j after. jq_jobs q = before @ (i, j) # after \<and> (\<forall>b\<in>set before. \<not> claimable (snd b)) \<and>
         claimable j \<and> x = started j)"
proof (intro conjI)
  have e: "queue_ok empty_queue" "total_attempts empty_queue = 0"
    by (simp_all add: queue_ok_def empty_queue_def wf_dict_def total_attempts_def)
  note r = run_keeps[OF assms(1) e(1)]
  then have q: "queue_ok q" by blast
  note r' = run_keeps[OF assms(2) q]
  show "\<forall>i j. map_of (jq_jobs q) i = Some j \<longrightarrow> enqueue q j = Inr (q, j) \<and> jb_attempts j \<le> jb_max_attempts j"
    using q by (auto simp: queue_ok_def enqueue_def)
  show "queue_extends q q'" "total_attempts q' = total_attempts q + int k" using r' by blast+
  have "sum_list (map (jb_attempts \<circ> snd) (jq_jobs q')) \<le> sum_list (map (jb_max_attempts \<circ> snd) (jq_jobs q'))"
    using r' by (intro sum_list_mono) (auto simp: queue_ok_def wf_dict_def)
  then show "int (n + k) \<le> sum_list (map (jb_max_attempts \<circ> snd) (jq_jobs q'))"
    using r r' e(2) by (simp add: total_attempts_def)
  show "case snd (claim q) of None \<Rightarrow> \<forall>j\<in>snd ` set (jq_jobs q). \<not> claimable j
     | Some x \<Rightarrow> \<exists>before i j after. jq_jobs q = before @ (i, j) # after \<and> (\<forall>b\<in>set before. \<not> claimable (snd b)) \<and>
         claimable j \<and> x = started j"
  proof (cases "claim_first (jq_jobs q)")
    case None
    then have "list_all (\<lambda>(_, j). \<not> claimable j) (jq_jobs q)" by (simp only: claim_first_None)
    with None show ?thesis by (auto simp: claim_def list_all_iff)
  next
    case (Some y)
    obtain js x where y: "y = (js, x)" by (cases y)
    have "wf_dict (jq_jobs q)" using q by (simp add: queue_ok_def)
    from claim_first_Some[OF Some[unfolded y] this] show ?thesis
      using Some y by (simp add: claim_def list_all_iff case_prod_beta) blast
  qed
qed

definition sample_job :: job where
  "sample_job = \<lparr>jb_organization_id = ''acme'', jb_kind = ''analysis'', jb_idempotency_key = ''k'', jb_payload = VNone,
     jb_id = ''job_1'', jb_status = ''queued'', jb_attempts = 0, jb_max_attempts = 3, jb_error = None, jb_created_at = ''t''\<rparr>"

definition sample_queue :: job_queue where
  "sample_queue = \<lparr>jq_jobs = [(''job_1'', sample_job)], jq_keys = [((''acme'', ''k''), ''job_1'')]\<rparr>"

lemma sample_queue_run: "queue_run empty_queue 0 sample_queue"
  by (rule queue_run.enqueued[OF queue_run.start, of _ sample_job _ sample_job])
    (simp_all add: fresh_job_def empty_queue_def sample_job_def enqueue_def sample_queue_def job_identity_def has_key_def)

lemma jobs_run_at_most_permitted_witness:
  "\<exists>q. claim sample_queue = (q, Some (started sample_job)) \<and> total_attempts q = 1 \<and> enqueue sample_queue sample_job = Inr (sample_queue, sample_job)"
proof -
  obtain q where q: "claim sample_queue = (q, Some (started sample_job))"
    by (simp add: claim_def sample_queue_def claimable_def sample_job_def)
  have "total_attempts sample_queue = 0" by (simp add: total_attempts_def sample_queue_def sample_job_def)
  then show ?thesis
    using jobs_run_at_most_permitted[OF sample_queue_run queue_run.claimed[OF queue_run.start q]] q
    by (simp add: sample_queue_def)
qed

text \<open>A failure that is reported for a completed job makes the queue hand it out again: \<open>fail\<close> does not look at the
  status.\<close>

lemma completed_job_retried:
  assumes "map_of (jq_jobs q) i = Some j" "jb_attempts j < jb_max_attempts j" "complete_job q i = Inr q'" "fail q' i e = Inr q''"
  shows "\<exists>j'. map_of (jq_jobs q'') i = Some j' \<and> claimable j'"
proof -
  have "q' = q\<lparr>jq_jobs := AList.update i (j\<lparr>jb_status := ''completed''\<rparr>) (jq_jobs q)\<rparr>"
    using assms(1,3) by (simp add: complete_job_def)
  with assms(2,4) show ?thesis by (auto simp: fail_def failed_def claimable_def update_conv')
qed

end
