(* ===== verification/Grounding.thy ===== *)
theory Grounding
  imports Pyparse
begin

text \<open>
  The records of the analysis (\<open>domain.py\<close>), the verification of quotations against the pages of a
  document (\<open>evidence.py\<close>) and the admission of narrative claims by \<open>FinRiskPipeline.assess\<close>
  (\<open>pipeline.py\<close>).
\<close>

section \<open>Records of the analysis\<close>

record evidence_ref =
  ev_document :: string
  ev_page :: int
  ev_source_text :: string
  ev_fiscal_year :: "int option"
  ev_confidence :: pyfloat
  ev_verified :: bool
  ev_verification_status :: string
  ev_source :: "string option"
  ev_company :: "string option"
  ev_period :: "string option"
  ev_quote :: "string option"
  ev_value :: "pyfloat option"
  ev_unit :: "string option"

definition post_init :: "evidence_ref \<Rightarrow> evidence_ref" where
  "post_init e = e\<lparr>
     ev_source := (case ev_source e of None \<Rightarrow> Some (ev_document e) | Some s \<Rightarrow> Some s),
     ev_quote := (case ev_quote e of None \<Rightarrow> Some (ev_source_text e) | Some q \<Rightarrow> Some q),
     ev_period := (case (ev_period e, ev_fiscal_year e) of (None, Some y) \<Rightarrow> Some (str_int y) | (p, _) \<Rightarrow> p)\<rparr>"

record narrative_claim =
  nc_claim :: string
  nc_risk_category :: string
  nc_evidence :: evidence_ref
  nc_polarity :: string
  nc_claim_target :: string
  nc_direction :: string
  nc_time_horizon :: string
  nc_basis :: string
  nc_qualifiers :: "string list"
  nc_required_evidence_types :: "string list"

section \<open>Verification of quotations\<close>

text \<open>\<open>s.split()\<close>\<close>

function words :: "string \<Rightarrow> string list" where
  "words s = (case dropWhile is_space s of
     [] \<Rightarrow> []
   | c # cs \<Rightarrow> takeWhile (\<lambda>x. \<not> is_space x) (c # cs) # words (dropWhile (\<lambda>x. \<not> is_space x) (c # cs)))"
  by pat_completeness auto
termination
proof (relation "measure length")
  fix s :: string and c cs
  assume a: "dropWhile is_space s = c # cs"
  then have "\<not> is_space c" using hd_dropWhile[of is_space s] by simp
  then have "length (dropWhile (\<lambda>x. \<not> is_space x) (c # cs)) < length (c # cs)"
    by (simp add: le_imp_less_Suc length_dropWhile_le)
  also have "\<dots> \<le> length s" using length_dropWhile_le[of is_space s] by (simp add: a)
  finally show "(dropWhile (\<lambda>x. \<not> is_space x) (c # cs), s) \<in> measure length" by simp
qed simp

declare words.simps [simp del]

definition normalized :: "string \<Rightarrow> string" where
  "normalized s = join '' '' (words s)"

definition quarter :: pyfloat where
  "quarter = lit 25 100"

definition verify :: "evidence_ref \<Rightarrow> (int, string) dict \<Rightarrow> evidence_ref" where
  "verify e pages =
     (let source = normalized (ev_source_text e);
          page = normalized (dict_get pages (ev_page e) '''');
          exact = (source \<noteq> [] \<and> contains (lower source) (lower page))
      in post_init (e\<lparr>ev_confidence := (if exact then ev_confidence e else pymin (ev_confidence e) quarter),
           ev_verified := exact, ev_verification_status := (if exact then ''verified'' else ''unverified'')\<rparr>))"

definition provenance_covered :: "string list" where
  "provenance_covered = [''located'', ''verified'']"

definition proof_covered :: "string list" where
  "proof_covered = [''verified'']"

definition coverage_ratio :: "string list \<Rightarrow> string list \<Rightarrow> pyfloat" where
  "coverage_ratio statuses allowed =
     (if statuses = [] then Fin 0
      else int_div (int (length (filter (\<lambda>s. s \<in> set allowed) statuses))) (int (length statuses)))"

definition has_risk_language :: "(int, string) dict \<Rightarrow> bool" where
  "has_risk_language pages = list_ex (\<lambda>(_, text). list_ex (\<lambda>term. contains term (lower text))
     [''going concern'', ''substantial doubt'', ''material weakness'', ''refinanc'']) pages"

section \<open>Grounding of claims\<close>

definition claim_stopwords :: "string list" where
  "claim_stopwords = [''that'', ''this'', ''with'', ''from'', ''have'', ''will'', ''been'', ''were'', ''they'', ''their'',
    ''which'', ''there'', ''these'', ''those'', ''into'', ''over'', ''such'', ''also'', ''than'',
    ''then'', ''when'', ''what'', ''while'', ''would'', ''could'', ''should'', ''about'', ''after'',
    ''before'', ''under'', ''other'', ''some'', ''more'', ''most'', ''only'', ''very'', ''each'',
    ''because'', ''however'', ''therefore'', ''company'', ''issuer'', ''financial'']"

definition is_alnum_lower :: "char \<Rightarrow> bool" where
  "is_alnum_lower c = (let n = (of_char c :: int) in (97 \<le> n \<and> n \<le> 122) \<or> is_digit c)"

text \<open>\<open>re.findall(r"[a-z0-9]+", s)\<close>: \<open>run\<close> is the token being read.\<close>

fun alnum_runs :: "string \<Rightarrow> string \<Rightarrow> string list" where
  "alnum_runs run [] = (if run = [] then [] else [run])"
| "alnum_runs run (c # cs) =
     (if is_alnum_lower c then alnum_runs (run @ [c]) cs
      else if run = [] then alnum_runs [] cs else run # alnum_runs [] cs)"

definition claim_terms :: "string \<Rightarrow> string list" where
  "claim_terms s = remdups (filter (\<lambda>t. 4 \<le> length t \<and> t \<notin> set claim_stopwords) (alnum_runs [] (lower s)))"

definition claim_is_grounded :: "string \<Rightarrow> string \<Rightarrow> bool" where
  "claim_is_grounded claim evidence =
     (let terms = claim_terms claim in
      if terms = [] then False
      else fle (lit 6 10) (int_div (int (length (filter (\<lambda>t. contains t (lower evidence)) terms))) (int (length terms))))"

section \<open>Admission of extracted claims\<close>

text \<open>The loop of \<open>assess\<close>: the verification of every extracted claim, and the accepted claims with
  their verified evidence.\<close>

definition verified_evidence :: "(int, string) dict \<Rightarrow> narrative_claim \<Rightarrow> evidence_ref" where
  "verified_evidence pages c =
     (let e = verify (nc_evidence c) pages
      in if ev_verified e \<and> \<not> claim_is_grounded (nc_claim c) (ev_source_text e)
         then post_init (e\<lparr>ev_verified := False, ev_verification_status := ''unverified'',
                ev_confidence := pymin (ev_confidence e) quarter\<rparr>)
         else e)"

fun admit_claims :: "(int, string) dict \<Rightarrow> narrative_claim list \<Rightarrow> evidence_ref list \<times> narrative_claim list" where
  "admit_claims pages [] = ([], [])"
| "admit_claims pages (c # cs) =
     (let e = verified_evidence pages c; (verified, accepted) = admit_claims pages cs
      in (e # verified, if ev_verified e then c\<lparr>nc_evidence := e\<rparr> # accepted else accepted))"

definition narrative_suppressed :: "(int, string) dict \<Rightarrow> narrative_claim list \<Rightarrow> bool" where
  "narrative_suppressed pages accepted = (pages \<noteq> [] \<and> accepted = [] \<and> has_risk_language pages)"

section \<open>Facts about quotations\<close>

lemma post_init_simps [simp]:
  "ev_verified (post_init e) = ev_verified e" "ev_verification_status (post_init e) = ev_verification_status e"
  "ev_confidence (post_init e) = ev_confidence e" "ev_source_text (post_init e) = ev_source_text e"
  "ev_page (post_init e) = ev_page e" "ev_document (post_init e) = ev_document e"
  by (simp_all add: post_init_def)

definition quoted :: "evidence_ref \<Rightarrow> (int, string) dict \<Rightarrow> bool" where
  "quoted e pages = (normalized (ev_source_text e) \<noteq> [] \<and>
     contains (lower (normalized (ev_source_text e))) (lower (normalized (dict_get pages (ev_page e) ''''))))"

lemma verify_simps [simp]:
  "ev_verified (verify e pages) = quoted e pages"
  "ev_verification_status (verify e pages) = (if quoted e pages then ''verified'' else ''unverified'')"
  "ev_confidence (verify e pages) = (if quoted e pages then ev_confidence e else pymin (ev_confidence e) quarter)"
  "ev_source_text (verify e pages) = ev_source_text e" "ev_page (verify e pages) = ev_page e"
  by (simp_all add: verify_def quoted_def Let_def)

lemma verified_evidence_simps:
  "ev_verified (verified_evidence pages c) \<longleftrightarrow>
     quoted (nc_evidence c) pages \<and> claim_is_grounded (nc_claim c) (ev_source_text (nc_evidence c))"
  "ev_verification_status (verified_evidence pages c) =
     (if ev_verified (verified_evidence pages c) then ''verified'' else ''unverified'')"
  "ev_source_text (verified_evidence pages c) = ev_source_text (nc_evidence c)"
  "ev_page (verified_evidence pages c) = ev_page (nc_evidence c)"
  by (auto simp: verified_evidence_def Let_def)

lemma quarter_finite [simp]: "quarter \<noteq> NaN" "quarter \<noteq> NInf"
  by code_simp+

lemma pymin_quarter: "x \<noteq> NaN \<Longrightarrow> pymin x quarter \<noteq> NaN \<and> fle (pymin x quarter) x"
  using pymin_cases[of x quarter] pymin_le1[of x quarter] by auto

lemma verified_evidence_confidence:
  assumes "ev_confidence (nc_evidence c) \<noteq> NaN"
  shows "fle (ev_confidence (verified_evidence pages c)) (ev_confidence (nc_evidence c))"
proof -
  let ?x = "ev_confidence (nc_evidence c)"
  have "fle (pymin (pymin ?x quarter) quarter) ?x"
    using pymin_quarter[OF assms] pymin_quarter[of "pymin ?x quarter"] fle_trans by blast
  then show ?thesis using pymin_quarter[OF assms] assms
    by (auto simp: verified_evidence_def Let_def fle_refl_iff)
qed

lemma admit_claims_form:
  "admit_claims pages cs = (map (verified_evidence pages) cs,
     map (\<lambda>c. c\<lparr>nc_evidence := verified_evidence pages c\<rparr>) (filter (\<lambda>c. ev_verified (verified_evidence pages c)) cs))"
  by (induction cs) (simp_all add: Let_def)

section \<open>Admitted claims are grounded\<close>

text \<open>The rounded quotient decides as the exact one does.\<close>

lemma ratio_exact:
  assumes "0 < n" "n \<le> 1000" "fle (lit 6 10) (int_div (int h) (int n))"
  shows "3 * n \<le> 5 * h"
proof (rule ccontr)
  assume "\<not> 3 * n \<le> 5 * h"
  then have "5 * (of_nat h :: rat) \<le> 3 * of_nat n - 1"
    by (metis (no_types, opaque_lifting) Suc_leI not_le of_nat_Suc of_nat_le_iff of_nat_mult of_nat_numeral add.commute le_diff_eq)
  then have "(of_nat h :: rat) / of_nat n \<le> 3 / 5 - 1 / (5 * of_nat n)"
    using assms(1) by (simp add: field_simps)
  also have "\<dots> \<le> 3 / 5 - 1 / 5000"
    using assms(1,2) by (simp add: field_simps)
  finally have "fle (int_div (int h) (int n)) (fl (39320 / 65536))"
    unfolding int_div_def by (intro fle_fl) simp
  then have "fle (lit 6 10) (fl (39320 / 65536))" using assms(3) fle_trans by blast
  moreover have "\<not> fle (lit 6 10) (fl (39320 / 65536))" by code_simp
  ultimately show False by simp
qed

text \<open>The number of distinct terms of a claim, and how many of them its quotation contains.\<close>

definition term_count :: "string \<Rightarrow> nat" where
  "term_count claim = length (claim_terms claim)"

definition supported_count :: "string \<Rightarrow> string \<Rightarrow> nat" where
  "supported_count claim evidence = length (filter (\<lambda>t. contains t (lower evidence)) (claim_terms claim))"

lemma grounded_terms:
  assumes "claim_is_grounded claim evidence" "term_count claim \<le> 1000"
  shows "0 < term_count claim \<and> 3 * term_count claim \<le> 5 * supported_count claim evidence"
  using assms ratio_exact[of "term_count claim" "supported_count claim evidence"]
  by (auto simp: claim_is_grounded_def term_count_def supported_count_def Let_def split: if_splits)

text \<open>C10: No unsupported claim is admitted. Every admitted claim is one of the extracted claims with its
  quotation verified: the quotation occurs on the cited page up to white space and letter case, and it
  contains at least 60% of the distinctive terms of the claim (of which there is one). Every extracted
  claim is verified exactly once, and verification never raises a confidence.\<close>

theorem admitted_claims_grounded:
  assumes "admit_claims pages raw = (verified, accepted)"
    and "\<And>c. c \<in> set raw \<Longrightarrow> term_count (nc_claim c) \<le> 1000 \<and> ev_confidence (nc_evidence c) \<noteq> NaN"
  shows "length verified = length raw \<and>
    (\<forall>i<length raw. fle (ev_confidence (verified ! i)) (ev_confidence (nc_evidence (raw ! i)))) \<and>
    (\<forall>a\<in>set accepted. \<exists>c\<in>set raw. a = c\<lparr>nc_evidence := nc_evidence a\<rparr> \<and> nc_evidence a \<in> set verified \<and>
       ev_verification_status (nc_evidence a) = ''verified'' \<and> quoted (nc_evidence a) pages \<and>
       0 < term_count (nc_claim a) \<and>
       3 * term_count (nc_claim a) \<le> 5 * supported_count (nc_claim a) (ev_source_text (nc_evidence a)))"
proof (intro conjI ballI)
  have form: "verified = map (verified_evidence pages) raw"
    "accepted = map (\<lambda>c. c\<lparr>nc_evidence := verified_evidence pages c\<rparr>) (filter (\<lambda>c. ev_verified (verified_evidence pages c)) raw)"
    using assms(1) by (simp_all add: admit_claims_form)
  show "length verified = length raw" by (simp add: form)
  show "\<forall>i<length raw. fle (ev_confidence (verified ! i)) (ev_confidence (nc_evidence (raw ! i)))"
    using assms(2) by (simp add: form verified_evidence_confidence)
  fix a assume "a \<in> set accepted"
  then obtain c where c: "c \<in> set raw" "ev_verified (verified_evidence pages c)"
    "a = c\<lparr>nc_evidence := verified_evidence pages c\<rparr>" by (auto simp: form)
  have "quoted (verified_evidence pages c) pages"
    using c(2) by (simp add: verified_evidence_simps(1,3,4) quoted_def)
  then show "\<exists>c\<in>set raw. a = c\<lparr>nc_evidence := nc_evidence a\<rparr> \<and> nc_evidence a \<in> set verified \<and>
       ev_verification_status (nc_evidence a) = ''verified'' \<and> quoted (nc_evidence a) pages \<and>
       0 < term_count (nc_claim a) \<and>
       3 * term_count (nc_claim a) \<le> 5 * supported_count (nc_claim a) (ev_source_text (nc_evidence a))"
    using c grounded_terms[of "nc_claim c"] assms(2)[OF c(1)]
    by (intro bexI[OF _ c(1)]) (auto simp: form verified_evidence_simps)
qed

definition sample_evidence :: "string \<Rightarrow> evidence_ref" where
  "sample_evidence quote = \<lparr>ev_document = ''10-K'', ev_page = 3, ev_source_text = quote, ev_fiscal_year = Some 2024,
     ev_confidence = Fin 1, ev_verified = False, ev_verification_status = ''unverified'', ev_source = None,
     ev_company = None, ev_period = None, ev_quote = None, ev_value = None, ev_unit = None\<rparr>"

definition sample_claim :: "string \<Rightarrow> string \<Rightarrow> narrative_claim" where
  "sample_claim text quote = \<lparr>nc_claim = text, nc_risk_category = ''business_going_concern'',
     nc_evidence = sample_evidence quote, nc_polarity = ''negative'', nc_claim_target = ''t'', nc_direction = ''negative'',
     nc_time_horizon = ''unspecified'', nc_basis = ''management_statement'', nc_qualifiers = [], nc_required_evidence_types = []\<rparr>"

definition sample_pages :: "(int, string) dict" where
  "sample_pages = [(3, ''There is substantial  doubt about liquidity.'')]"

definition sample_claims :: "narrative_claim list" where
  "sample_claims = [sample_claim ''Substantial doubt exists'' ''substantial doubt about'',
     sample_claim ''Refinancing succeeded'' ''substantial doubt'', sample_claim ''Doubt'' ''severe doubt'']"

lemma sample_claims_small: "c \<in> set sample_claims \<Longrightarrow> term_count (nc_claim c) \<le> 1000 \<and> ev_confidence (nc_evidence c) \<noteq> NaN"
proof -
  have "list_all (\<lambda>c. term_count (nc_claim c) \<le> 1000 \<and> ev_confidence (nc_evidence c) \<noteq> NaN) sample_claims" by code_simp
  then show "c \<in> set sample_claims \<Longrightarrow> ?thesis" by (simp add: list_all_iff)
qed

theorem admitted_claims_grounded_witness:
  "map nc_claim (snd (admit_claims sample_pages sample_claims)) = [''Substantial doubt exists''] \<and>
   list_all (\<lambda>a. quoted (nc_evidence a) sample_pages) (snd (admit_claims sample_pages sample_claims))"
proof
  show "map nc_claim (snd (admit_claims sample_pages sample_claims)) = [''Substantial doubt exists'']" by code_simp
  show "list_all (\<lambda>a. quoted (nc_evidence a) sample_pages) (snd (admit_claims sample_pages sample_claims))"
    using admitted_claims_grounded[OF prod.collapse[symmetric] sample_claims_small, where pages = sample_pages]
    unfolding list_all_iff by blast
qed

end
