(* ===== verification/Metrics.thy ===== *)
theory Metrics
  imports Grounding
begin

text \<open>
  Financial ratios (\<open>metrics.py\<close>). A dictionary of reported values maps a line item to a float or to
  \<open>None\<close>; an absent key and \<open>None\<close> are both missing. The empty dictionary stands for the values of a
  period that was not supplied.
\<close>

type_synonym amounts = "(string, pyfloat option) dict"

definition val :: "amounts \<Rightarrow> string \<Rightarrow> pyfloat option" where
  "val v k = dict_get v k None"

record metric =
  me_name :: string
  me_value :: "pyfloat option"
  me_formula :: string
  me_inputs :: amounts
  me_fiscal_year :: int
  me_missing_reason :: "string option"
  me_source_refs :: "evidence_ref list"

section \<open>Arithmetic on missing values\<close>

definition lift2 :: "(pyfloat \<Rightarrow> pyfloat \<Rightarrow> pyfloat) \<Rightarrow> pyfloat option \<Rightarrow> pyfloat option \<Rightarrow> pyfloat option" where
  "lift2 f a b = (case (a, b) of (Some x, Some y) \<Rightarrow> Some (f x y) | _ \<Rightarrow> None)"

definition resolve_total_debt :: "amounts \<Rightarrow> pyfloat option \<times> string list" where
  "resolve_total_debt v = (case val v ''total_debt'' of
     Some d \<Rightarrow> (Some d, [''total_debt''])
   | None \<Rightarrow> (lift2 fadd (val v ''short_term_debt'') (val v ''long_term_debt''), [''short_term_debt'', ''long_term_debt'']))"

definition safe_div :: "pyfloat option \<Rightarrow> pyfloat option \<Rightarrow> pyfloat option" where
  "safe_div a b = (case (a, b) of
     (Some x, Some y) \<Rightarrow> (if feq y (Fin 0) then None
       else (case fdiv x y of None \<Rightarrow> None | Some r \<Rightarrow> if is_finite r then Some r else None))
   | _ \<Rightarrow> None)"

definition growth_ratio :: "pyfloat option \<Rightarrow> pyfloat option \<Rightarrow> pyfloat option" where
  "growth_ratio current prior = (case (current, prior) of
     (Some c, Some p) \<Rightarrow> (if feq p (Fin 0) \<or> flt p (Fin 0) then None
       else safe_div (Some (fsub c p)) (Some (fabs p)))
   | _ \<Rightarrow> None)"

definition missing_inputs :: "amounts \<Rightarrow> string list" where
  "missing_inputs inputs = map fst (filter (\<lambda>(_, x). x = None) inputs)"

definition make_metric :: "string \<Rightarrow> pyfloat option \<Rightarrow> string \<Rightarrow> amounts \<Rightarrow> int \<Rightarrow> string option \<Rightarrow> metric" where
  "make_metric name x formula inputs year reason =
     (let missing = missing_inputs inputs;
          r = (case reason of Some t \<Rightarrow> Some t | None \<Rightarrow>
            if missing \<noteq> [] then Some (''Required input(s) not reliably identified: '' @ join '', '' missing @ ''.'')
            else if x = None then Some ''Denominator is zero.'' else None)
      in \<lparr>me_name = name, me_value = x, me_formula = formula, me_inputs = inputs, me_fiscal_year = year,
          me_missing_reason = r, me_source_refs = []\<rparr>)"

section \<open>The inputs of the ratios\<close>

text \<open>The local variables of \<open>calculate_metrics\<close>.\<close>

record metric_inputs =
  mi_debt :: "pyfloat option"
  mi_debt_keys :: "string list"
  mi_capex :: "pyfloat option"
  mi_fcf :: "pyfloat option"
  mi_ebit :: "pyfloat option"
  mi_cfo_to_net_income :: "pyfloat option"
  mi_ebitda :: "pyfloat option"
  mi_debt_to_ebitda :: "pyfloat option"
  mi_cogs :: "pyfloat option"
  mi_assets :: "pyfloat option"
  mi_equity :: "pyfloat option"
  mi_ar :: "pyfloat option"
  mi_inventory :: "pyfloat option"
  mi_ap :: "pyfloat option"

definition free_cash_flow :: "amounts \<Rightarrow> pyfloat option" where
  "free_cash_flow v = lift2 (\<lambda>x c. fsub x (fabs c)) (val v ''operating_cash_flow'') (val v ''capital_expenditure'')"

definition half :: "pyfloat \<Rightarrow> pyfloat" where
  "half x = (case fdiv x (Fin 2) of Some r \<Rightarrow> r | None \<Rightarrow> NaN)"

definition average_balance :: "amounts \<Rightarrow> amounts \<Rightarrow> string \<Rightarrow> pyfloat option" where
  "average_balance v previous key =
     (let current = val v key; prior = (if previous \<noteq> [] then val previous key else None)
      in if prior = None \<or> current = None then current else lift2 (\<lambda>c p. half (fadd c p)) current prior)"

definition positive_only :: "pyfloat option \<Rightarrow> pyfloat option \<Rightarrow> pyfloat option" where
  "positive_only a b = (case b of None \<Rightarrow> None | Some y \<Rightarrow> if fle y (Fin 0) then None else safe_div a b)"

definition inputs_of :: "amounts \<Rightarrow> amounts \<Rightarrow> metric_inputs" where
  "inputs_of v previous =
     (let (debt, keys) = resolve_total_debt v in
      \<lparr>mi_debt = debt, mi_debt_keys = keys, mi_capex = val v ''capital_expenditure'', mi_fcf = free_cash_flow v,
       mi_ebit = (case val v ''ebit'' of None \<Rightarrow> val v ''operating_income'' | Some e \<Rightarrow> Some e),
       mi_cfo_to_net_income = positive_only (val v ''operating_cash_flow'') (val v ''net_income''),
       mi_ebitda = val v ''ebitda'', mi_debt_to_ebitda = positive_only debt (val v ''ebitda''),
       mi_cogs = lift2 fsub (val v ''revenue'') (val v ''gross_profit''),
       mi_assets = average_balance v previous ''total_assets'',
       mi_equity = average_balance v previous ''shareholder_equity'',
       mi_ar = average_balance v previous ''accounts_receivable'',
       mi_inventory = average_balance v previous ''inventory'',
       mi_ap = average_balance v previous ''accounts_payable''\<rparr>)"

definition days :: "pyfloat option \<Rightarrow> pyfloat option \<Rightarrow> pyfloat option" where
  "days a b = (case safe_div a b of None \<Rightarrow> None | Some r \<Rightarrow> Some (fmul r (Fin 365)))"

text \<open>The table \<open>specs\<close>: name, value, formula and inputs of the metrics of one period.\<close>

definition reported :: "amounts \<Rightarrow> string list \<Rightarrow> amounts" where
  "reported v keys = map (\<lambda>k. (k, val v k)) keys"

definition with_keys :: "amounts \<Rightarrow> amounts \<Rightarrow> amounts" where
  "with_keys a b = dict_union a b"

definition balance_specs :: "amounts \<Rightarrow> metric_inputs \<Rightarrow> (string \<times> pyfloat option \<times> string \<times> amounts) list" where
  "balance_specs v i =
     (let debt = reported v (mi_debt_keys i) in
     [(''current_ratio'', safe_div (val v ''current_assets'') (val v ''current_liabilities''),
        ''current_assets / current_liabilities'', reported v [''current_assets'', ''current_liabilities'']),
      (''quick_ratio'', safe_div (lift2 fsub (val v ''current_assets'') (val v ''inventory'')) (val v ''current_liabilities''),
        ''(current_assets - inventory) / current_liabilities'', reported v [''current_assets'', ''inventory'', ''current_liabilities'']),
      (''cash_ratio'', safe_div (val v ''cash'') (val v ''current_liabilities''),
        ''cash / current_liabilities'', reported v [''cash'', ''current_liabilities'']),
      (''working_capital'', lift2 fsub (val v ''current_assets'') (val v ''current_liabilities''),
        ''current_assets - current_liabilities'', reported v [''current_assets'', ''current_liabilities'']),
      (''debt_to_equity'', safe_div (mi_debt i) (val v ''shareholder_equity''),
        ''total_debt / shareholder_equity'', with_keys debt (reported v [''shareholder_equity''])),
      (''debt_to_assets'', safe_div (mi_debt i) (val v ''total_assets''),
        ''total_debt / total_assets'', with_keys debt (reported v [''total_assets''])),
      (''liabilities_to_assets'', safe_div (val v ''total_liabilities'') (val v ''total_assets''),
        ''total_liabilities / total_assets'', reported v [''total_liabilities'', ''total_assets'']),
      (''net_debt'', lift2 fsub (mi_debt i) (val v ''cash''),
        ''total_debt - cash'', with_keys debt (reported v [''cash''])),
      (''interest_coverage'', safe_div (mi_ebit i) (val v ''interest_expense''),
        ''EBIT / interest_expense'', [(''EBIT'', mi_ebit i), (''interest_expense'', val v ''interest_expense'')]),
      (''debt_to_ebitda'', mi_debt_to_ebitda i,
        ''total_debt / EBITDA'', with_keys debt [(''EBITDA'', mi_ebitda i)])])"

text \<open>The wording of a formula depends on whether a previous period was supplied.\<close>

definition basis :: "amounts \<Rightarrow> string \<Rightarrow> string \<Rightarrow> string" where
  "basis previous average ending = (if previous \<noteq> [] then average else ending)"

definition performance_specs :: "amounts \<Rightarrow> amounts \<Rightarrow> metric_inputs \<Rightarrow> (string \<times> pyfloat option \<times> string \<times> amounts) list" where
  "performance_specs v previous i =
     [(''gross_margin'', safe_div (val v ''gross_profit'') (val v ''revenue''),
        ''gross_profit / revenue'', reported v [''gross_profit'', ''revenue'']),
      (''operating_margin'', safe_div (val v ''operating_income'') (val v ''revenue''),
        ''operating_income / revenue'', reported v [''operating_income'', ''revenue'']),
      (''net_margin'', safe_div (val v ''net_income'') (val v ''revenue''),
        ''net_income / revenue'', reported v [''net_income'', ''revenue'']),
      (''roa'', safe_div (val v ''net_income'') (mi_assets i),
        basis previous ''net_income / average_total_assets'' ''net_income / ending_total_assets (single-year proxy)'',
        [(''net_income'', val v ''net_income''), (''assets_basis'', mi_assets i)]),
      (''roe'', safe_div (val v ''net_income'') (mi_equity i),
        basis previous ''net_income / average_shareholder_equity'' ''net_income / ending_shareholder_equity (single-year proxy)'',
        [(''net_income'', val v ''net_income''), (''equity_basis'', mi_equity i)]),
      (''cfo_to_net_income'', mi_cfo_to_net_income i,
        ''operating_cash_flow / net_income'', reported v [''operating_cash_flow'', ''net_income'']),
      (''free_cash_flow'', mi_fcf i,
        ''operating_cash_flow - abs(capital_expenditure)'',
        [(''operating_cash_flow'', val v ''operating_cash_flow''), (''capital_expenditure'', mi_capex i)]),
      (''fcf_margin'', safe_div (mi_fcf i) (val v ''revenue''),
        ''free_cash_flow / revenue'', [(''free_cash_flow'', mi_fcf i), (''revenue'', val v ''revenue'')]),
      (''receivable_days'', days (mi_ar i) (val v ''revenue''),
        basis previous ''average_accounts_receivable / revenue * 365'' ''ending_accounts_receivable / revenue * 365 (single-year proxy)'',
        [(''receivables_basis'', mi_ar i), (''revenue'', val v ''revenue'')]),
      (''inventory_days'', days (mi_inventory i) (mi_cogs i),
        basis previous ''average_inventory / COGS * 365'' ''ending_inventory / COGS * 365 (single-year proxy)'',
        [(''inventory_basis'', mi_inventory i), (''COGS'', mi_cogs i)]),
      (''payable_days'', days (mi_ap i) (mi_cogs i),
        basis previous ''average_accounts_payable / COGS * 365'' ''ending_accounts_payable / COGS * 365 (single-year proxy)'',
        [(''payables_basis'', mi_ap i), (''COGS'', mi_cogs i)])]"

definition period_metrics :: "amounts \<Rightarrow> amounts \<Rightarrow> metric_inputs \<Rightarrow> int \<Rightarrow> (string, metric) dict" where
  "period_metrics v previous i year = map (\<lambda>(name, x, formula, inputs).
     (name, make_metric name x formula inputs year
        (if name = ''debt_to_ebitda'' \<and> (case mi_ebitda i of None \<Rightarrow> False | Some e \<Rightarrow> fle e (Fin 0))
            \<and> mi_debt_to_ebitda i = None
         then Some ''EBITDA is non-positive; leverage is unbounded rather than low.'' else None)))
     (balance_specs v i @ performance_specs v previous i)"

definition metric_value :: "(string, metric) dict \<Rightarrow> string \<Rightarrow> pyfloat option" where
  "metric_value m name = (case map_of m name of None \<Rightarrow> None | Some x \<Rightarrow> me_value x)"

definition conversion_cycle :: "(string, metric) dict \<Rightarrow> int \<Rightarrow> metric" where
  "conversion_cycle m year =
     (case (metric_value m ''receivable_days'', metric_value m ''inventory_days'', metric_value m ''payable_days'') of
        (Some r, Some i, Some p) \<Rightarrow> make_metric ''cash_conversion_cycle'' (Some (fsub (fadd r i) p))
          ''receivable_days + inventory_days - payable_days''
          [(''receivable_days'', Some r), (''inventory_days'', Some i), (''payable_days'', Some p)] year None
      | _ \<Rightarrow> make_metric ''cash_conversion_cycle'' None
          ''receivable_days + inventory_days - payable_days'' [(''components'', None)] year None)"

section \<open>Growth\<close>

definition growth_keys :: "string list" where
  "growth_keys = [''revenue'', ''net_income'', ''operating_cash_flow'', ''free_cash_flow'', ''total_debt'', ''cash'',
     ''accounts_receivable'', ''inventory'']"

definition growth_current :: "amounts \<Rightarrow> metric_inputs \<Rightarrow> string \<Rightarrow> pyfloat option" where
  "growth_current v i key = (if key = ''free_cash_flow'' then mi_fcf i
     else if key = ''total_debt'' then mi_debt i else val v key)"

definition growth_prior :: "amounts \<Rightarrow> string \<Rightarrow> pyfloat option" where
  "growth_prior previous key = (if key = ''free_cash_flow'' then free_cash_flow previous
     else if key = ''total_debt'' then fst (resolve_total_debt previous)
     else val previous key)"

definition growth_metric :: "amounts \<Rightarrow> amounts \<Rightarrow> metric_inputs \<Rightarrow> int \<Rightarrow> string \<Rightarrow> string \<times> metric" where
  "growth_metric v previous i year key =
     (let current = growth_current v i key; prior = growth_prior previous key; name = key @ ''_growth''
      in (name, make_metric name (growth_ratio current prior)
           (''('' @ key @ ''_current - '' @ key @ ''_prior) / abs('' @ key @ ''_prior)'')
           [(''current'', current), (''prior'', prior)] year None))"

definition calculate_metrics :: "amounts \<Rightarrow> int \<Rightarrow> amounts \<Rightarrow> (string, metric) dict" where
  "calculate_metrics v year previous =
     (let i = inputs_of v previous;
          m = period_metrics v previous i year;
          m = m @ [(''cash_conversion_cycle'', conversion_cycle m year)]
      in if previous = [] then m else m @ map (growth_metric v previous i year) growth_keys)"

section \<open>Every metric explains itself\<close>

text \<open>A metric has a value or a reason, and a value only when all its inputs are known.\<close>

definition all_known :: "amounts \<Rightarrow> bool" where
  "all_known d = (\<forall>(k, x)\<in>set d. x \<noteq> None)"

definition explained :: "metric \<Rightarrow> bool" where
  "explained m = ((me_value m = None \<longleftrightarrow> me_missing_reason m \<noteq> None) \<and>
     (me_value m \<noteq> None \<longrightarrow> all_known (me_inputs m)))"

lemma all_known_simps [simp]:
  "all_known []" "all_known ((k, x) # d) \<longleftrightarrow> x \<noteq> None \<and> all_known d"
  "all_known (reported v ks) \<longleftrightarrow> (\<forall>k\<in>set ks. val v k \<noteq> None)"
  by (auto simp: all_known_def reported_def)

lemma lift2_Some [simp]: "lift2 f a b = Some z \<longleftrightarrow> (\<exists>x y. a = Some x \<and> b = Some y \<and> z = f x y)"
  by (auto simp: lift2_def split: option.splits)

lemma lift2_None [simp]: "lift2 f a b = None \<longleftrightarrow> a = None \<or> b = None"
  by (auto simp: lift2_def split: option.splits)

lemma safe_div_known: "safe_div a b = Some z \<Longrightarrow> a \<noteq> None \<and> b \<noteq> None \<and> is_finite z"
  by (auto simp: safe_div_def split: option.splits if_splits)

lemma positive_only_known: "positive_only a b = Some z \<Longrightarrow> a \<noteq> None \<and> b \<noteq> None \<and> is_finite z"
  by (auto simp: positive_only_def dest: safe_div_known split: option.splits if_splits)

lemma growth_known: "growth_ratio a b = Some z \<Longrightarrow> a \<noteq> None \<and> b \<noteq> None \<and> is_finite z"
  by (auto simp: growth_ratio_def dest: safe_div_known split: option.splits if_splits)

lemma days_known: "days a b = Some z \<Longrightarrow> a \<noteq> None \<and> b \<noteq> None"
  by (auto simp: days_def dest: safe_div_known split: option.splits)

lemma missing_inputs_Nil [simp]: "missing_inputs d = [] \<longleftrightarrow> all_known d"
  by (auto simp: all_known_def missing_inputs_def filter_empty_conv)

lemma explainedI:
  assumes "x \<noteq> None \<Longrightarrow> all_known d \<and> r = None"
  shows "explained (make_metric name x f d year r)"
proof (cases "x = None")
  case True
  then show ?thesis by (simp add: explained_def make_metric_def Let_def split: option.split)
next
  case False
  have "missing_inputs d = []" using assms[OF False] by simp
  then show ?thesis using False assms[OF False] by (simp add: explained_def make_metric_def Let_def)
qed

lemma make_metric_value [simp]: "me_value (make_metric name x f d year r) = x"
  by (simp add: make_metric_def Let_def)

lemma set_dict_union: "set (dict_union a b) \<subseteq> set a \<union> set b"
  unfolding dict_union_def
proof (induction b arbitrary: a)
  case (Cons p b)
  obtain k x where p: "p = (k, x)" by (cases p)
  show ?case using Cons[of "AList.update k x a"] set_update_subset[of k x a] by (auto simp: p)
qed simp

lemma with_keys_known: "all_known a \<Longrightarrow> all_known b \<Longrightarrow> all_known (with_keys a b)"
  using subsetD[OF set_dict_union[of a b]] unfolding with_keys_def all_known_def by blast

lemma debt_known: "resolve_total_debt v = (Some d, ks) \<Longrightarrow> \<forall>k\<in>set ks. val v k \<noteq> None"
  by (cases "val v ''total_debt''") (auto simp: resolve_total_debt_def)

text \<open>The inputs of a period: the debt is known only with its parts.\<close>

lemma inputs_of_debt: "mi_debt (inputs_of v p) \<noteq> None \<Longrightarrow> \<forall>k\<in>set (mi_debt_keys (inputs_of v p)). val v k \<noteq> None"
  using debt_known[of v] by (auto simp: inputs_of_def split: prod.splits)

lemma inputs_of_simps [simp]:
  "mi_fcf (inputs_of v p) = free_cash_flow v" "mi_capex (inputs_of v p) = val v ''capital_expenditure''"
  "mi_ebitda (inputs_of v p) = val v ''ebitda''"
  "mi_debt_to_ebitda (inputs_of v p) = positive_only (mi_debt (inputs_of v p)) (val v ''ebitda'')"
  "mi_cfo_to_net_income (inputs_of v p) = positive_only (val v ''operating_cash_flow'') (val v ''net_income'')"
  by (simp_all add: inputs_of_def split: prod.split)

lemma free_cash_flow_known: "free_cash_flow v \<noteq> None \<longleftrightarrow> val v ''operating_cash_flow'' \<noteq> None \<and> val v ''capital_expenditure'' \<noteq> None"
  by (simp add: free_cash_flow_def)

text \<open>A row of a table of metrics is sound when its value presupposes its inputs.\<close>

definition known_inputs :: "string \<times> pyfloat option \<times> string \<times> amounts \<Rightarrow> bool" where
  "known_inputs row = (case row of (_, x, _, d) \<Rightarrow> x \<noteq> None \<longrightarrow> all_known d)"

lemma known_inputsI: "(\<And>z. x = Some z \<Longrightarrow> all_known d) \<Longrightarrow> known_inputs (name, x, f, d)"
  by (auto simp: known_inputs_def)

lemma balance_specs_known: "list_all known_inputs (balance_specs v (inputs_of v p))"
  unfolding balance_specs_def Let_def list.pred_inject
  using inputs_of_debt[of v p]
  by (intro conjI TrueI known_inputsI)
    (auto dest!: safe_div_known positive_only_known intro!: with_keys_known)

lemma performance_specs_known: "list_all known_inputs (performance_specs v p (inputs_of v p))"
  unfolding performance_specs_def list.pred_inject
  by (intro conjI TrueI known_inputsI)
    (auto dest!: safe_div_known positive_only_known days_known simp: free_cash_flow_def)

lemma period_metrics_explained:
  assumes "(k, m) \<in> set (period_metrics v p (inputs_of v p) year)"
  shows "explained m \<and> me_name m = k"
proof -
  have all: "list_all known_inputs (balance_specs v (inputs_of v p) @ performance_specs v p (inputs_of v p))"
    using balance_specs_known performance_specs_known by simp
  let ?r = "if k = ''debt_to_ebitda'' \<and> (case mi_ebitda (inputs_of v p) of None \<Rightarrow> False | Some e \<Rightarrow> fle e (Fin 0))
    \<and> mi_debt_to_ebitda (inputs_of v p) = None
    then Some ''EBITDA is non-positive; leverage is unbounded rather than low.'' else None"
  obtain x f d where row: "(k, x, f, d) \<in> set (balance_specs v (inputs_of v p) @ performance_specs v p (inputs_of v p))"
    "m = make_metric k x f d year ?r"
    using assms unfolding period_metrics_def by (auto simp del: inputs_of_simps)
  have "x = None" if "k = ''debt_to_ebitda''" "mi_debt_to_ebitda (inputs_of v p) = None"
    using row(1) that by (auto simp: balance_specs_def performance_specs_def Let_def)
  then have "?r = None" if "x \<noteq> None" using that by auto
  moreover have "x \<noteq> None \<longrightarrow> all_known d"
    using all row(1) unfolding list_all_iff known_inputs_def by (metis (mono_tags, lifting) case_prod_conv)
  ultimately have "explained m" unfolding row(2) by (intro explainedI) blast
  then show ?thesis by (simp add: row(2) make_metric_def Let_def)
qed

lemma cycle_explained: "explained (conversion_cycle m year) \<and> me_name (conversion_cycle m year) = ''cash_conversion_cycle''"
  by (auto simp: conversion_cycle_def intro!: explainedI split: option.split)
    (auto simp: make_metric_def Let_def)

lemma growth_explained:
  assumes "growth_metric v p i year key = (k, m)"
  shows "explained m \<and> me_name m = k \<and> (\<forall>x. me_value m = Some x \<longrightarrow> is_finite x)"
proof -
  let ?c = "growth_current v i key" and ?p = "growth_prior p key"
  have m: "m = make_metric k (growth_ratio ?c ?p) (''('' @ key @ ''_current - '' @ key @ ''_prior) / abs('' @ key @ ''_prior)'')
      [(''current'', ?c), (''prior'', ?p)] year None"
    using assms by (auto simp: growth_metric_def Let_def)
  have "explained m" unfolding m by (rule explainedI) (auto dest: growth_known)
  moreover have "me_name m = k" unfolding m by (simp add: make_metric_def Let_def)
  ultimately show ?thesis by (auto simp: m dest: growth_known)
qed

lemma calculate_metrics_cases:
  assumes "(k, m) \<in> set (calculate_metrics v year p)"
  obtains "(k, m) \<in> set (period_metrics v p (inputs_of v p) year)"
  | "k = ''cash_conversion_cycle''" "m = conversion_cycle (period_metrics v p (inputs_of v p) year) year"
  | key where "key \<in> set growth_keys" "growth_metric v p (inputs_of v p) year key = (k, m)" "p \<noteq> []"
  using assms by (auto simp: calculate_metrics_def Let_def split: if_splits)

section \<open>Ratios are finite\<close>

definition quotient_names :: "string list" where
  "quotient_names = [''current_ratio'', ''quick_ratio'', ''cash_ratio'', ''debt_to_equity'', ''debt_to_assets'',
     ''liabilities_to_assets'', ''interest_coverage'', ''debt_to_ebitda'', ''gross_margin'', ''operating_margin'', ''net_margin'',
     ''roa'', ''roe'', ''cfo_to_net_income'', ''fcf_margin''] @ map (\<lambda>k. k @ ''_growth'') growth_keys"

text \<open>C32: Every computed metric is filed under its own name and explains itself: it has a value or a stated
  reason why not, never both, and a value only when every one of its inputs is known, so nothing is
  coerced to zero. Every ratio and growth rate that is published is a finite number.\<close>

theorem metrics_explained:
  assumes "(k, m) \<in> set (calculate_metrics v year previous)"
  shows "me_name m = k \<and> (me_value m = None \<longleftrightarrow> me_missing_reason m \<noteq> None) \<and>
    (me_value m \<noteq> None \<longrightarrow> all_known (me_inputs m)) \<and>
    (k \<in> set quotient_names \<longrightarrow> (\<forall>x. me_value m = Some x \<longrightarrow> is_finite x))"
  using assms
proof (cases rule: calculate_metrics_cases)
  case 1
  have "k \<in> set quotient_names \<longrightarrow> (\<forall>x. me_value m = Some x \<longrightarrow> is_finite x)"
    using 1 by (auto simp: period_metrics_def balance_specs_def performance_specs_def Let_def quotient_names_def growth_keys_def
        dest!: safe_div_known positive_only_known)
  then show ?thesis using period_metrics_explained[OF 1] unfolding explained_def by blast
next
  case 2
  have "k \<notin> set quotient_names" by (simp add: 2(1) quotient_names_def growth_keys_def)
  then show ?thesis using cycle_explained[of "period_metrics v previous (inputs_of v previous) year" year]
    unfolding 2 explained_def by blast
next
  case (3 key)
  show ?thesis using growth_explained[OF 3(2)] unfolding explained_def by blast
qed

definition sample_amounts :: amounts where
  "sample_amounts = [(''revenue'', Some (Fin 200)), (''gross_profit'', Some (Fin 80)), (''ebitda'', Some (Fin (- 5))),
     (''short_term_debt'', Some (Fin 30)), (''long_term_debt'', Some (Fin 70)), (''accounts_receivable'', Some (Fin 50)),
     (''cash'', None)]"

lemma sample_metrics:
  "metric_value (calculate_metrics sample_amounts 2024 [(''revenue'', Some (Fin 160))]) ''revenue_growth'' = Some (lit 1 4)"
  "metric_value (calculate_metrics sample_amounts 2024 []) ''gross_margin'' = Some (lit 4 10)"
  "metric_value (calculate_metrics sample_amounts 2024 []) ''debt_to_ebitda'' = None"
  "metric_value (calculate_metrics sample_amounts 2024 []) ''receivable_days'' = Some (lit 9125 100)"
  by code_simp+

theorem metrics_explained_witness:
  "\<exists>m. map_of (calculate_metrics sample_amounts 2024 []) ''debt_to_ebitda'' = Some m \<and>
     me_missing_reason m = Some ''EBITDA is non-positive; leverage is unbounded rather than low.'' \<and> me_value m = None"
proof -
  have "map_option me_missing_reason (map_of (calculate_metrics sample_amounts 2024 []) ''debt_to_ebitda'') =
      Some (Some ''EBITDA is non-positive; leverage is unbounded rather than low.'')" by code_simp
  then obtain m where m: "map_of (calculate_metrics sample_amounts 2024 []) ''debt_to_ebitda'' = Some m"
    "me_missing_reason m = Some ''EBITDA is non-positive; leverage is unbounded rather than low.''" by auto
  then show ?thesis using metrics_explained[OF map_of_SomeD[OF m(1)]] by simp
qed

text \<open>The quotient in days is not checked again after the multiplication: finite balances yield an
  infinite number of days.\<close>

lemma days_may_overflow: "days (Some (Fin (pow2 1016))) (Some (Fin 1)) = Some PInf"
proof -
  have q: "fl (pow2 1016) = Fin (pow2 1016)"
    using rnd_exact_aux[of 1 1016] pow2_pos[of 1016] by (intro fl_exact) (simp add: f64_lim_pow2 abs_of_pos del: pow2_pos)
  have "f64_lim = 256 * pow2 1016" 
    using pow2_add[of 8 1016] by (simp add: f64_lim_pow2 pow2_def)
  then have "f64_lim \<le> 365 * pow2 1016" using pow2_pos[of 1016] by linarith
  moreover have "rnd (365 * pow2 1016) = 365 * pow2 1016" using rnd_exact_aux[of 365 1016] by simp
  ultimately have "fl (pow2 1016 * 365) = PInf" by (simp add: fl_def mult.commute)
  then show ?thesis using q by (simp add: days_def safe_div_def)
qed

text \<open>A ratio that is withheld because net income is negative is explained by a zero denominator.\<close>

lemma withheld_reason_misleading:
  "map_option me_missing_reason (map_of (calculate_metrics
     [(''operating_cash_flow'', Some (Fin 5)), (''net_income'', Some (Fin (- 2)))] 2024 []) ''cfo_to_net_income'')
   = Some (Some ''Denominator is zero.'')"
  by code_simp

end
