(* ===== verification/Normalization.thy ===== *)
theory Normalization
  imports Grounding
begin

text \<open>
  Labels and numbers of financial statements (\<open>normalization.py\<close>). Characters are the code points
  0 to 255, so that the dashes, daggers and the euro sign that the code also handles do not occur.
\<close>

section \<open>Line items\<close>

definition aliases :: "(string \<times> string) list" where
  "aliases = [
    (''cash and cash equivalents'', ''cash''), (''cash equivalents'', ''cash''),
    (''trade receivables'', ''accounts_receivable''), (''accounts receivable'', ''accounts_receivable''),
    (''accounts receivable, net'', ''accounts_receivable''),
    (''inventories'', ''inventory''), (''total current assets'', ''current_assets''),
    (''total assets'', ''total_assets''), (''trade payables'', ''accounts_payable''),
    (''accounts payable'', ''accounts_payable''), (''total current liabilities'', ''current_liabilities''),
    (''short term borrowings'', ''short_term_debt''), (''short-term debt'', ''short_term_debt''),
    (''long term debt'', ''long_term_debt''), (''long-term debt'', ''long_term_debt''),
    (''total liabilities'', ''total_liabilities''), (''stockholders' equity'', ''shareholder_equity''),
    (''shareholders' equity'', ''shareholder_equity''), (''retained earnings'', ''retained_earnings''),
    (''net sales'', ''revenue''), (''revenue'', ''revenue''), (''gross profit'', ''gross_profit''),
    (''operating income'', ''operating_income''), (''interest expense'', ''interest_expense''),
    (''income before taxes'', ''pretax_income''), (''net income'', ''net_income''),
    (''net cash provided by operating activities'', ''operating_cash_flow''),
    (''capital expenditures'', ''capital_expenditure''), (''capital expenditure'', ''capital_expenditure''),
    (''net cash used in investing activities'', ''investing_cash_flow''),
    (''net cash provided by financing activities'', ''financing_cash_flow''),
    (''ebit'', ''ebit''), (''ebitda'', ''ebitda''), (''adjusted ebitda'', ''ebitda''),
    (''property, plant and equipment'', ''ppe''), (''property and equipment'', ''ppe''),
    (''property, plant and equipment, net'', ''ppe''),
    (''depreciation and amortization'', ''depreciation''),
    (''depreciation, depletion and amortization'', ''depreciation''),
    (''selling, general and administrative expenses'', ''sga''),
    (''selling, general and administrative'', ''sga''),
    (''shares outstanding'', ''shares_outstanding''),
    (''weighted average shares outstanding'', ''shares_outstanding''),
    (''market value of equity'', ''market_value_equity''),
    (''funds from operations'', ''funds_from_operations'')]"

text \<open>\<open>re.sub(r"\s*[*]+$", "", s)\<close> on the reversed text.\<close>

definition drop_marks :: "string \<Rightarrow> string" where
  "drop_marks s = (let r = rev s; rest = dropWhile (\<lambda>c. c = CHR ''*'') r
     in if rest = r then s else rev (dropWhile is_space rest))"

definition is_lower_letter :: "char \<Rightarrow> bool" where
  "is_lower_letter c = (let n = (of_char c :: int) in 97 \<le> n \<and> n \<le> 122)"

text \<open>\<open>re.sub(r"\s+\(?[a-z]\)?$", "", s)\<close> on the reversed text.\<close>

definition drop_footnote :: "string \<Rightarrow> string" where
  "drop_footnote s =
     (let r = rev s;
          r1 = (if r \<noteq> [] \<and> hd r = CHR '')'' then tl r else r)
      in if r1 \<noteq> [] \<and> is_lower_letter (hd r1)
         then (let r2 = tl r1;
                   r3 = (if r2 \<noteq> [] \<and> hd r2 = CHR ''('' then tl r2 else r2)
               in if r3 \<noteq> [] \<and> is_space (hd r3) then rev (dropWhile is_space r3) else s)
         else s)"

definition normalize_line_item :: "string \<Rightarrow> string option" where
  "normalize_line_item label = map_of aliases (drop_footnote (drop_marks (normalized (lower (strip label)))))"

section \<open>Numbers\<close>

definition ends_with :: "string \<Rightarrow> string \<Rightarrow> bool" where
  "ends_with p s = starts_with (rev p) (rev s)"

definition drop_chars :: "string \<Rightarrow> string \<Rightarrow> string" where
  "drop_chars cs s = filter (\<lambda>c. c \<notin> set cs) s"

definition comma_to_point :: "string \<Rightarrow> string" where
  "comma_to_point s = map (\<lambda>c. if c = CHR '','' then CHR ''.'' else c) s"

text \<open>\<open>s.rfind(",") > s.rfind(".")\<close> when both occur.\<close>

definition comma_last :: "string \<Rightarrow> bool" where
  "comma_last s = (find (\<lambda>c. c = CHR '','' \<or> c = CHR ''.'') (rev s) = Some (CHR '',''))"

text \<open>\<open>re.fullmatch(r"\d{1,3}(?:,\d{3})+", s)\<close>\<close>

fun comma_groups :: "string \<Rightarrow> bool" where
  "comma_groups (c # a # b # d # s) =
     (c = CHR '','' \<and> is_digit a \<and> is_digit b \<and> is_digit d \<and> (s = [] \<or> comma_groups s))"
| "comma_groups s = False"

definition thousands :: "string \<Rightarrow> bool" where
  "thousands s = (let h = takeWhile is_digit s; t = dropWhile is_digit s
     in 1 \<le> length h \<and> length h \<le> 3 \<and> comma_groups t)"

definition pound :: char where
  "pound = char_of (163 :: int)"

definition scale_multiplier :: "string \<Rightarrow> int" where
  "scale_multiplier scale = (let s = lower scale in
     if s = ''thousand'' \<or> s = ''thousands'' then 1000
     else if s = ''million'' \<or> s = ''millions'' then 1000000
     else if s = ''billion'' \<or> s = ''billions'' then 1000000000 else 1)"

definition divided_by_100 :: "pyfloat \<Rightarrow> pyfloat" where
  "divided_by_100 x = (case fdiv x (Fin 100) of Some r \<Rightarrow> r | None \<Rightarrow> NaN)"

definition unpunctuated :: "string \<Rightarrow> string" where
  "unpunctuated s =
     (let raw = filter (\<lambda>c. \<not> is_space c) (drop_chars (''-$%()'' @ [pound]) s);
          comma = CHR '','' \<in> set raw; point = CHR ''.'' \<in> set raw
      in if comma \<and> point
         then (if comma_last raw then comma_to_point (drop_chars ''.'' raw) else drop_chars '','' raw)
         else if comma then (if thousands raw then drop_chars '','' raw else comma_to_point raw)
         else raw)"

definition parse_number :: "string \<Rightarrow> string option \<Rightarrow> pyfloat option" where
  "parse_number text scale =
     (let raw = strip text in
      if raw = [] \<or> lower raw \<in> {''n/a'', ''na'', ''-'', ''not available''} then None
      else (let negative = (starts_with ''('' raw \<and> ends_with '')'' raw) \<or> starts_with ''-'' raw;
                percent = (CHR ''%'' \<in> set raw)
            in case float_of_str (unpunctuated raw) of
                 None \<Rightarrow> None
               | Some x \<Rightarrow>
                   (let y = (if negative then fneg x else x)
                    in if percent then Some (divided_by_100 y)
                       else Some (fmul y (fint (scale_multiplier (case scale of None \<Rightarrow> [] | Some t \<Rightarrow> t)))))))"

lemma parse_number_samples:
  "parse_number ''1,234'' None = Some (Fin 1234)"
  "parse_number ''1234,5'' None = Some (Fin (2469 / 2))"
  "parse_number ''(1.234,5)'' None = Some (Fin (- 2469 / 2))"
  "parse_number ''$ 12'' (Some ''Millions'') = Some (Fin 12000000)"
  "parse_number ''25%'' (Some ''millions'') = Some (Fin (1 / 4))"
  "normalize_line_item ''  Total  Assets (a)'' = Some ''total_assets''"
  "normalize_line_item ''Net sales **'' = Some ''revenue''"
  by code_simp+

text \<open>Text that is no amount is read as one: \<open>float\<close> accepts the names of the special values.\<close>

lemma special_values_parsed: "parse_number ''NaN'' None = Some NaN" "parse_number ''Infinity'' None = Some PInf"
  by code_simp+

text \<open>Every hyphen is deleted, also one inside the text, so that a range is read as one number.\<close>

lemma range_parsed: "parse_number ''2023-24'' None = Some (Fin 202324)"
  by code_simp

end
