(* ===== verification/Rules.thy ===== *)
theory Rules
  imports Metrics Normalization
begin

text \<open>
  The rule engine (\<open>rules.py\<close>). A rule is the JSON object of \<open>rules/rules.json\<close>; the engine
  validates every rule when it is constructed and evaluates the enabled ones on a dictionary of facts.
  \<open>disabled\<close> are the identifiers of \<open>rules/disabled_rules.json\<close>.
\<close>

section \<open>Comparison of values\<close>

definition operators :: "string list" where
  "operators = [''<'', ''<='', ''>'', ''>='', ''=='', ''!='']"

text \<open>Ordering is defined between numbers and between strings.\<close>

definition py_less :: "pyval \<Rightarrow> pyval \<Rightarrow> bool result" where
  "py_less a b = (case (num a, num b) of
     (Some x, Some y) \<Rightarrow> Inr (flt x y)
   | _ \<Rightarrow> (case (a, b) of (VStr s, VStr t) \<Rightarrow> Inr (s < t)
       | _ \<Rightarrow> Inl (TypeError ''not supported between instances'')))"

definition py_less_eq :: "pyval \<Rightarrow> pyval \<Rightarrow> bool result" where
  "py_less_eq a b = (case (num a, num b) of
     (Some x, Some y) \<Rightarrow> Inr (fle x y)
   | _ \<Rightarrow> (case (a, b) of (VStr s, VStr t) \<Rightarrow> Inr (s \<le> t)
       | _ \<Rightarrow> Inl (TypeError ''not supported between instances'')))"

definition compare_values :: "string \<Rightarrow> pyval \<Rightarrow> pyval \<Rightarrow> bool result" where
  "compare_values op a b =
     (if op = ''<'' then py_less a b else if op = ''<='' then py_less_eq a b
      else if op = ''>'' then py_less b a else if op = ''>='' then py_less_eq b a
      else if op = ''=='' then Inr (veq a b) else Inr (\<not> veq a b))"

section \<open>Validation\<close>

definition unhashable :: "pyval \<Rightarrow> bool" where
  "unhashable v = (is_list v \<or> is_dict v)"

definition nonblank_str :: "pyval \<Rightarrow> bool" where
  "nonblank_str v = (case v of VStr s \<Rightarrow> nonblank s | _ \<Rightarrow> False)"

definition rule_error :: "string \<Rightarrow> pyval \<Rightarrow> 'a result" where
  "rule_error text r = Inl (ValueError (text @ py_str (vget r ''id'')))"

text \<open>\<open>v in {...}\<close> for a set of strings: hashing a list or a dictionary raises.\<close>

definition in_strings :: "pyval \<Rightarrow> string list \<Rightarrow> bool result" where
  "in_strings v names = (if unhashable v then Inl (TypeError ''unhashable type'')
     else Inr (case v of VStr s \<Rightarrow> s \<in> set names | _ \<Rightarrow> False))"

text \<open>A number that is not a truth value, with \<open>math.isfinite\<close>.\<close>

definition finite_number :: "pyval \<Rightarrow> bool result" where
  "finite_number v = (case v of
     VInt i \<Rightarrow> bind_result (py_float v) (\<lambda>x. Inr (is_finite x))
   | VFloat x \<Rightarrow> Inr (is_finite x)
   | _ \<Rightarrow> Inr False)"

definition ensure :: "bool result \<Rightarrow> string \<Rightarrow> pyval \<Rightarrow> unit result" where
  "ensure b text r = bind_result b (\<lambda>x. if x then Inr () else rule_error text r)"

definition condition_fields :: "string list" where
  "condition_fields = [''metric'', ''operator'', ''value'']"

definition check_condition :: "pyval \<Rightarrow> pyval \<Rightarrow> unit result" where
  "check_condition r c =
     bind_result (ensure (Inr (is_dict c \<and> fst ` set (items c) = set condition_fields)) ''Invalid condition schema for '' r) (\<lambda>_.
     bind_result (ensure (Inr (is_str (vget c ''metric'') \<and> vget c ''metric'' \<noteq> VStr [])) ''Invalid metric for '' r) (\<lambda>_.
     bind_result (ensure (in_strings (vget c ''operator'') operators) ''Invalid operator for '' r) (\<lambda>_.
     if is_bool (vget c ''value'')
     then ensure (Inr (vget c ''operator'' = VStr ''=='' \<or> vget c ''operator'' = VStr ''!=''))
       ''Boolean condition requires equality operator for '' r
     else ensure (finite_number (vget c ''value'')) ''Invalid threshold for '' r)))"

fun check_all :: "('a \<Rightarrow> unit result) \<Rightarrow> 'a list \<Rightarrow> unit result" where
  "check_all f [] = Inr ()"
| "check_all f (x # xs) = bind_result (f x) (\<lambda>_. check_all f xs)"

definition required_rule :: "string list" where
  "required_rule = [''category'', ''conditions'', ''effect'', ''id'', ''rationale'', ''severity'']"

definition check_rule :: "pyval \<Rightarrow> unit result" where
  "check_rule r =
     (let missing = filter (\<lambda>k. \<not> has_key (items r) k) required_rule;
          conditions = vget r ''conditions''; delta = vget (vget r ''effect'') ''score_delta'' in
      if missing \<noteq> [] then Inl (ValueError (''Rule '' @ py_str (vget r ''id'') @ '' missing fields: '' @ py_str (VList (map VStr missing))))
      else bind_result (ensure (Inr (nonblank_str (vget r ''id''))) ''Rule ID must be a non-empty string'' r) (\<lambda>_.
      bind_result (ensure (if has_key (items r) ''aggregation'' then in_strings (vget r ''aggregation'') [''max'', ''additive''] else Inr True)
        ''Invalid aggregation for '' r) (\<lambda>_.
      bind_result (ensure (Inr (nonblank_str (vget r ''category''))) ''Invalid category for '' r) (\<lambda>_.
      bind_result (ensure (Inr (nonblank_str (vget r ''severity''))) ''Invalid severity for '' r) (\<lambda>_.
      bind_result (ensure (Inr (is_list conditions \<and> elems conditions \<noteq> [])) ''requires conditions '' r) (\<lambda>_.
      bind_result (ensure (finite_number delta) ''Invalid score_delta for '' r) (\<lambda>_.
      check_all (check_condition r) (elems conditions))))))))"

fun has_duplicates :: "pyval list \<Rightarrow> bool" where
  "has_duplicates [] = False"
| "has_duplicates (x # xs) = (list_ex (veq x) xs \<or> has_duplicates xs)"

definition rule_enabled :: "string list \<Rightarrow> pyval \<Rightarrow> bool" where
  "rule_enabled disabled r = ((if has_key (items r) ''enabled'' then truthy (vget r ''enabled'') else True) \<and>
     (case vget r ''id'' of VStr i \<Rightarrow> i \<notin> set disabled | _ \<Rightarrow> True))"

section \<open>What the pipeline can produce\<close>

definition change_metrics :: "string list" where
  "change_metrics = [''gross_margin'', ''operating_margin'', ''receivable_days'', ''inventory_days'', ''cash_conversion_cycle'']"

definition model_metric_names :: "(string \<times> string) list" where
  "model_metric_names = [(''Altman Z-Score'', ''altman_z_score''), (''Beneish M-Score'', ''beneish_m_score''),
     (''Piotroski F-Score'', ''piotroski_f_score''), (''Ohlson O-Score'', ''ohlson_o_score'')]"

definition narrative_names :: "string list" where
  "narrative_names = [''going_concern_doubt'', ''material_weakness'', ''refinancing_dependency'']"

definition altman_fact_keys :: "string list" where
  "altman_fact_keys = [''altman_z_score'', ''altman_z_prime_score'', ''altman_z_double_prime_score'']"

definition producible_fact_names :: "string list" where
  "producible_fact_names =
     map fst (calculate_metrics [(''revenue'', Some (Fin 1))] 2025 [(''revenue'', Some (Fin 1))]) @
     map (\<lambda>k. k @ ''_change'') change_metrics @ narrative_names @ map snd model_metric_names @ altman_fact_keys @
     [''negative_ebitda_leverage'', ''total_debt'', ''ohlson_probability''] @
     [''short_term_debt_growth'', ''accounts_receivable_growth_gap'', ''inventory_growth_gap''] @
     map snd aliases"

definition unproducible_rule_conditions :: "string list \<Rightarrow> pyval list \<Rightarrow> (pyval \<times> pyval) list" where
  "unproducible_rule_conditions disabled rules = concat (map (\<lambda>r.
     if rule_enabled disabled r
     then map (\<lambda>c. (vget r ''id'', vget c ''metric''))
       (filter (\<lambda>c. vget c ''metric'' \<notin> VStr ` set producible_fact_names) (elems (vget r ''conditions'')))
     else []) rules)"

definition rule_engine :: "string list \<Rightarrow> pyval list \<Rightarrow> pyval list result" where
  "rule_engine disabled rules =
     (if \<not> list_all (\<lambda>r. has_key (items r) ''id'') rules
      then Inl (if is_dict (hd (filter (\<lambda>r. \<not> has_key (items r) ''id'') rules)) then KeyError ''id'' else TypeError ''rule is not subscriptable by id'')
      else let ids = map (\<lambda>r. vget r ''id'') rules in
      if list_ex unhashable ids then Inl (TypeError ''unhashable type'')
      else if has_duplicates ids then Inl (ValueError ''Duplicate rule IDs'')
      else bind_result (check_all check_rule rules) (\<lambda>_.
        if unproducible_rule_conditions disabled rules \<noteq> [] then Inl (ValueError ''unproducible rule conditions'')
        else Inr (filter (rule_enabled disabled) rules)))"

section \<open>Evaluation\<close>

record rule_signal =
  rs_rule_id :: string
  rs_category :: string
  rs_severity :: string
  rs_score_delta :: pyfloat
  rs_rationale :: pyval
  rs_evidence :: "string list"
  rs_source_refs :: "evidence_ref list"
  rs_family :: "string option"
  rs_required_inputs :: "string list"
  rs_input_provenance :: "(string, evidence_ref list) dict"

fun str_of_value :: "pyval \<Rightarrow> string" where
  "str_of_value (VStr s) = s"
| "str_of_value _ = []"

definition condition_passed :: "obj \<Rightarrow> pyval \<Rightarrow> bool result" where
  "condition_passed facts c =
     (let actual = get facts (str_of_value (vget c ''metric''))
      in if actual = VNone then Inr False
         else compare_values (str_of_value (vget c ''operator'')) actual (vget c ''value''))"

definition condition_text :: "obj \<Rightarrow> pyval \<Rightarrow> string" where
  "condition_text facts c = str_of_value (vget c ''metric'') @ ''='' @ py_str (get facts (str_of_value (vget c ''metric''))) @
     '' '' @ str_of_value (vget c ''operator'') @ '' '' @ py_str (vget c ''value'')"

text \<open>The conditions that hold, in order; every condition is tried.\<close>

fun matching_conditions :: "obj \<Rightarrow> pyval list \<Rightarrow> pyval list result" where
  "matching_conditions facts [] = Inr []"
| "matching_conditions facts (c # cs) = bind_result (condition_passed facts c) (\<lambda>passed.
     bind_result (matching_conditions facts cs) (\<lambda>rest. Inr (if passed then c # rest else rest)))"

definition delta_value :: "pyval \<Rightarrow> pyfloat" where
  "delta_value v = (case num v of Some x \<Rightarrow> x | None \<Rightarrow> Fin 0)"

definition rule_family :: "pyval \<Rightarrow> string option" where
  "rule_family v = (case v of VStr s \<Rightarrow> Some s | _ \<Rightarrow> None)"

definition signal_of :: "obj \<Rightarrow> pyval \<Rightarrow> pyval list \<Rightarrow> rule_signal" where
  "signal_of facts r matches =
     \<lparr>rs_rule_id = str_of_value (vget r ''id''), rs_category = str_of_value (vget r ''category''),
      rs_severity = str_of_value (vget r ''severity''), rs_score_delta = delta_value (vget (vget r ''effect'') ''score_delta''),
      rs_rationale = vget r ''rationale'', rs_evidence = map (condition_text facts) matches, rs_source_refs = [],
      rs_family = rule_family (vget r ''family''),
      rs_required_inputs = map (\<lambda>c. str_of_value (vget c ''metric'')) (elems (vget r ''conditions'')), rs_input_provenance = []\<rparr>"

fun evaluate_rules :: "obj \<Rightarrow> pyval list \<Rightarrow> rule_signal list result" where
  "evaluate_rules facts [] = Inr []"
| "evaluate_rules facts (r # rs) =
     (let conditions = elems (vget r ''conditions'') in
      bind_result (matching_conditions facts conditions) (\<lambda>matches.
      bind_result (evaluate_rules facts rs) (\<lambda>out.
      Inr (if length matches = length conditions then signal_of facts r matches # out else out))))"

section \<open>Validated rules evaluate totally\<close>

lemma ensure_Inr [simp]: "ensure b text r = Inr u \<longleftrightarrow> b = Inr True"
  by (cases b) (auto simp: ensure_def rule_error_def)

lemma check_all_Inr [simp]: "check_all f xs = Inr u \<longleftrightarrow> (\<forall>x\<in>set xs. f x = Inr ())"
  by (induction xs) (auto simp: bind_result_Inr_iff)

lemma finite_number_num: "finite_number v = Inr True \<Longrightarrow> num v \<noteq> None"
  by (cases v) (auto simp: finite_number_def)

lemma check_condition_value: "check_condition r c = Inr u \<Longrightarrow> num (vget c ''value'') \<noteq> None"
  by (cases "vget c ''value''")
    (auto simp: check_condition_def bind_result_Inr_iff dest: finite_number_num split: if_splits)

lemma check_rule_conditions:
  assumes "check_rule r = Inr u"
  shows "elems (vget r ''conditions'') \<noteq> [] \<and> (\<forall>c\<in>set (elems (vget r ''conditions'')). num (vget c ''value'') \<noteq> None)"
  using assms check_condition_value unfolding check_rule_def Let_def
  by (auto simp: bind_result_Inr_iff split: if_splits)

definition numeric_facts :: "obj \<Rightarrow> bool" where
  "numeric_facts facts = (\<forall>k. get facts k = VNone \<or> num (get facts k) \<noteq> None)"

lemma compare_values_total: "num a \<noteq> None \<Longrightarrow> num b \<noteq> None \<Longrightarrow> is_ok (compare_values op a b)"
  by (auto simp: compare_values_def py_less_def py_less_eq_def)

lemma condition_passed_total:
  "numeric_facts facts \<Longrightarrow> num (vget c ''value'') \<noteq> None \<Longrightarrow> is_ok (condition_passed facts c)"
  unfolding condition_passed_def Let_def numeric_facts_def by (auto intro: compare_values_total)

definition condition_holds :: "obj \<Rightarrow> pyval \<Rightarrow> bool" where
  "condition_holds facts c = (condition_passed facts c = Inr True)"

lemma missing_fact_fails: "get facts (str_of_value (vget c ''metric'')) = VNone \<Longrightarrow> \<not> condition_holds facts c"
  by (simp add: condition_holds_def condition_passed_def Let_def)

definition rule_holds :: "obj \<Rightarrow> pyval \<Rightarrow> bool" where
  "rule_holds facts r = list_all (condition_holds facts) (elems (vget r ''conditions''))"

lemma matching_conditions_total:
  "(\<And>c. c \<in> set cs \<Longrightarrow> is_ok (condition_passed facts c)) \<Longrightarrow>
     matching_conditions facts cs = Inr (filter (condition_holds facts) cs)"
proof (induction cs)
  case (Cons c cs)
  obtain b where "condition_passed facts c = Inr b" using Cons.prems[of c] by (auto simp: is_ok_iff)
  then show ?case using Cons by (simp add: condition_holds_def)
qed simp

lemma filter_all: "length (filter P xs) = length xs \<longleftrightarrow> list_all P xs"
  by (metis filter_id_conv length_filter_less less_irrefl list_all_iff)

lemma evaluate_rules_total:
  assumes "numeric_facts facts" "\<And>r. r \<in> set rules \<Longrightarrow> check_rule r = Inr ()"
  shows "evaluate_rules facts rules =
    Inr (map (\<lambda>r. signal_of facts r (elems (vget r ''conditions''))) (filter (rule_holds facts) rules))"
  using assms(2)
proof (induction rules)
  case (Cons r rs)
  let ?cs = "elems (vget r ''conditions'')"
  have "matching_conditions facts ?cs = Inr (filter (condition_holds facts) ?cs)"
    using check_rule_conditions[of r] Cons.prems[of r]
    by (intro matching_conditions_total condition_passed_total[OF assms(1)]) auto
  moreover have "filter (condition_holds facts) ?cs = ?cs" if "rule_holds facts r"
    using that by (simp add: rule_holds_def list_all_iff)
  moreover have "evaluate_rules facts rs =
      Inr (map (\<lambda>r. signal_of facts r (elems (vget r ''conditions''))) (filter (rule_holds facts) rs))"
    using Cons by simp
  ultimately show ?case
    by (cases "rule_holds facts r") (simp_all add: filter_all rule_holds_def[symmetric] Let_def)
qed simp

lemma rule_engine_rules:
  assumes "rule_engine disabled raw = Inr rules"
  shows "rules = filter (rule_enabled disabled) raw" "\<forall>r\<in>set raw. check_rule r = Inr ()"
    "\<not> has_duplicates (map (\<lambda>r. vget r ''id'') raw)"
  using assms by (auto simp: rule_engine_def Let_def bind_result_Inr_iff split: if_splits)

text \<open>Facts with less known than others.\<close>

definition less_known :: "obj \<Rightarrow> obj \<Rightarrow> bool" where
  "less_known facts' facts = (\<forall>k. get facts' k = VNone \<or> get facts' k = get facts k)"

lemma condition_holds_less_known: "less_known facts' facts \<Longrightarrow> condition_holds facts' c \<Longrightarrow> condition_holds facts c"
  unfolding less_known_def condition_holds_def condition_passed_def Let_def by (metis Inr_inject)

lemma rule_holds_less_known: "less_known facts' facts \<Longrightarrow> rule_holds facts' r \<Longrightarrow> rule_holds facts r"
  using condition_holds_less_known by (auto simp: rule_holds_def list_all_iff)

text \<open>C33: An engine that was constructed evaluates every set of numeric facts without an error, and fires
  exactly the enabled rules all of whose conditions hold of known facts, in their order. A rule with a
  condition on a missing fact never fires, and facts that are less known fire no further rule.\<close>

theorem rules_fire_exactly:
  assumes "rule_engine disabled raw = Inr rules" "numeric_facts facts"
  shows "evaluate_rules facts rules = Inr (map (\<lambda>r. signal_of facts r (elems (vget r ''conditions'')))
      (filter (rule_holds facts) (filter (rule_enabled disabled) raw))) \<and>
    (\<forall>r\<in>set rules. \<forall>c\<in>set (elems (vget r ''conditions'')).
       get facts (str_of_value (vget c ''metric'')) = VNone \<longrightarrow> \<not> rule_holds facts r) \<and>
    (\<forall>facts'. less_known facts' facts \<longrightarrow> filter (rule_holds facts') rules =
       filter (rule_holds facts') (filter (rule_holds facts) rules))"
proof (intro conjI ballI allI impI)
  note r = rule_engine_rules[OF assms(1)]
  show "evaluate_rules facts rules = Inr (map (\<lambda>r. signal_of facts r (elems (vget r ''conditions'')))
      (filter (rule_holds facts) (filter (rule_enabled disabled) raw)))"
    unfolding r(1) by (rule evaluate_rules_total[OF assms(2)]) (use r(2) in auto)
  show "\<not> rule_holds facts x" if "x \<in> set rules" "c \<in> set (elems (vget x ''conditions''))"
      "get facts (str_of_value (vget c ''metric'')) = VNone" for x c
    using that missing_fact_fails[OF that(3)] by (auto simp: rule_holds_def list_all_iff)
  show "filter (rule_holds facts') rules = filter (rule_holds facts') (filter (rule_holds facts) rules)"
    if "less_known facts' facts" for facts'
    unfolding filter_filter by (rule filter_cong) (use rule_holds_less_known[OF that] in auto)
qed

definition sample_condition :: "string \<Rightarrow> string \<Rightarrow> pyval \<Rightarrow> pyval" where
  "sample_condition m op x = VDict [(''metric'', VStr m), (''operator'', VStr op), (''value'', x)]"

definition sample_rule :: "string \<Rightarrow> pyval list \<Rightarrow> pyval" where
  "sample_rule i conditions = VDict [(''id'', VStr i), (''family'', VStr ''f''), (''category'', VStr ''liquidity''),
     (''severity'', VStr ''high''), (''conditions'', VList conditions), (''effect'', VDict [(''score_delta'', VInt 18)]),
     (''rationale'', VStr ''r'')]"

definition sample_rules :: "pyval list" where
  "sample_rules = [sample_rule ''LIQ_001'' [sample_condition ''current_ratio'' ''<'' (VFloat (Fin 1))],
     sample_rule ''LIQ_002'' [sample_condition ''cash'' ''<'' (VInt 5), sample_condition ''current_ratio'' ''<'' (VInt 1)],
     sample_rule ''ACC_002'' [sample_condition ''current_ratio'' ''<'' (VInt 5)]]"

definition sample_facts :: obj where
  "sample_facts = [(''current_ratio'', VFloat (Fin (1 / 2))), (''cash'', VNone)]"

lemma sample_rules_ok: "rule_engine [''ACC_002''] sample_rules = Inr (take 2 sample_rules)"
  by code_simp

lemma sample_facts_numeric: "numeric_facts sample_facts"
  by (simp add: numeric_facts_def sample_facts_def get_def dict_get_def)

theorem rules_fire_exactly_witness:
  "\<exists>s. evaluate_rules sample_facts (take 2 sample_rules) = Inr [s] \<and> rs_rule_id s = ''LIQ_001''"
proof -
  have "filter (rule_holds sample_facts) (filter (rule_enabled [''ACC_002'']) sample_rules) = [hd sample_rules]"
    by code_simp
  then show ?thesis using rules_fire_exactly[OF sample_rules_ok sample_facts_numeric]
    by (simp add: signal_of_def sample_rules_def sample_rule_def vget_def)
qed

end
