(* ===== verification/Scoring.thy ===== *)
theory Scoring
  imports Rules Domain
begin

text \<open>
  Scores of the risk dimensions and the confidence of an assessment (\<open>scoring.py\<close>). The configuration
  \<open>config/scoring.json\<close> is a record of the values the code reads, with the defaults of the code where
  the file has none. Numbers are floats.
\<close>

section \<open>Effective signals\<close>

definition categories :: "string list" where
  "categories = [''liquidity'', ''solvency_leverage'', ''profitability'', ''cash_flow'', ''earnings_quality'', ''accounting'',
     ''governance_audit'', ''business_going_concern'']"

definition has_family :: "rule_signal \<Rightarrow> bool" where
  "has_family s = (case rs_family s of None \<Rightarrow> False | Some f \<Rightarrow> f \<noteq> [])"

definition signal_key :: "rule_signal \<Rightarrow> string \<times> string option" where
  "signal_key s = (rs_category s, rs_family s)"

definition keep_larger :: "(string \<times> string option, rule_signal) dict \<Rightarrow> rule_signal
    \<Rightarrow> (string \<times> string option, rule_signal) dict" where
  "keep_larger grouped s = (case map_of grouped (signal_key s) of
     None \<Rightarrow> AList.update (signal_key s) s grouped
   | Some t \<Rightarrow> if flt (rs_score_delta t) (rs_score_delta s) then AList.update (signal_key s) s grouped else grouped)"

definition effective_signals :: "rule_signal list \<Rightarrow> rule_signal list" where
  "effective_signals signals =
     map snd (foldl keep_larger [] (filter has_family signals)) @ filter (\<lambda>s. \<not> has_family s) signals"

section \<open>Aggregation\<close>

record scoring_config =
  sc_base_score :: pyfloat
  sc_category_cap :: pyfloat
  sc_contradiction_delta :: pyfloat
  sc_weights :: "(string, pyfloat) dict"
  sc_minimum_dimensions :: nat

record dimension =
  di_score :: "pyfloat option"
  di_level :: string
  di_trend :: string
  di_coverage :: pyfloat
  di_key_drivers :: "string list"

text \<open>A default dictionary: a category that is not present has the base score.\<close>

definition add_delta :: "pyfloat \<Rightarrow> (string, pyfloat) dict \<Rightarrow> string \<Rightarrow> pyfloat \<Rightarrow> (string, pyfloat) dict" where
  "add_delta base scores c x = AList.update c (fadd (dict_get scores c base) x) scores"

definition category_scores :: "scoring_config \<Rightarrow> rule_signal list \<Rightarrow> string list \<Rightarrow> (string, pyfloat) dict" where
  "category_scores config effective contradictions =
     foldl (\<lambda>d c. add_delta (sc_base_score config) d c (sc_contradiction_delta config))
       (foldl (\<lambda>d s. add_delta (sc_base_score config) d (rs_category s) (rs_score_delta s)) [] effective) contradictions"

definition capped :: "scoring_config \<Rightarrow> pyfloat \<Rightarrow> pyfloat" where
  "capped config x = pymin (sc_category_cap config) (pymax (Fin 0) x)"

definition dimension_of :: "scoring_config \<Rightarrow> rule_signal list \<Rightarrow> (string, pyfloat) dict \<Rightarrow> string \<Rightarrow> dimension" where
  "dimension_of config effective scores c =
     (case map_of scores c of
        Some x \<Rightarrow> \<lparr>di_score = Some (pround 1 (capped config x)), di_level = severity_label (Some (capped config x)),
          di_trend = ''unknown'', di_coverage = Fin 1, di_key_drivers = map rs_rule_id (filter (\<lambda>s. rs_category s = c) effective)\<rparr>
      | None \<Rightarrow> \<lparr>di_score = None, di_level = ''N/A'', di_trend = ''unknown'', di_coverage = Fin 0, di_key_drivers = []\<rparr>)"

text \<open>The sum over the covered categories runs in the order of the set; \<open>order\<close> is that order.\<close>

fun weighted_scores :: "scoring_config \<Rightarrow> (string, dimension) dict \<Rightarrow> string list \<Rightarrow> pyfloat list result" where
  "weighted_scores config dims [] = Inr []"
| "weighted_scores config dims (c # cs) =
     (case map_of dims c of
        None \<Rightarrow> Inl (KeyError c)
      | Some d \<Rightarrow> (case di_score d of None \<Rightarrow> Inl (TypeError ''unsupported operand'')
          | Some x \<Rightarrow> bind_result (weighted_scores config dims cs)
              (\<lambda>xs. Inr (fmul x (dict_get (sc_weights config) c (Fin 0)) # xs))))"

definition quotient :: "pyfloat \<Rightarrow> pyfloat \<Rightarrow> pyfloat result" where
  "quotient a b = (case fdiv a b of Some x \<Rightarrow> Inr x | None \<Rightarrow> Inl ZeroDivisionError)"

definition aggregate :: "scoring_config \<Rightarrow> rule_signal list \<Rightarrow> string list \<Rightarrow> string list
    \<Rightarrow> (pyfloat option \<times> string \<times> (string, dimension) dict) result" where
  "aggregate config signals contradictions order =
     (let effective = effective_signals signals;
          scores = category_scores config effective contradictions;
          dims = map (\<lambda>c. (c, dimension_of config effective scores c)) categories;
          active = fsum (map (\<lambda>c. dict_get (sc_weights config) c (Fin 0)) order)
      in if feq active (Fin 0) \<or> length order < sc_minimum_dimensions config then Inr (None, ''N/A'', dims)
         else bind_result (weighted_scores config dims order) (\<lambda>xs.
           bind_result (quotient (fsum xs) active) (\<lambda>overall.
           Inr (Some (pround 1 overall), severity_label (Some overall), dims))))"

section \<open>Confidence\<close>

definition required_fields :: "string list" where
  "required_fields = [''cash'', ''current_assets'', ''total_assets'', ''current_liabilities'', ''total_liabilities'',
     ''shareholder_equity'', ''revenue'', ''operating_income'', ''net_income'', ''operating_cash_flow'']"

definition share :: "nat \<Rightarrow> nat \<Rightarrow> pyfloat" where
  "share k n = int_div (int k) (int n)"

definition confidence_components :: "amounts \<Rightarrow> bool list \<Rightarrow> bool list \<Rightarrow> bool \<Rightarrow> string list \<Rightarrow> (string, pyfloat) dict" where
  "confidence_components v verified outputs multi_year statuses =
     (let completeness = share (length (filter (\<lambda>k. val v k \<noteq> None) required_fields)) (length required_fields);
          ev = (if verified = [] then Fin 0 else share (length (filter id verified)) (length verified));
          numeric = coverage_ratio statuses provenance_covered;
          applicable = share (length (filter id outputs)) (max 1 (length outputs))
      in map (\<lambda>(k, x). (k, pround 3 x))
        [(''core_data_completeness'', completeness), (''numeric_provenance_coverage'', numeric),
         (''verified_claim_coverage'', ev), (''applicable_model_coverage'', applicable),
         (''temporal_depth'', if multi_year then Fin 1 else Fin (1 / 2))])"

definition confidence :: "amounts \<Rightarrow> bool list \<Rightarrow> bool list \<Rightarrow> bool \<Rightarrow> string list \<Rightarrow> pyfloat" where
  "confidence v verified outputs multi_year statuses =
     (let c = confidence_components v verified outputs multi_year statuses;
          part = (\<lambda>w k. fmul w (dict_get c k NaN));
          score = fadd (fadd (fadd (fadd (part (lit 35 100) ''core_data_completeness'') (part (lit 25 100) ''numeric_provenance_coverage''))
            (part (lit 2 10) ''verified_claim_coverage'')) (part (lit 1 10) ''applicable_model_coverage'')) (part (lit 1 10) ''temporal_depth'')
      in pround 2 (pymin (lit 99 100) (pymax (lit 5 100) score)))"

section \<open>One signal per family counts\<close>

text \<open>After a list of signals was grouped: every key names its group, the kept signal is one of the list, and no
  signal of the list is larger than the kept one of its group.\<close>

definition grouped_ok :: "rule_signal list \<Rightarrow> (string \<times> string option, rule_signal) dict \<Rightarrow> bool" where
  "grouped_ok seen g = (wf_dict g \<and> (\<forall>(k, s)\<in>set g. signal_key s = k \<and> s \<in> set seen) \<and>
     (\<forall>s\<in>set seen. \<exists>t. map_of g (signal_key s) = Some t \<and> fle (rs_score_delta s) (rs_score_delta t)))"

lemma keep_larger_ok:
  assumes ok: "grouped_ok seen g" and n: "rs_score_delta s \<noteq> NaN" "\<forall>t\<in>set seen. rs_score_delta t \<noteq> NaN"
  shows "grouped_ok (seen @ [s]) (keep_larger g s)"
proof -
  have put: "grouped_ok (seen @ [s]) (AList.update (signal_key s) s g)"
    if le: "\<And>t. map_of g (signal_key s) = Some t \<Longrightarrow> fle (rs_score_delta t) (rs_score_delta s)"
  proof -
    have "\<exists>t. ((map_of g)(signal_key s \<mapsto> s)) (signal_key x) = Some t \<and> fle (rs_score_delta x) (rs_score_delta t)"
      if x: "x \<in> set seen" for x
    proof -
      obtain t where "map_of g (signal_key x) = Some t" "fle (rs_score_delta x) (rs_score_delta t)"
        using ok x unfolding grouped_ok_def by blast
      then show ?thesis using le[of t] fle_trans by (cases "signal_key x = signal_key s") auto
    qed
    then show ?thesis
      using ok n(1) set_update_subset[of "signal_key s" s g] by (auto simp: grouped_ok_def fle_refl_iff)
  qed
  show ?thesis
  proof (cases "map_of g (signal_key s)")
    case None
    then show ?thesis using put by (simp add: keep_larger_def)
  next
    case (Some t)
    have t: "t \<in> set seen" using ok map_of_SomeD[OF Some] by (auto simp: grouped_ok_def)
    show ?thesis
    proof (cases "flt (rs_score_delta t) (rs_score_delta s)")
      case True
      then show ?thesis using put Some by (simp add: keep_larger_def flt_def)
    next
      case False
      then have "fle (rs_score_delta s) (rs_score_delta t)" using n t fle_total by (auto simp: flt_def)
      then show ?thesis using ok Some False by (fastforce simp: keep_larger_def grouped_ok_def)
    qed
  qed
qed

lemma grouped_fold:
  "\<forall>s\<in>set ss. rs_score_delta s \<noteq> NaN \<Longrightarrow> \<forall>s\<in>set seen. rs_score_delta s \<noteq> NaN \<Longrightarrow> grouped_ok seen g \<Longrightarrow>
     grouped_ok (seen @ ss) (foldl keep_larger g ss)"
proof (induction ss arbitrary: seen g)
  case (Cons s ss)
  then show ?case using Cons.IH[of "seen @ [s]" "keep_larger g s"] keep_larger_ok[of seen g s] by auto
qed simp

lemma effective_signals_props:
  assumes "\<forall>s\<in>set signals. rs_score_delta s \<noteq> NaN"
  shows "set (effective_signals signals) \<subseteq> set signals"
    "distinct (map signal_key (filter has_family (effective_signals signals)))"
    "s \<in> set signals \<Longrightarrow> \<exists>t\<in>set (effective_signals signals). signal_key t = signal_key s \<and>
       fle (rs_score_delta s) (rs_score_delta t)"
proof -
  let ?g = "foldl keep_larger [] (filter has_family signals)"
  have g: "grouped_ok (filter has_family signals) ?g"
    using grouped_fold[of "filter has_family signals" "[]" "[]"] assms by (auto simp: grouped_ok_def)
  have fam: "\<forall>x\<in>set (map snd ?g). has_family x \<and> x \<in> set signals" using g by (auto simp: grouped_ok_def)
  then show "set (effective_signals signals) \<subseteq> set signals" by (auto simp: effective_signals_def)
  have "filter has_family (effective_signals signals) = map snd ?g"
    using fam by (simp add: effective_signals_def filter_id_conv)
  moreover have "map signal_key (map snd ?g) = map fst ?g" using g by (auto simp: grouped_ok_def)
  moreover have "distinct (map fst ?g)" using g by (simp add: grouped_ok_def wf_dict_def)
  ultimately show "distinct (map signal_key (filter has_family (effective_signals signals)))" by (simp only:)
  assume s: "s \<in> set signals"
  show "\<exists>t\<in>set (effective_signals signals). signal_key t = signal_key s \<and> fle (rs_score_delta s) (rs_score_delta t)"
  proof (cases "has_family s")
    case True
    then obtain t where t: "map_of ?g (signal_key s) = Some t" "fle (rs_score_delta s) (rs_score_delta t)"
      using g s by (auto simp: grouped_ok_def)
    have "t \<in> snd ` set ?g" using map_of_SomeD[OF t(1)] by (rule image_eqI[rotated]) simp
    moreover have "signal_key t = signal_key s" using g map_of_SomeD[OF t(1)] by (auto simp: grouped_ok_def)
    ultimately show ?thesis using t(2) by (auto simp: effective_signals_def)
  next
    case False
    then show ?thesis using s assms by (intro bexI[of _ s]) (auto simp: effective_signals_def fle_refl_iff)
  qed
qed

lemma effective_categories:
  assumes "\<forall>s\<in>set signals. rs_score_delta s \<noteq> NaN"
  shows "rs_category ` set (effective_signals signals) = rs_category ` set signals"
proof
  show "rs_category ` set (effective_signals signals) \<subseteq> rs_category ` set signals"
    using effective_signals_props(1)[OF assms] by blast
  show "rs_category ` set signals \<subseteq> rs_category ` set (effective_signals signals)"
  proof
    fix c assume "c \<in> rs_category ` set signals"
    then obtain s where s: "s \<in> set signals" "c = rs_category s" by blast
    from effective_signals_props(3)[OF assms s(1)] obtain t where "t \<in> set (effective_signals signals)" "rs_category t = c"
      using s(2) by (auto simp: signal_key_def)
    then show "c \<in> rs_category ` set (effective_signals signals)" by blast
  qed
qed

lemma keys_add_delta: "fst ` set (foldl (\<lambda>d x. add_delta base d (f x) (g x)) d xs) = fst ` set d \<union> f ` set xs"
  by (induction xs arbitrary: d) (auto simp: add_delta_def)

lemma scored_categories:
  "fst ` set (category_scores config effective contradictions) = rs_category ` set effective \<union> set contradictions"
  unfolding category_scores_def using keys_add_delta[where f = id] by (simp add: keys_add_delta)

lemma capped_score_range:
  assumes "fle (Fin 0) (sc_category_cap config)"
  shows "fle (Fin 0) (capped config x) \<and> fle (capped config x) (sc_category_cap config)"
  using assms by (cases x; cases "sc_category_cap config") (auto simp: capped_def pymin_def pymax_def flt_def)

text \<open>C34: In every assessment exactly one strongest signal per category and family counts, a dimension has a
  score exactly when a signal or a contradiction is about it, every score lies between 0 and the rounded
  cap, the key drivers are the effective signals of the dimension, and there is no overall score when
  the weights of the covered dimensions sum to 0 or too few dimensions are covered.\<close>

theorem dimension_scores_sound:
  assumes "aggregate config signals contradictions order = Inr (overall, level, dims)"
    and "\<forall>s\<in>set signals. rs_score_delta s \<noteq> NaN" "fle (Fin 0) (sc_category_cap config)"
    and "distinct order" "set order = rs_category ` set signals \<union> set contradictions"
  shows "map fst dims = categories \<and>
    distinct (map signal_key (filter has_family (effective_signals signals))) \<and>
    (\<forall>s\<in>set signals. \<exists>t\<in>set (effective_signals signals). signal_key t = signal_key s \<and>
       fle (rs_score_delta s) (rs_score_delta t)) \<and>
    (\<forall>(c, d)\<in>set dims. (di_score d = None \<longleftrightarrow> c \<notin> rs_category ` set signals \<union> set contradictions) \<and>
       set (di_key_drivers d) = rs_rule_id ` {s \<in> set (effective_signals signals). rs_category s = c} \<and>
       (\<forall>x. di_score d = Some x \<longrightarrow> fle (pround 1 (Fin 0)) x \<and> fle x (pround 1 (sc_category_cap config)))) \<and>
    (overall = None \<longleftrightarrow> feq (fsum (map (\<lambda>c. dict_get (sc_weights config) c (Fin 0)) order)) (Fin 0) \<or>
       card (rs_category ` set signals \<union> set contradictions) < sc_minimum_dimensions config)"
proof -
  let ?e = "effective_signals signals" and ?covered = "rs_category ` set signals \<union> set contradictions"
  let ?scores = "category_scores config ?e contradictions"
  have dims: "dims = map (\<lambda>c. (c, dimension_of config ?e ?scores c)) categories"
    using assms(1) by (auto simp: aggregate_def Let_def bind_result_Inr_iff split: if_splits)
  have keys: "map_of ?scores c = None \<longleftrightarrow> c \<notin> ?covered" for c
    unfolding map_of_eq_None_iff scored_categories using effective_categories[OF assms(2)] by simp
  have keys': "map_of ?scores c = Some y \<Longrightarrow> c \<in> ?covered" for c y using keys[of c] by auto
  have no_driver: "{s \<in> set ?e. rs_category s = c} = {}" if "map_of ?scores c = None" for c
    using that scored_categories[of config ?e contradictions] by (auto simp: map_of_eq_None_iff)
  have "\<forall>(c, d)\<in>set dims. (di_score d = None \<longleftrightarrow> c \<notin> ?covered) \<and>
       set (di_key_drivers d) = rs_rule_id ` {s \<in> set ?e. rs_category s = c} \<and>
       (\<forall>x. di_score d = Some x \<longrightarrow> fle (pround 1 (Fin 0)) x \<and> fle x (pround 1 (sc_category_cap config)))"
    unfolding dims using keys keys' capped_score_range[OF assms(3)] no_driver
    by (auto simp: dimension_of_def intro: pround_mono simp del: pround.simps split: option.splits)
  moreover have "overall = None \<longleftrightarrow> feq (fsum (map (\<lambda>c. dict_get (sc_weights config) c (Fin 0)) order)) (Fin 0) \<or>
       card ?covered < sc_minimum_dimensions config"
    using assms(1,4,5) by (auto simp: aggregate_def Let_def bind_result_Inr_iff distinct_card[symmetric] split: if_splits)
  ultimately show ?thesis
    using effective_signals_props(2,3)[OF assms(2)] by (simp add: dims comp_def)
qed

definition sample_scoring :: scoring_config where
  "sample_scoring = \<lparr>sc_base_score = Fin 10, sc_category_cap = Fin 100, sc_contradiction_delta = Fin 10,
     sc_weights = [(''liquidity'', Fin 2), (''cash_flow'', Fin 1)], sc_minimum_dimensions = 2\<rparr>"

definition sample_signal :: "string \<Rightarrow> string \<Rightarrow> string option \<Rightarrow> int \<Rightarrow> rule_signal" where
  "sample_signal i c f x = \<lparr>rs_rule_id = i, rs_category = c, rs_severity = ''high'', rs_score_delta = fint x, rs_rationale = VNone,
     rs_evidence = [], rs_source_refs = [], rs_family = f, rs_required_inputs = [], rs_input_provenance = []\<rparr>"

definition sample_signals :: "rule_signal list" where
  "sample_signals = [sample_signal ''L1'' ''liquidity'' (Some ''f'') 18, sample_signal ''L2'' ''liquidity'' (Some ''f'') 24,
     sample_signal ''L3'' ''liquidity'' None 95]"

theorem dimension_scores_sound_witness:
  "\<exists>dims. aggregate sample_scoring sample_signals [''cash_flow''] [''liquidity'', ''cash_flow''] =
       Inr (Some (lit 733 10), ''High'', dims) \<and> map fst dims = categories"
proof -
  have "case aggregate sample_scoring sample_signals [''cash_flow''] [''liquidity'', ''cash_flow''] of
      Inl _ \<Rightarrow> False | Inr (x, l, _) \<Rightarrow> x = Some (lit 733 10) \<and> l = ''High''" by code_simp
  then obtain dims where d: "aggregate sample_scoring sample_signals [''cash_flow''] [''liquidity'', ''cash_flow''] =
      Inr (Some (lit 733 10), ''High'', dims)" by (auto split: sum.splits)
  have "\<forall>s\<in>set sample_signals. rs_score_delta s \<noteq> NaN" by (simp add: sample_signals_def sample_signal_def fint_def)
  moreover have "fle (Fin 0) (sc_category_cap sample_scoring)" by (simp add: sample_scoring_def)
  moreover have "set [''liquidity'', ''cash_flow''] = rs_category ` set sample_signals \<union> set [''cash_flow'']"
    by (simp add: sample_signals_def sample_signal_def insert_commute)
  ultimately have "map fst dims = categories" using dimension_scores_sound[OF d] by simp
  then show ?thesis using d by blast
qed

text \<open>The level of the overall score is that of the score before rounding: next to a band the published
  score and its level disagree.\<close>

lemma published_level_differs:
  "pround 1 (lit 5996 100) = Fin 60 \<and> severity_label (Some (lit 5996 100)) = ''Moderate'' \<and> severity_label (Some (Fin 60)) = ''High''"
  by code_simp

end
