(* ===== verification/Models.thy ===== *)
theory Models
  imports Scoring Engine
begin

text \<open>
  Traditional distress models (\<open>models.py\<close>) and the routing of their applicability
  (\<open>enterprise/applicability.py\<close>). Amounts are floats or missing. \<open>math.log\<close> and \<open>math.exp\<close> are
  the arguments \<open>ln_of\<close> and \<open>exp_of\<close>, applied only where the library functions return.
\<close>

section \<open>Results\<close>

text \<open>An output is a float, the count of Piotroski's signals, or missing.\<close>

record model_result =
  mr_name :: string
  mr_output :: pyval
  mr_interpretation :: string
  mr_applicability :: string
  mr_inputs :: obj
  mr_formula :: string
  mr_missing :: "string list"
  mr_derived :: obj

definition amounts_obj :: "amounts \<Rightarrow> obj" where
  "amounts_obj v = map (\<lambda>(k, x). (k, vopt VFloat x)) v"

text \<open>\<open>v[k]\<close> for a key whose value was checked before.\<close>

definition given :: "amounts \<Rightarrow> string \<Rightarrow> pyfloat" where
  "given v k = (case val v k of Some x \<Rightarrow> x | None \<Rightarrow> NaN)"

definition missing_keys :: "amounts \<Rightarrow> string list \<Rightarrow> string list" where
  "missing_keys v keys = filter (\<lambda>k. val v k = None) keys"

definition invalid_keys :: "amounts \<Rightarrow> string list \<Rightarrow> string list \<Rightarrow> string list" where
  "invalid_keys v keys positive = sorted_set
     (filter (\<lambda>k. case val v k of None \<Rightarrow> False | Some x \<Rightarrow> \<not> is_finite x) keys @
      filter (\<lambda>k. case val v k of None \<Rightarrow> False | Some x \<Rightarrow> fle x (Fin 0)) positive)"

text \<open>Quotients in the order in which the code forms them.\<close>

fun quotients :: "(pyfloat \<times> pyfloat) list \<Rightarrow> pyfloat list result" where
  "quotients [] = Inr []"
| "quotients ((a, b) # ps) = bind_result (quotient a b) (\<lambda>x. bind_result (quotients ps) (\<lambda>xs. Inr (x # xs)))"

text \<open>\<open>c0 * x0 + c1 * x1 + ...\<close>, from the left.\<close>

fun weighted :: "pyfloat list \<Rightarrow> pyfloat list \<Rightarrow> pyfloat" where
  "weighted (c # cs) (x # xs) = foldl fadd (fmul c x) (map2 fmul cs xs)"
| "weighted _ _ = Fin 0"

text \<open>A model that was not evaluated.\<close>

definition no_output :: "string \<Rightarrow> string \<Rightarrow> string \<Rightarrow> obj \<Rightarrow> string \<Rightarrow> string list \<Rightarrow> model_result" where
  "no_output name interpretation applicability inputs formula missing =
     \<lparr>mr_name = name, mr_output = VNone, mr_interpretation = interpretation, mr_applicability = applicability,
      mr_inputs = inputs, mr_formula = formula, mr_missing = missing, mr_derived = []\<rparr>"

section \<open>Altman\<close>

record altman_spec =
  as_fact_key :: string
  as_equity_field :: string
  as_components :: "string list"
  as_coefficients :: "pyfloat list"
  as_use_revenue :: bool
  as_thresholds :: "pyfloat \<times> pyfloat"
  as_formula :: string
  as_interpretation :: string

definition altman_variants :: "(string \<times> altman_spec) list" where
  "altman_variants = [
     (''public_manufacturer'', \<lparr>as_fact_key = ''altman_z_score'', as_equity_field = ''market_value_equity'',
       as_components = [''working_capital'', ''retained_earnings'', ''ebit'', ''market_value_equity'',
         ''total_liabilities'', ''revenue'', ''total_assets''],
       as_coefficients = [lit 12 10, lit 14 10, lit 33 10, lit 6 10, lit 1 1], as_use_revenue = True,
       as_thresholds = (lit 181 100, lit 299 100), as_formula = ''1.2X1+1.4X2+3.3X3+0.6X4+1.0X5'',
       as_interpretation = ''Public manufacturing companies; heuristic outside original population''\<rparr>),
     (''private'', \<lparr>as_fact_key = ''altman_z_prime_score'', as_equity_field = ''shareholder_equity'',
       as_components = [''working_capital'', ''retained_earnings'', ''ebit'', ''shareholder_equity'',
         ''total_liabilities'', ''revenue'', ''total_assets''],
       as_coefficients = [lit 717 1000, lit 847 1000, lit 3107 1000, lit 420 1000, lit 998 1000], as_use_revenue = True,
       as_thresholds = (lit 123 100, lit 290 100), as_formula = ''0.717X1+0.847X2+3.107X3+0.420X4+0.998X5'',
       as_interpretation = ''Private-firm Z' variant (book equity replaces market value); heuristic''\<rparr>),
     (''non_manufacturer'', \<lparr>as_fact_key = ''altman_z_double_prime_score'', as_equity_field = ''shareholder_equity'',
       as_components = [''working_capital'', ''retained_earnings'', ''ebit'', ''shareholder_equity'',
         ''total_liabilities'', ''total_assets''],
       as_coefficients = [lit 656 100, lit 326 100, lit 672 100, lit 105 100], as_use_revenue = False,
       as_thresholds = (lit 415 100, lit 585 100), as_formula = ''6.56X1+3.26X2+6.72X3+1.05X4'',
       as_interpretation = ''Non-manufacturer Z'' @ [CHR 0x27, CHR 0x27] @ '' variant (asset-turnover term omitted); heuristic''\<rparr>)]"

definition altman_private_types :: "string list" where
  "altman_private_types = [''private'', ''private_company'', ''private_manufacturer'']"

definition altman_manufacturing_types :: "string list" where
  "altman_manufacturing_types = [''manufacturing'', ''industrial'', ''public_manufacturer'', ''public'']"

definition altman_non_manufacturing_types :: "string list" where
  "altman_non_manufacturing_types = [''non_manufacturer'', ''retail'', ''service'']"

definition altman_financial_types :: "string list" where
  "altman_financial_types = [''bank'', ''banking'', ''financial_institution'']"

definition altman_variant :: "string \<Rightarrow> string result" where
  "altman_variant entity_type =
     (let key = strip (lower entity_type) in
      if key \<in> set altman_private_types then Inr ''private''
      else if key \<in> set altman_manufacturing_types then Inr ''public_manufacturer''
      else if key \<in> set (altman_non_manufacturing_types @ altman_financial_types) then Inr ''non_manufacturer''
      else Inl (ValueError (''unknown entity_type: '' @ str_repr entity_type)))"

definition altman_spec_of :: "string \<Rightarrow> altman_spec" where
  "altman_spec_of variant = the (map_of altman_variants variant)"

text \<open>The conditional chain on \<open>z\<close>.\<close>

definition altman_zone :: "pyfloat \<times> pyfloat \<Rightarrow> pyfloat \<Rightarrow> string" where
  "altman_zone thresholds z = (if flt z (fst thresholds) then ''Distress zone''
     else if flt z (snd thresholds) then ''Grey zone'' else ''Safe zone'')"

definition altman_terms :: "altman_spec \<Rightarrow> amounts \<Rightarrow> pyfloat list result" where
  "altman_terms spec v =
     (let assets = given v ''total_assets'' in
      bind_result (quotients [(given v ''working_capital'', assets), (given v ''retained_earnings'', assets),
        (given v ''ebit'', assets), (given v (as_equity_field spec), given v ''total_liabilities'')]) (\<lambda>xs.
      bind_result (if as_use_revenue spec then quotients [(given v ''revenue'', assets)] else Inr []) (\<lambda>turnover.
      Inr (xs @ turnover))))"

definition altman_z :: "amounts \<Rightarrow> string \<Rightarrow> model_result result" where
  "altman_z v entity_type = bind_result (altman_variant entity_type) (\<lambda>variant.
     let spec = altman_spec_of variant; keys = as_components spec; miss = missing_keys v keys;
         invalid = invalid_keys v keys [''total_assets'', ''total_liabilities'']
     in if strip (lower entity_type) \<in> set altman_financial_types
        then Inr (no_output ''Altman Z-Score'' ''Model not applicable'' ''Excluded for financial institutions'' []
          (as_formula spec) keys)
        else if miss \<noteq> [] then Inr (no_output ''Altman Z-Score'' ''Insufficient data'' (as_interpretation spec)
          (amounts_obj v) (as_formula spec) miss)
        else if invalid \<noteq> [] then Inr (no_output ''Altman Z-Score'' ''Invalid input domain'' (as_interpretation spec)
          (amounts_obj v) (as_formula spec) invalid)
        else bind_result (altman_terms spec v) (\<lambda>xs.
          let z = weighted (as_coefficients spec) xs; (distress, safe) = as_thresholds spec
          in Inr \<lparr>mr_name = ''Altman Z-Score'', mr_output = VFloat (pround 4 z),
               mr_interpretation = altman_zone (distress, safe) z, mr_applicability = as_interpretation spec,
               mr_inputs = amounts_obj v, mr_formula = as_formula spec, mr_missing = [],
               mr_derived = [(''variant'', VStr variant), (''fact_key'', VStr (as_fact_key spec)),
                 (''zone_boundaries'', VList [VFloat distress, VFloat safe])]\<rparr>))"

section \<open>Beneish\<close>

definition beneish_keys :: "string list" where
  "beneish_keys = [''accounts_receivable'', ''revenue'', ''gross_profit'', ''current_assets'', ''current_liabilities'',
     ''ppe'', ''total_assets'', ''depreciation'', ''sga'', ''long_term_debt'', ''net_income'', ''operating_cash_flow'']"

text \<open>\<open>safe(a, b)\<close>, where the arguments are numbers or \<open>None\<close>.\<close>

definition safe_ratio :: "pyfloat option \<Rightarrow> pyfloat option \<Rightarrow> pyfloat option" where
  "safe_ratio a b = (case (a, b) of
     (Some x, Some y) \<Rightarrow> if feq y (Fin 0) then None else fdiv x y
   | _ \<Rightarrow> None)"

definition depreciation_rate :: "amounts \<Rightarrow> pyfloat option" where
  "depreciation_rate v = safe_ratio (Some (given v ''depreciation''))
     (Some (fadd (given v ''depreciation'') (given v ''ppe'')))"

text \<open>The ratios of one period whose divisors were checked to be positive: receivables, gross profit and
  expenses over revenue; liquid and fixed assets, and debt, over total assets.\<close>

definition beneish_ratios :: "amounts \<Rightarrow> pyfloat list result" where
  "beneish_ratios v = (let revenue = given v ''revenue''; assets = given v ''total_assets'' in
     quotients [(given v ''accounts_receivable'', revenue), (given v ''gross_profit'', revenue),
       (fadd (given v ''current_assets'') (given v ''ppe''), assets), (given v ''sga'', revenue),
       (fadd (given v ''current_liabilities'') (given v ''long_term_debt''), assets)])"

definition beneish_values :: "amounts \<Rightarrow> amounts \<Rightarrow> amounts result" where
  "beneish_values c p =
     bind_result (beneish_ratios c) (\<lambda>x. bind_result (beneish_ratios p) (\<lambda>y.
     bind_result (quotient (fsub (given c ''net_income'') (given c ''operating_cash_flow'')) (given c ''total_assets'')) (\<lambda>tata.
     let r = (\<lambda>a b. safe_ratio (Some a) (Some b))
     in Inr [(''DSRI'', r (x ! 0) (y ! 0)), (''GMI'', r (y ! 1) (x ! 1)),
       (''AQI'', r (fsub (Fin 1) (x ! 2)) (fsub (Fin 1) (y ! 2))),
       (''SGI'', r (given c ''revenue'') (given p ''revenue'')),
       (''DEPI'', safe_ratio (depreciation_rate p) (depreciation_rate c)),
       (''SGAI'', r (x ! 3) (y ! 3)), (''TATA'', Some tata), (''LVGI'', r (x ! 4) (y ! 4))])))"

definition beneish_sum :: "amounts \<Rightarrow> pyfloat" where
  "beneish_sum t = (let v = given t in
     fsub (fadd (fsub (fadd (fadd (fadd (fadd (fadd (fneg (lit 484 100)) (fmul (lit 920 1000) (v ''DSRI'')))
       (fmul (lit 528 1000) (v ''GMI''))) (fmul (lit 404 1000) (v ''AQI''))) (fmul (lit 892 1000) (v ''SGI'')))
       (fmul (lit 115 1000) (v ''DEPI''))) (fmul (lit 172 1000) (v ''SGAI''))) (fmul (lit 4679 1000) (v ''TATA'')))
       (fmul (lit 327 1000) (v ''LVGI'')))"

definition beneish_note :: string where
  "beneish_note = ''Screening signal, not proof of manipulation''"

definition beneish_formula :: string where
  "beneish_formula = ''Beneish 8-variable formula''"

definition beneish_m :: "amounts \<Rightarrow> amounts \<Rightarrow> model_result result" where
  "beneish_m c p =
     (let miss = sorted_set (missing_keys c beneish_keys @ missing_keys p beneish_keys);
          positive = [''revenue'', ''total_assets''];
          invalid = sorted_set (invalid_keys c beneish_keys positive @ invalid_keys p beneish_keys positive)
      in if miss \<noteq> [] then Inr (no_output ''Beneish M-Score'' ''Insufficient data'' beneish_note []
           ''-4.84+0.920DSRI+0.528GMI+0.404AQI+0.892SGI+0.115DEPI-0.172SGAI+4.679TATA-0.327LVGI'' miss)
         else if invalid \<noteq> [] then Inr (no_output ''Beneish M-Score'' ''Invalid input domain'' beneish_note []
           beneish_formula invalid)
         else bind_result (beneish_values c p) (\<lambda>t.
           if list_ex (\<lambda>(_, x). case x of None \<Rightarrow> True | Some y \<Rightarrow> \<not> is_finite y) t
           then Inr (no_output ''Beneish M-Score'' ''Invalid denominator'' beneish_note (amounts_obj t)
             beneish_formula [''non-zero denominators''])
           else (let m = beneish_sum t in
             Inr \<lparr>mr_name = ''Beneish M-Score'', mr_output = VFloat (pround 4 m),
               mr_interpretation = (if flt (fneg (lit 178 100)) m then ''Elevated manipulation risk signal''
                 else ''No elevated signal''),
               mr_applicability = beneish_note, mr_inputs = amounts_obj t, mr_formula = beneish_formula,
               mr_missing = [], mr_derived = []\<rparr>)))"

section \<open>Piotroski\<close>

definition piotroski_keys :: "string list" where
  "piotroski_keys = [''net_income'', ''operating_cash_flow'', ''total_assets'', ''long_term_debt'', ''current_assets'',
     ''current_liabilities'', ''shares_outstanding'', ''gross_profit'', ''revenue'']"

text \<open>Return on assets, debt ratio, current ratio, gross margin and asset turnover of one period.\<close>

definition piotroski_ratios :: "amounts \<Rightarrow> pyfloat list result" where
  "piotroski_ratios v = (let assets = given v ''total_assets'' in
     quotients [(given v ''net_income'', assets), (given v ''long_term_debt'', assets),
       (given v ''current_assets'', given v ''current_liabilities''), (given v ''gross_profit'', given v ''revenue''),
       (given v ''revenue'', assets)])"

definition piotroski_signals :: "amounts \<Rightarrow> amounts \<Rightarrow> bool list result" where
  "piotroski_signals c p =
     bind_result (piotroski_ratios c) (\<lambda>x. bind_result (piotroski_ratios p) (\<lambda>y.
     Inr [flt (Fin 0) (x ! 0), flt (Fin 0) (given c ''operating_cash_flow''), flt (y ! 0) (x ! 0),
       flt (given c ''net_income'') (given c ''operating_cash_flow''), flt (x ! 1) (y ! 1), flt (y ! 2) (x ! 2),
       fle (given c ''shares_outstanding'') (given p ''shares_outstanding''), flt (y ! 3) (x ! 3), flt (y ! 4) (x ! 4)]))"

definition signal_inputs :: "bool list \<Rightarrow> obj" where
  "signal_inputs signals = map (\<lambda>(i, b). (''signal_'' @ str_int (int (i + 1)), VInt (if b then 1 else 0)))
     (List.enumerate 0 signals)"

definition piotroski_f :: "amounts \<Rightarrow> amounts \<Rightarrow> model_result result" where
  "piotroski_f c p =
     (let miss = sorted_set (missing_keys c piotroski_keys @ missing_keys p piotroski_keys);
          positive = [''total_assets'', ''current_liabilities'', ''revenue''];
          invalid = sorted_set (invalid_keys c piotroski_keys positive @ invalid_keys p piotroski_keys positive);
          limited = ''LIMITED: Piotroski-style proxy; beginning/average asset denominators unavailable''
      in if miss \<noteq> [] then Inr (no_output ''Piotroski F-Score'' ''Insufficient data'' limited []
           ''Nine proxy binary signals (0-9)'' miss)
         else if invalid \<noteq> [] then Inr (no_output ''Piotroski F-Score'' ''Invalid input domain'' limited []
           ''Nine proxy binary signals (0-9)'' invalid)
         else bind_result (piotroski_signals c p) (\<lambda>signals.
           let score = length (filter id signals) in
           Inr \<lparr>mr_name = ''Piotroski F-Score'', mr_output = vnat score,
             mr_interpretation = (if 7 \<le> score then ''Strong proxy signal'' else if score \<le> 3 then ''Weak proxy signal''
               else ''Mixed proxy signal''),
             mr_applicability = ''LIMITED: Piotroski-style proxy; end-of-period assets replace unavailable beginning/average denominators'',
             mr_inputs = signal_inputs signals, mr_formula = ''Sum of nine Piotroski-style proxy signals (0-9)'',
             mr_missing = [], mr_derived = []\<rparr>))"

section \<open>Ohlson\<close>

definition py_log :: "(pyfloat \<Rightarrow> pyfloat) \<Rightarrow> pyfloat \<Rightarrow> pyfloat result" where
  "py_log ln_of x = (if fle x (Fin 0) then Inl (ValueError ''math domain error'') else Inr (ln_of x))"

definition logistic :: "(pyfloat \<Rightarrow> pyfloat) \<Rightarrow> pyfloat \<Rightarrow> pyfloat result" where
  "logistic exp_of x = (if fle (Fin 700) x then Inr (Fin 1) else if fle x (Fin (- 700)) then Inr (Fin 0)
     else quotient (Fin 1) (fadd (Fin 1) (exp_of (fneg x))))"

text \<open>\<open>format(x, ".1%")\<close>: one decimal of \<open>x * 100\<close>.\<close>

definition percent :: "pyfloat \<Rightarrow> string" where
  "percent x = (case fmul x (Fin 100) of
     Fin q \<Rightarrow> (let m = rhe (\<bar>q\<bar> * 10) in
       (if q < 0 then ''-'' else '''') @ str_int (m div 10) @ ''.'' @ str_int (m mod 10) @ ''%'')
   | y \<Rightarrow> float_repr y @ ''%'')"

definition ohlson_keys :: "string list" where
  "ohlson_keys = [''total_assets'', ''total_liabilities'', ''working_capital'', ''current_liabilities'', ''current_assets'',
     ''net_income'', ''funds_from_operations'', ''prior_net_income'', ''gnp_price_index'']"

definition chin :: "pyfloat \<Rightarrow> pyfloat \<Rightarrow> pyfloat result" where
  "chin ni prior = (let d = fadd (fabs ni) (fabs prior) in
     if feq d (Fin 0) then Inr (Fin 0) else quotient (fsub ni prior) d)"

text \<open>The sum of the logit: a quotient is taken after its coefficient is multiplied in.\<close>

definition ohlson_sum :: "pyfloat \<Rightarrow> pyfloat \<Rightarrow> amounts \<Rightarrow> pyfloat result" where
  "ohlson_sum scale ch v =
     (let g = given v; ta = g ''total_assets''; tl = g ''total_liabilities'' in
      bind_result (quotients [(fmul (lit 603 100) tl, ta), (fmul (lit 143 100) (g ''working_capital''), ta),
        (fmul (lit 757 10000) (g ''current_liabilities''), g ''current_assets''),
        (fmul (lit 237 100) (g ''net_income''), ta), (fmul (lit 183 100) (g ''funds_from_operations''), tl)]) (\<lambda>x.
      Inr (fsub (fadd (fsub (fsub (fsub (fadd (fsub (fadd (fsub (fneg (lit 132 100)) (fmul (lit 407 1000) scale))
        (x ! 0)) (x ! 1)) (x ! 2)) (x ! 3)) (x ! 4))
        (fmul (lit 172 100) (Fin (if flt ta tl then 1 else 0))))
        (fmul (lit 285 1000) (Fin (if flt (g ''net_income'') (Fin 0) \<and> flt (g ''prior_net_income'') (Fin 0) then 1 else 0))))
        (fmul (lit 521 1000) ch))))"

definition ohlson_o :: "(pyfloat \<Rightarrow> pyfloat) \<Rightarrow> (pyfloat \<Rightarrow> pyfloat) \<Rightarrow> amounts \<Rightarrow> model_result result" where
  "ohlson_o ln_of exp_of v =
     (let miss = missing_keys v ohlson_keys;
          invalid = invalid_keys v ohlson_keys [''total_assets'', ''total_liabilities'', ''current_assets'', ''gnp_price_index''];
          formula = ''Ohlson (1980) nine-factor logit''
      in if miss \<noteq> [] then Inr (no_output ''Ohlson O-Score'' ''Insufficient data''
           ''Industrial firms; coefficient-era and input limitations apply'' (amounts_obj v) formula miss)
         else if invalid \<noteq> [] then Inr (no_output ''Ohlson O-Score'' ''Invalid input domain''
           ''Industrial firms; CPI/GNP index requires consistent base-year units'' (amounts_obj v) formula invalid)
         else bind_result (quotient (given v ''total_assets'') (given v ''gnp_price_index'')) (\<lambda>ratio.
           bind_result (py_log ln_of ratio) (\<lambda>scale.
           bind_result (chin (given v ''net_income'') (given v ''prior_net_income'')) (\<lambda>ch.
           bind_result (ohlson_sum scale ch v) (\<lambda>score.
           bind_result (logistic exp_of score) (\<lambda>probability.
           Inr \<lparr>mr_name = ''Ohlson O-Score'', mr_output = VFloat (pround 4 score),
             mr_interpretation = ''Model-implied distress probability '' @ percent probability,
             mr_applicability = ''Industrial firms; not the FinRisk overall score'', mr_inputs = amounts_obj v,
             mr_formula = formula, mr_missing = [],
             mr_derived = [(''probability'', VFloat (pround 6 probability))]\<rparr>))))))"

section \<open>Applicability\<close>

datatype applicability_status = APPLICABLE | LIMITED | NOT_APPLICABLE

definition status_value :: "applicability_status \<Rightarrow> string" where
  "status_value s = (case s of APPLICABLE \<Rightarrow> ''APPLICABLE'' | LIMITED \<Rightarrow> ''LIMITED'' | NOT_APPLICABLE \<Rightarrow> ''NOT_APPLICABLE'')"

record applicability_decision =
  apd_model :: string
  apd_status :: applicability_status
  apd_reasons :: "string list"
  apd_missing :: "string list"

definition altman_public_keys :: "string list" where
  "altman_public_keys = [''working_capital'', ''total_assets'', ''retained_earnings'', ''ebit'', ''market_value_equity'',
     ''total_liabilities'', ''revenue'']"

definition model_requirements :: "(string \<times> string list) list" where
  "model_requirements = [(''altman'', altman_public_keys),
     (''beneish'', [''accounts_receivable'', ''revenue'', ''gross_profit'', ''current_assets'', ''current_liabilities'',
       ''ppe'', ''total_assets'', ''depreciation'', ''sga'', ''long_term_debt'', ''net_income'', ''operating_cash_flow'']),
     (''piotroski'', [''net_income'', ''operating_cash_flow'', ''total_assets'', ''long_term_debt'', ''current_assets'',
       ''current_liabilities'', ''shares_outstanding'', ''gross_profit'', ''revenue'']),
     (''ohlson'', [''total_assets'', ''total_liabilities'', ''working_capital'', ''current_liabilities'', ''current_assets'',
       ''net_income'', ''funds_from_operations'', ''prior_net_income'', ''gnp_price_index''])]"

definition altman_variant_requirements :: "(string \<times> string list) list" where
  "altman_variant_requirements = [(''public_manufacturer'', altman_public_keys),
     (''private'', [''working_capital'', ''total_assets'', ''retained_earnings'', ''ebit'', ''shareholder_equity'',
       ''total_liabilities'', ''revenue'']),
     (''non_manufacturer'', [''working_capital'', ''total_assets'', ''retained_earnings'', ''ebit'', ''shareholder_equity'',
       ''total_liabilities''])]"

definition financial_industries :: "string list" where
  "financial_industries = [''bank'', ''banking'', ''insurance'', ''financial_institution'', ''broker_dealer'']"

text \<open>\<open>s.replace(old, new)\<close> for a non-empty \<open>old\<close>, from the left.\<close>

function str_replace :: "string \<Rightarrow> string \<Rightarrow> string \<Rightarrow> string" where
  "str_replace old new [] = []"
| "str_replace old new (c # cs) =
     (if old \<noteq> [] \<and> starts_with old (c # cs) then new @ str_replace old new (drop (length old) (c # cs))
      else c # str_replace old new cs)"
  by pat_completeness auto
termination by (relation "measure (\<lambda>(_, _, s). length s)") auto

definition route_key :: "string \<Rightarrow> string" where
  "route_key model = str_replace ''-'' ''_'' (str_replace ''_score'' '''' (lower model))"

definition required_components :: "string \<Rightarrow> string option \<Rightarrow> string list" where
  "required_components key variant =
     (case (key = ''altman'', variant) of
        (True, Some t) \<Rightarrow> (case map_of altman_variant_requirements t of
           Some r \<Rightarrow> r | None \<Rightarrow> dict_get model_requirements key [])
      | _ \<Rightarrow> dict_get model_requirements key [])"

definition missing_reason :: "string list \<Rightarrow> string" where
  "missing_reason missing = ''missing '' @ str_int (int (length missing)) @ '' required component(s)''"

definition route_reasons :: "string \<Rightarrow> string \<Rightarrow> string option \<Rightarrow> string list" where
  "route_reasons key industry variant =
     (if key = ''altman'' \<and> (variant = None \<or> variant = Some ''public_manufacturer'') \<and>
         industry \<notin> set [''manufacturing'', ''industrial'', ''public_manufacturer'']
      then [''original public-manufacturer population does not match the supplied industry''] else []) @
     (if key = ''altman'' \<and> variant = Some ''non_manufacturer''
      then [''non-manufacturer Z'' @ [CHR 0x27, CHR 0x27] @ '' variant; original cut-offs do not apply''] else []) @
     (if key = ''altman'' \<and> variant = Some ''private''
      then [''private-firm Z' variant; book equity replaces market value''] else []) @
     (if key = ''piotroski'' then [''Piotroski-style proxy uses end-of-period asset denominators''] else [])"

definition route_model :: "string \<Rightarrow> string \<Rightarrow> amounts \<Rightarrow> string option \<Rightarrow> applicability_decision result" where
  "route_model model industry facts variant =
     (let key = route_key model; requirements = required_components key variant;
          missing = sorted_set (filter (\<lambda>k. val facts k = None) requirements);
          normalized_industry = strip (lower industry);
          reasons = route_reasons key normalized_industry variant @ (if missing \<noteq> [] then [missing_reason missing] else []);
          status = (if length missing = length requirements then NOT_APPLICABLE
            else if reasons = [] then APPLICABLE else LIMITED)
      in if \<not> has_key model_requirements key then Inl (KeyError (''unknown model: '' @ model))
         else if normalized_industry \<in> set financial_industries
         then Inr \<lparr>apd_model = key, apd_status = NOT_APPLICABLE,
           apd_reasons = [''regulated financial institutions have structurally different balance sheets''], apd_missing = missing\<rparr>
         else Inr \<lparr>apd_model = key, apd_status = status,
           apd_reasons = (if reasons = [] then [''assumptions and required inputs satisfied''] else reasons), apd_missing = missing\<rparr>)"

definition decision_to_dict :: "applicability_decision \<Rightarrow> pyval" where
  "decision_to_dict d = VDict [(''model'', VStr (apd_model d)), (''status'', VStr (status_value (apd_status d))),
     (''reasons'', vstrs (apd_reasons d)), (''missing_components'', vstrs (apd_missing d))]"

definition applicability_report :: "string \<Rightarrow> amounts \<Rightarrow> pyval list result" where
  "applicability_report industry facts =
     map_result (\<lambda>m. bind_result (route_model m industry facts None) (\<lambda>d. Inr (decision_to_dict d)))
       (map fst model_requirements)"

definition model_keys :: "(string \<times> string) list" where
  "model_keys = [(''Altman Z-Score'', ''altman''), (''Beneish M-Score'', ''beneish''), (''Piotroski F-Score'', ''piotroski''),
     (''Ohlson O-Score'', ''ohlson'')]"

definition variant_of :: "model_result \<Rightarrow> string option" where
  "variant_of r = (case get (mr_derived r) ''variant'' of VStr s \<Rightarrow> Some s | _ \<Rightarrow> None)"

definition enforce_one :: "string \<Rightarrow> amounts \<Rightarrow> model_result \<Rightarrow> model_result result" where
  "enforce_one industry facts r = (case map_of model_keys (mr_name r) of
     None \<Rightarrow> Inl (ValueError (''unregistered model name: '' @ str_repr (mr_name r)))
   | Some key \<Rightarrow> bind_result (route_model key industry facts (variant_of r)) (\<lambda>d.
       let missing = sorted_set (mr_missing r @ apd_missing d);
           reasons = filter (\<lambda>t. \<not> starts_with ''missing '' t) (apd_reasons d) @
             (if missing \<noteq> [] then [missing_reason missing] else []);
           status = (if missing \<noteq> [] \<and> apd_status d = APPLICABLE then LIMITED else apd_status d);
           r' = r\<lparr>mr_applicability := status_value status @ '': '' @ join ''; '' reasons, mr_missing := missing\<rparr>
       in Inr (if apd_status d = NOT_APPLICABLE then r'\<lparr>mr_output := VNone, mr_derived := []\<rparr> else r')))"

definition enforce_applicability :: "model_result list \<Rightarrow> string \<Rightarrow> amounts \<Rightarrow> model_result list result" where
  "enforce_applicability results industry facts = map_result (enforce_one industry facts) results"

section \<open>No quotient of a model divides by zero\<close>

lemma quotient_ok: "b \<noteq> Fin 0 \<Longrightarrow> is_ok (quotient a b)"
  by (cases a; cases b) (auto simp: quotient_def)

lemma quotients_ok: "list_all (\<lambda>(a, b). b \<noteq> Fin 0) ps \<Longrightarrow> is_ok (quotients ps)"
proof (induction ps rule: quotients.induct)
  case (2 a b ps)
  then obtain x xs where "quotient a b = Inr x" "quotients ps = Inr xs"
    using quotient_ok[of b a] by (auto simp: is_ok_iff)
  then show ?case by simp
qed simp

lemma quotients_length: "quotients ps = Inr xs \<Longrightarrow> length xs = length ps"
  by (induction ps arbitrary: xs rule: quotients.induct) (auto simp: bind_result_Inr_iff)

text \<open>What the two checks of a model establish.\<close>

lemma missing_keys_Nil: "missing_keys v keys = [] \<longleftrightarrow> (\<forall>k\<in>set keys. val v k \<noteq> None)"
  by (auto simp: missing_keys_def filter_empty_conv)

lemma valid_given:
  assumes "missing_keys v keys = []" "invalid_keys v keys positive = []" "k \<in> set keys"
  obtains q where "val v k = Some (Fin q)" "given v k = Fin q" "k \<in> set positive \<Longrightarrow> 0 < q"
proof -
  obtain x where x: "val v k = Some x" using assms(1,3) by (auto simp: missing_keys_Nil)
  have "is_finite x" using assms(2,3) x by (auto simp: invalid_keys_def filter_empty_conv split: option.splits)
  then obtain q where q: "x = Fin q" by (auto simp: is_finite_iff)
  have "k \<in> set positive \<Longrightarrow> 0 < q"
    using assms(2) x q by (auto simp: invalid_keys_def filter_empty_conv not_le split: option.splits)
  then show thesis using that x q by (simp add: given_def)
qed

lemma valid_divisor:
  assumes "missing_keys v keys = []" "invalid_keys v keys positive = []" "k \<in> set keys" "k \<in> set positive"
  shows "given v k \<noteq> Fin 0"
  using valid_given[OF assms(1-3)] assms(4) by (metis less_irrefl pyfloat.inject)

lemma altman_variant_cases:
  assumes "altman_variant e = Inr t"
  obtains "t = ''private''" | "t = ''public_manufacturer''" | "t = ''non_manufacturer''"
  using assms by (auto simp: altman_variant_def Let_def split: if_splits)

lemma altman_spec_simps:
  "altman_spec_of ''public_manufacturer'' = snd (altman_variants ! 0)"
  "altman_spec_of ''private'' = snd (altman_variants ! 1)"
  "altman_spec_of ''non_manufacturer'' = snd (altman_variants ! 2)"
  by (simp_all add: altman_spec_of_def altman_variants_def)

lemma altman_terms_ok:
  assumes "missing_keys v keys = []" "invalid_keys v keys [''total_assets'', ''total_liabilities''] = []"
    "''total_assets'' \<in> set keys" "''total_liabilities'' \<in> set keys"
  shows "is_ok (altman_terms spec v)"
proof -
  have d: "given v ''total_assets'' \<noteq> Fin 0" "given v ''total_liabilities'' \<noteq> Fin 0"
    using valid_divisor[OF assms(1,2)] assms(3,4) by simp_all
  have ok: "is_ok (quotients [(a, given v ''total_assets''), (b, given v ''total_assets''),
      (c, given v ''total_assets''), (e, given v ''total_liabilities'')])"
    "is_ok (quotients [(a, given v ''total_assets'')])" for a b c e
    by (rule quotients_ok, simp add: d)+
  show ?thesis using ok by (auto simp: altman_terms_def Let_def is_ok_bind simp del: quotients.simps) (simp_all add: is_ok_iff)
qed

text \<open>The models return for every input, except that an unknown entity type is a \<open>ValueError\<close>.\<close>

lemma altman_total: "is_ok (altman_z v e) \<longleftrightarrow> is_ok (altman_variant e)"
proof (cases "altman_variant e")
  case (Inr t)
  let ?s = "altman_spec_of t"
  have keys: "''total_assets'' \<in> set (as_components ?s)" "''total_liabilities'' \<in> set (as_components ?s)"
    using Inr by (cases rule: altman_variant_cases; simp add: altman_spec_simps altman_variants_def)+
  have "is_ok (altman_terms ?s v)" if "missing_keys v (as_components ?s) = []"
      "invalid_keys v (as_components ?s) [''total_assets'', ''total_liabilities''] = []"
    by (rule altman_terms_ok[OF that keys])
  then show ?thesis using Inr by (auto simp: altman_z_def Let_def is_ok_bind is_ok_iff split: prod.splits)
qed (simp add: altman_z_def)

lemma beneish_ratios_ok:
  assumes "missing_keys v beneish_keys = []" "invalid_keys v beneish_keys [''revenue'', ''total_assets''] = []"
  shows "is_ok (beneish_ratios v)"
proof -
  have "given v ''revenue'' \<noteq> Fin 0" "given v ''total_assets'' \<noteq> Fin 0"
    using valid_divisor[OF assms] by (simp_all add: beneish_keys_def)
  then show ?thesis unfolding beneish_ratios_def Let_def by (intro quotients_ok) simp
qed

lemma beneish_total: "is_ok (beneish_m c p)"
proof -
  have "is_ok (beneish_values c p)"
    if v: "missing_keys c beneish_keys = []" "missing_keys p beneish_keys = []"
      "invalid_keys c beneish_keys [''revenue'', ''total_assets''] = []"
      "invalid_keys p beneish_keys [''revenue'', ''total_assets''] = []"
  proof -
    have "given c ''total_assets'' \<noteq> Fin 0" using valid_divisor[OF v(1,3)] by (simp add: beneish_keys_def)
    then obtain q where "quotient (fsub (given c ''net_income'') (given c ''operating_cash_flow'')) (given c ''total_assets'') = Inr q"
      using quotient_ok by (metis is_ok_iff)
    then show ?thesis using beneish_ratios_ok[OF v(1,3)] beneish_ratios_ok[OF v(2,4)]
      by (auto simp: beneish_values_def is_ok_iff Let_def)
  qed
  then show ?thesis by (auto simp: beneish_m_def Let_def is_ok_bind is_ok_iff)
qed

lemma piotroski_ratios_ok:
  assumes "missing_keys v piotroski_keys = []"
    "invalid_keys v piotroski_keys [''total_assets'', ''current_liabilities'', ''revenue''] = []"
  shows "is_ok (piotroski_ratios v)"
proof -
  have "given v ''revenue'' \<noteq> Fin 0" "given v ''total_assets'' \<noteq> Fin 0" "given v ''current_liabilities'' \<noteq> Fin 0"
    using valid_divisor[OF assms] by (simp_all add: piotroski_keys_def)
  then show ?thesis unfolding piotroski_ratios_def Let_def by (intro quotients_ok) simp
qed

lemma piotroski_total: "is_ok (piotroski_f c p)"
proof -
  have "is_ok (piotroski_signals c p)"
    if v: "missing_keys c piotroski_keys = []" "missing_keys p piotroski_keys = []"
      "invalid_keys c piotroski_keys [''total_assets'', ''current_liabilities'', ''revenue''] = []"
      "invalid_keys p piotroski_keys [''total_assets'', ''current_liabilities'', ''revenue''] = []"
    using piotroski_ratios_ok[OF v(1,3)] piotroski_ratios_ok[OF v(2,4)]
    by (auto simp: piotroski_signals_def is_ok_bind is_ok_iff)
  then show ?thesis by (auto simp: piotroski_f_def Let_def is_ok_bind is_ok_iff)
qed

section \<open>The contract of a model\<close>

text \<open>A model that gives an output has all inputs that its population requires, and finite; one that gives
  none names what is missing and publishes nothing derived.\<close>

locale risk_model =
  fixes run :: "amounts \<Rightarrow> amounts \<Rightarrow> model_result result" and name :: string and key :: string
  assumes registered: "map_of model_keys name = Some key"
    and named: "run c p = Inr r \<Longrightarrow> mr_name r = name"
    and silent: "run c p = Inr r \<Longrightarrow> mr_output r = VNone \<longleftrightarrow> mr_missing r \<noteq> []"
    and withheld: "run c p = Inr r \<Longrightarrow> mr_output r = VNone \<Longrightarrow> mr_derived r = []"
    and numeric: "run c p = Inr r \<Longrightarrow> mr_output r = VNone \<or> num (mr_output r) \<noteq> None"
    and complete: "run c p = Inr r \<Longrightarrow> mr_output r \<noteq> VNone \<Longrightarrow>
      k \<in> set (required_components key (variant_of r)) \<Longrightarrow> \<exists>q. val c k = Some (Fin q)"
begin

lemma route_key_known: "route_key key = key \<and> has_key model_requirements key"
proof -
  have "key \<in> set [''altman'', ''beneish'', ''piotroski'', ''ohlson'']"
    using registered by (auto simp: model_keys_def split: if_splits)
  moreover have "list_all (\<lambda>k. route_key k = k \<and> has_key model_requirements k) [''altman'', ''beneish'', ''piotroski'', ''ohlson'']"
    by code_simp
  ultimately show ?thesis by (auto simp: list_all_iff)
qed

text \<open>Every model and variant requires the total assets, which no derived line item replaces.\<close>

lemma assets_required: "''total_assets'' \<in> set (required_components key t)"
proof -
  have all: "\<forall>r\<in>snd ` set (model_requirements @ altman_variant_requirements). ''total_assets'' \<in> set r" by code_simp
  have listed: "\<And>d k r. map_of d k = Some r \<Longrightarrow> r \<in> snd ` set d" by (force dest: map_of_SomeD)
  obtain r where r: "map_of model_requirements key = Some r" using route_key_known by (auto simp: has_key_def)
  show ?thesis
    using all listed[OF r] listed[of altman_variant_requirements] r
    by (cases "key = ''altman''"; cases t) (auto simp: required_components_def dict_get_def split: option.splits)
qed

text \<open>Enforcement against facts that may not know an item the model was given: it states a status that fits, it
  withdraws the outputs for financial institutions only, and it reports every required item that the facts
  do not know.\<close>

lemma enforced:
  assumes run: "run c p = Inr r" and enforce: "enforce_one industry facts r = Inr r'"
    and known: "val c ''total_assets'' \<noteq> None \<longrightarrow> val facts ''total_assets'' \<noteq> None"
  shows "mr_name r' = name"
    and "\<exists>st why. mr_applicability r' = status_value st @ '': '' @ why \<and> (st = NOT_APPLICABLE \<longrightarrow> mr_output r' = VNone) \<and>
      (st = APPLICABLE \<longrightarrow> mr_missing r' = []) \<and> (strip (lower industry) \<in> set financial_industries \<longrightarrow> st = NOT_APPLICABLE)"
    and "mr_output r' = VNone \<Longrightarrow> mr_derived r' = [] \<and> (strip (lower industry) \<notin> set financial_industries \<longrightarrow> mr_missing r' \<noteq> [] \<and>
      (\<forall>k\<in>set (required_components key (variant_of r')). val facts k = None \<longrightarrow> k \<in> set (mr_missing r')))"
    and "mr_output r' \<noteq> VNone \<Longrightarrow> mr_output r' = mr_output r \<and> mr_derived r' = mr_derived r \<and>
      set (mr_missing r') = {k \<in> set (required_components key (variant_of r')). val facts k = None} \<and>
      (\<forall>k\<in>set (required_components key (variant_of r')). \<exists>q. val c k = Some (Fin q))"
proof -
  obtain d where d: "route_model key industry facts (variant_of r) = Inr d"
    using enforce registered by (auto simp: enforce_one_def named[OF run] bind_result_Inr_iff)
  let ?st = "if mr_missing r' \<noteq> [] \<and> apd_status d = APPLICABLE then LIMITED else apd_status d"
  let ?required = "required_components key (variant_of r)"
  have r': "mr_name r' = mr_name r" "mr_missing r' = sorted_set (mr_missing r @ apd_missing d)"
    "mr_output r' = (if apd_status d = NOT_APPLICABLE then VNone else mr_output r)"
    "mr_derived r' = (if apd_status d = NOT_APPLICABLE then [] else mr_derived r)"
    and app: "\<exists>why. mr_applicability r' = status_value ?st @ '': '' @ why"
    using enforce registered by (auto simp: enforce_one_def named[OF run] d Let_def)
  have miss: "apd_missing d = sorted_set (filter (\<lambda>k. val facts k = None) ?required)"
    and status: "strip (lower industry) \<in> set financial_industries \<Longrightarrow> apd_status d = NOT_APPLICABLE"
    and whole: "strip (lower industry) \<notin> set financial_industries \<Longrightarrow> apd_status d = NOT_APPLICABLE \<Longrightarrow>
      length (apd_missing d) = length ?required"
    using d route_key_known by (auto simp: route_model_def Let_def split: if_splits)
  show "mr_name r' = name" using r'(1) named[OF run] by simp
  show "\<exists>st why. mr_applicability r' = status_value st @ '': '' @ why \<and> (st = NOT_APPLICABLE \<longrightarrow> mr_output r' = VNone) \<and>
      (st = APPLICABLE \<longrightarrow> mr_missing r' = []) \<and> (strip (lower industry) \<in> set financial_industries \<longrightarrow> st = NOT_APPLICABLE)"
    using app r'(3) status by (intro exI[of _ ?st]) (auto split: if_splits)
  have kept: "apd_status d \<noteq> NOT_APPLICABLE" if "mr_output r \<noteq> VNone" "strip (lower industry) \<notin> set financial_industries"
  proof
    assume "apd_status d = NOT_APPLICABLE"
    then have "length ?required = length (apd_missing d)" using whole[OF that(2)] by simp
    moreover have "length (apd_missing d) \<le> length (filter (\<lambda>k. val facts k = None) ?required)"
      unfolding miss sorted_set_def length_sort by (rule length_remdups_leq)
    moreover have "length (filter (\<lambda>k. val facts k = None) ?required) < length ?required"
      using assets_required known complete[OF run that(1) assets_required] by (intro length_filter_less[of "''total_assets''"]) auto
    ultimately show False by simp
  qed
  show "mr_derived r' = [] \<and> (strip (lower industry) \<notin> set financial_industries \<longrightarrow> mr_missing r' \<noteq> [] \<and>
      (\<forall>k\<in>set (required_components key (variant_of r')). val facts k = None \<longrightarrow> k \<in> set (mr_missing r')))" if none: "mr_output r' = VNone"
  proof
    show "mr_derived r' = []" using none r' withheld[OF run] by (auto split: if_splits)
    show "strip (lower industry) \<notin> set financial_industries \<longrightarrow> mr_missing r' \<noteq> [] \<and>
      (\<forall>k\<in>set (required_components key (variant_of r')). val facts k = None \<longrightarrow> k \<in> set (mr_missing r'))"
    proof
      assume "strip (lower industry) \<notin> set financial_industries"
      then have out: "mr_output r = VNone" using none r'(3) kept by (auto split: if_splits)
      then have "mr_derived r = []" by (rule withheld[OF run])
      then have "variant_of r' = variant_of r" using r'(4) by (simp add: variant_of_def)
      then show "mr_missing r' \<noteq> [] \<and> (\<forall>k\<in>set (required_components key (variant_of r')). val facts k = None \<longrightarrow> k \<in> set (mr_missing r'))"
        using silent[OF run] out r'(2) miss by simp
    qed
  qed
  show "mr_output r' = mr_output r \<and> mr_derived r' = mr_derived r \<and>
      set (mr_missing r') = {k \<in> set (required_components key (variant_of r')). val facts k = None} \<and>
      (\<forall>k\<in>set (required_components key (variant_of r')). \<exists>q. val c k = Some (Fin q))" if some: "mr_output r' \<noteq> VNone"
  proof -
    have out: "mr_output r \<noteq> VNone" "apd_status d \<noteq> NOT_APPLICABLE" using some r' by (auto split: if_splits)
    then have "variant_of r' = variant_of r" "mr_missing r = []" using r'(4) silent[OF run] by (simp_all add: variant_of_def)
    then show ?thesis using r' out miss complete[OF run out(1)] by auto
  qed
qed

end

lemma required_other: "key \<noteq> ''altman'' \<Longrightarrow> required_components key t = dict_get model_requirements key []"
  by (simp add: required_components_def split: option.splits)

lemma valid_finite:
  "missing_keys v keys = [] \<Longrightarrow> invalid_keys v keys positive = [] \<Longrightarrow> k \<in> set keys \<Longrightarrow> \<exists>q. val v k = Some (Fin q)"
  by (metis valid_given)

lemma no_output_simps [simp]:
  "mr_name (no_output n i a x f m) = n" "mr_output (no_output n i a x f m) = VNone"
  "mr_missing (no_output n i a x f m) = m" "mr_derived (no_output n i a x f m) = []"
  by (simp_all add: no_output_def)

lemma altman_output:
  assumes "altman_z v e = Inr r"
  obtains (none) i a x f m where "r = no_output ''Altman Z-Score'' i a x f m" "m \<noteq> []"
  | (some) t xs where "altman_variant e = Inr t" "strip (lower e) \<notin> set altman_financial_types"
      "missing_keys v (as_components (altman_spec_of t)) = []"
      "invalid_keys v (as_components (altman_spec_of t)) [''total_assets'', ''total_liabilities''] = []"
      "altman_terms (altman_spec_of t) v = Inr xs"
      "mr_name r = ''Altman Z-Score''" "mr_missing r = []" "get (mr_derived r) ''variant'' = VStr t"
      "get (mr_derived r) ''fact_key'' = VStr (as_fact_key (altman_spec_of t))"
      "mr_output r = VFloat (pround 4 (weighted (as_coefficients (altman_spec_of t)) xs))"
      "mr_interpretation r = altman_zone (as_thresholds (altman_spec_of t)) (weighted (as_coefficients (altman_spec_of t)) xs)"
proof -
  from assms obtain t where t: "altman_variant e = Inr t" by (auto simp: altman_z_def bind_result_Inr_iff)
  let ?s = "altman_spec_of t"
  have keys: "as_components ?s \<noteq> []"
    using t by (cases rule: altman_variant_cases; simp add: altman_spec_simps altman_variants_def)
  consider "strip (lower e) \<in> set altman_financial_types" | "missing_keys v (as_components ?s) \<noteq> []"
    | "invalid_keys v (as_components ?s) [''total_assets'', ''total_liabilities''] \<noteq> []"
    | "strip (lower e) \<notin> set altman_financial_types" "missing_keys v (as_components ?s) = []"
      "invalid_keys v (as_components ?s) [''total_assets'', ''total_liabilities''] = []" by blast
  then show thesis
  proof cases
    case 4
    obtain lo hi where th: "as_thresholds ?s = (lo, hi)" by (cases "as_thresholds ?s")
    with assms t 4 obtain xs where xs: "altman_terms ?s v = Inr xs"
      "r = \<lparr>mr_name = ''Altman Z-Score'', mr_output = VFloat (pround 4 (weighted (as_coefficients ?s) xs)),
         mr_interpretation = altman_zone (lo, hi) (weighted (as_coefficients ?s) xs), mr_applicability = as_interpretation ?s,
         mr_inputs = amounts_obj v, mr_formula = as_formula ?s, mr_missing = [],
         mr_derived = [(''variant'', VStr t), (''fact_key'', VStr (as_fact_key ?s)),
           (''zone_boundaries'', VList [VFloat lo, VFloat hi])]\<rparr>"
      by (auto simp: altman_z_def Let_def bind_result_Inr_iff)
    show thesis by (rule some[OF t 4 xs(1)]) (simp_all add: xs(2) th)
  qed (use assms t keys none in \<open>auto simp: altman_z_def Let_def bind_result_Inr_iff split: if_splits prod.splits\<close>)
qed

lemma altman_required: "altman_variant e = Inr t \<Longrightarrow>
    set (required_components ''altman'' (Some t)) \<subseteq> set (as_components (altman_spec_of t))"
  by (erule altman_variant_cases)
    (simp_all add: altman_spec_simps altman_variants_def required_components_def altman_variant_requirements_def
      altman_public_keys_def)

interpretation altman: risk_model "\<lambda>c p. altman_z c e" "''Altman Z-Score''" "''altman''" for e
proof (unfold_locales, goal_cases)
  case 1 show ?case by (simp add: model_keys_def)
next
  case (2 c p r) then show ?case by (cases rule: altman_output) simp_all
next
  case (3 c p r) then show ?case by (cases rule: altman_output) simp_all
next
  case (4 c p r) from 4(1) show ?case using 4(2) by (cases rule: altman_output) simp_all
next
  case (5 c p r) then show ?case by (cases rule: altman_output) simp_all
next
  case (6 c p r k)
  from 6(1) show ?case
  proof (cases rule: altman_output)
    case (some t xs)
    then have "variant_of r = Some t" by (simp add: variant_of_def)
    with 6(3) altman_required[OF some(1)] have "k \<in> set (as_components (altman_spec_of t))" by auto
    with some(3,4) show ?thesis by (metis valid_finite)
  qed (use 6(2) in simp)
qed

lemma beneish_output:
  assumes "beneish_m c p = Inr r"
  obtains (none) i a x f m where "r = no_output ''Beneish M-Score'' i a x f m" "m \<noteq> []"
  | (some) t where "missing_keys c beneish_keys = []" "invalid_keys c beneish_keys [''revenue'', ''total_assets''] = []"
      "beneish_values c p = Inr t" "list_all (\<lambda>(_, x). \<exists>q. x = Some (Fin q)) t"
      "mr_name r = ''Beneish M-Score''" "mr_missing r = []" "mr_derived r = []" "mr_output r = VFloat (pround 4 (beneish_sum t))"
proof -
  let ?miss = "sorted_set (missing_keys c beneish_keys @ missing_keys p beneish_keys)"
  let ?bad = "\<lambda>v. invalid_keys v beneish_keys [''revenue'', ''total_assets'']"
  consider "?miss \<noteq> []" | "?miss = []" "sorted_set (?bad c @ ?bad p) \<noteq> []" | "?miss = []" "sorted_set (?bad c @ ?bad p) = []" by blast
  then show thesis
  proof cases
    case 3
    then obtain t where t: "beneish_values c p = Inr t"
      using assms by (auto simp: beneish_m_def Let_def bind_result_Inr_iff)
    let ?bad = "list_ex (\<lambda>(_, x). case x of None \<Rightarrow> True | Some y \<Rightarrow> \<not> is_finite y) t"
    show thesis
    proof (cases ?bad)
      case True
      show thesis by (rule none) (use assms 3 t True in \<open>auto simp: beneish_m_def Let_def\<close>)
    next
      case False
      then have fin: "list_all (\<lambda>(_, x). \<exists>q. x = Some (Fin q)) t"
        by (fastforce simp: list_ex_iff list_all_iff is_finite_iff split: option.splits)
      show thesis by (rule some[OF _ _ t fin]) (use assms 3 t False in \<open>auto simp: beneish_m_def Let_def\<close>)
    qed
  qed (use assms none in \<open>auto simp: beneish_m_def Let_def\<close>)
qed

lemma piotroski_output:
  assumes "piotroski_f c p = Inr r"
  obtains (none) i a x f m where "r = no_output ''Piotroski F-Score'' i a x f m" "m \<noteq> []"
  | (some) s where "missing_keys c piotroski_keys = []"
      "invalid_keys c piotroski_keys [''total_assets'', ''current_liabilities'', ''revenue''] = []"
      "piotroski_signals c p = Inr s"
      "mr_name r = ''Piotroski F-Score''" "mr_missing r = []" "mr_derived r = []" "mr_output r = vnat (length (filter id s))"
      "mr_inputs r = signal_inputs s"
      "mr_interpretation r = (if 7 \<le> length (filter id s) then ''Strong proxy signal''
         else if length (filter id s) \<le> 3 then ''Weak proxy signal'' else ''Mixed proxy signal'')"
  using assms unfolding piotroski_f_def Let_def by (auto simp: bind_result_Inr_iff split: if_splits)

lemma ohlson_output:
  assumes "ohlson_o ln_of exp_of v = Inr r"
  obtains (none) i a x f m where "r = no_output ''Ohlson O-Score'' i a x f m" "m \<noteq> []"
  | (some) score pr where "missing_keys v ohlson_keys = []"
      "invalid_keys v ohlson_keys [''total_assets'', ''total_liabilities'', ''current_assets'', ''gnp_price_index''] = []"
      "logistic exp_of score = Inr pr" "mr_name r = ''Ohlson O-Score''" "mr_missing r = []"
      "mr_output r = VFloat (pround 4 score)" "mr_derived r = [(''probability'', VFloat (pround 6 pr))]"
  using assms unfolding ohlson_o_def Let_def by (auto simp: bind_result_Inr_iff split: if_splits)

interpretation beneish: risk_model beneish_m "''Beneish M-Score''" "''beneish''"
proof (unfold_locales, goal_cases)
  case 1 show ?case by (simp add: model_keys_def)
next
  case (2 c p r) then show ?case by (cases rule: beneish_output) simp_all
next
  case (3 c p r) then show ?case by (cases rule: beneish_output) simp_all
next
  case (4 c p r) from 4(1) show ?case using 4(2) by (cases rule: beneish_output) simp_all
next
  case (5 c p r) then show ?case by (cases rule: beneish_output) simp_all
next
  case (6 c p r k)
  have "k \<in> set beneish_keys" using 6(3) by (simp add: required_other model_requirements_def dict_get_def beneish_keys_def)
  with 6(1,2) show ?case by (auto elim!: beneish_output intro: valid_finite)
qed

interpretation piotroski: risk_model piotroski_f "''Piotroski F-Score''" "''piotroski''"
proof (unfold_locales, goal_cases)
  case 1 show ?case by (simp add: model_keys_def)
next
  case (2 c p r) then show ?case by (cases rule: piotroski_output) simp_all
next
  case (3 c p r) then show ?case by (cases rule: piotroski_output) (simp_all add: vnat_def)
next
  case (4 c p r) from 4(1) show ?case using 4(2) by (cases rule: piotroski_output) simp_all
next
  case (5 c p r) then show ?case by (cases rule: piotroski_output) (simp_all add: vnat_def)
next
  case (6 c p r k)
  have "k \<in> set piotroski_keys" using 6(3) by (simp add: required_other model_requirements_def dict_get_def piotroski_keys_def)
  with 6(1,2) show ?case by (auto elim!: piotroski_output intro: valid_finite)
qed

interpretation ohlson: risk_model "\<lambda>c p. ohlson_o ln_of exp_of c" "''Ohlson O-Score''" "''ohlson''" for ln_of exp_of
proof (unfold_locales, goal_cases)
  case 1 show ?case by (simp add: model_keys_def)
next
  case (2 c p r) then show ?case by (cases rule: ohlson_output) simp_all
next
  case (3 c p r) then show ?case by (cases rule: ohlson_output) simp_all
next
  case (4 c p r) from 4(1) show ?case using 4(2) by (cases rule: ohlson_output) simp_all
next
  case (5 c p r) then show ?case by (cases rule: ohlson_output) simp_all
next
  case (6 c p r k)
  have "k \<in> set ohlson_keys" using 6(3) by (simp add: required_other model_requirements_def dict_get_def ohlson_keys_def)
  with 6(1,2) show ?case by (auto elim!: ohlson_output intro: valid_finite)
qed

end
