(* ===== verification/Facts.thy ===== *)
theory Facts
  imports Models
begin

text \<open>
  The fact set of the rule engine (\<open>facts.py\<close>) and the traditional models that the pipeline runs
  (\<open>pipeline.py\<close>). Reported amounts are floats or missing; the truth values that a request may carry
  under the three narrative names are overwritten by the code and are left out.
\<close>

section \<open>Narrative signals\<close>

definition is_negative :: "narrative_claim \<Rightarrow> bool" where
  "is_negative c = (nc_polarity c = ''negative'')"

definition narrative_rules :: "(string \<times> (narrative_claim \<Rightarrow> bool)) list" where
  "narrative_rules = [
     (''going_concern_doubt'', \<lambda>c. nc_risk_category c = ''business_going_concern'' \<and> is_negative c),
     (''material_weakness'', \<lambda>c. contains ''material weakness'' (lower (nc_claim c)) \<and> is_negative c),
     (''refinancing_dependency'', \<lambda>c. contains ''refinancing'' (lower (nc_claim c)) \<and> is_negative c)]"

definition narrative_signals :: "narrative_claim list \<Rightarrow> (string \<times> narrative_claim list) list" where
  "narrative_signals claims = map (\<lambda>(key, predicate). (key, filter predicate claims)) narrative_rules"

section \<open>The fact set\<close>

definition put :: "string \<Rightarrow> pyval \<Rightarrow> obj \<Rightarrow> obj" where
  "put k v d = AList.update k v d"

definition put_all :: "(string \<times> pyval) list \<Rightarrow> obj \<Rightarrow> obj" where
  "put_all kvs d = foldl (\<lambda>d (k, v). put k v d) d kvs"

text \<open>\<open>a - b\<close> of two known numbers, \<open>None\<close> when one is missing.\<close>

definition difference :: "pyval \<Rightarrow> pyval \<Rightarrow> pyval" where
  "difference a b = (case (num a, num b) of (Some x, Some y) \<Rightarrow> VFloat (fsub x y) | _ \<Rightarrow> VNone)"

definition base_facts :: "amounts \<Rightarrow> (string, metric) dict \<Rightarrow> obj" where
  "base_facts current metrics =
     (let facts = dict_union (map (\<lambda>(k, m). (k, vopt VFloat (me_value m))) metrics) (amounts_obj current);
          debt = fst (resolve_total_debt current);
          facts = (if val current ''total_debt'' = None \<and> debt \<noteq> None then put ''total_debt'' (vopt VFloat debt) facts else facts);
          negative = (case (val current ''ebitda'', debt) of
            (Some e, Some d) \<Rightarrow> fle e (Fin 0) \<and> flt (Fin 0) d | _ \<Rightarrow> False)
      in put ''negative_ebitda_leverage'' (VBool negative) facts)"

text \<open>A change compares both years on ending balances.\<close>

definition change_facts :: "amounts \<Rightarrow> amounts \<Rightarrow> int \<Rightarrow> (string \<times> pyval) list" where
  "change_facts current previous year =
     (let prior = calculate_metrics previous (year - 1) []; now = calculate_metrics current year []
      in map (\<lambda>k. (k @ ''_change'', (case (map_of prior k, map_of now k) of
           (Some p, Some n) \<Rightarrow> difference (vopt VFloat (me_value n)) (vopt VFloat (me_value p))
         | _ \<Rightarrow> VNone))) change_metrics)"

definition gap_facts :: "obj \<Rightarrow> (string \<times> pyval) list" where
  "gap_facts facts = map (\<lambda>(k, base). (k, difference (get facts base) (get facts ''revenue_growth'')))
     [(''accounts_receivable_growth_gap'', ''accounts_receivable_growth''), (''inventory_growth_gap'', ''inventory_growth'')]"

definition trend_facts :: "amounts \<Rightarrow> amounts \<Rightarrow> int \<Rightarrow> obj \<Rightarrow> obj" where
  "trend_facts current previous year facts =
     (if previous = [] then facts
      else (let facts = put ''short_term_debt_growth''
                  (vopt VFloat (growth_ratio (val current ''short_term_debt'') (val previous ''short_term_debt''))) facts;
                facts = put_all (change_facts current previous year) facts
            in put_all (gap_facts facts) facts))"

text \<open>The key under which a model publishes; Altman's variants have their own.\<close>

definition model_fact_key :: "model_result \<Rightarrow> string result" where
  "model_fact_key r = (case map_of model_metric_names (mr_name r) of
     None \<Rightarrow> Inl (KeyError (mr_name r))
   | Some key \<Rightarrow> Inr (if mr_name r = ''Altman Z-Score''
       then (case get (mr_derived r) ''fact_key'' of VStr s \<Rightarrow> s | _ \<Rightarrow> key) else key))"

fun model_facts :: "model_result list \<Rightarrow> obj \<Rightarrow> obj result" where
  "model_facts [] facts = Inr facts"
| "model_facts (r # rs) facts = bind_result (model_fact_key r) (\<lambda>k. model_facts rs (put k (mr_output r) facts))"

definition ohlson_fact :: "model_result list \<Rightarrow> pyval" where
  "ohlson_fact models = (case find (\<lambda>r. mr_name r = ''Ohlson O-Score'') models of
     None \<Rightarrow> VNone | Some r \<Rightarrow> get (mr_derived r) ''probability'')"

definition narrative_facts :: "narrative_claim list \<Rightarrow> (string \<times> pyval) list" where
  "narrative_facts claims = map (\<lambda>(k, cs). (k, VBool (cs \<noteq> []))) (narrative_signals claims)"

definition build_facts :: "amounts \<Rightarrow> amounts \<Rightarrow> int \<Rightarrow> (string, metric) dict \<Rightarrow> model_result list
    \<Rightarrow> narrative_claim list \<Rightarrow> obj result" where
  "build_facts current previous year metrics models accepted =
     bind_result (model_facts models (trend_facts current previous year (base_facts current metrics))) (\<lambda>facts.
       Inr (put_all (narrative_facts accepted) (put ''ohlson_probability'' (ohlson_fact models) facts)))"

section \<open>The models of the pipeline\<close>

text \<open>\<open>current | {"working_capital": ..., "ebit": ...}\<close>\<close>

definition model_input :: "amounts \<Rightarrow> (string, metric) dict \<Rightarrow> amounts" where
  "model_input current metrics =
     dict_union current [(''working_capital'', (case map_of metrics ''working_capital'' of Some m \<Rightarrow> me_value m | None \<Rightarrow> None)),
       (''ebit'', (case val current ''ebit'' of Some x \<Rightarrow> Some x | None \<Rightarrow> val current ''operating_income''))]"

definition run_models :: "(pyfloat \<Rightarrow> pyfloat) \<Rightarrow> (pyfloat \<Rightarrow> pyfloat) \<Rightarrow> string \<Rightarrow> amounts \<Rightarrow> amounts
    \<Rightarrow> (string, metric) dict \<Rightarrow> model_result list result" where
  "run_models ln_of exp_of entity_type current previous metrics =
     (let v = model_input current metrics in
      bind_result (altman_z v entity_type) (\<lambda>z.
      bind_result (if previous = [] then Inr [] else
        bind_result (beneish_m current previous) (\<lambda>m.
        bind_result (piotroski_f current previous) (\<lambda>f. Inr [m, f]))) (\<lambda>mf.
      bind_result (ohlson_o ln_of exp_of v) (\<lambda>q.
      enforce_applicability (z # mf @ [q]) entity_type (dict_union v current)))))"

section \<open>Facts are numbers\<close>

lemma get_put [simp]: "get (put k v d) j = (if j = k then v else get d j)"
  by (simp add: put_def get_def)

lemma get_put_all: "get (put_all kvs d) j = (case map_of (rev kvs) j of None \<Rightarrow> get d j | Some v \<Rightarrow> v)"
  unfolding put_all_def
proof (induction kvs arbitrary: d)
  case (Cons p kvs)
  then show ?case by (cases p) (auto simp: map_add_def split: option.splits)
qed simp

definition number_or_none :: "pyval \<Rightarrow> bool" where
  "number_or_none v = (v = VNone \<or> num v \<noteq> None)"

lemma number_or_none_simps [simp]:
  "number_or_none VNone" "number_or_none (VFloat x)" "number_or_none (VBool b)" "number_or_none (vopt VFloat y)"
  "number_or_none (difference v w)"
  by (auto simp: number_or_none_def vopt_def difference_def split: option.splits)

lemma numeric_facts_alt: "numeric_facts d \<longleftrightarrow> (\<forall>k. number_or_none (get d k))"
  by (simp add: numeric_facts_def number_or_none_def)

lemma numeric_put: "numeric_facts d \<Longrightarrow> number_or_none v \<Longrightarrow> numeric_facts (put k v d)"
  by (simp add: numeric_facts_alt)

lemma numeric_put_all: "numeric_facts d \<Longrightarrow> list_all (number_or_none \<circ> snd) kvs \<Longrightarrow> numeric_facts (put_all kvs d)"
  unfolding put_all_def
proof (induction kvs arbitrary: d)
  case (Cons p kvs)
  then show ?case by (cases p) (simp add: numeric_put)
qed simp

lemma numeric_entries: "list_all (number_or_none \<circ> snd) d \<Longrightarrow> numeric_facts d"
  by (induction d) (auto simp: numeric_facts_alt)

lemma numeric_union:
  assumes "list_all (number_or_none \<circ> snd) a" "list_all (number_or_none \<circ> snd) b"
  shows "numeric_facts (dict_union a b)"
proof -
  have "dict_union a b = put_all b a" by (simp add: dict_union_def put_all_def put_def)
  then show ?thesis using numeric_put_all numeric_entries assms by simp
qed

lemma base_facts_numeric: "numeric_facts (base_facts current metrics)"
  unfolding base_facts_def Let_def
  by (intro numeric_put) (auto simp: list_all_iff amounts_obj_def intro!: numeric_union numeric_put)

lemma trend_facts_numeric: "numeric_facts facts \<Longrightarrow> numeric_facts (trend_facts current previous year facts)"
  unfolding trend_facts_def Let_def
  by (auto simp: list_all_iff change_facts_def gap_facts_def Let_def split: option.splits
      intro!: numeric_put_all numeric_put)

text \<open>A model of the registry with a number or nothing as its output.\<close>

definition publishable :: "model_result \<Rightarrow> bool" where
  "publishable r = (has_key model_metric_names (mr_name r) \<and> number_or_none (mr_output r))"

lemma model_facts_numeric:
  assumes "list_all publishable rs" "numeric_facts facts"
  obtains facts' where "model_facts rs facts = Inr facts'" "numeric_facts facts'"
proof -
  have "\<exists>facts'. model_facts rs facts = Inr facts' \<and> numeric_facts facts'"
    using assms
  proof (induction rs arbitrary: facts)
    case (Cons r rs)
    then obtain k where "model_fact_key r = Inr k"
      by (auto simp: publishable_def has_key_def model_fact_key_def)
    with Cons show ?case by (simp add: numeric_put publishable_def)
  qed simp
  then show thesis using that by blast
qed

section \<open>The models that are run\<close>

lemma val_union_model: "wf_dict current \<Longrightarrow>
    val (dict_union v current) k = (case map_of current k of None \<Rightarrow> val v k | Some x \<Rightarrow> x)"
  by (simp add: val_def dict_get_def map_of_dict_union_wf split: option.splits)

lemma val_model_input: "k \<noteq> ''working_capital'' \<Longrightarrow> k \<noteq> ''ebit'' \<Longrightarrow> val (model_input current metrics) k = val current k"
  by (simp add: val_def model_input_def dict_get_def dict_union_def)

lemma union_assets: "wf_dict current \<Longrightarrow> val (dict_union (model_input current metrics) current) ''total_assets'' = val current ''total_assets''"
  by (auto simp: val_union_model val_model_input val_def[of current] dict_get_def split: option.splits)

text \<open>An item the models were given is unknown to the facts of the router only where the code derives it although
  the reported amounts hold an explicit \<open>None\<close> for it.\<close>

lemma union_unknown:
  assumes "wf_dict current" "val (model_input current metrics) k \<noteq> None" "val (dict_union (model_input current metrics) current) k = None"
  shows "k \<in> set [''working_capital'', ''ebit''] \<and> map_of current k = Some None"
proof -
  have none: "map_of current k = Some None" using assms by (auto simp: val_union_model split: option.splits)
  then have "val current k = None" by (simp add: val_def dict_get_def)
  then have "k = ''working_capital'' \<or> k = ''ebit''" using assms(2) val_model_input[of k current metrics] by fastforce
  with none show ?thesis by simp
qed

lemma run_models_cases:
  assumes "run_models ln_of exp_of e current previous metrics = Inr rs"
  obtains z q z' mf' q' where "altman_z (model_input current metrics) e = Inr z"
    "ohlson_o ln_of exp_of (model_input current metrics) = Inr q"
    "enforce_one e (dict_union (model_input current metrics) current) z = Inr z'"
    "enforce_one e (dict_union (model_input current metrics) current) q = Inr q'"
    "rs = z' # mf' @ [q']" "previous = [] \<Longrightarrow> mf' = []"
    "previous \<noteq> [] \<Longrightarrow> \<exists>m f m' f'. mf' = [m', f'] \<and> beneish_m current previous = Inr m \<and> piotroski_f current previous = Inr f \<and>
       enforce_one e (dict_union (model_input current metrics) current) m = Inr m' \<and>
       enforce_one e (dict_union (model_input current metrics) current) f = Inr f'"
proof (cases "previous = []")
  case True
  with assms that show thesis
    by (auto simp: run_models_def Let_def bind_result_Inr_iff enforce_applicability_def)
next
  case False
  with assms that[where mf' = "[m', f']" for m' f'] show thesis
    by (auto simp: run_models_def Let_def bind_result_Inr_iff enforce_applicability_def)
qed

text \<open>What a published model of the list satisfies.\<close>

definition published_ok :: "string \<Rightarrow> amounts \<Rightarrow> (string, metric) dict \<Rightarrow> model_result \<Rightarrow> bool" where
  "published_ok e current metrics r =
     (let required = set (required_components (the (map_of model_keys (mr_name r))) (variant_of r));
          given = model_input current metrics; facts = dict_union given current; regulated = strip (lower e) \<in> set financial_industries in
     (\<exists>st why. mr_applicability r = status_value st @ '': '' @ why \<and> (st = NOT_APPLICABLE \<longrightarrow> mr_output r = VNone) \<and>
        (st = APPLICABLE \<longrightarrow> mr_missing r = []) \<and> (regulated \<longrightarrow> st = NOT_APPLICABLE)) \<and>
     (mr_output r = VNone \<longrightarrow> mr_derived r = [] \<and>
        (\<not> regulated \<longrightarrow> mr_missing r \<noteq> [] \<and> (\<forall>k\<in>required. val facts k = None \<longrightarrow> k \<in> set (mr_missing r)))) \<and>
     (mr_output r \<noteq> VNone \<longrightarrow> (\<forall>k\<in>required. \<exists>q. val given k = Some (Fin q)) \<and>
        set (mr_missing r) = {k \<in> required. k \<in> set [''working_capital'', ''ebit''] \<and> map_of current k = Some None}))"


context risk_model
begin

lemma published:
  assumes run: "run c p = Inr r" and enforce: "enforce_one e (dict_union (model_input current metrics) current) r = Inr r'"
    and wf: "wf_dict current" and agree: "\<And>t k. k \<in> set (required_components key t) \<Longrightarrow> val c k = val (model_input current metrics) k"
  shows "mr_name r' = name \<and> published_ok e current metrics r'"
proof -
  let ?facts = "dict_union (model_input current metrics) current" and ?required = "set (required_components key (variant_of r'))"
  have known: "val c ''total_assets'' \<noteq> None \<longrightarrow> val ?facts ''total_assets'' \<noteq> None"
    using agree[OF assets_required] union_assets[OF wf] by (simp add: val_model_input)
  note e = enforced[OF run enforce known]
  have "{k \<in> ?required. val ?facts k = None} = {k \<in> ?required. k \<in> set [''working_capital'', ''ebit''] \<and> map_of current k = Some None}"
    if some: "mr_output r' \<noteq> VNone"
  proof -
    have "val (model_input current metrics) k \<noteq> None" if k: "k \<in> ?required" for k
    proof -
      obtain q where "val c k = Some (Fin q)" using e(4)[OF some] k by blast
      then show ?thesis using agree[OF k] by simp
    qed
    then show ?thesis using union_unknown[OF wf, of metrics] by (auto simp: val_union_model[OF wf])
  qed
  moreover have "\<forall>k\<in>?required. \<exists>q. val (model_input current metrics) k = Some (Fin q)" if "mr_output r' \<noteq> VNone"
  proof
    fix k assume k: "k \<in> ?required"
    then have "\<exists>q. val c k = Some (Fin q)" using e(4)[OF that] by blast
    then show "\<exists>q. val (model_input current metrics) k = Some (Fin q)" using agree[OF k] by simp
  qed
  ultimately show ?thesis using e(1,2,3) e(4) registered unfolding published_ok_def Let_def by simp
qed

lemma publishable:
  assumes run: "run c p = Inr r" and enforce: "enforce_one e facts r = Inr r'"
  shows "publishable r'"
proof -
  have "mr_name r' = name \<and> (mr_output r' = VNone \<or> mr_output r' = mr_output r)"
    using enforce named[OF run] registered by (auto simp: enforce_one_def bind_result_Inr_iff Let_def)
  moreover have "has_key model_metric_names name"
    using registered by (auto simp: model_keys_def model_metric_names_def has_key_def split: if_splits)
  ultimately show ?thesis using numeric[OF run] by (auto simp: publishable_def number_or_none_def)
qed

end

definition pipeline_models :: "amounts \<Rightarrow> string list" where
  "pipeline_models previous = ''Altman Z-Score'' #
     (if previous = [] then [] else [''Beneish M-Score'', ''Piotroski F-Score'']) @ [''Ohlson O-Score'']"

lemma enforce_one_name: "enforce_one e facts r = Inr r' \<Longrightarrow> mr_name r' = mr_name r"
  by (auto simp: enforce_one_def bind_result_Inr_iff Let_def split: option.splits)

lemma enforce_one_derived: "enforce_one e facts r = Inr r' \<Longrightarrow> mr_derived r' = [] \<or> mr_derived r' = mr_derived r"
  by (auto simp: enforce_one_def bind_result_Inr_iff Let_def split: option.splits)

lemma run_models_names:
  assumes "run_models ln_of exp_of e current previous metrics = Inr rs"
  shows "map mr_name rs = pipeline_models previous"
  using assms
proof (cases rule: run_models_cases)
  case (1 z q z' mf')
  have "map mr_name mf' = [''Beneish M-Score'', ''Piotroski F-Score'']" if "previous \<noteq> []"
    using 1(7)[OF that] by (auto simp: enforce_one_name beneish.named piotroski.named)
  then show ?thesis using 1(5,6) enforce_one_name[OF 1(3)] enforce_one_name[OF 1(4)] altman.named[OF 1(1)] ohlson.named[OF 1(2)]
    by (auto simp: pipeline_models_def)
qed


lemma enforce_one_ok:
  assumes "map_of model_keys (mr_name r) \<noteq> None"
  shows "is_ok (enforce_one e facts r)"
proof -
  obtain key where key: "map_of model_keys (mr_name r) = Some key" using assms by blast
  have "key \<in> set [''altman'', ''beneish'', ''piotroski'', ''ohlson'']"
    using key by (auto simp: model_keys_def split: if_splits)
  moreover have "list_all (\<lambda>k. has_key model_requirements (route_key k)) [''altman'', ''beneish'', ''piotroski'', ''ohlson'']"
    by code_simp
  ultimately have "is_ok (route_model key e facts (variant_of r))"
    by (auto simp: route_model_def Let_def)
  then obtain d where "route_model key e facts (variant_of r) = Inr d" by (auto simp: is_ok_iff)
  then show ?thesis by (simp add: enforce_one_def key Let_def)
qed

text \<open>Running the models fails exactly on an unknown entity type and where Ohlson's score does.\<close>

lemma run_models_ok:
  "is_ok (run_models ln_of exp_of e current previous metrics) \<longleftrightarrow>
     is_ok (altman_variant e) \<and> is_ok (ohlson_o ln_of exp_of (model_input current metrics))"
proof (cases "is_ok (altman_variant e) \<and> is_ok (ohlson_o ln_of exp_of (model_input current metrics))")
  case True
  then obtain z q m f where run: "altman_z (model_input current metrics) e = Inr z"
    "ohlson_o ln_of exp_of (model_input current metrics) = Inr q"
    "beneish_m current previous = Inr m" "piotroski_f current previous = Inr f"
    using altman_total beneish_total piotroski_total by (metis is_ok_iff)
  have n: "map_of model_keys (mr_name r) \<noteq> None" if "r \<in> {z, m, f, q}" for r
    using that altman.named[OF run(1)] ohlson.named[OF run(2)] beneish.named[OF run(3)] piotroski.named[OF run(4)]
    by (auto simp: model_keys_def)
  have "is_ok (enforce_applicability rs e facts)" if "set rs \<subseteq> {z, m, f, q}" for rs facts
    unfolding enforce_applicability_def
  proof (rule map_result_ok, rule ballI)
    fix x assume "x \<in> set rs"
    with that have "x \<in> {z, m, f, q}" by (rule subsetD)
    from n[OF this] show "is_ok (enforce_one e facts x)" by (rule enforce_one_ok)
  qed
  then have "is_ok (run_models ln_of exp_of e current previous metrics)"
    by (cases "previous = []") (simp_all add: run_models_def Let_def run)
  with True show ?thesis by blast
next
  case False
  have "is_ok (altman_z (model_input current metrics) e) \<and> is_ok (ohlson_o ln_of exp_of (model_input current metrics))"
    if "run_models ln_of exp_of e current previous metrics = Inr rs" for rs
    using that by (cases rule: run_models_cases) simp
  then show ?thesis using False altman_total is_ok_iff by metis
qed

definition sample_current :: amounts where
  "sample_current = map (\<lambda>k. (k, Some (Fin 10)))
     [''retained_earnings'', ''ebit'', ''market_value_equity'', ''total_liabilities'', ''revenue'', ''total_assets'',
      ''current_assets'', ''current_liabilities'']"

definition sample_metrics :: "(string, metric) dict" where
  "sample_metrics = [(''working_capital'', make_metric ''working_capital'' (Some (Fin 5)) ''x'' [] 2024 None)]"

lemma sample_run: "\<exists>rs. run_models (\<lambda>x. x) (\<lambda>x. x) ''industrial'' sample_current [] sample_metrics = Inr rs"
proof -
  have "is_ok (ohlson_o (\<lambda>x. x) (\<lambda>x. x) (model_input sample_current sample_metrics)) \<and> is_ok (altman_variant ''industrial'')"
    by code_simp
  then show ?thesis using run_models_ok is_ok_iff by metis
qed


section \<open>The fact set is well typed\<close>

lemma run_models_publishable:
  assumes "run_models ln_of exp_of e current previous metrics = Inr rs"
  shows "list_all publishable rs"
  using assms
proof (cases rule: run_models_cases)
  case (1 z q z' mf' q')
  have mf: "list_all publishable mf'" if prev: "previous \<noteq> []"
    using 1(7)[OF prev] beneish.publishable piotroski.publishable by force
  then show ?thesis using 1(5,6) altman.publishable[OF 1(1,3)] ohlson.publishable[OF 1(2,4)]
    by (cases "previous = []") simp_all
qed

lemma find_append: "find P (xs @ ys) = (case find P xs of None \<Rightarrow> find P ys | Some x \<Rightarrow> Some x)"
  by (induction xs) auto

lemma ohlson_fact_numeric:
  assumes "run_models ln_of exp_of e current previous metrics = Inr rs"
  shows "number_or_none (ohlson_fact rs)"
  using assms
proof (cases rule: run_models_cases)
  case (1 z q z' mf' q')
  have "number_or_none (get (mr_derived q') ''probability'')"
    using 1(2) enforce_one_derived[OF 1(4)] by (auto elim: ohlson_output)
  moreover have "find (\<lambda>r. mr_name r = ''Ohlson O-Score'') (z' # mf') = None"
    using run_models_names[OF assms] 1(5) by (auto simp: find_None_iff pipeline_models_def split: if_splits)
  moreover have "mr_name q' = ''Ohlson O-Score''" using enforce_one_name[OF 1(4)] ohlson.named[OF 1(2)] by simp
  ultimately show ?thesis
    using find_append[of "\<lambda>r. mr_name r = ''Ohlson O-Score''" "z' # mf'" "[q']"] 1(5)
    by (simp add: ohlson_fact_def)
qed

lemma narrative_fact:
  "(key, predicate) \<in> set narrative_rules \<Longrightarrow>
     get (put_all (narrative_facts claims) d) key = VBool (\<exists>c\<in>set claims. predicate c)"
  by (auto simp: narrative_facts_def narrative_signals_def narrative_rules_def get_put_all filter_empty_conv)

lemma built_facts:
  assumes models: "run_models ln_of exp_of e current previous metrics = Inr rs"
    and engine: "rule_engine disabled raw = Inr rules"
  shows "\<exists>facts. build_facts current previous year metrics rs accepted = Inr facts \<and> numeric_facts facts \<and>
    is_ok (evaluate_rules facts rules) \<and>
    (\<forall>(key, predicate)\<in>set narrative_rules. get facts key = VBool (\<exists>c\<in>set accepted. predicate c))"
proof -
  obtain d where d: "model_facts rs (trend_facts current previous year (base_facts current metrics)) = Inr d" "numeric_facts d"
    using model_facts_numeric[OF run_models_publishable[OF models] trend_facts_numeric[OF base_facts_numeric]] by blast
  define facts where "facts = put_all (narrative_facts accepted) (put ''ohlson_probability'' (ohlson_fact rs) d)"
  have n: "numeric_facts facts" unfolding facts_def
    by (intro numeric_put_all numeric_put d(2) ohlson_fact_numeric[OF models])
      (simp add: list_all_iff narrative_facts_def case_prod_beta)
  have "\<forall>r\<in>set rules. check_rule r = Inr ()" using rule_engine_rules(1,2)[OF engine] by auto
  then have "is_ok (evaluate_rules facts rules)" using evaluate_rules_total[OF n, of rules] by simp
  moreover have "build_facts current previous year metrics rs accepted = Inr facts" by (simp add: build_facts_def d(1) facts_def)
  ultimately show ?thesis using n narrative_fact[of _ _ accepted] by (fastforce simp: facts_def)
qed

text \<open>C24: The fact set is well typed. From the metrics and models of an analysis the construction of the facts never
  raises; every fact is a number, a truth value or missing, so that an engine that was constructed evaluates
  all its rules on them without an error; and each narrative fact is a truth value that holds exactly when
  an admitted claim carries it, whatever was reported under its name.\<close>

theorem facts_well_typed:
  assumes models: "run_models ln_of exp_of e current previous metrics = Inr rs"
    and engine: "rule_engine disabled raw = Inr rules"
  shows "\<exists>facts. build_facts current previous year metrics rs accepted = Inr facts \<and> numeric_facts facts \<and>
    is_ok (evaluate_rules facts rules) \<and>
    (\<forall>(key, predicate)\<in>set narrative_rules. get facts key = VBool (\<exists>c\<in>set accepted. predicate c))"
  using built_facts[OF assms] .

lemma facts_well_typed_witness:
  "\<exists>rs facts. build_facts sample_current [] 2024 sample_metrics rs [] = Inr facts \<and> is_ok (evaluate_rules facts (take 2 sample_rules)) \<and>
     get facts ''material_weakness'' = VBool False"
proof -
  obtain rs where rs: "run_models (\<lambda>x. x) (\<lambda>x. x) ''industrial'' sample_current [] sample_metrics = Inr rs"
    using sample_run by blast
  from facts_well_typed[OF rs sample_rules_ok, of 2024 "[]"] show ?thesis
    by (auto simp: narrative_rules_def)
qed

text \<open>The check on \<open>fcf_growth\<close> has no fact: the metric is called \<open>free_cash_flow_growth\<close>, so that the check only
  ever fires on a line item that the caller reports under this name.\<close>

lemma growth_names: "map fst (calculate_metrics v year p) =
    map fst (calculate_metrics [] year []) @ (if p = [] then [] else map (\<lambda>k. k @ ''_growth'') growth_keys)"
  by (simp add: calculate_metrics_def Let_def period_metrics_def growth_metric_def case_prod_beta comp_def
      balance_specs_def performance_specs_def)

lemma model_facts_other:
  assumes "model_facts rs d = Inr d'" "\<And>r. r \<in> set rs \<Longrightarrow> model_fact_key r \<noteq> Inr k"
  shows "get d' k = get d k"
  using assms
proof (induction rs arbitrary: d)
  case (Cons r rs)
  then obtain j where "model_fact_key r = Inr j" "model_facts rs (put j (mr_output r) d) = Inr d'"
    by (auto simp: bind_result_Inr_iff)
  with Cons.IH[of "put j (mr_output r) d"] Cons.prems(2) show ?case by fastforce
qed simp

lemma altman_fact_key:
  assumes "altman_z v e = Inr r" "enforce_one e facts r = Inr r'" "model_fact_key r' = Inr k"
  shows "k \<in> set altman_fact_keys"
proof -
  have r': "mr_name r' = ''Altman Z-Score''" "mr_derived r' = [] \<or> mr_derived r' = mr_derived r"
    using assms(2) altman.named[OF assms(1)] by (auto simp: enforce_one_def bind_result_Inr_iff Let_def split: option.splits)
  have "mr_derived r = [] \<or> (\<exists>t. altman_variant e = Inr t \<and> get (mr_derived r) ''fact_key'' = VStr (as_fact_key (altman_spec_of t)))"
    using assms(1) by (cases rule: altman_output) auto
  then have "k = ''altman_z_score'' \<or> (\<exists>t. altman_variant e = Inr t \<and> k = as_fact_key (altman_spec_of t))"
    using r' assms(3) by (auto simp: model_fact_key_def model_metric_names_def)
  moreover have "as_fact_key (altman_spec_of t) \<in> set altman_fact_keys" if "altman_variant e = Inr t" for t
    using that by (cases rule: altman_variant_cases) (simp_all add: altman_fact_keys_def altman_spec_simps altman_variants_def)
  ultimately show ?thesis by (auto simp: altman_fact_keys_def)
qed

lemma fact_key_known:
  assumes "run_models ln_of exp_of e current previous metrics = Inr rs" "r \<in> set rs" "model_fact_key r = Inr k"
  shows "k \<in> set (altman_fact_keys @ map snd model_metric_names)"
  using assms(1)
proof (cases rule: run_models_cases)
  case (1 z q z' mf' q')
  show ?thesis
  proof (cases "r = z'")
    case True
    then show ?thesis using altman_fact_key[OF 1(1,3)] assms(3) by simp
  next
    case False
    with assms(2) 1(5) have "mr_name r \<in> set (tl (map mr_name rs))" by auto
    then have "mr_name r \<noteq> ''Altman Z-Score''"
      using run_models_names[OF assms(1)] by (auto simp: pipeline_models_def split: if_splits)
    then show ?thesis using assms(3) by (auto simp: model_fact_key_def model_metric_names_def split: option.splits if_splits)
  qed
qed

lemma base_facts_other:
  assumes "k \<noteq> ''total_debt''" "k \<noteq> ''negative_ebitda_leverage''" "wf_dict current"
  shows "get (base_facts current metrics) k = (case map_of current k of
    Some x \<Rightarrow> vopt VFloat x | None \<Rightarrow> vopt VFloat (metric_value metrics k))"
proof -
  have "map_of (map (\<lambda>(k, x). (k, vopt VFloat x)) current) k = map_option (vopt VFloat) (map_of current k)"
    by (induction current) auto
  moreover have "map_of (map (\<lambda>(k, m). (k, vopt VFloat (me_value m))) metrics) k = map_option (vopt VFloat \<circ> me_value) (map_of metrics k)"
    by (induction metrics) auto
  moreover have "wf_dict (amounts_obj current)"
    using assms(3) by (simp add: amounts_obj_def wf_dict_def comp_def case_prod_beta)
  ultimately show ?thesis using assms(1,2)
    by (auto simp: base_facts_def Let_def get_def dict_get_def put_def map_of_dict_union_wf metric_value_def amounts_obj_def
        vopt_def split: option.splits)
qed

text \<open>A check on \<open>fcf_growth\<close> (\<open>contradictions.py\<close>) never has a fact: the metric is called
  \<open>free_cash_flow_growth\<close>, so that the name is known only if the caller reports a line item under it.\<close>

lemma fcf_growth_unknown:
  assumes "run_models ln_of exp_of e current previous metrics = Inr rs" "metrics = calculate_metrics current year previous"
    "build_facts current previous year metrics rs accepted = Inr facts" "wf_dict current" "''fcf_growth'' \<notin> fst ` set current"
  shows "get facts ''fcf_growth'' = VNone"
proof -
  let ?k = "''fcf_growth''"
  have "?k \<notin> fst ` set metrics"
    using growth_names[of current year previous] unfolding assms(2) set_map[symmetric]
    by (auto simp: calculate_metrics_def Let_def period_metrics_def balance_specs_def performance_specs_def inputs_of_def
        resolve_total_debt_def growth_keys_def case_prod_beta split: if_splits)
  then have "get (base_facts current metrics) ?k = VNone"
    using assms(4,5) by (simp add: base_facts_other metric_value_def map_of_eq_None_iff[THEN iffD2] vopt_def)
  then have t: "get (trend_facts current previous year (base_facts current metrics)) ?k = VNone"
    by (simp add: trend_facts_def Let_def get_put_all change_facts_def gap_facts_def change_metrics_def)
  obtain d where d: "model_facts rs (trend_facts current previous year (base_facts current metrics)) = Inr d"
    "facts = put_all (narrative_facts accepted) (put ''ohlson_probability'' (ohlson_fact rs) d)"
    using assms(3) by (auto simp: build_facts_def bind_result_Inr_iff)
  have "get d ?k = VNone"
    using model_facts_other[OF d(1), of ?k] t fact_key_known[OF assms(1), of _ ?k]
    by (fastforce simp: altman_fact_keys_def model_metric_names_def)
  then show ?thesis by (simp add: d(2) get_put_all narrative_facts_def narrative_signals_def narrative_rules_def)
qed

end
