(* ===== verification/Consistency.thy ===== *)
theory Consistency
  imports Facts
begin

text \<open>
  Consistency of management's claims with the numbers (\<open>contradictions.py\<close>): each verified optimistic claim is
  compared with the numeric checks of its category. The policy file is a record of what the code reads
  from it: the thresholds by name, the count of opposing checks that makes a contradiction material,
  and the identity of the policy.
\<close>

section \<open>Text of a number\<close>

text \<open>\<open>format(x, ".4g")\<close>: four significant digits, without trailing zeros.\<close>

definition fixed_digits :: "string \<Rightarrow> int \<Rightarrow> string" where
  "fixed_digits ds p =
     (let body = (if p \<le> 0 then ''0.'' @ replicate (nat (- p)) (CHR ''0'') @ ds
                  else if int (length ds) \<le> p then ds @ replicate (nat p - length ds) (CHR ''0'')
                  else take (nat p) ds @ ''.'' @ drop (nat p) ds)
      in body)"

definition general4_pos :: "rat \<Rightarrow> string" where
  "general4_pos q =
     (let p0 = decpt q; m0 = rhe (q * pow10 (4 - p0));
          (m, p) = (if m0 = 10000 then (1000, p0 + 1) else (m0, p0));
          ds = drop_zeros (str_int m)
      in if p - 1 < -4 \<or> 4 \<le> p - 1
         then take 1 ds @ (if length ds = 1 then [] else CHR ''.'' # drop 1 ds) @ ''e'' @
           (if p - 1 < 0 then ''-'' else ''+'') @ pad2 (str_int \<bar>p - 1\<bar>)
         else fixed_digits ds p)"

fun general4 :: "pyfloat \<Rightarrow> string" where
  "general4 (Fin q) = (if q = 0 then ''0'' else if q < 0 then CHR ''-'' # general4_pos (- q) else general4_pos q)"
| "general4 x = float_repr x"

section \<open>Checks\<close>

record threshold =
  th_operator :: string
  th_value :: pyfloat

record consistency_policy =
  cp_thresholds :: "(string, threshold) dict"
  cp_material_count :: int
  cp_version :: string
  cp_hash :: string

record numeric_check =
  nk_metric :: string
  nk_label :: string
  nk_threshold :: string

text \<open>\<open>_configured(name)\<close>, applied to the numeric reading of a fact.\<close>

definition adverse :: "consistency_policy \<Rightarrow> numeric_check \<Rightarrow> pyfloat \<Rightarrow> bool" where
  "adverse p k x = (case map_of (cp_thresholds p) (nk_threshold k) of
     None \<Rightarrow> False
   | Some t \<Rightarrow> if th_operator t = ''<'' then flt x (th_value t)
       else if th_operator t = ''>'' then flt (th_value t) x else x \<noteq> Fin 0)"

definition check_of :: "string \<Rightarrow> string \<Rightarrow> numeric_check" where
  "check_of metric label = \<lparr>nk_metric = metric, nk_label = label, nk_threshold = metric\<rparr>"

definition checks :: "(string \<times> numeric_check list) list" where
  "checks = [
     (''liquidity'', [
       check_of ''cash_growth'' ''Cash declined by more than 10%'',
       check_of ''operating_cash_flow_growth'' ''Operating cash flow declined by more than 10%'',
       check_of ''short_term_debt_growth'' ''Short-term debt increased by more than 20%'',
       check_of ''current_ratio'' ''Current ratio is below 1.0'']),
     (''solvency_leverage'', [
       check_of ''debt_to_assets'' ''Debt-to-assets exceeds 60%'',
       check_of ''liabilities_to_assets'' ''Liabilities-to-assets exceeds 80%'',
       check_of ''interest_coverage'' ''Interest coverage is below 1.5x'',
       check_of ''total_debt_growth'' ''Total debt increased by more than 20%'']),
     (''profitability'', [
       check_of ''revenue_growth'' ''Revenue declined by more than 5%'',
       check_of ''net_income_growth'' ''Net income declined by more than 15%'',
       check_of ''operating_margin_change'' ''Operating margin deteriorated by more than 2 percentage points'',
       check_of ''net_margin'' ''Net margin is negative'']),
     (''cash_flow'', [
       (check_of ''operating_cash_flow_growth'' ''Operating cash flow declined'')
         \<lparr>nk_threshold := ''cash_flow_operating_cash_flow_growth''\<rparr>,
       check_of ''free_cash_flow'' ''Free cash flow is negative'',
       check_of ''fcf_growth'' ''Free cash flow declined by more than 20%'',
       check_of ''cfo_to_net_income'' ''Cash conversion is below 0.8x'']),
     (''earnings_quality'', [
       check_of ''cfo_to_net_income'' ''Operating cash flow is below 80% of net income'',
       check_of ''accounts_receivable_growth_gap'' ''Receivables growth exceeds revenue growth by 15 percentage points'',
       check_of ''inventory_growth_gap'' ''Inventory growth exceeds revenue growth by 15 percentage points'',
       check_of ''free_cash_flow'' ''Free cash flow is negative'']),
     (''business_going_concern'', [
       check_of ''working_capital'' ''Working capital is negative'',
       check_of ''operating_cash_flow'' ''Operating cash flow is negative'',
       check_of ''net_income'' ''Net income is negative'',
       check_of ''going_concern_doubt'' ''Auditor/management disclosed substantial doubt''])]"

definition evidence_constructs :: "(string \<times> (string \<times> string list) list) list" where
  "evidence_constructs = [
     (''liquidity'', [
       (''liquidity_position'', [''current_ratio'', ''working_capital'']),
       (''cash_generation'', [''cash_growth'', ''operating_cash_flow_growth'']),
       (''funding_pressure'', [''short_term_debt_growth'', ''total_debt_growth'']),
       (''liquid_investments'', [''marketable_securities'', ''short_term_investments'']),
       (''funding_access'', [''committed_credit_capacity'', ''debt_market_access''])]),
     (''solvency_leverage'', [
       (''capital_structure'', [''debt_to_assets'', ''liabilities_to_assets'']),
       (''debt_service'', [''interest_coverage'']),
       (''debt_trajectory'', [''total_debt_growth''])]),
     (''profitability'', [
       (''profit_level'', [''net_margin'', ''operating_margin'']),
       (''profit_trajectory'', [''net_income_growth'', ''operating_margin_change'']),
       (''demand_trajectory'', [''revenue_growth''])]),
     (''cash_flow'', [
       (''cash_generation'', [''operating_cash_flow'', ''operating_cash_flow_growth'']),
       (''free_cash_flow'', [''free_cash_flow'', ''fcf_growth'']),
       (''cash_conversion'', [''cfo_to_net_income''])]),
     (''earnings_quality'', [
       (''cash_conversion'', [''cfo_to_net_income'', ''free_cash_flow'']),
       (''working_capital_quality'', [''accounts_receivable_growth_gap'', ''inventory_growth_gap''])]),
     (''business_going_concern'', [
       (''operating_viability'', [''net_income'', ''operating_cash_flow'']),
       (''near_term_liquidity'', [''working_capital'']),
       (''explicit_disclosure'', [''going_concern_doubt''])])]"

definition default_required_constructs :: "(string \<times> string list) list" where
  "default_required_constructs = [(''liquidity'', [''liquidity_position'', ''cash_generation'', ''funding_pressure''])]"

section \<open>Evaluation of a claim\<close>

record claim_evaluation =
  ce_claim :: string
  ce_dimension :: string
  ce_target :: string
  ce_required :: "string list"
  ce_available :: "string list"
  ce_missing :: "string list"
  ce_supporting :: "string list"
  ce_opposing :: "string list"
  ce_classification :: string
  ce_reason :: string
  ce_policy_version :: string
  ce_policy_hash :: string

text \<open>\<open>consistency_facts(facts, facts)\<close>: both gaps are filled in from the growth rates when they are missing.\<close>

definition fill_gap :: "string \<Rightarrow> string \<Rightarrow> obj \<Rightarrow> obj" where
  "fill_gap gap base facts = (if get facts gap = VNone
     then put gap (difference (get facts base) (get facts ''revenue_growth'')) facts else facts)"

definition consistency_facts :: "obj \<Rightarrow> obj \<Rightarrow> obj" where
  "consistency_facts metrics raw =
     fill_gap ''inventory_growth_gap'' ''inventory_growth''
       (fill_gap ''accounts_receivable_growth_gap'' ''accounts_receivable_growth'' (dict_union raw metrics))"

definition category_checks :: "string \<Rightarrow> numeric_check list" where
  "category_checks category = dict_get checks category []"

text \<open>The checks of a category whose fact is known, with the number.\<close>

definition known_checks :: "obj \<Rightarrow> string \<Rightarrow> (numeric_check \<times> pyfloat) list" where
  "known_checks facts category = List.map_filter (\<lambda>k. map_option (Pair k) (num (get facts (nk_metric k))))
     (category_checks category)"

definition opposing_checks :: "consistency_policy \<Rightarrow> obj \<Rightarrow> string \<Rightarrow> (numeric_check \<times> pyfloat) list" where
  "opposing_checks p facts category = filter (\<lambda>(k, x). adverse p k x) (known_checks facts category)"

definition supporting_checks :: "consistency_policy \<Rightarrow> obj \<Rightarrow> string \<Rightarrow> (numeric_check \<times> pyfloat) list" where
  "supporting_checks p facts category = filter (\<lambda>(k, x). \<not> adverse p k x) (known_checks facts category)"

definition reading :: "numeric_check \<Rightarrow> pyfloat \<Rightarrow> string" where
  "reading k x = '' ['' @ nk_metric k @ ''='' @ general4 x @ '']''"

definition required_constructs :: "narrative_claim \<Rightarrow> string list" where
  "required_constructs c =
     (if nc_required_evidence_types c \<noteq> [] then nc_required_evidence_types c
      else dict_get default_required_constructs (nc_risk_category c)
        (map fst (dict_get evidence_constructs (nc_risk_category c) [])))"

definition construct_available :: "obj \<Rightarrow> string \<Rightarrow> string \<Rightarrow> bool" where
  "construct_available facts category name =
     list_ex (\<lambda>m. get facts m \<noteq> VNone) (dict_get (dict_get evidence_constructs category []) name [])"

definition classify :: "bool \<Rightarrow> string list \<Rightarrow> bool \<Rightarrow> int \<Rightarrow> int \<Rightarrow> string \<times> string" where
  "classify verified missing optimistic opposing material =
     (if \<not> verified then (''INSUFFICIENT_EVIDENCE'', ''INSUFFICIENT_EVIDENCE'')
      else if missing \<noteq> [] then (''INCOMPLETE_CONTEXT'', ''CLAIM_CONTEXT_INCOMPLETE'')
      else if \<not> optimistic then (''NOT_APPLICABLE'', ''CLAIM_NOT_OPTIMISTIC'')
      else if material \<le> opposing then (''MATERIAL_CONTRADICTION'', ''SEVERE_VERIFIED_SIGNAL'')
      else if 0 < opposing then (''TENSION'', ''PARTIAL_NUMERIC_TENSION'')
      else (''NO_CONTRADICTION'', ''NO_ADVERSE_CONFLICT''))"

definition evaluate_claim_consistency :: "consistency_policy \<Rightarrow> narrative_claim \<Rightarrow> obj \<Rightarrow> claim_evaluation" where
  "evaluate_claim_consistency p c facts =
     (let enriched = consistency_facts facts facts; category = nc_risk_category c;
          required = required_constructs c;
          available = filter (construct_available enriched category) required;
          missing = filter (\<lambda>i. i \<notin> set available) required;
          opposing = opposing_checks p enriched category;
          (classification, reason) = classify (ev_verification_status (nc_evidence c) = ''verified'') missing
            (nc_polarity c = ''positive'' \<or> nc_direction c = ''positive'') (int (length opposing)) (cp_material_count p)
      in \<lparr>ce_claim = nc_claim c, ce_dimension = category, ce_target = nc_claim_target c, ce_required = required,
          ce_available = available, ce_missing = missing,
          ce_supporting = map (\<lambda>(k, x). ''No adverse threshold breach for '' @ nk_metric k @ reading k x)
            (supporting_checks p enriched category),
          ce_opposing = map (\<lambda>(k, x). nk_label k @ reading k x) opposing,
          ce_classification = classification, ce_reason = reason, ce_policy_version = cp_version p, ce_policy_hash = cp_hash p\<rparr>)"

section \<open>Contradictions\<close>

record contradiction =
  co_category :: string
  co_claim :: string
  co_conflicting :: "string list"
  co_interpretation :: string
  co_evidence :: evidence_ref
  co_required_inputs :: "string list"
  co_input_provenance :: "(string, evidence_ref list) dict"

definition contradiction_note :: string where
  "contradiction_note = ''The narrative is more optimistic than the available indicators. This is a traceable consistency signal, not evidence of fraud or misstatement.''"

definition detect_contradictions :: "consistency_policy \<Rightarrow> narrative_claim list \<Rightarrow> obj \<Rightarrow> contradiction list" where
  "detect_contradictions p claims facts = List.map_filter (\<lambda>c.
     let e = evaluate_claim_consistency p c facts in
     if ce_classification e = ''MATERIAL_CONTRADICTION''
     then Some \<lparr>co_category = nc_risk_category c, co_claim = nc_claim c, co_conflicting = ce_opposing e,
       co_interpretation = contradiction_note, co_evidence = nc_evidence c, co_required_inputs = [], co_input_provenance = []\<rparr>
     else None) claims"

section \<open>Contradictions rest on known adverse facts\<close>

definition optimistic :: "narrative_claim \<Rightarrow> bool" where
  "optimistic c = (nc_polarity c = ''positive'' \<or> nc_direction c = ''positive'')"

definition context_missing :: "narrative_claim \<Rightarrow> obj \<Rightarrow> string list" where
  "context_missing c facts = filter (\<lambda>i. \<not> construct_available facts (nc_risk_category c) i) (required_constructs c)"

text \<open>When a claim is materially contradicted by a set of facts.\<close>

definition contradicted :: "consistency_policy \<Rightarrow> obj \<Rightarrow> narrative_claim \<Rightarrow> bool" where
  "contradicted p facts c = (let e = consistency_facts facts facts in
     ev_verification_status (nc_evidence c) = ''verified'' \<and> optimistic c \<and> context_missing c e = [] \<and>
     cp_material_count p \<le> int (length (opposing_checks p e (nc_risk_category c))))"

lemma missing_filter:
  "filter (\<lambda>i. i \<notin> set (filter (construct_available facts category) xs)) xs = filter (\<lambda>i. \<not> construct_available facts category i) xs"
  by (rule filter_cong) auto

lemma classify_material: "fst (classify v m b n k) = ''MATERIAL_CONTRADICTION'' \<longleftrightarrow> v \<and> m = [] \<and> b \<and> k \<le> n"
  by (auto simp: classify_def)

lemma evaluation_classification:
  "ce_classification (evaluate_claim_consistency p c facts) = fst (classify (ev_verification_status (nc_evidence c) = ''verified'')
     (context_missing c (consistency_facts facts facts)) (optimistic c)
     (int (length (opposing_checks p (consistency_facts facts facts) (nc_risk_category c)))) (cp_material_count p))"
  unfolding evaluate_claim_consistency_def Let_def missing_filter case_prod_beta context_missing_def optimistic_def by simp

lemma evaluation_material:
  "ce_classification (evaluate_claim_consistency p c facts) = ''MATERIAL_CONTRADICTION'' \<longleftrightarrow> contradicted p facts c"
  unfolding evaluation_classification classify_material contradicted_def Let_def by blast

lemma evaluation_opposing:
  "ce_opposing (evaluate_claim_consistency p c facts) = map (\<lambda>(k, x). nk_label k @ reading k x)
     (opposing_checks p (consistency_facts facts facts) (nc_risk_category c))"
  by (simp add: evaluate_claim_consistency_def Let_def split: prod.splits)

lemma evaluation_sides:
  "length (ce_supporting (evaluate_claim_consistency p c facts)) + length (ce_opposing (evaluate_claim_consistency p c facts)) =
     length (known_checks (consistency_facts facts facts) (nc_risk_category c))"
  using sum_length_filter_compl[of "\<lambda>(k, x). adverse p k x" "known_checks (consistency_facts facts facts) (nc_risk_category c)"]
  by (simp add: evaluate_claim_consistency_def Let_def opposing_checks_def supporting_checks_def case_prod_unfold split: prod.splits)

lemma detect_form: "detect_contradictions p claims facts = map (\<lambda>c.
    \<lparr>co_category = nc_risk_category c, co_claim = nc_claim c,
     co_conflicting = ce_opposing (evaluate_claim_consistency p c facts), co_interpretation = contradiction_note,
     co_evidence = nc_evidence c, co_required_inputs = [], co_input_provenance = []\<rparr>) (filter (contradicted p facts) claims)"
  unfolding detect_contradictions_def Let_def evaluation_material
  by (induction claims) (simp_all add: List.map_filter_simps)

text \<open>The gaps that the facts state are the differences of the growth rates that they state.\<close>

definition gap_consistent :: "obj \<Rightarrow> bool" where
  "gap_consistent facts = (\<forall>(gap, base)\<in>{(''accounts_receivable_growth_gap'', ''accounts_receivable_growth''),
       (''inventory_growth_gap'', ''inventory_growth'')}.
     get facts gap = VNone \<or> get facts gap = difference (get facts base) (get facts ''revenue_growth''))"

text \<open>A gap as the evaluation of a claim sees it.\<close>

definition gap_value :: "obj \<Rightarrow> string \<Rightarrow> string \<Rightarrow> pyval" where
  "gap_value facts gap base = (if get facts gap = VNone
     then difference (get facts base) (get facts ''revenue_growth'') else get facts gap)"

lemma get_consistency_facts:
  assumes "wf_dict facts"
  shows "get (consistency_facts facts facts) k =
    (if k = ''accounts_receivable_growth_gap'' then gap_value facts k ''accounts_receivable_growth''
     else if k = ''inventory_growth_gap'' then gap_value facts k ''inventory_growth'' else get facts k)"
proof -
  have "map_of (dict_union facts facts) j = map_of facts j" for j
    using assms by (simp add: map_of_dict_union_wf split: option.splits)
  then have "get (dict_union facts facts) j = get facts j" for j by (simp add: get_def dict_get_def)
  then show ?thesis by (auto simp: consistency_facts_def fill_gap_def gap_value_def)
qed

lemma difference_less: "(v' = VNone \<or> v' = v) \<Longrightarrow> (w' = VNone \<or> w' = w) \<Longrightarrow>
    difference v' w' = VNone \<or> difference v' w' = difference v w"
  by (auto simp: difference_def split: option.splits)

lemma less_known_enriched:
  assumes wf: "wf_dict facts" "wf_dict facts'" and less: "less_known facts' facts" and gaps: "gap_consistent facts"
  shows "less_known (consistency_facts facts' facts') (consistency_facts facts facts)"
proof -
  have l: "get facts' j = VNone \<or> get facts' j = get facts j" for j using less by (simp add: less_known_def)
  have g: "gap_value facts' g b = VNone \<or> gap_value facts' g b = gap_value facts g b"
    if "g = ''accounts_receivable_growth_gap'' \<and> b = ''accounts_receivable_growth'' \<or>
      g = ''inventory_growth_gap'' \<and> b = ''inventory_growth''" for g b
  proof -
    have "get facts g = VNone \<or> get facts g = difference (get facts b) (get facts ''revenue_growth'')"
      using that gaps by (auto simp: gap_consistent_def)
    then show ?thesis using l[of g] difference_less[OF l[of b] l[of "''revenue_growth''"]] by (auto simp: gap_value_def)
  qed
  show ?thesis
    unfolding less_known_def
  proof
    fix k
    show "get (consistency_facts facts' facts') k = VNone \<or> get (consistency_facts facts' facts') k = get (consistency_facts facts facts) k"
      using l[of k] g[of k] by (auto simp: get_consistency_facts wf)
  qed
qed

lemma opposing_less_known:
  assumes "less_known facts' facts"
  shows "length (opposing_checks p facts' category) \<le> length (opposing_checks p facts category)"
proof -
  have "length (filter P (List.map_filter (\<lambda>k. map_option (Pair k) (num (get facts' (nk_metric k)))) ks)) \<le>
      length (filter P (List.map_filter (\<lambda>k. map_option (Pair k) (num (get facts (nk_metric k)))) ks))" for P ks
  proof (induction ks)
    case (Cons k ks)
    have "get facts' (nk_metric k) = VNone \<or> get facts' (nk_metric k) = get facts (nk_metric k)"
      using assms by (simp add: less_known_def)
    with Cons show ?case by (auto simp: List.map_filter_simps split: option.splits)
  qed (simp add: List.map_filter_simps)
  then show ?thesis by (simp add: opposing_checks_def known_checks_def)
qed

lemma context_less_known:
  assumes "less_known facts' facts" "context_missing c facts' = []"
  shows "context_missing c facts = []"
proof -
  have "get facts m \<noteq> VNone" if "get facts' m \<noteq> VNone" for m
    using that assms(1) unfolding less_known_def by metis
  then have "construct_available facts category i" if "construct_available facts' category i" for category i
    using that by (auto simp: construct_available_def list_ex_iff)
  then show ?thesis using assms(2) by (auto simp: context_missing_def filter_empty_conv)
qed

text \<open>C25: Contradictions rest on known adverse facts. The claims that are reported as contradicted are exactly the
  verified and optimistic ones whose required context is known and that at least the configured number of
  checks of their category oppose, so the list and the evaluation of each claim never disagree; every check
  with a known fact either supports or opposes; and when fewer facts are known no further claim is
  contradicted, so missing data cannot produce an accusation.\<close>

theorem contradictions_rest_on_facts:
  assumes "wf_dict facts" "wf_dict facts'" "less_known facts' facts" "gap_consistent facts"
  shows "map co_claim (detect_contradictions p claims facts) = map nc_claim (filter (contradicted p facts) claims) \<and>
    list_all (\<lambda>d. cp_material_count p \<le> int (length (co_conflicting d)) \<and> ev_verification_status (co_evidence d) = ''verified'')
      (detect_contradictions p claims facts) \<and>
    (\<forall>c. ce_classification (evaluate_claim_consistency p c facts) = ''MATERIAL_CONTRADICTION'' \<longleftrightarrow> contradicted p facts c) \<and>
    (\<forall>c. length (ce_supporting (evaluate_claim_consistency p c facts)) + length (ce_opposing (evaluate_claim_consistency p c facts)) =
       length (known_checks (consistency_facts facts facts) (nc_risk_category c))) \<and>
    set (filter (contradicted p facts') claims) \<subseteq> set (filter (contradicted p facts) claims)"
proof (intro conjI allI)
  show "map co_claim (detect_contradictions p claims facts) = map nc_claim (filter (contradicted p facts) claims)"
    by (simp add: detect_form comp_def)
  show "list_all (\<lambda>d. cp_material_count p \<le> int (length (co_conflicting d)) \<and> ev_verification_status (co_evidence d) = ''verified'')
      (detect_contradictions p claims facts)"
    by (auto simp: detect_form list_all_iff evaluation_opposing contradicted_def Let_def)
  show "ce_classification (evaluate_claim_consistency p c facts) = ''MATERIAL_CONTRADICTION'' \<longleftrightarrow> contradicted p facts c" for c
    by (rule evaluation_material)
  show "length (ce_supporting (evaluate_claim_consistency p c facts)) + length (ce_opposing (evaluate_claim_consistency p c facts)) =
       length (known_checks (consistency_facts facts facts) (nc_risk_category c))" for c
    by (rule evaluation_sides)
  have l: "less_known (consistency_facts facts' facts') (consistency_facts facts facts)"
    by (rule less_known_enriched[OF assms])
  show "set (filter (contradicted p facts') claims) \<subseteq> set (filter (contradicted p facts) claims)"
    using context_less_known[OF l] opposing_less_known[OF l, of p] unfolding contradicted_def Let_def
    by (auto intro: order_trans[OF _ of_nat_mono])
qed

definition sample_policy :: consistency_policy where
  "sample_policy = \<lparr>cp_thresholds = [(''current_ratio'', \<lparr>th_operator = ''<'', th_value = Fin 1\<rparr>),
     (''cash_growth'', \<lparr>th_operator = ''<'', th_value = Fin (- 1 / 8)\<rparr>),
     (''short_term_debt_growth'', \<lparr>th_operator = ''>'', th_value = Fin (1 / 4)\<rparr>)],
     cp_material_count = 2, cp_version = ''v'', cp_hash = ''h''\<rparr>"

definition sample_optimist :: narrative_claim where
  "sample_optimist = \<lparr>nc_claim = ''Liquidity is strong'', nc_risk_category = ''liquidity'',
     nc_evidence = \<lparr>ev_document = ''10-K'', ev_page = 1, ev_source_text = ''Liquidity is strong'', ev_fiscal_year = Some 2024,
       ev_confidence = Fin 1, ev_verified = True, ev_verification_status = ''verified'', ev_source = None, ev_company = None,
       ev_period = None, ev_quote = None, ev_value = None, ev_unit = None\<rparr>,
     nc_polarity = ''positive'', nc_claim_target = ''t'', nc_direction = ''neutral'', nc_time_horizon = ''u'', nc_basis = ''b'',
     nc_qualifiers = [], nc_required_evidence_types = []\<rparr>"

definition weak_facts :: obj where
  "weak_facts = [(''current_ratio'', VFloat (Fin (1 / 2))), (''cash_growth'', VFloat (Fin (- 1 / 2))),
     (''short_term_debt_growth'', VFloat (Fin 0))]"

lemma contradictions_rest_on_facts_witness:
  "map co_claim (detect_contradictions sample_policy [sample_optimist] weak_facts) = [''Liquidity is strong''] \<and>
     list_all (\<lambda>d. 2 \<le> int (length (co_conflicting d))) (detect_contradictions sample_policy [sample_optimist] weak_facts)"
proof -
  have c: "contradicted sample_policy weak_facts sample_optimist" by code_simp
  have ok: "wf_dict weak_facts" "less_known weak_facts weak_facts" "gap_consistent weak_facts"
    by (auto simp: weak_facts_def less_known_def gap_consistent_def)
  have count: "cp_material_count sample_policy = 2" by (simp add: sample_policy_def)
  show ?thesis
    using contradictions_rest_on_facts[OF ok(1) ok(1) ok(2,3), of sample_policy "[sample_optimist]"] c
    unfolding count by (simp add: sample_optimist_def list_all_iff)
qed

end
