(* ===== verification/Provenance.thy ===== *)
theory Provenance
  imports Consistency
begin

text \<open>
  Which source facts a number rests on (the local functions of \<open>assess\<close> in \<open>pipeline.py\<close>): the line items and
  periods that a metric or a fact requires, and the references to the documents that cover them. A chain of
  metrics that is longer than the number of metrics repeats one of them and never ends; Python stops it with
  a \<open>RecursionError\<close>, so the number of metrics is enough fuel.
\<close>

type_synonym source_map = "(string, evidence_ref list) dict"
type_synonym requirement = "string \<times> int"

section \<open>References\<close>

definition refs_of :: "source_map \<Rightarrow> string \<Rightarrow> evidence_ref list" where
  "refs_of sm k = dict_get sm k []"

definition ref_identity :: "evidence_ref \<Rightarrow> string \<times> int \<times> string" where
  "ref_identity e = (ev_document e, ev_page e, ev_source_text e)"

text \<open>The references of a metric: the first one of every identity.\<close>

fun first_refs :: "(string \<times> int \<times> string) list \<Rightarrow> evidence_ref list \<Rightarrow> evidence_ref list" where
  "first_refs seen [] = []"
| "first_refs seen (e # es) = (if ref_identity e \<in> set seen then first_refs seen es
     else e # first_refs (ref_identity e # seen) es)"

definition with_source_refs :: "source_map \<Rightarrow> metric \<Rightarrow> metric" where
  "with_source_refs sm m = m\<lparr>me_source_refs := me_source_refs m @
     first_refs [] (concat (map (\<lambda>(k, _). refs_of sm k) (me_inputs m)))\<rparr>"

text \<open>\<open>{identity(e): e for e in refs}.values()\<close>: the last one of every identity, at the place of the first.\<close>

definition unique_refs :: "evidence_ref list \<Rightarrow> evidence_ref list" where
  "unique_refs refs = map snd (foldl (\<lambda>d e. AList.update (ref_identity e) e d) [] refs)"

definition period_refs :: "source_map \<Rightarrow> requirement \<Rightarrow> evidence_ref list" where
  "period_refs sm r = filter (\<lambda>e. ev_fiscal_year e = Some (snd r)) (refs_of sm (fst r))"

definition complete_refs :: "source_map \<Rightarrow> requirement list \<Rightarrow> evidence_ref list" where
  "complete_refs sm requirements =
     (let groups = map (period_refs sm) requirements
      in if groups \<noteq> [] \<and> list_all (\<lambda>g. g \<noteq> []) groups then concat groups else [])"

section \<open>Requirements\<close>

record analysis_input =
  an_current :: amounts
  an_previous :: amounts
  an_year :: int
  an_metrics :: "(string, metric) dict"

definition ends_with :: "string \<Rightarrow> string \<Rightarrow> bool" where
  "ends_with tail s = starts_with (rev tail) (rev s)"

text \<open>\<open>s.removesuffix(suffix)\<close>\<close>

definition remove_suffix :: "string \<Rightarrow> string \<Rightarrow> string" where
  "remove_suffix tail s = (if ends_with tail s then take (length s - length tail) s else s)"

definition debt_requirements :: "amounts \<Rightarrow> int \<Rightarrow> requirement list" where
  "debt_requirements values_of fiscal_year = map (\<lambda>k. (k, fiscal_year)) (snd (resolve_total_debt values_of))"

definition growth_requirements :: "analysis_input \<Rightarrow> string \<Rightarrow> requirement list" where
  "growth_requirements a base =
     (let y = an_year a in
      if base = ''free_cash_flow'' then [(''operating_cash_flow'', y), (''capital_expenditure'', y),
        (''operating_cash_flow'', y - 1), (''capital_expenditure'', y - 1)]
      else if base = ''total_debt'' then debt_requirements (an_current a) y @ debt_requirements (an_previous a) (y - 1)
      else [(base, y), (base, y - 1)])"

definition raw_input :: "analysis_input \<Rightarrow> string \<Rightarrow> string" where
  "raw_input a k = dict_get [(''EBIT'', if val (an_current a) ''ebit'' \<noteq> None then ''ebit'' else ''operating_income''),
     (''EBITDA'', ''ebitda''), (''assets_basis'', ''total_assets''), (''equity_basis'', ''shareholder_equity''),
     (''receivables_basis'', ''accounts_receivable''), (''inventory_basis'', ''inventory''),
     (''payables_basis'', ''accounts_payable'')] k k"

text \<open>The requirements of one input of a metric; \<open>rec\<close> is the recursive call.\<close>

definition input_requirements :: "(string \<Rightarrow> requirement list result) \<Rightarrow> analysis_input \<Rightarrow> string \<Rightarrow> metric \<Rightarrow> string
    \<Rightarrow> requirement list result" where
  "input_requirements rec a name m k =
     (let y = an_year a in
      if has_key (an_metrics a) k \<and> k \<noteq> name then rec k
      else if k = ''free_cash_flow'' then rec ''free_cash_flow''
      else if k = ''COGS'' then Inr [(''revenue'', y), (''gross_profit'', y)]
      else if k \<in> {''total_debt'', ''short_term_debt'', ''long_term_debt''} \<and> contains ''debt'' (lower (me_formula m))
        then Inr (if k = ''total_debt'' then debt_requirements (an_current a) y else [(k, y)])
      else (let raw = raw_input a k in
        Inr ((raw, y) # (if an_previous a \<noteq> [] \<and> ends_with ''_basis'' k \<and> contains ''average'' (me_formula m)
          then [(raw, y - 1)] else []))))"

fun metric_requirements :: "nat \<Rightarrow> analysis_input \<Rightarrow> string \<Rightarrow> requirement list result" where
  "metric_requirements 0 a name = Inl (RuntimeError ''maximum recursion depth exceeded'')"
| "metric_requirements (Suc n) a name =
     (if ends_with ''_growth'' name then Inr (growth_requirements a (remove_suffix ''_growth'' name))
      else (case map_of (an_metrics a) name of
        None \<Rightarrow> Inl (KeyError name)
      | Some m \<Rightarrow> bind_result (map_result (input_requirements (metric_requirements n a) a name m) (map fst (me_inputs m)))
          (\<lambda>gs. Inr (dedup (concat gs)))))"

definition requirements_of_metric :: "analysis_input \<Rightarrow> string \<Rightarrow> requirement list result" where
  "requirements_of_metric a name = metric_requirements (Suc (length (an_metrics a))) a name"

definition fact_requirements :: "analysis_input \<Rightarrow> string \<Rightarrow> requirement list result" where
  "fact_requirements a name =
     (if name = ''fcf_growth'' then requirements_of_metric a ''free_cash_flow_growth''
      else if ends_with ''_growth'' name then requirements_of_metric a name
      else if has_key (an_metrics a) name then requirements_of_metric a name
      else if name = ''accounts_receivable_growth_gap'' \<or> name = ''inventory_growth_gap''
      then bind_result (requirements_of_metric a (remove_suffix ''_gap'' name)) (\<lambda>r.
           bind_result (requirements_of_metric a ''revenue_growth'') (\<lambda>s. Inr (r @ s)))
      else if ends_with ''_change'' name \<and> has_key (an_metrics a) (remove_suffix ''_change'' name)
      then bind_result (requirements_of_metric a (remove_suffix ''_change'' name)) (\<lambda>r.
           Inr (dedup (r @ map (\<lambda>(k, p). (k, p - 1)) (filter (\<lambda>(k, p). p = an_year a) r))))
      else Inr [(name, an_year a)])"

section \<open>Signals of the models\<close>

text \<open>An entry of \<open>config/model_scoring.json\<close>.\<close>

record model_mapping =
  mm_id :: string
  mm_model :: string
  mm_metric :: string
  mm_operator :: string
  mm_threshold :: pyval
  mm_category :: string
  mm_delta :: pyfloat

definition crosses :: "model_mapping \<Rightarrow> pyval \<Rightarrow> bool result" where
  "crosses m v = (if mm_operator m \<in> set [''<'', ''<='', ''>'', ''>=''] then compare_values (mm_operator m) v (mm_threshold m)
     else Inl (KeyError (mm_operator m)))"

definition base_required :: "model_mapping \<Rightarrow> model_result \<Rightarrow> string list" where
  "base_required mp r =
     (let key = dict_get model_keys (mm_model mp) [] in
      sorted_set (if key = ''altman''
        then dict_get altman_variant_requirements (case variant_of r of None \<Rightarrow> ''public_manufacturer'' | Some t \<Rightarrow> t) []
        else dict_get model_requirements key []))"

definition mapping_required :: "model_mapping \<Rightarrow> model_result \<Rightarrow> string list" where
  "mapping_required mp r =
     (let base = base_required mp r in
      if mm_model mp = ''Beneish M-Score'' \<or> mm_model mp = ''Piotroski F-Score''
      then map (\<lambda>k. ''current:'' @ k) base @ map (\<lambda>k. ''prior:'' @ k) base else base)"

definition split_period :: "int \<Rightarrow> string \<Rightarrow> requirement" where
  "split_period y k =
     (if starts_with ''current:'' k then (drop 8 k, y)
      else if starts_with ''prior:'' k then (drop 6 k, y - 1)
      else if k = ''prior_net_income'' then (''net_income'', y - 1) else (k, y))"

definition input_refs :: "analysis_input \<Rightarrow> source_map \<Rightarrow> string \<Rightarrow> evidence_ref list result" where
  "input_refs a sm k =
     (let (raw, period) = split_period (an_year a) k in
      if has_key (an_metrics a) raw \<and> period = an_year a
      then bind_result (requirements_of_metric a raw) (\<lambda>r. Inr (complete_refs sm r))
      else Inr (complete_refs sm [(raw, period)]))"

definition mapping_signal :: "analysis_input \<Rightarrow> source_map \<Rightarrow> pyval \<Rightarrow> model_mapping \<Rightarrow> model_result \<Rightarrow> rule_signal result" where
  "mapping_signal a sm v mp r =
     (let required = mapping_required mp r in
      bind_result (map_result (\<lambda>k. bind_result (input_refs a sm k) (\<lambda>refs. Inr (k, refs))) required) (\<lambda>provenance.
      Inr \<lparr>rs_rule_id = mm_id mp, rs_category = mm_category mp, rs_severity = ''model'', rs_score_delta = mm_delta mp,
           rs_rationale = VStr (mm_model mp @ '' crossed configured risk threshold; model limitations still apply.''),
           rs_evidence = [mm_metric mp @ ''='' @ py_str v @ '' '' @ mm_operator mp @ '' '' @ py_str (mm_threshold mp)],
           rs_source_refs = concat (map (\<lambda>(k, _). refs_of sm k) (mr_inputs r)), rs_family = Some (''model:'' @ mm_model mp),
           rs_required_inputs = required, rs_input_provenance = provenance\<rparr>))"

fun mapping_signals :: "analysis_input \<Rightarrow> source_map \<Rightarrow> obj \<Rightarrow> model_result list \<Rightarrow> model_mapping list \<Rightarrow> rule_signal list result" where
  "mapping_signals a sm facts models [] = Inr []"
| "mapping_signals a sm facts models (mp # mps) =
     bind_result (if get facts (mm_metric mp) = VNone then Inr False else crosses mp (get facts (mm_metric mp))) (\<lambda>hit.
     bind_result (case (hit, find (\<lambda>r. mr_name r = mm_model mp) models) of
         (True, Some r) \<Rightarrow> bind_result (mapping_signal a sm (get facts (mm_metric mp)) mp r) (\<lambda>s. Inr [s])
       | _ \<Rightarrow> Inr []) (\<lambda>this.
     bind_result (mapping_signals a sm facts models mps) (\<lambda>rest. Inr (this @ rest))))"

section \<open>References of the signals\<close>

text \<open>\<open>item.split("=", 1)[0]\<close>\<close>

definition evidence_key :: "string \<Rightarrow> string" where
  "evidence_key item = takeWhile (\<lambda>c. c \<noteq> CHR ''='') item"

definition signal_refs :: "analysis_input \<Rightarrow> source_map \<Rightarrow> rule_signal \<Rightarrow> evidence_ref list" where
  "signal_refs a sm s = unique_refs (rs_source_refs s @ concat (map (\<lambda>k. refs_of sm k @
     (case map_of (an_metrics a) k of None \<Rightarrow> [] | Some m \<Rightarrow> me_source_refs m)) (map evidence_key (rs_evidence s))))"

definition bind_signal :: "analysis_input \<Rightarrow> source_map \<Rightarrow> rule_signal \<Rightarrow> rule_signal result" where
  "bind_signal a sm s =
     (let keys = map evidence_key (rs_evidence s);
          required = (if rs_required_inputs s \<noteq> [] then rs_required_inputs s else keys)
      in bind_result (map_result (\<lambda>k. bind_result (fact_requirements a k) (\<lambda>r. Inr (k, complete_refs sm r))) keys) (\<lambda>found.
         let provenance = foldl (\<lambda>d (k, refs). AList.update k refs d) (rs_input_provenance s) found
         in Inr (s\<lparr>rs_source_refs := signal_refs a sm s, rs_required_inputs := required,
              rs_input_provenance := map (\<lambda>k. (k, dict_get provenance k (refs_of sm k))) (dedup required)\<rparr>)))"

section \<open>References of the contradictions\<close>

definition contradiction_requirements :: "consistency_policy \<Rightarrow> analysis_input \<Rightarrow> obj \<Rightarrow> contradiction \<Rightarrow> requirement list result" where
  "contradiction_requirements p a facts c =
     bind_result (map_result (\<lambda>k. fact_requirements a (nk_metric k))
        (map fst (opposing_checks p facts (co_category c)))) (\<lambda>rs. Inr (dedup (concat rs)))"

definition requirement_key :: "requirement \<Rightarrow> string" where
  "requirement_key r = fst r @ '':'' @ str_int (snd r)"

definition bind_contradiction :: "consistency_policy \<Rightarrow> analysis_input \<Rightarrow> source_map \<Rightarrow> obj \<Rightarrow> contradiction \<Rightarrow> contradiction result" where
  "bind_contradiction p a sm facts c =
     bind_result (contradiction_requirements p a facts c) (\<lambda>rs.
       Inr (c\<lparr>co_required_inputs := map requirement_key rs,
              co_input_provenance := map (\<lambda>r. (requirement_key r, period_refs sm r)) rs\<rparr>))"

end
