(* ===== verification/Assess.thy ===== *)
theory Assess
  imports Provenance
begin

text \<open>
  The assessment of a company (\<open>FinRiskPipeline.assess\<close> in \<open>pipeline.py\<close>, with \<open>enterprise/tension.py\<close> and the
  record \<open>Assessment\<close> of \<open>domain.py\<close>): metrics, models, facts, signals and their references, contradictions,
  scores and the coverage of the proof gate. The order in which Python iterates over a set is the argument
  \<open>order_of\<close>; claims that the language model extracts are part of the request. Numbers that the code copies
  from a configuration file are floats, and the em dash of a message is written as a hyphen.
\<close>

section \<open>The pipeline\<close>

record pipeline =
  pl_rules :: "pyval list"
  pl_mappings :: "model_mapping list"
  pl_scoring :: scoring_config
  pl_decision_document :: pyval
  pl_consistency :: consistency_policy
  pl_assurance :: assurance_policy
  pl_rules_source :: string
  pl_scoring_source :: string

definition check_model_names :: "model_mapping list \<Rightarrow> unit result" where
  "check_model_names mappings =
     (let unknown = sorted_set (filter (\<lambda>m. m \<notin> fst ` set model_keys) (map mm_model mappings))
      in if unknown \<noteq> [] then Inl (ValueError (''model_scoring.json names unknown models: '' @ repr (vstrs unknown)))
         else Inr ())"

text \<open>The signature of a risk signal: metric, operator, threshold and category.\<close>

definition rule_signature :: "pyval \<Rightarrow> pyval list" where
  "rule_signature r = (let c = hd (elems (vget r ''conditions'')) in
     [vget c ''metric'', vget c ''operator'', vget c ''value'', vget r ''category''])"

definition mapping_signature :: "model_mapping \<Rightarrow> pyval list" where
  "mapping_signature m = [VStr (mm_metric m), VStr (mm_operator m), mm_threshold m, VStr (mm_category m)]"

text \<open>\<open>who\<close> is how the message names the repeating entry.\<close>

fun claim_signatures :: "(pyval list \<times> string \<times> string) list \<Rightarrow> (pyval list \<times> string) list \<Rightarrow> (pyval list \<times> string) list result" where
  "claim_signatures [] owners = Inr owners"
| "claim_signatures ((key, who, i) # rest) owners = (case find (\<lambda>(k, _). veq_list k key) owners of
     Some (_, owner) \<Rightarrow> Inl (ValueError (''duplicate risk signal ('' @ join '', '' (map repr key) @ ''): '' @ who @ i @ '' repeats '' @ owner))
   | None \<Rightarrow> claim_signatures rest (owners @ [(key, i)]))"

definition signature_entries :: "pyval list \<Rightarrow> model_mapping list \<Rightarrow> (pyval list \<times> string \<times> string) list" where
  "signature_entries rules mappings =
     map (\<lambda>r. (rule_signature r, '''', str_of_value (vget r ''id'')))
       (filter (\<lambda>r. length (elems (vget r ''conditions'')) = 1) rules) @
     map (\<lambda>m. (mapping_signature m, ''model mapping '', mm_id m)) mappings"

definition check_signatures :: "pyval list \<Rightarrow> model_mapping list \<Rightarrow> unit result" where
  "check_signatures rules mappings =
     bind_result (claim_signatures (signature_entries rules mappings) []) (\<lambda>_. Inr ())"

text \<open>The construction: the rule engine, then the two checks of the registries against each other.\<close>

definition build_pipeline :: "string list \<Rightarrow> pyval list \<Rightarrow> pipeline \<Rightarrow> pipeline result" where
  "build_pipeline disabled raw config =
     bind_result (rule_engine disabled raw) (\<lambda>rules.
     bind_result (check_signatures rules (pl_mappings config)) (\<lambda>_.
     bind_result (check_model_names (pl_mappings config)) (\<lambda>_. Inr (config\<lparr>pl_rules := rules\<rparr>))))"

section \<open>Disclosure tensions\<close>

record tension =
  te_claim :: string
  te_supporting :: "string list"
  te_opposing :: "string list"
  te_context :: string
  te_classification :: string
  te_confidence :: pyfloat
  te_source :: evidence_ref
  te_reason :: string
  te_sufficiency :: string

definition tension_class :: "bool \<Rightarrow> bool \<Rightarrow> nat \<Rightarrow> nat \<Rightarrow> string \<times> pyfloat" where
  "tension_class enough verified supporting opposing =
     (if \<not> enough then (''Insufficient Evidence'', Fin 0)
      else if \<not> verified then (''Insufficient Evidence'', lit 1 10)
      else if 2 \<le> opposing \<and> supporting = 0 then (''Material Contradiction'', lit 9 10)
      else if 0 < opposing \<and> 0 < supporting then (''Context-dependent'', lit 65 100)
      else if 0 < opposing then (''Tension'', lit 75 100)
      else if 2 \<le> supporting then (''Supported'', lit 85 100)
      else if 0 < supporting then (''Weakly Supported'', lit 6 10)
      else (''Insufficient Evidence'', lit 25 100))"

definition classify_tension :: "narrative_claim \<Rightarrow> string list \<Rightarrow> string list \<Rightarrow> string \<Rightarrow> string \<Rightarrow> string \<Rightarrow> tension" where
  "classify_tension c supporting opposing context_text sufficiency reason =
     (let (classification, conf) = tension_class (sufficiency = ''complete'')
            (ev_verification_status (nc_evidence c) = ''verified'') (length supporting) (length opposing)
      in \<lparr>te_claim = nc_claim c, te_supporting = supporting, te_opposing = opposing, te_context = context_text,
          te_classification = classification, te_confidence = conf, te_source = nc_evidence c, te_reason = reason,
          te_sufficiency = sufficiency\<rparr>)"

definition claim_tension :: "narrative_claim \<Rightarrow> claim_evaluation \<Rightarrow> tension" where
  "claim_tension c e = classify_tension c (ce_supporting e) (ce_opposing e)
     ''Compared with all available normalized evidence for the claim category.''
     (if ce_missing e = [] then ''complete'' else ''incomplete_context'') (ce_reason e)"

section \<open>The request and the assessment\<close>

text \<open>Claims that a provider extracted from the pages, or claims that the caller supplies with all
  verifications.\<close>

datatype narrative = Extracted "narrative_claim list" | Supplied "narrative_claim list" "evidence_ref list"

record assess_request =
  rq_company :: string
  rq_year :: int
  rq_current :: amounts
  rq_previous :: "amounts option"
  rq_pages :: "(int, string) dict"
  rq_entity_type :: string
  rq_source_map :: source_map
  rq_narrative :: narrative

record assessment =
  at_company :: string
  at_reporting_period :: string
  at_overall_score :: "pyfloat option"
  at_risk_level :: string
  at_confidence :: pyfloat
  at_dimensions :: "(string, dimension) dict"
  at_metrics :: "(string, metric) dict"
  at_models :: "model_result list"
  at_triggered_rules :: "rule_signal list"
  at_contradictions :: "contradiction list"
  at_missing :: "string list"
  at_components :: "(string, pyfloat) dict"
  at_graph :: pyval
  at_coverage :: pyfloat
  at_evaluations :: "claim_evaluation list"
  at_tensions :: "tension list"
  at_financial :: financial_vector
  at_observability :: observability_vector
  at_suppressed :: bool

section \<open>The steps of an assessment\<close>

definition previous_of :: "assess_request \<Rightarrow> amounts" where
  "previous_of q = (case rq_previous q of None \<Rightarrow> [] | Some p \<Rightarrow> p)"

definition request_metrics :: "assess_request \<Rightarrow> (string, metric) dict" where
  "request_metrics q = map (\<lambda>(k, m). (k, with_source_refs (rq_source_map q) m))
     (calculate_metrics (rq_current q) (rq_year q) (previous_of q))"

definition request_input :: "assess_request \<Rightarrow> analysis_input" where
  "request_input q = \<lparr>an_current = rq_current q, an_previous = previous_of q, an_year = rq_year q,
     an_metrics = request_metrics q\<rparr>"

text \<open>Debt that was added up from its parts is covered by the references of the parts.\<close>

definition with_debt :: "amounts \<Rightarrow> source_map \<Rightarrow> source_map" where
  "with_debt current sm = (let (debt, parents) = resolve_total_debt current in
     if val current ''total_debt'' = None \<and> debt \<noteq> None
     then AList.update ''total_debt'' (concat (map (refs_of sm) parents)) sm else sm)"

definition with_narrative :: "narrative_claim list \<Rightarrow> source_map \<Rightarrow> source_map" where
  "with_narrative accepted sm = foldl (\<lambda>d (key, claims).
     if claims \<noteq> [] then AList.update key (map nc_evidence claims) d else d) sm (narrative_signals accepted)"

text \<open>All verifications, and the accepted claims.\<close>

definition admitted :: "assess_request \<Rightarrow> evidence_ref list \<times> narrative_claim list" where
  "admitted q = (case rq_narrative q of
     Extracted raw \<Rightarrow> if rq_pages q = [] then ([], []) else admit_claims (rq_pages q) raw
   | Supplied claims verifications \<Rightarrow> (verifications, claims))"

definition suppressed :: "assess_request \<Rightarrow> narrative_claim list \<Rightarrow> bool" where
  "suppressed q accepted = (case rq_narrative q of
     Extracted _ \<Rightarrow> narrative_suppressed (rq_pages q) accepted | Supplied _ _ \<Rightarrow> False)"

definition final_source_map :: "assess_request \<Rightarrow> source_map" where
  "final_source_map q = with_narrative (snd (admitted q)) (with_debt (rq_current q) (rq_source_map q))"

definition all_signals :: "pipeline \<Rightarrow> assess_request \<Rightarrow> obj \<Rightarrow> model_result list \<Rightarrow> rule_signal list result" where
  "all_signals p q facts models =
     (let a = request_input q; sm = final_source_map q in
      bind_result (evaluate_rules facts (pl_rules p)) (\<lambda>fired.
      bind_result (mapping_signals a sm facts models (pl_mappings p)) (\<lambda>mapped.
      map_result (bind_signal a sm) (fired @ mapped))))"

definition all_contradictions :: "pipeline \<Rightarrow> assess_request \<Rightarrow> obj \<Rightarrow> contradiction list result" where
  "all_contradictions p q facts =
     map_result (bind_contradiction (pl_consistency p) (request_input q) (final_source_map q) facts)
       (detect_contradictions (pl_consistency p) (snd (admitted q)) facts)"

text \<open>The proof gate: the input groups of the signals that count, and the share of them that is covered.\<close>

definition material_groups :: "rule_signal list \<Rightarrow> evidence_ref list list" where
  "material_groups signals = concat (map (\<lambda>s. map (\<lambda>k. dict_get (rs_input_provenance s) k []) (rs_required_inputs s))
     (effective_signals signals))"

definition proven :: "evidence_ref list \<Rightarrow> bool" where
  "proven refs = (refs \<noteq> [] \<and> list_all (\<lambda>e. ev_verification_status e \<in> set proof_covered) refs)"

definition proof_coverage :: "rule_signal list \<Rightarrow> pyfloat" where
  "proof_coverage signals = (let groups = material_groups signals in
     if groups = [] then Fin 0 else pround 3 (int_div (int (length (filter proven groups))) (int (length groups))))"

definition missing_text :: "metric \<Rightarrow> string" where
  "missing_text m = me_name m @ '': N/A - '' @ (case me_missing_reason m of None \<Rightarrow> ''None'' | Some t \<Rightarrow> t) @
     '' Impact: assessment confidence reduced.''"

definition expected_features :: "pipeline \<Rightarrow> string list" where
  "expected_features p =
     concat (map (\<lambda>r. map (\<lambda>c. str_of_value (vget c ''metric'')) (elems (vget r ''conditions''))) (pl_rules p)) @
     concat (map snd model_requirements)"

definition covered_categories :: "rule_signal list \<Rightarrow> contradiction list \<Rightarrow> string list" where
  "covered_categories signals cs = remdups (map rs_category (effective_signals signals) @ map co_category cs)"

section \<open>The evidence graph\<close>

definition node :: "string \<Rightarrow> string \<Rightarrow> string \<Rightarrow> obj \<Rightarrow> pyval" where
  "node i kind label extra = VDict ([(''id'', VStr i), (''type'', VStr kind), (''label'', VStr label)] @ extra)"

definition edge :: "string \<Rightarrow> string \<Rightarrow> string \<Rightarrow> pyval" where
  "edge source target relation = VDict [(''from'', VStr source), (''to'', VStr target), (''relation'', VStr relation)]"

definition value_id :: "string \<Rightarrow> nat \<Rightarrow> string" where
  "value_id key i = ''value:'' @ key @ '':'' @ str_int (int i)"

definition value_nodes :: "source_map \<Rightarrow> pyval list" where
  "value_nodes sm = concat (map (\<lambda>(key, refs). map (\<lambda>(i, e). node (value_id key i) ''financial_value'' key
     [(''document'', VStr (ev_document e)), (''page'', VInt (ev_page e)), (''status'', VStr (ev_verification_status e))])
     (List.enumerate 0 refs)) sm)"

definition input_edges :: "source_map \<Rightarrow> string list \<Rightarrow> string \<Rightarrow> string \<Rightarrow> pyval list" where
  "input_edges sm keys target relation = concat (map (\<lambda>key. map (\<lambda>i. edge (value_id key i) target relation)
     [0..<length (refs_of sm key)]) keys)"

definition model_node_id :: "string \<Rightarrow> string" where
  "model_node_id name = ''model:'' @ str_replace '' '' ''_'' (lower name)"

definition signal_edges :: "(string, metric) dict \<Rightarrow> model_mapping list \<Rightarrow> rule_signal \<Rightarrow> pyval list" where
  "signal_edges metrics mappings s =
     (let target = ''signal:'' @ rs_rule_id s in
      (if starts_with ''MODEL_'' (rs_rule_id s)
       then (case find (\<lambda>m. mm_id m = rs_rule_id s) mappings of
          Some m \<Rightarrow> if mm_model m \<noteq> [] then [edge (model_node_id (mm_model m)) target ''mapped_to''] else []
        | None \<Rightarrow> []) else []) @
      map (\<lambda>k. edge (''metric:'' @ k) target ''triggers'') (filter (has_key metrics) (map evidence_key (rs_evidence s))) @
      [edge target (''dimension:'' @ rs_category s) ''contributes_to''])"

text \<open>The position of the first accepted claim with the text of a contradiction.\<close>

fun claim_index :: "narrative_claim list \<Rightarrow> string \<Rightarrow> nat" where
  "claim_index [] t = 0"
| "claim_index (c # cs) t = (if nc_claim c = t then 0 else Suc (claim_index cs t))"

definition contradiction_edges :: "narrative_claim list \<Rightarrow> nat \<Rightarrow> contradiction \<Rightarrow> pyval list" where
  "contradiction_edges accepted i c = (let target = ''contradiction:'' @ str_int (int i) in
     [edge (''claim:'' @ str_int (int (claim_index accepted (co_claim c)))) target ''claim_input'',
      edge target (''dimension:'' @ co_category c) ''contributes_to''])"

definition evidence_graph :: "pipeline \<Rightarrow> source_map \<Rightarrow> (string, metric) dict \<Rightarrow> model_result list \<Rightarrow> rule_signal list
    \<Rightarrow> narrative_claim list \<Rightarrow> contradiction list \<Rightarrow> string list \<Rightarrow> pyval" where
  "evidence_graph p sm metrics models signals accepted cs dims = VDict [
     (''nodes'', VList (value_nodes sm @
        map (\<lambda>(name, m). node (''metric:'' @ name) ''metric'' name [(''formula'', VStr (me_formula m))]) metrics @
        map (\<lambda>r. node (model_node_id (mr_name r)) ''model'' (mr_name r) [(''applicability'', VStr (mr_applicability r))]) models @
        map (\<lambda>s. node (''signal:'' @ rs_rule_id s) ''signal'' (rs_rule_id s) []) signals @
        map (\<lambda>(i, c). node (''claim:'' @ str_int (int i)) ''claim'' (nc_claim c) [(''page'', VInt (ev_page (nc_evidence c)))])
          (List.enumerate 0 accepted) @
        map (\<lambda>(i, c). node (''contradiction:'' @ str_int (int i)) ''contradiction'' (co_category c) []) (List.enumerate 0 cs) @
        map (\<lambda>d. node (''dimension:'' @ d) ''dimension'' d []) dims @ [node ''overall'' ''assessment'' ''overall risk'' []])),
     (''edges'', VList (
        concat (map (\<lambda>(name, m). input_edges sm (map fst (me_inputs m)) (''metric:'' @ name) ''input_to'') metrics) @
        concat (map (\<lambda>r. input_edges sm (map fst (mr_inputs r)) (model_node_id (mr_name r)) ''model_input'') models) @
        concat (map (signal_edges metrics (pl_mappings p)) signals) @
        concat (map (\<lambda>(i, c). contradiction_edges accepted i c) (List.enumerate 0 cs)) @
        map (\<lambda>d. edge (''dimension:'' @ d) ''overall'' ''weighted_into'') dims))]"

section \<open>The assessment\<close>

text \<open>Everything that is computed once the signals and contradictions are bound to their references.\<close>

definition finish :: "(string list \<Rightarrow> string list) \<Rightarrow> pipeline \<Rightarrow> assess_request \<Rightarrow> obj \<Rightarrow> model_result list
    \<Rightarrow> rule_signal list \<Rightarrow> contradiction list \<Rightarrow> assessment result" where
  "finish order_of p q facts models signals cs =
     (let (verified, accepted) = admitted q; metrics = request_metrics q; sm = final_source_map q;
          current = rq_current q;
          evaluations = map (\<lambda>c. evaluate_claim_consistency (pl_consistency p) c facts) accepted;
          statuses = map ev_verification_status (concat (map snd sm));
          oks = map ev_verified verified; outputs = map (\<lambda>r. mr_output r \<noteq> VNone) models; multi = (rq_previous q \<noteq> None);
          (financial, observability) = separate_features (amounts_obj current) (expected_features p)
      in bind_result (aggregate (pl_scoring p) signals (map co_category cs) (order_of (covered_categories signals cs)))
        (\<lambda>(score, level, dims). Inr
          \<lparr>at_company = rq_company q, at_reporting_period = str_int (rq_year q), at_overall_score = score,
           at_risk_level = level, at_confidence = confidence current oks outputs multi statuses, at_dimensions = dims,
           at_metrics = metrics, at_models = models, at_triggered_rules = signals, at_contradictions = cs,
           at_missing = map missing_text (filter (\<lambda>m. me_value m = None) (map snd metrics)),
           at_components = confidence_components current oks outputs multi statuses,
           at_graph = evidence_graph p sm metrics models signals accepted cs (map fst dims),
           at_coverage = proof_coverage signals, at_evaluations = evaluations,
           at_tensions = map2 claim_tension accepted evaluations,
           at_financial = financial, at_observability = observability, at_suppressed = suppressed q accepted\<rparr>))"

definition assess :: "(pyfloat \<Rightarrow> pyfloat) \<Rightarrow> (pyfloat \<Rightarrow> pyfloat) \<Rightarrow> (string list \<Rightarrow> string list) \<Rightarrow> pipeline \<Rightarrow> assess_request
    \<Rightarrow> assessment result" where
  "assess ln_of exp_of order_of p q =
     bind_result (run_models ln_of exp_of (rq_entity_type q) (rq_current q) (previous_of q) (request_metrics q)) (\<lambda>models.
     bind_result (build_facts (rq_current q) (previous_of q) (rq_year q) (request_metrics q) models (snd (admitted q))) (\<lambda>facts.
     bind_result (all_signals p q facts models) (\<lambda>signals.
     bind_result (all_contradictions p q facts) (\<lambda>cs.
     finish order_of p q facts models signals cs))))"

section \<open>Serialisation: \<open>Assessment.to_dict\<close>\<close>

definition ref_to_dict :: "evidence_ref \<Rightarrow> pyval" where
  "ref_to_dict e = VDict [(''document'', VStr (ev_document e)), (''page'', VInt (ev_page e)),
     (''source_text'', VStr (ev_source_text e)), (''fiscal_year'', vopt VInt (ev_fiscal_year e)),
     (''confidence'', VFloat (ev_confidence e)), (''verified'', VBool (ev_verified e)),
     (''verification_status'', VStr (ev_verification_status e)), (''source'', vopt VStr (ev_source e)),
     (''company'', vopt VStr (ev_company e)), (''period'', vopt VStr (ev_period e)), (''quote'', vopt VStr (ev_quote e)),
     (''value'', vopt VFloat (ev_value e)), (''unit'', vopt VStr (ev_unit e))]"

definition refs_to_list :: "evidence_ref list \<Rightarrow> pyval" where
  "refs_to_list refs = VList (map ref_to_dict refs)"

definition provenance_to_dict :: "source_map \<Rightarrow> pyval" where
  "provenance_to_dict d = VDict (map (\<lambda>(k, refs). (k, refs_to_list refs)) d)"

definition metric_to_dict :: "metric \<Rightarrow> pyval" where
  "metric_to_dict m = VDict [(''name'', VStr (me_name m)), (''value'', vopt VFloat (me_value m)),
     (''formula'', VStr (me_formula m)), (''inputs'', VDict (amounts_obj (me_inputs m))),
     (''fiscal_year'', VInt (me_fiscal_year m)), (''missing_reason'', vopt VStr (me_missing_reason m)),
     (''source_refs'', refs_to_list (me_source_refs m))]"

definition model_to_dict :: "model_result \<Rightarrow> pyval" where
  "model_to_dict r = VDict [(''name'', VStr (mr_name r)), (''output'', mr_output r),
     (''interpretation'', VStr (mr_interpretation r)), (''applicability'', VStr (mr_applicability r)),
     (''inputs'', VDict (mr_inputs r)), (''formula'', VStr (mr_formula r)),
     (''missing_components'', vstrs (mr_missing r)), (''derived_outputs'', VDict (mr_derived r))]"

definition signal_to_dict :: "rule_signal \<Rightarrow> pyval" where
  "signal_to_dict s = VDict [(''rule_id'', VStr (rs_rule_id s)), (''category'', VStr (rs_category s)),
     (''severity'', VStr (rs_severity s)), (''score_delta'', VFloat (rs_score_delta s)), (''rationale'', rs_rationale s),
     (''evidence'', vstrs (rs_evidence s)), (''source_refs'', refs_to_list (rs_source_refs s)),
     (''family'', vopt VStr (rs_family s)), (''required_inputs'', vstrs (rs_required_inputs s)),
     (''input_provenance'', provenance_to_dict (rs_input_provenance s))]"

definition contradiction_to_dict :: "contradiction \<Rightarrow> pyval" where
  "contradiction_to_dict c = VDict [(''category'', VStr (co_category c)), (''management_claim'', VStr (co_claim c)),
     (''conflicting_evidence'', vstrs (co_conflicting c)), (''interpretation'', VStr (co_interpretation c)),
     (''evidence'', ref_to_dict (co_evidence c)), (''required_inputs'', vstrs (co_required_inputs c)),
     (''input_provenance'', provenance_to_dict (co_input_provenance c))]"

definition dimension_to_dict :: "dimension \<Rightarrow> pyval" where
  "dimension_to_dict d = VDict [(''score'', vopt VFloat (di_score d)), (''level'', VStr (di_level d)),
     (''trend'', VStr (di_trend d)), (''coverage'', VFloat (di_coverage d)), (''key_drivers'', vstrs (di_key_drivers d))]"

definition evaluation_to_dict :: "claim_evaluation \<Rightarrow> pyval" where
  "evaluation_to_dict e = VDict [(''claim'', VStr (ce_claim e)), (''risk_dimension'', VStr (ce_dimension e)),
     (''claim_target'', VStr (ce_target e)), (''required_evidence_types'', vstrs (ce_required e)),
     (''available_evidence_types'', vstrs (ce_available e)), (''missing_evidence_types'', vstrs (ce_missing e)),
     (''supporting_evidence'', vstrs (ce_supporting e)), (''opposing_evidence'', vstrs (ce_opposing e)),
     (''classification'', VStr (ce_classification e)), (''reason_code'', VStr (ce_reason e)),
     (''policy_version'', VStr (ce_policy_version e)), (''policy_hash'', VStr (ce_policy_hash e))]"

definition tension_to_dict :: "tension \<Rightarrow> pyval" where
  "tension_to_dict t = VDict [(''claim'', VStr (te_claim t)), (''supporting_evidence'', vstrs (te_supporting t)),
     (''opposing_evidence'', vstrs (te_opposing t)), (''context'', VStr (te_context t)),
     (''classification'', VStr (te_classification t)), (''confidence'', VFloat (te_confidence t)),
     (''source'', ref_to_dict (te_source t)), (''reason_code'', VStr (te_reason t)),
     (''evidence_sufficiency'', VStr (te_sufficiency t))]"

definition disclaimer :: string where
  "disclaimer = ''Risk scores are heuristic assessment scores, not bankruptcy probabilities or investment advice.''"

definition assessment_to_dict :: "assessment \<Rightarrow> obj" where
  "assessment_to_dict a = [(''company'', VStr (at_company a)), (''reporting_period'', VStr (at_reporting_period a)),
     (''overall_score'', vopt VFloat (at_overall_score a)), (''risk_level'', VStr (at_risk_level a)),
     (''confidence'', VFloat (at_confidence a)),
     (''dimensions'', VDict (map (\<lambda>(k, d). (k, dimension_to_dict d)) (at_dimensions a))),
     (''metrics'', VDict (map (\<lambda>(k, m). (k, metric_to_dict m)) (at_metrics a))),
     (''models'', VList (map model_to_dict (at_models a))),
     (''triggered_rules'', VList (map signal_to_dict (at_triggered_rules a))),
     (''contradictions'', VList (map contradiction_to_dict (at_contradictions a))),
     (''missing_information'', vstrs (at_missing a)),
     (''confidence_components'', VDict (map (\<lambda>(k, x). (k, VFloat x)) (at_components a))),
     (''evidence_graph'', at_graph a), (''evidence_quality'', VFloat (at_confidence a)),
     (''evidence_coverage'', VFloat (at_coverage a)), (''reliability_status'', VStr ''UNCALIBRATED''),
     (''claim_consistency_evaluations'', VList (map evaluation_to_dict (at_evaluations a))),
     (''disclosure_tensions'', VList (map tension_to_dict (at_tensions a))),
     (''financial_features'', VDict (amounts_obj (at_financial a))),
     (''reporting_observability'', VDict (map (\<lambda>(k, b). (k, VBool b)) (at_observability a))),
     (''disclaimer'', VStr disclaimer)]"

end
