(* ===== verification/Returns.thy ===== *)
theory Returns
  imports Assess
begin

text \<open>
  When an assessment returns. The requirements of a metric are a chain of at most three metrics, so that the
  recursion of \<open>metric_requirements\<close> ends on everything that \<open>calculate_metrics\<close> publishes; the references of
  every signal and contradiction are then found without an error, and the scores aggregate whenever the
  categories are those of the scoring module.
\<close>

section \<open>Requirements end\<close>

text \<open>A metric that rests on line items only, and one that rests on line items and such metrics.\<close>

definition flat :: "analysis_input \<Rightarrow> string \<Rightarrow> bool" where
  "flat a k = (ends_with ''_growth'' k \<or> (\<exists>m. map_of (an_metrics a) k = Some m \<and>
     list_all (\<lambda>i. (has_key (an_metrics a) i \<longrightarrow> i = k) \<and> i \<noteq> ''free_cash_flow'') (map fst (me_inputs m))))"

definition shallow :: "analysis_input \<Rightarrow> string \<Rightarrow> bool" where
  "shallow a k = (ends_with ''_growth'' k \<or> (\<exists>m. map_of (an_metrics a) k = Some m \<and>
     list_all (\<lambda>i. has_key (an_metrics a) i \<and> i \<noteq> k \<or> i = ''free_cash_flow'' \<longrightarrow> flat a i) (map fst (me_inputs m))))"

lemma requirements_step:
  assumes "ends_with ''_growth'' k \<or> (\<exists>m. map_of (an_metrics a) k = Some m \<and>
    (\<forall>i\<in>set (map fst (me_inputs m)). has_key (an_metrics a) i \<and> i \<noteq> k \<or> i = ''free_cash_flow'' \<longrightarrow> is_ok (metric_requirements n a i)))"
  shows "is_ok (metric_requirements (Suc n) a k)"
proof (cases "ends_with ''_growth'' k")
  case False
  then obtain m where m: "map_of (an_metrics a) k = Some m" "\<forall>i\<in>set (map fst (me_inputs m)).
      has_key (an_metrics a) i \<and> i \<noteq> k \<or> i = ''free_cash_flow'' \<longrightarrow> is_ok (metric_requirements n a i)"
    using assms by blast
  have "is_ok (map_result (input_requirements (metric_requirements n a) a k m) (map fst (me_inputs m)))"
    using m(2) by (intro map_result_ok) (auto simp: input_requirements_def Let_def)
  then show ?thesis using False m(1) by (auto simp: is_ok_bind is_ok_iff)
qed simp

lemma flat_ok: "flat a k \<Longrightarrow> is_ok (metric_requirements (Suc n) a k)"
  by (rule requirements_step) (auto simp: flat_def list_all_iff)

lemma shallow_ok: "shallow a k \<Longrightarrow> is_ok (metric_requirements (Suc (Suc n)) a k)"
  by (rule requirements_step) (auto simp: shallow_def list_all_iff simp del: metric_requirements.simps intro: flat_ok)

text \<open>The metrics of \<open>calculate_metrics\<close> are shallow: only the conversion cycle and the margin of the free cash flow rest
  on other metrics.\<close>

definition nested_inputs :: "string list" where
  "nested_inputs = [''free_cash_flow'', ''receivable_days'', ''inventory_days'', ''payable_days'']"

definition plain_inputs :: "string list" where
  "plain_inputs = [''current_assets'', ''current_liabilities'', ''inventory'', ''cash'', ''shareholder_equity'', ''total_assets'',
     ''total_liabilities'', ''EBIT'', ''interest_expense'', ''EBITDA'', ''gross_profit'', ''revenue'', ''operating_income'',
     ''net_income'', ''assets_basis'', ''equity_basis'', ''operating_cash_flow'', ''capital_expenditure'', ''receivables_basis'',
     ''inventory_basis'', ''COGS'', ''payables_basis'', ''components'', ''current'', ''prior'', ''total_debt'', ''short_term_debt'',
     ''long_term_debt'']"

definition metric_names :: "string list" where
  "metric_names = map fst (calculate_metrics [] 0 [])"

lemma metric_names_eq: "metric_names = [''current_ratio'', ''quick_ratio'', ''cash_ratio'', ''working_capital'', ''debt_to_equity'',
   ''debt_to_assets'', ''liabilities_to_assets'', ''net_debt'', ''interest_coverage'', ''debt_to_ebitda'', ''gross_margin'',
   ''operating_margin'', ''net_margin'', ''roa'', ''roe'', ''cfo_to_net_income'', ''free_cash_flow'', ''fcf_margin'',
   ''receivable_days'', ''inventory_days'', ''payable_days'', ''cash_conversion_cycle'']"
  by (simp add: metric_names_def calculate_metrics_def Let_def period_metrics_def balance_specs_def performance_specs_def)

lemma plain_inputs_fresh: "list_all (\<lambda>k. k \<notin> set metric_names \<and> \<not> ends_with ''_growth'' k) plain_inputs"
  unfolding metric_names_eq by code_simp

lemma nested_inputs_fresh: "list_all (\<lambda>k. \<not> ends_with ''_growth'' k) nested_inputs"
  by code_simp

lemma metric_key_list:
  "map fst (calculate_metrics v year p) = metric_names @ (if p = [] then [] else map (\<lambda>k. k @ ''_growth'') growth_keys)"
  unfolding metric_names_eq by (simp add: calculate_metrics_def Let_def period_metrics_def growth_metric_def case_prod_beta comp_def
    balance_specs_def performance_specs_def)

lemma metric_keys: "fst ` set (calculate_metrics v year p) \<subseteq> set metric_names \<union> {k. ends_with ''_growth'' k}"
proof -
  from arg_cong[OF metric_key_list[of v year p], of set]
  have "fst ` set (calculate_metrics v year p) \<subseteq> set metric_names \<union> (\<lambda>k. k @ ''_growth'') ` set growth_keys"
    by (simp split: if_splits)
  moreover have "(\<lambda>k. k @ ''_growth'') ` set growth_keys \<subseteq> {k. ends_with ''_growth'' k}"
    by (auto simp: ends_with_def starts_with_def)
  ultimately show ?thesis by (meson Un_mono order_refl order_trans)
qed

definition known_inputs :: "amounts \<Rightarrow> bool" where
  "known_inputs d = list_all (\<lambda>(k, _). k \<in> set (plain_inputs @ nested_inputs)) d"

lemma known_inputs_simps [simp]:
  "known_inputs []" "known_inputs ((k, x) # d) \<longleftrightarrow> k \<in> set (plain_inputs @ nested_inputs) \<and> known_inputs d"
  "known_inputs (reported v ks) \<longleftrightarrow> set ks \<subseteq> set (plain_inputs @ nested_inputs)"
  by (auto simp: known_inputs_def reported_def list_all_iff)

lemma known_inputs_iff: "known_inputs d \<longleftrightarrow> fst ` set d \<subseteq> set (plain_inputs @ nested_inputs)"
  by (force simp: known_inputs_def list_all_iff)

lemma keys_dict_union: "fst ` set (dict_union a b) = fst ` set a \<union> fst ` set b"
proof -
  have "fst ` set (AList.update k v d) = insert k (fst ` set d)" for k :: 'a and v :: 'b and d by (induction d) auto
  then show ?thesis unfolding dict_union_def by (induction b arbitrary: a) (auto simp: case_prod_beta)
qed

lemma known_with_keys [simp]: "known_inputs (with_keys a b) \<longleftrightarrow> known_inputs a \<and> known_inputs b"
  by (simp add: with_keys_def known_inputs_iff keys_dict_union)

lemma debt_keys_known: "set (mi_debt_keys (inputs_of v p)) \<subseteq> set (plain_inputs @ nested_inputs)"
  by (auto simp: inputs_of_def resolve_total_debt_def plain_inputs_def split: option.splits)

lemma specs_known:
  "list_all (\<lambda>(n, x, f, d). known_inputs d) (balance_specs v (inputs_of v p))"
  "list_all (\<lambda>(n, x, f, d). known_inputs d) (performance_specs v p (inputs_of v p))"
proof -
  show "list_all (\<lambda>(n, x, f, d). known_inputs d) (balance_specs v (inputs_of v p))"
    using debt_keys_known[of v p] by (simp add: balance_specs_def Let_def plain_inputs_def)
  show "list_all (\<lambda>(n, x, f, d). known_inputs d) (performance_specs v p (inputs_of v p))"
    by (simp add: performance_specs_def plain_inputs_def nested_inputs_def)
qed

lemma make_metric_inputs [simp]: "me_inputs (make_metric name x f inputs year r) = inputs"
  by (simp add: make_metric_def Let_def)

lemma metric_inputs_known:
  assumes "(k, m) \<in> set (calculate_metrics v year p)"
  shows "known_inputs (me_inputs m)"
proof -
  have "known_inputs (me_inputs (conversion_cycle ms year))" for ms
    by (simp add: conversion_cycle_def plain_inputs_def nested_inputs_def split: option.splits)
  moreover have "known_inputs (me_inputs (snd (growth_metric v p i year g)))" for i g
    by (simp add: growth_metric_def Let_def plain_inputs_def)
  moreover have "list_all (known_inputs \<circ> me_inputs \<circ> snd) (period_metrics v p (inputs_of v p) year)"
    using specs_known[of v p] by (auto simp: period_metrics_def list_all_iff case_prod_beta)
  ultimately have "list_all (known_inputs \<circ> me_inputs \<circ> snd) (calculate_metrics v year p)"
    by (auto simp: calculate_metrics_def Let_def list_all_iff)
  then show ?thesis using assms by (auto simp: list_all_iff)
qed

text \<open>The inputs of the four nested metrics are line items.\<close>

lemma nested_metric:
  assumes "(k, m) \<in> set (calculate_metrics v year p)" "k \<in> set nested_inputs"
  shows "set (map fst (me_inputs m)) \<subseteq> set plain_inputs"
proof -
  define flat_entry where "flat_entry = (\<lambda>k (d :: amounts). k \<in> set nested_inputs \<longrightarrow> set (map fst d) \<subseteq> set plain_inputs)"
  have "list_all (\<lambda>(n, x, f, d). flat_entry n d) (balance_specs v (inputs_of v p))"
    by (simp add: flat_entry_def balance_specs_def Let_def nested_inputs_def)
  moreover have "list_all (\<lambda>(n, x, f, d). flat_entry n d) (performance_specs v p (inputs_of v p))"
    by (simp add: flat_entry_def performance_specs_def nested_inputs_def plain_inputs_def)
  ultimately have "list_all (\<lambda>(n, m). flat_entry n (me_inputs m)) (period_metrics v p (inputs_of v p) year)"
    by (auto simp: period_metrics_def list_all_iff case_prod_beta)
  moreover have "flat_entry ''cash_conversion_cycle'' d" for d by (simp add: flat_entry_def nested_inputs_def)
  moreover have "flat_entry (k @ ''_growth'') d" for k d
    using nested_inputs_fresh by (auto simp: flat_entry_def list_all_iff ends_with_def starts_with_def)
  ultimately have "list_all (\<lambda>(n, m). flat_entry n (me_inputs m)) (calculate_metrics v year p)"
    by (auto simp: calculate_metrics_def Let_def growth_metric_def list_all_iff)
  then show ?thesis using assms by (fastforce simp: flat_entry_def list_all_iff)
qed

section \<open>The requirements of an assessment\<close>

definition request_metric_inputs :: "assess_request \<Rightarrow> (string, metric) dict" where
  "request_metric_inputs q = calculate_metrics (rq_current q) (rq_year q) (previous_of q)"

lemma request_lookup:
  "map_of (an_metrics (request_input q)) k = map_option (with_source_refs (rq_source_map q)) (map_of (request_metric_inputs q) k)"
  by (simp add: request_input_def request_metrics_def request_metric_inputs_def map_of_map)

lemma request_keys: "has_key (an_metrics (request_input q)) k \<longleftrightarrow> has_key (request_metric_inputs q) k"
  by (simp add: has_key_def request_lookup)

lemma with_refs_inputs [simp]: "me_inputs (with_source_refs sm m) = me_inputs m"
  by (simp add: with_source_refs_def)

lemma request_key_known: "has_key (request_metric_inputs q) k \<Longrightarrow> k \<in> set metric_names \<or> ends_with ''_growth'' k"
  using metric_keys[of "rq_current q" "rq_year q" "previous_of q"] unfolding request_metric_inputs_def
  by (auto simp: has_key_def dest!: map_of_SomeD)

lemma plain_not_metric: "k \<in> set plain_inputs \<Longrightarrow> \<not> has_key (request_metric_inputs q) k \<and> k \<noteq> ''free_cash_flow''"
  using plain_inputs_fresh request_key_known[of q k] by (auto simp: list_all_iff metric_names_eq)

lemma nested_has_key: "k \<in> set nested_inputs \<Longrightarrow> \<exists>m. map_of (request_metric_inputs q) k = Some m"
proof -
  assume "k \<in> set nested_inputs"
  then have "k \<in> set metric_names" by (auto simp: nested_inputs_def metric_names_eq)
  then have "k \<in> set (map fst (calculate_metrics (rq_current q) (rq_year q) (previous_of q)))"
    by (simp only: metric_key_list set_append) simp
  then have "k \<in> fst ` set (request_metric_inputs q)" by (simp add: request_metric_inputs_def)
  then show ?thesis by (metis map_of_eq_None_iff not_None_eq)
qed

lemma nested_flat: "k \<in> set nested_inputs \<Longrightarrow> flat (request_input q) k"
proof -
  assume k: "k \<in> set nested_inputs"
  then obtain m where m: "map_of (request_metric_inputs q) k = Some m" using nested_has_key by blast
  have "set (map fst (me_inputs m)) \<subseteq> set plain_inputs"
    using nested_metric map_of_SomeD[OF m] k unfolding request_metric_inputs_def by blast
  then show ?thesis using plain_not_metric unfolding flat_def request_lookup m request_keys list_all_iff by auto
qed

lemma metrics_shallow: "has_key (request_metric_inputs q) k \<Longrightarrow> shallow (request_input q) k"
proof -
  assume "has_key (request_metric_inputs q) k"
  then obtain m where m: "map_of (request_metric_inputs q) k = Some m" by (auto simp: has_key_def)
  have "known_inputs (me_inputs m)" using metric_inputs_known map_of_SomeD[OF m] unfolding request_metric_inputs_def by blast
  then have "\<forall>i\<in>set (map fst (me_inputs m)). has_key (request_metric_inputs q) i \<and> i \<noteq> k \<or> i = ''free_cash_flow'' \<longrightarrow>
      flat (request_input q) i"
    using plain_not_metric nested_flat unfolding known_inputs_iff by fastforce
  then show ?thesis unfolding shallow_def request_lookup m request_keys list_all_iff by simp
qed

lemma requirements_end:
  "has_key (an_metrics (request_input q)) k \<or> ends_with ''_growth'' k \<Longrightarrow> is_ok (requirements_of_metric (request_input q) k)"
proof -
  assume k: "has_key (an_metrics (request_input q)) k \<or> ends_with ''_growth'' k"
  obtain n where n: "length (an_metrics (request_input q)) = Suc n"
    using nested_has_key[of "''free_cash_flow''" q]
    by (cases "an_metrics (request_input q)") (auto simp: nested_inputs_def request_input_def request_metrics_def request_metric_inputs_def)
  show ?thesis
    unfolding requirements_of_metric_def n using k metrics_shallow shallow_ok unfolding request_keys
    by (metis requirements_step)
qed

lemma fact_requirements_end: "is_ok (fact_requirements (request_input q) k)"
proof -
  have growth: "ends_with ''_growth'' (remove_suffix ''_gap'' k)"
    if "k = ''accounts_receivable_growth_gap'' \<or> k = ''inventory_growth_gap''"
    using that by (auto simp: remove_suffix_def ends_with_def starts_with_def)
  have fixed: "ends_with ''_growth'' ''revenue_growth''" "ends_with ''_growth'' ''free_cash_flow_growth''"
    by (simp_all add: ends_with_def starts_with_def)
  have ok: "\<exists>x. requirements_of_metric (request_input q) n = Inr x"
    if "has_key (an_metrics (request_input q)) n \<or> ends_with ''_growth'' n" for n
    using requirements_end[OF that] by (simp add: is_ok_iff)
  obtain f r where f: "requirements_of_metric (request_input q) ''free_cash_flow_growth'' = Inr f"
    "requirements_of_metric (request_input q) ''revenue_growth'' = Inr r"
    using ok fixed by blast
  consider "k = ''fcf_growth''" | "k \<noteq> ''fcf_growth''" "ends_with ''_growth'' k \<or> has_key (an_metrics (request_input q)) k"
    | "k \<noteq> ''fcf_growth''" "k = ''accounts_receivable_growth_gap'' \<or> k = ''inventory_growth_gap''"
      "\<not> (ends_with ''_growth'' k \<or> has_key (an_metrics (request_input q)) k)"
    | "k \<noteq> ''fcf_growth''" "\<not> (k = ''accounts_receivable_growth_gap'' \<or> k = ''inventory_growth_gap'')"
      "\<not> (ends_with ''_growth'' k \<or> has_key (an_metrics (request_input q)) k)" by blast
  then show ?thesis
  proof cases
    case 1
    then show ?thesis by (simp add: fact_requirements_def f)
  next
    case 2
    then obtain x where "requirements_of_metric (request_input q) k = Inr x" using ok by blast
    with 2 show ?thesis by (auto simp: fact_requirements_def)
  next
    case 3
    obtain x where "requirements_of_metric (request_input q) (remove_suffix ''_gap'' k) = Inr x"
      using ok growth[OF 3(2)] by blast
    with 3 show ?thesis by (simp add: fact_requirements_def f)
  next
    case 4
    then show ?thesis using ok[of "remove_suffix ''_change'' k"] by (auto simp: fact_requirements_def)
  qed
qed

section \<open>Signals and contradictions are bound\<close>

lemma is_ok_bindI: "is_ok r \<Longrightarrow> (\<And>x. r = Inr x \<Longrightarrow> is_ok (f x)) \<Longrightarrow> is_ok (bind_result r f)"
  by (auto simp: is_ok_iff)

definition mapping_ok :: "model_mapping \<Rightarrow> bool" where
  "mapping_ok m = (mm_operator m \<in> set [''<'', ''<='', ''>'', ''>=''] \<and> num (mm_threshold m) \<noteq> None \<and> mm_category m \<in> set categories)"

lemma input_refs_ok: "is_ok (input_refs (request_input q) sm k)"
  by (auto simp: input_refs_def Let_def intro!: is_ok_bindI requirements_end split: prod.splits)

lemma mapping_signal_ok:
  obtains s where "mapping_signal (request_input q) sm v mp r = Inr s" "rs_category s = mm_category mp"
proof -
  have "is_ok (map_result (\<lambda>k. bind_result (input_refs (request_input q) sm k) (\<lambda>refs. Inr (k, refs))) (mapping_required mp r))"
    by (intro map_result_ok ballI is_ok_bindI input_refs_ok) simp
  then obtain ps where "map_result (\<lambda>k. bind_result (input_refs (request_input q) sm k) (\<lambda>refs. Inr (k, refs))) (mapping_required mp r) = Inr ps"
    by (auto simp: is_ok_iff)
  then show thesis using that by (simp add: mapping_signal_def)
qed

lemma mapping_signals_ok:
  assumes "numeric_facts facts" "list_all mapping_ok mps"
  shows "\<exists>ss. mapping_signals (request_input q) sm facts models mps = Inr ss \<and> rs_category ` set ss \<subseteq> set categories"
  using assms(2)
proof (induction mps)
  case (Cons mp mps)
  then obtain ss where ss: "mapping_signals (request_input q) sm facts models mps = Inr ss" "rs_category ` set ss \<subseteq> set categories"
    by auto
  have "is_ok (if get facts (mm_metric mp) = VNone then Inr False else crosses mp (get facts (mm_metric mp)))"
    using Cons.prems assms(1) by (auto simp: mapping_ok_def crosses_def numeric_facts_def intro: compare_values_total)
  then obtain hit where hit: "(if get facts (mm_metric mp) = VNone then Inr False else crosses mp (get facts (mm_metric mp))) = Inr hit"
    by (auto simp: is_ok_iff)
  show ?case
  proof (cases "hit \<and> find (\<lambda>r. mr_name r = mm_model mp) models \<noteq> None")
    case True
    then obtain r where r: "find (\<lambda>r. mr_name r = mm_model mp) models = Some r" hit by blast
    obtain s where "mapping_signal (request_input q) sm (get facts (mm_metric mp)) mp r = Inr s" "rs_category s = mm_category mp"
      by (rule mapping_signal_ok)
    then show ?thesis using ss hit r Cons.prems by (simp add: mapping_ok_def)
  next
    case False
    then show ?thesis using ss hit by (cases hit) (auto split: option.splits)
  qed
qed simp

lemma bind_signal_ok:
  obtains t where "bind_signal (request_input q) sm s = Inr t" "rs_category t = rs_category s"
proof -
  have "is_ok (map_result (\<lambda>k. bind_result (fact_requirements (request_input q) k) (\<lambda>r. Inr (k, complete_refs sm r)))
      (map evidence_key (rs_evidence s)))"
    by (intro map_result_ok ballI is_ok_bindI fact_requirements_end) simp
  then show thesis using that by (auto simp: bind_signal_def Let_def is_ok_iff)
qed

lemma bind_signals_ok:
  "\<exists>ts. map_result (bind_signal (request_input q) sm) ss = Inr ts \<and> rs_category ` set ts = rs_category ` set ss"
proof (induction ss)
  case (Cons s ss)
  obtain t where "bind_signal (request_input q) sm s = Inr t" "rs_category t = rs_category s" by (rule bind_signal_ok)
  with Cons show ?case by auto
qed simp

lemma bind_contradiction_ok:
  obtains t where "bind_contradiction p (request_input q) sm facts c = Inr t" "co_category t = co_category c"
proof -
  have "is_ok (map_result (\<lambda>k. fact_requirements (request_input q) (nk_metric k)) (map fst (opposing_checks p facts (co_category c))))"
    by (intro map_result_ok) (simp add: fact_requirements_end)
  then show thesis using that by (auto simp: bind_contradiction_def contradiction_requirements_def is_ok_iff)
qed

lemma bind_contradictions_ok:
  "\<exists>ts. map_result (bind_contradiction p (request_input q) sm facts) cs = Inr ts \<and> co_category ` set ts = co_category ` set cs"
proof (induction cs)
  case (Cons c cs)
  obtain t where "bind_contradiction p (request_input q) sm facts c = Inr t" "co_category t = co_category c" by (rule bind_contradiction_ok)
  with Cons show ?case by auto
qed simp

text \<open>A contradiction needs an adverse check, and only categories of the scoring module have checks.\<close>

lemma contradiction_category:
  assumes "c \<in> set (detect_contradictions p claims facts)" "1 \<le> cp_material_count p"
  shows "co_category c \<in> set categories"
proof -
  obtain d where d: "d \<in> set claims" "ce_classification (evaluate_claim_consistency p d facts) = ''MATERIAL_CONTRADICTION''"
    "co_category c = nc_risk_category d"
    using assms(1) by (auto simp: detect_contradictions_def Let_def map_filter_def split: if_splits)
  have "contradicted p facts d" using d(2) evaluation_material by blast
  then have "opposing_checks p (consistency_facts facts facts) (nc_risk_category d) \<noteq> []"
    using assms(2) by (auto simp: contradicted_def Let_def)
  then have "category_checks (nc_risk_category d) \<noteq> []" by (auto simp: opposing_checks_def known_checks_def map_filter_def)
  then have "nc_risk_category d \<in> fst ` set checks"
    by (auto simp: category_checks_def dict_get_def split: option.splits dest!: map_of_SomeD intro: image_eqI[rotated])
  moreover have "fst ` set checks \<subseteq> set categories" by (simp add: checks_def categories_def)
  ultimately show ?thesis using d(3) by auto
qed

section \<open>The scores aggregate\<close>

lemma effective_subset: "set (effective_signals signals) \<subseteq> set signals"
proof -
  have upd: "set (map snd (AList.update k x d)) \<subseteq> insert x (set (map snd d))" for k x and d :: "((string \<times> string option) \<times> rule_signal) list"
    by (induction d) auto
  have "set (map snd (foldl keep_larger g ss)) \<subseteq> set (map snd g) \<union> set ss" for g ss
  proof (induction ss arbitrary: g)
    case (Cons s ss)
    have "set (map snd (keep_larger g s)) \<subseteq> insert s (set (map snd g))"
      using upd[of "signal_key s" s g] by (auto simp: keep_larger_def split: option.splits)
    from subset_trans[OF Cons.IH Un_mono[OF this order_refl]] show ?case by simp
  qed simp
  from this[of "[]"] show ?thesis by (fastforce simp: effective_signals_def)
qed

lemma weighted_scores_ok:
  assumes "\<And>c. c \<in> set order \<Longrightarrow> \<exists>d. map_of dims c = Some d \<and> di_score d \<noteq> None"
  shows "is_ok (weighted_scores config dims order)"
  using assms by (induction order) (fastforce simp: is_ok_iff)+

lemma aggregate_returns:
  assumes order: "set order = rs_category ` set (effective_signals signals) \<union> set contradictions" and known: "set order \<subseteq> set categories"
  shows "is_ok (aggregate config signals contradictions order)"
proof -
  let ?s = "category_scores config (effective_signals signals) contradictions"
  let ?d = "map (\<lambda>c. (c, dimension_of config (effective_signals signals) ?s c)) categories"
  have "\<exists>d. map_of ?d c = Some d \<and> di_score d \<noteq> None" if "c \<in> set order" for c
  proof -
    have "c \<in> fst ` set ?s" using that order unfolding scored_categories by blast
    then obtain x where "map_of ?s c = Some x" by (metis map_of_eq_None_iff not_None_eq)
    moreover have "map_of ?d c = Some (dimension_of config (effective_signals signals) ?s c)"
      using that known by (auto simp: map_of_map_restrict)
    ultimately show ?thesis by (simp add: dimension_of_def)
  qed
  from weighted_scores_ok[OF this] obtain xs where "weighted_scores config ?d order = Inr xs" by (auto simp: is_ok_iff)
  moreover have "fdiv a b = None \<Longrightarrow> feq b (Fin 0)" for a b by (cases "(a, b)" rule: fdiv.cases) (auto split: if_splits pyfloat.splits)
  ultimately show ?thesis by (auto simp: aggregate_def Let_def quotient_def is_ok_bind split: option.splits)
qed

section \<open>Every request gets an assessment\<close>

definition config_known :: "pipeline \<Rightarrow> bool" where
  "config_known p = (list_all (\<lambda>r. str_of_value (vget r ''category'') \<in> set categories) (pl_rules p) \<and>
     list_all mapping_ok (pl_mappings p) \<and> 1 \<le> cp_material_count (pl_consistency p))"

lemma rule_categories:
  assumes "evaluate_rules facts rules = Inr fired" "list_all (\<lambda>r. str_of_value (vget r ''category'') \<in> set categories) rules"
  shows "rs_category ` set fired \<subseteq> set categories"
  using assms
proof (induction rules arbitrary: fired)
  case (Cons r rs)
  then obtain out where "evaluate_rules facts rs = Inr out" "set fired \<subseteq> insert (signal_of facts r (elems (vget r ''conditions''))) (set out)
      \<or> (\<exists>ms. set fired \<subseteq> insert (signal_of facts r ms) (set out))"
    by (fastforce simp: Let_def bind_result_Inr_iff split: if_splits)
  with Cons show ?case by (fastforce simp: signal_of_def)
qed simp

lemma signals_returned:
  assumes "numeric_facts facts" "is_ok (evaluate_rules facts (pl_rules p))" "config_known p"
  obtains signals where "all_signals p q facts models = Inr signals" "rs_category ` set signals \<subseteq> set categories"
proof -
  obtain fired where fired: "evaluate_rules facts (pl_rules p) = Inr fired" using assms(2) by (auto simp: is_ok_iff)
  obtain mapped where mapped: "mapping_signals (request_input q) (final_source_map q) facts models (pl_mappings p) = Inr mapped"
    "rs_category ` set mapped \<subseteq> set categories"
    using mapping_signals_ok[OF assms(1)] assms(3) unfolding config_known_def by blast
  obtain signals where signals: "map_result (bind_signal (request_input q) (final_source_map q)) (fired @ mapped) = Inr signals"
    "rs_category ` set signals = rs_category ` set (fired @ mapped)"
    using bind_signals_ok by blast
  show thesis
    using that[of signals] rule_categories[OF fired] assms(3) mapped(2) signals(2)
    by (simp add: all_signals_def fired mapped(1) signals(1) config_known_def Let_def image_Un)
qed

lemma contradictions_returned:
  assumes "config_known p"
  obtains cs where "all_contradictions p q facts = Inr cs" "co_category ` set cs \<subseteq> set categories"
proof -
  obtain cs where cs: "all_contradictions p q facts = Inr cs"
    "co_category ` set cs = co_category ` set (detect_contradictions (pl_consistency p) (snd (admitted q)) facts)"
    using bind_contradictions_ok unfolding all_contradictions_def by blast
  show thesis
    using that[OF cs(1)] contradiction_category assms unfolding cs(2) config_known_def by blast
qed

lemma finish_returns:
  assumes "rs_category ` set signals \<subseteq> set categories" "co_category ` set cs \<subseteq> set categories"
    "\<And>xs. set (order_of xs) = set xs"
  shows "is_ok (finish order_of p q facts models signals cs)"
proof -
  let ?o = "order_of (covered_categories signals cs)"
  have o: "set ?o = rs_category ` set (effective_signals signals) \<union> set (map co_category cs)"
    by (simp add: assms(3) covered_categories_def)
  moreover have "set ?o \<subseteq> set categories" unfolding o using assms(1,2) image_mono[OF effective_subset[of signals], of rs_category] by auto
  ultimately have "is_ok (aggregate (pl_scoring p) signals (map co_category cs) ?o)" by (rule aggregate_returns)
  then show ?thesis by (auto simp: finish_def Let_def is_ok_iff split: prod.splits)
qed

lemma returns_iff:
  assumes built: "build_pipeline disabled raw config = Inr p" and known: "config_known p"
    and order: "\<And>xs. set (order_of xs) = set xs"
  shows "is_ok (assess ln_of exp_of order_of p q) \<longleftrightarrow> is_ok (altman_variant (rq_entity_type q)) \<and>
    is_ok (ohlson_o ln_of exp_of (model_input (rq_current q) (request_metrics q)))"
proof -
  obtain rules where engine: "rule_engine disabled raw = Inr rules" "pl_rules p = rules"
    using built by (auto simp: build_pipeline_def bind_result_Inr_iff)
  have "is_ok (assess ln_of exp_of order_of p q)"
    if models: "run_models ln_of exp_of (rq_entity_type q) (rq_current q) (previous_of q) (request_metrics q) = Inr models" for models
  proof -
    obtain facts where facts: "build_facts (rq_current q) (previous_of q) (rq_year q) (request_metrics q) models (snd (admitted q)) = Inr facts"
      "numeric_facts facts" "is_ok (evaluate_rules facts rules)"
      using built_facts[OF models engine(1)] by blast
    obtain signals where signals: "all_signals p q facts models = Inr signals" "rs_category ` set signals \<subseteq> set categories"
      using signals_returned[OF facts(2) _ known] facts(3) engine(2) by blast
    obtain cs where cs: "all_contradictions p q facts = Inr cs" "co_category ` set cs \<subseteq> set categories"
      using contradictions_returned[OF known] by blast
    show ?thesis
      using finish_returns[OF signals(2) cs(2) order] by (simp add: assess_def models facts(1) signals(1) cs(1))
  qed
  then have "is_ok (assess ln_of exp_of order_of p q)"
    if "is_ok (run_models ln_of exp_of (rq_entity_type q) (rq_current q) (previous_of q) (request_metrics q))"
    using that unfolding is_ok_iff[of "run_models ln_of exp_of _ _ _ _"] by blast
  moreover have "is_ok (run_models ln_of exp_of (rq_entity_type q) (rq_current q) (previous_of q) (request_metrics q))"
    if "is_ok (assess ln_of exp_of order_of p q)"
    using that by (auto simp: assess_def is_ok_bind)
  ultimately show ?thesis using run_models_ok by blast
qed

text \<open>C7: Every request gets an assessment. Let the pipeline be one that was constructed, whose rules and mappings name
  categories of the scoring module and whose contradictions need at least one adverse check, and let the
  iteration over the covered categories visit each of them. Then the assessment raises exactly when the
  entity type has no Altman variant or the arithmetic of the Ohlson score raises; on every other request, with
  whatever values, references, narrative and missing inputs, metrics, models, facts, signals, references,
  contradictions and scores are all computed without an error, and the recursion over the requirements of a
  metric ends.\<close>

theorem assessment_returns:
  assumes built: "build_pipeline disabled raw config = Inr p" and known: "config_known p"
    and order: "\<And>xs. set (order_of xs) = set xs"
  shows "is_ok (assess ln_of exp_of order_of p q) \<longleftrightarrow> is_ok (altman_variant (rq_entity_type q)) \<and>
    is_ok (ohlson_o ln_of exp_of (model_input (rq_current q) (request_metrics q)))"
  using returns_iff[OF assms] .

definition sample_config :: pipeline where
  "sample_config = \<lparr>pl_rules = [],
     pl_mappings = [\<lparr>mm_id = ''MODEL_ALTMAN'', mm_model = ''Altman Z-Score'', mm_metric = ''altman_z'', mm_operator = ''<'',
       mm_threshold = VFloat (lit 18 10), mm_category = ''solvency_leverage'', mm_delta = Fin 20\<rparr>],
     pl_scoring = sample_scoring, pl_decision_document = VDict [], pl_consistency = sample_policy,
     pl_assurance = default_assurance_policy, pl_rules_source = ''r'', pl_scoring_source = ''s''\<rparr>"

definition sample_pipeline :: pipeline where
  "sample_pipeline = sample_config\<lparr>pl_rules := take 2 sample_rules\<rparr>"

lemma sample_built: "build_pipeline [''ACC_002''] sample_rules sample_config = Inr sample_pipeline"
proof -
  have "check_signatures (take 2 sample_rules) (pl_mappings sample_config) = Inr () \<and> check_model_names (pl_mappings sample_config) = Inr ()"
    by code_simp
  then show ?thesis by (simp add: build_pipeline_def sample_rules_ok sample_pipeline_def)
qed

definition sample_reference :: "string \<Rightarrow> evidence_ref" where
  "sample_reference k = (nc_evidence sample_optimist)\<lparr>ev_source_text := k\<rparr>"

definition acme_request :: assess_request where
  "acme_request = \<lparr>rq_company = ''Acme'', rq_year = 2024,
     rq_current = [(''current_assets'', Some (Fin 1)), (''current_liabilities'', Some (Fin 2))], rq_previous = None,
     rq_pages = [], rq_entity_type = ''industrial'',
     rq_source_map = [(''current_assets'', [sample_reference ''a'']), (''current_liabilities'', [sample_reference ''l''])],
     rq_narrative = Supplied [] []\<rparr>"

lemma sample_known: "config_known sample_pipeline"
  by code_simp

lemma sample_models_run: "is_ok (altman_variant (rq_entity_type acme_request)) \<and>
    is_ok (ohlson_o (\<lambda>x. x) (\<lambda>x. x) (model_input (rq_current acme_request) (request_metrics acme_request)))"
  by code_simp

lemma assessment_returns_witness: "is_ok (assess (\<lambda>x. x) (\<lambda>x. x) (\<lambda>x. x) sample_pipeline acme_request)"
  using assessment_returns[OF sample_built sample_known, of "\<lambda>x. x"] sample_models_run by blast

end
