(* ===== verification/Decide.thy ===== *)
theory Decide
  imports Returns Certificate
begin

text \<open>
  The decision on an assessment (\<open>FinRiskPipeline.decide\<close> in \<open>pipeline.py\<close>): the dimension scores are fused, the
  proposal is made cautious when narrative extraction was suppressed, the decision trace is built, the
  assurance engine issues a result, and only an authorised result is published, with a certificate. The
  first part drafts the decision up to the issued result, the second publishes it.
\<close>

section \<open>Payloads\<close>

definition fusion_to_dict :: "fusion_result \<Rightarrow> pyval" where
  "fusion_to_dict f = VDict [(''method'', VStr (fr_method f)), (''severity'', VStr (fr_severity f)),
     (''score'', vopt VFloat (fr_score f)), (''decision'', VStr (decision_value (fr_decision f))),
     (''evidence_coverage'', VFloat (fr_coverage f)), (''decision_confidence'', VFloat (fr_confidence f)),
     (''disagreement'', VFloat (fr_disagreement f)), (''drivers'', vstrs (fr_drivers f)),
     (''rationale'', VStr (fr_rationale f)), (''evidence_quality'', VFloat (fr_evidence_quality f)),
     (''reliability'', vopt VFloat (fr_reliability f)), (''reliability_status'', VStr (fr_reliability_status f)),
     (''reason_codes'', vstrs (fr_reason_codes f)), (''proposed_decision'', VStr (decision_value (fr_decision f))),
     (''decision_semantics'', VStr ''LEGACY_ALIAS_FOR_PROPOSED_DECISION'')]"

definition failure_to_dict :: "failure_proposal \<Rightarrow> obj" where
  "failure_to_dict f = [(''decision'', VStr (decision_value (fp_decision f))),
     (''proposed_decision'', VStr (decision_value (fp_decision f))),
     (''decision_semantics'', VStr ''LEGACY_ALIAS_FOR_PROPOSED_DECISION''), (''degraded'', VBool (fp_degraded f)),
     (''blocking_failures'', vstrs (fp_blocking f)), (''review_failures'', vstrs (fp_review f))]"

definition bundle_to_dict :: "decision_bundle \<Rightarrow> pyval" where
  "bundle_to_dict b = VDict [(''bundle_id'', VStr (db_bundle_id b)), (''organization_id'', VStr (db_organization_id b)),
     (''entity_id'', VStr (db_entity_id b)), (''created_at'', VStr (db_created_at b)), (''document_hashes'', db_document_hashes b),
     (''input_hash'', VStr (db_input_hash b)), (''output_hash'', VStr (db_output_hash b)), (''risk_state'', db_risk_state b),
     (''risk_delta'', db_risk_delta b), (''evidence_paths'', VList (db_evidence_paths b)), (''calculations'', db_calculations b),
     (''agent_trace'', VList (db_agent_trace b)), (''component_versions'', db_component_versions b),
     (''human_review'', db_human_review b), (''final_decision'', VStr (db_final_decision b)), (''epistemics'', db_epistemics b),
     (''component_telemetry'', VList (db_telemetry b)), (''bundle_hash'', VStr (db_bundle_hash b)),
     (''proposed_decision'', VStr (db_proposed_decision b)), (''assurance'', db_assurance b),
     (''decision_sufficient_evidence'', db_sufficient b), (''policy_version'', VStr (db_policy_version b)),
     (''policy_hash'', VStr (db_policy_hash b)), (''calibration_status'', VStr (db_calibration_status b)),
     (''replay'', db_replay b), (''certificate_version'', VStr (db_certificate_version b)),
     (''certificate_hash'', VStr (db_certificate_hash b))]"

section \<open>The draft\<close>

text \<open>The decision policy is the decoded file; fusion reads its numbers.\<close>

definition policy_numbers :: "pyval \<Rightarrow> policy" where
  "policy_numbers document = List.map_filter (\<lambda>(k, v). map_option (Pair k) (num v)) (items document)"

definition decision_policy :: "pipeline \<Rightarrow> policy" where
  "decision_policy p = policy_numbers (pl_decision_document p)"

definition component_versions :: "digest \<Rightarrow> pipeline \<Rightarrow> pyval" where
  "component_versions H p = (let policy = canonical_hash H (pl_decision_document p) in VDict [
     (''rules'', VStr (canonical_hash H (VStr (pl_rules_source p)))),
     (''scoring'', VStr (canonical_hash H (VStr (pl_scoring_source p)))),
     (''decision_policy'', VStr policy), (''fusion'', VStr (''hierarchical_escalation:'' @ take 12 policy)),
     (''assurance'', VStr (policy_hash H (pl_assurance p)))])"

record decision_draft =
  dd_fusion :: fusion_result
  dd_score :: "pyfloat option"
  dd_failure :: failure_proposal
  dd_payload :: obj
  dd_trace :: obj
  dd_input :: assurance_input
  dd_result :: assurance_result

definition decided_score :: "fusion_result \<Rightarrow> assessment \<Rightarrow> pyfloat option" where
  "decided_score f a = (case fr_score f of Some x \<Rightarrow> Some x | None \<Rightarrow> at_overall_score a)"

text \<open>The payload with the score that the decision is derived from.\<close>

definition scored_payload :: "assessment \<Rightarrow> pyfloat option \<Rightarrow> obj" where
  "scored_payload a score = put_all [(''weighted_dimension_score'', vopt VFloat (at_overall_score a)),
     (''legacy_weighted_score'', vopt VFloat (at_overall_score a)), (''overall_score'', vopt VFloat score),
     (''risk_level'', VStr (severity_label score))] (assessment_to_dict a)"

definition narrative_failures :: "assessment \<Rightarrow> (string, bool) dict" where
  "narrative_failures a = (if at_suppressed a then [(''llm_unavailable'', True)] else [])"

definition decision_input :: "pipeline \<Rightarrow> assessment \<Rightarrow> reference_profile option \<Rightarrow> fusion_result \<Rightarrow> failure_proposal
    \<Rightarrow> pyval list \<Rightarrow> assurance_input" where
  "decision_input p a reference f failure paths =
     \<lparr>ai_proposed = decision_value (fp_decision failure), ai_score = decided_score f a, ai_paths = paths,
      ai_financial = at_financial a, ai_observability = at_observability a, ai_sector = None,
      ai_disagreement = fr_disagreement f, ai_calibration = UNCALIBRATED, ai_reliability = None,
      ai_reference = reference, ai_failures = fp_blocking failure @ fp_review failure,
      ai_fusion_policy = decision_policy p\<rparr>"

definition draft :: "digest \<Rightarrow> pipeline \<Rightarrow> assessment \<Rightarrow> reference_profile option \<Rightarrow> decision_draft result" where
  "draft H p a reference =
     bind_result (hierarchical_escalation (map (\<lambda>(k, d). (k, di_score d)) (at_dimensions a)) (at_coverage a) (at_confidence a)
       (decision_policy p)) (\<lambda>f.
     let score = decided_score f a; payload = scored_payload a score; failure = failure_aware_proposal f (narrative_failures a) in
     bind_result (build_decision_trace (VDict payload) (fusion_to_dict f) (component_versions H p)) (\<lambda>trace.
     let x = decision_input p a reference f failure (elems (vget trace ''paths'')) in
     bind_result (evaluate H (pl_assurance p) x) (\<lambda>r.
     Inr \<lparr>dd_fusion = f, dd_score = score, dd_failure = failure, dd_payload = payload, dd_trace = items trace,
          dd_input = x, dd_result = r\<rparr>)))"

section \<open>Publication\<close>

definition decision_fields :: "decision_draft \<Rightarrow> decision \<Rightarrow> (string \<times> pyval) list" where
  "decision_fields d final =
     [(''proposed_decision'', VStr (decision_value (fp_decision (dd_failure d)))),
      (''assurance'', result_to_dict (dd_result d)), (''final_decision'', VStr (decision_value final)),
      (''decision_trace'', VDict (put_all [(''final_decision'', VStr (decision_value final)),
         (''assurance_certificate_hash'', VStr (ar_certificate_hash (dd_result d)))] (dd_trace d))),
      (''failure_state'', VDict (put ''final_decision'' (VStr (decision_value final)) (failure_to_dict (dd_failure d)))),
      (''model_disagreement'', VFloat (fr_disagreement (dd_fusion d))), (''enterprise_fusion'', fusion_to_dict (dd_fusion d))]"

definition certificate_request :: "digest \<Rightarrow> pipeline \<Rightarrow> assessment \<Rightarrow> decision_draft \<Rightarrow> decision \<Rightarrow> obj \<Rightarrow> bundle_request" where
  "certificate_request H p a d final payload =
     (let r = dd_result d; versions = component_versions H p in
      \<lparr>br_organization_id = ''local'', br_entity_id = at_company a, br_document_hashes = VDict [],
       br_frozen_input = VDict [(''company'', VStr (at_company a)), (''reporting_period'', VStr (at_reporting_period a)),
         (''financial_features'', VDict (amounts_obj (at_financial a))),
         (''reporting_observability'', VDict (map (\<lambda>(k, b). (k, VBool b)) (at_observability a)))],
       br_frozen_output = VDict payload,
       br_risk_state = VDict [(''score'', vopt VFloat (dd_score d)), (''severity'', VStr (severity_label (dd_score d))),
         (''coverage'', VFloat (at_coverage a))],
       br_evidence_paths = ai_paths (dd_input d),
       br_calculations = VDict [(''metrics'', get payload ''metrics''), (''models'', get payload ''models''),
         (''rules'', get payload ''triggered_rules'')],
       br_agent_trace = [], br_component_versions = versions, br_final_decision = decision_value final,
       br_risk_delta = VNone, br_human_review = VNone, br_epistemics = VNone, br_telemetry = [],
       br_proposed_decision = Some (decision_value (fp_decision (dd_failure d))), br_assurance = result_to_dict r,
       br_sufficient = sufficient_to_dict (ar_sufficient r), br_policy_version = ar_policy_version r,
       br_policy_hash = ar_policy_hash r, br_calibration_status = calibration_value (ar_calibration r),
       br_replay = VDict [(''deterministic'', VBool True), (''component_versions'', versions)]\<rparr>)"

definition publish :: "digest \<Rightarrow> string \<Rightarrow> pipeline \<Rightarrow> assessment \<Rightarrow> decision_draft \<Rightarrow> (obj \<times> decision_bundle) result" where
  "publish H now p a d =
     bind_result (authorized_final_decision H (Some (dd_result d)) (pl_assurance p)) (\<lambda>final.
     let payload = put_all (decision_fields d final) (dd_payload d) in
     bind_result (build_decision_bundle H now (Some (pl_assurance p)) (certificate_request H p a d final payload)) (\<lambda>b.
     Inr (put ''decision_certificate'' (bundle_to_dict b) payload, b)))"

definition decide :: "digest \<Rightarrow> string \<Rightarrow> pipeline \<Rightarrow> assessment \<Rightarrow> reference_profile option \<Rightarrow> obj result" where
  "decide H now p a reference =
     bind_result (draft H p a reference) (\<lambda>d. bind_result (publish H now p a d) (\<lambda>(payload, b). Inr payload))"

section \<open>What a draft fixes\<close>

lemma draft_facts:
  assumes "draft H p a reference = Inr d"
  obtains trace where
    "hierarchical_escalation (map (\<lambda>(k, d). (k, di_score d)) (at_dimensions a)) (at_coverage a) (at_confidence a)
       (decision_policy p) = Inr (dd_fusion d)"
    "build_decision_trace (VDict (dd_payload d)) (fusion_to_dict (dd_fusion d)) (component_versions H p) = Inr trace"
    "evaluate H (pl_assurance p) (dd_input d) = Inr (dd_result d)"
    "dd_failure d = failure_aware_proposal (dd_fusion d) (narrative_failures a)"
    "dd_input d = decision_input p a reference (dd_fusion d) (dd_failure d) (elems (vget trace ''paths''))"
    "dd_trace d = items trace" "dd_payload d = scored_payload a (dd_score d)" "dd_score d = decided_score (dd_fusion d) a"
  using assms by (auto simp: draft_def Let_def bind_result_Inr_iff)

lemma decide_parts:
  assumes "decide H now p a reference = Inr payload"
  obtains d b where "draft H p a reference = Inr d" "publish H now p a d = Inr (payload, b)"
  using assms by (auto simp: decide_def bind_result_Inr_iff)

lemma evaluate_issued:
  assumes "evaluate H p x = Inr r"
  obtains proposed f s d where "parse_decision (ai_proposed x) = Some proposed"
    "r = issue H p x proposed (assess_evidence H (ai_paths x) (ap_minimum_verified_coverage p) []) f s d"
  using assms by (auto simp: evaluate_def Let_def bind_result_Inr_iff split: option.splits)

lemma final_not_weaker: "proposed \<le> final_decision proposed b blockers"
  by (cases proposed) (simp_all add: final_decision_def less_eq_decision_def)

text \<open>A decisive result was issued on material paths that are all verified.\<close>

lemma decisive_issued:
  assumes "evaluate H p x = Inr r" "ar_final r = PASS \<or> ar_final r = FLAG"
  shows "unique_material_paths H (ai_paths x) \<noteq> [] \<and> (\<forall>path\<in>set (unique_material_paths H (ai_paths x)). verified_path path)"
proof -
  define e where "e = assess_evidence H (ai_paths x) (ap_minimum_verified_coverage p) []"
  obtain proposed f s d where r: "r = issue H p x proposed e f s d"
    using evaluate_issued[OF assms(1)] unfolding e_def by metis
  have "issue_blockers p x e f d = []"
    using assms(2) by (auto simp: r issue_fields(2) final_decision_def split: if_splits)
  then have "ea_state e = EV_VERIFIED" by (rule no_blockers)
  then have "\<not> length (verified_paths H (ai_paths x)) < length (unique_material_paths H (ai_paths x))"
    "unique_material_paths H (ai_paths x) \<noteq> []"
    unfolding e_def assess_evidence_state[OF refl]
    by (auto simp: expected_evidence_state_def verified_paths_def split: if_splits)
  then show ?thesis
    unfolding verified_paths_def using length_filter_less[of _ _ verified_path] by blast
qed

lemma publish_facts:
  assumes "publish H now p a d = Inr (payload, b)"
  obtains "authorized_final_decision H (Some (dd_result d)) (pl_assurance p) = Inr (ar_final (dd_result d))"
    "build_decision_bundle H now (Some (pl_assurance p)) (certificate_request H p a d (ar_final (dd_result d))
       (put_all (decision_fields d (ar_final (dd_result d))) (dd_payload d))) = Inr b"
    "payload = put ''decision_certificate'' (bundle_to_dict b) (put_all (decision_fields d (ar_final (dd_result d))) (dd_payload d))"
proof -
  obtain final where f: "authorized_final_decision H (Some (dd_result d)) (pl_assurance p) = Inr final"
    using assms by (auto simp: publish_def bind_result_Inr_iff)
  then have final: "final = ar_final (dd_result d)" by (auto simp: authorized_final_decision_def split: if_splits)
  show thesis using assms f unfolding final by (auto simp: publish_def bind_result_Inr_iff Let_def intro!: that)
qed

lemma built_fields:
  assumes "build_decision_bundle H now (Some p) q = Inr b"
  shows "db_final_decision b = br_final_decision q" "db_evidence_paths b = br_evidence_paths q"
    "verify_assurance_payload H (br_assurance q) (Some p)"
  using assms by (auto simp: build_decision_bundle_def Let_def split: if_splits)

lemma proposal_cautious:
  "fr_decision f \<le> fp_decision (failure_aware_proposal f failures)"
  "dict_get failures ''llm_unavailable'' False \<Longrightarrow> REVIEW \<le> fp_decision (failure_aware_proposal f failures)"
  by (cases "fr_decision f"; simp add: failure_aware_proposal_def Let_def less_eq_decision_def)+

text \<open>C4: A published decision is one and the same everywhere and rests on its evidence. Whenever \<open>decide\<close> returns,
  the final decision of the payload, of its trace, of its failure state and of its certificate is the one
  that the assurance engine issued and authorised; it is at least as cautious as the fused decision, and
  \<open>REVIEW\<close> or \<open>ABSTAIN\<close> when narrative extraction was suppressed; and it is \<open>PASS\<close> or \<open>FLAG\<close> only when the
  decision has material paths and all of them are verified.\<close>

theorem published_decision_sound:
  assumes "decide H now p a reference = Inr payload"
  shows "\<exists>d b final. draft H p a reference = Inr d \<and> final = ar_final (dd_result d) \<and>
    authorized_final_decision H (Some (dd_result d)) (pl_assurance p) = Inr final \<and>
    list_all (\<lambda>v. v = VStr (decision_value final)) [get payload ''final_decision'',
      vget (get payload ''decision_trace'') ''final_decision'', vget (get payload ''failure_state'') ''final_decision'',
      vget (get payload ''decision_certificate'') ''final_decision'', VStr (db_final_decision b)] \<and>
    get payload ''decision_certificate'' = bundle_to_dict b \<and>
    fr_decision (dd_fusion d) \<le> final \<and> (at_suppressed a \<longrightarrow> REVIEW \<le> final) \<and>
    (final = PASS \<or> final = FLAG \<longrightarrow> unique_material_paths H (db_evidence_paths b) \<noteq> [] \<and>
       (\<forall>path\<in>set (unique_material_paths H (db_evidence_paths b)). verified_path path))"
proof -
  obtain d b where d: "draft H p a reference = Inr d" "publish H now p a d = Inr (payload, b)"
    using assms by (rule decide_parts)
  define final where "final = ar_final (dd_result d)"
  obtain trace where tr: "evaluate H (pl_assurance p) (dd_input d) = Inr (dd_result d)"
    "dd_failure d = failure_aware_proposal (dd_fusion d) (narrative_failures a)"
    "dd_input d = decision_input p a reference (dd_fusion d) (dd_failure d) (elems (vget trace ''paths''))"
    using d(1) by (rule draft_facts)
  obtain proposed f s v where issued: "parse_decision (ai_proposed (dd_input d)) = Some proposed"
    "dd_result d = issue H (pl_assurance p) (dd_input d) proposed
       (assess_evidence H (ai_paths (dd_input d)) (ap_minimum_verified_coverage (pl_assurance p)) []) f s v"
    using tr(1) by (rule evaluate_issued)
  have same: "proposed = fp_decision (dd_failure d)" using issued(1) by (simp add: tr(3) decision_input_def)
  have weaker: "fp_decision (dd_failure d) \<le> final"
    unfolding final_def issued(2) issue_fields(2) same[symmetric] by (rule final_not_weaker)
  have pub: "authorized_final_decision H (Some (dd_result d)) (pl_assurance p) = Inr final"
    "build_decision_bundle H now (Some (pl_assurance p)) (certificate_request H p a d final
       (put_all (decision_fields d final) (dd_payload d))) = Inr b"
    "payload = put ''decision_certificate'' (bundle_to_dict b) (put_all (decision_fields d final) (dd_payload d))"
    using publish_facts[OF d(2)] unfolding final_def by blast+
  have b: "db_final_decision b = decision_value final" "db_evidence_paths b = ai_paths (dd_input d)"
    using built_fields(1,2)[OF pub(2)] by (simp_all add: certificate_request_def Let_def)
  have "list_all (\<lambda>v. v = VStr (decision_value final)) [get payload ''final_decision'',
      vget (get payload ''decision_trace'') ''final_decision'', vget (get payload ''failure_state'') ''final_decision'',
      vget (get payload ''decision_certificate'') ''final_decision'', VStr (db_final_decision b)]"
    by (simp add: pub(3) get_put_all decision_fields_def bundle_to_dict_def b(1))
  moreover have "fr_decision (dd_fusion d) \<le> final"
    using weaker proposal_cautious(1)[of "dd_fusion d"] unfolding tr(2) by (rule order_trans[rotated])
  moreover have "REVIEW \<le> final" if "at_suppressed a"
    using weaker proposal_cautious(2)[of "narrative_failures a" "dd_fusion d"] that unfolding tr(2)
    by (simp add: narrative_failures_def dict_get_def)
  ultimately show ?thesis
    using d(1) pub b(2) decisive_issued[OF tr(1)] unfolding final_def[symmetric]
    by (intro exI[of _ d] exI[of _ b] exI[of _ final]) (simp add: final_def)
qed

section \<open>Every assessment gets a decision\<close>

definition assessment_ok :: "assessment \<Rightarrow> bool" where
  "assessment_ok a = (range_scores (map (\<lambda>(k, d). (k, di_score d)) (at_dimensions a)) \<and>
     (list_all (\<lambda>(k, d). di_score d = None) (at_dimensions a) \<longrightarrow> at_overall_score a = None))"

definition scoring_ok :: "scoring_config \<Rightarrow> bool" where
  "scoring_ok c = (fle (Fin 0) (sc_category_cap c) \<and> fle (sc_category_cap c) (Fin 100))"

definition pipeline_ok :: "digest \<Rightarrow> pipeline \<Rightarrow> bool" where
  "pipeline_ok H p = (scoring_ok (pl_scoring p) \<and> fusion_policy_ok (decision_policy p) \<and>
     ap_version (pl_assurance p) \<noteq> [] \<and> hex64 (policy_hash H (pl_assurance p)))"

lemma aggregate_ok:
  assumes agg: "aggregate config signals contradictions order = Inr (overall, level, dims)" and ok: "scoring_ok config"
  shows "range_scores (map (\<lambda>(k, d). (k, di_score d)) dims) \<and>
    (list_all (\<lambda>(k, d). di_score d = None) dims \<longrightarrow> overall = None)"
proof -
  let ?e = "effective_signals signals" and ?s = "category_scores config (effective_signals signals) contradictions"
  have dims: "dims = map (\<lambda>c. (c, dimension_of config ?e ?s c)) categories"
    using agg by (auto simp: aggregate_def Let_def bind_result_Inr_iff split: if_splits)
  have "score_range (capped config x)" for x
    using capped_score_range[of config x] ok fle_trans by (auto simp: scoring_ok_def score_range_def)
  then have range: "range_scores (map (\<lambda>(k, d). (k, di_score d)) dims)"
    by (auto simp: dims range_scores_def dimension_of_def pround_range simp del: pround.simps split: option.splits)
  have "overall = None" if none: "list_all (\<lambda>(k, d). di_score d = None) dims"
  proof (cases order)
    case Nil
    then show ?thesis using agg by (auto simp: aggregate_def Let_def fsum_def)
  next
    case (Cons c cs)
    have "\<not> is_ok (weighted_scores config dims order)"
      using none by (auto simp: Cons list_all_iff split: option.splits dest!: map_of_SomeD)
    then show ?thesis using agg
      by (auto simp: aggregate_def Let_def bind_result_Inr_iff dims[symmetric] split: if_splits)
  qed
  with range show ?thesis by blast
qed

lemma assess_ok:
  assumes "assess ln_of exp_of order_of p q = Inr a" "scoring_ok (pl_scoring p)"
  shows "assessment_ok a"
proof -
  obtain facts models signals cs where "finish order_of p q facts models signals cs = Inr a"
    using assms(1) by (auto simp: assess_def bind_result_Inr_iff)
  then obtain score level dims where agg: "aggregate (pl_scoring p) signals (map co_category cs)
      (order_of (covered_categories signals cs)) = Inr (score, level, dims)"
    "at_dimensions a = dims" "at_overall_score a = score"
    by (auto simp: finish_def Let_def bind_result_Inr_iff split: prod.splits)
  show ?thesis using aggregate_ok[OF agg(1) assms(2)] by (simp add: assessment_ok_def agg(2,3))
qed

text \<open>The scores on the paths of a trace are scores of the dimensions.\<close>

definition path_score :: "pyval \<Rightarrow> pyfloat option" where
  "path_score path = to_float (vget (vget path ''fusion_contribution'') ''dimension_score'')"

lemma to_float_vopt [simp]: "to_float (vopt VFloat x) = x"
  by (cases x) (simp_all add: vopt_def)

lemma dimension_lookup:
  assumes "dict_get (map (\<lambda>(k, d). (k, dimension_to_dict d)) dims) k (VDict []) = v"
  shows "to_float (vget v ''score'') = None \<or> (\<exists>d. (k, d) \<in> set dims \<and> to_float (vget v ''score'') = di_score d)"
proof -
  have "v = (case map_of dims k of None \<Rightarrow> VDict [] | Some d \<Rightarrow> dimension_to_dict d)"
    using assms map_of_map[of dimension_to_dict dims] by (auto simp: dict_get_def split: option.splits)
  then show ?thesis by (cases "map_of dims k") (auto simp: dimension_to_dict_def dest: map_of_SomeD)
qed

lemma trace_scores:
  assumes dims: "get payload ''dimensions'' = VDict (map (\<lambda>(k, d). (k, dimension_to_dict d)) dims)"
    and path: "path \<in> set (trace_paths (VDict payload) f v rules)"
  shows "path_score path = None \<or> (\<exists>k d. (k, d) \<in> set dims \<and> path_score path = di_score d)"
proof -
  have get: "vget_or (VDict payload) ''dimensions'' (VDict []) = VDict (map (\<lambda>(k, d). (k, dimension_to_dict d)) dims)"
    using dims by (simp add: vget_or_def get_def dict_get_def split: option.splits)
  consider k d reason where "(k, d) \<in> set dims" "path = rule_path (VDict payload) f v rules k (dimension_to_dict d) reason"
    | i c where "path = contradiction_path (VDict payload) f v i c"
    using path unfolding trace_paths_def get by auto
  then show ?thesis
  proof cases
    case (1 k d reason)
    have "path_score path = di_score d"
      by (simp add: 1(2) path_score_def rule_path_def Let_def dimension_to_dict_def)
    with 1(1) show ?thesis by blast
  next
    case (2 i c)
    then show ?thesis
    proof (cases "vget c ''category''")
      case (VStr k)
      then have s: "path_score path = to_float (vget (vget_or (VDict (map (\<lambda>(k, d). (k, dimension_to_dict d)) dims)) k (VDict [])) ''score'')"
        by (simp add: 2 path_score_def contradiction_path_def Let_def get)
      show ?thesis unfolding s using dimension_lookup[OF refl, of dims k] by (auto simp: vget_or_def)
    qed (simp_all add: 2 path_score_def contradiction_path_def Let_def)
  qed
qed

lemma paths_in_range:
  assumes "range_scores (map (\<lambda>(k, d). (k, di_score d)) dims)"
    "\<And>path. path \<in> set paths \<Longrightarrow> path_score path = None \<or> (\<exists>k d. (k, d) \<in> set dims \<and> path_score path = di_score d)"
  shows "scores_in_range (dependencies_from_paths H paths)"
proof -
  have "case path_score path of None \<Rightarrow> True | Some x \<Rightarrow> score_range x" if "path \<in> set paths" for path
    using assms(2)[OF that] assms(1) by (fastforce simp: range_scores_def split: option.splits)
  then have "case path_score path of None \<Rightarrow> True | Some x \<Rightarrow> score_range x" if "path \<in> set (unique_material_paths H paths)" for path
    using that unique_paths_subset[of H paths] by blast
  then show ?thesis
    by (auto simp: scores_in_range_def dependencies_from_paths_def list_all_iff dependency_of_def Let_def path_score_def
        in_set_enumerate_eq dest: nth_mem)
qed

lemma scored_payload_get: "k \<notin> set [''weighted_dimension_score'', ''legacy_weighted_score'', ''overall_score'', ''risk_level''] \<Longrightarrow>
    get (scored_payload a score) k = get (assessment_to_dict a) k"
  by (simp add: scored_payload_def get_put_all)

lemma trace_built:
  "\<exists>trace rules. build_decision_trace (VDict (scored_payload a score)) f v = Inr trace \<and>
     elems (vget trace ''paths'') = trace_paths (VDict (scored_payload a score)) f v rules"
proof -
  have "elems (vget_or (VDict (scored_payload a score)) ''triggered_rules'' (VList [])) = map signal_to_dict (at_triggered_rules a)"
    using scored_payload_get[of "''triggered_rules''" a score]
    by (auto simp: vget_or_def get_def dict_get_def assessment_to_dict_def split: option.splits)
  then have "is_ok (rules_by_id (elems (vget_or (VDict (scored_payload a score)) ''triggered_rules'' (VList []))) [])"
    by (simp add: rules_by_id_ok signal_to_dict_def has_key_def)
  then obtain rules where "rules_by_id (elems (vget_or (VDict (scored_payload a score)) ''triggered_rules'' (VList []))) [] = Inr rules"
    by (auto simp: is_ok_iff)
  then show ?thesis by (auto simp: build_decision_trace_def Let_def)
qed

lemma active_scores_Nil:
  "active_scores (map (\<lambda>(k, d). (k, di_score d)) dims) = [] \<Longrightarrow> list_all (\<lambda>(k, d). di_score d = None) dims"
  by (induction dims) (auto simp: active_scores_def List.map_filter_simps split: option.splits)

lemma decided_range:
  assumes "assessment_ok a" "fusion_policy_ok p"
    "hierarchical_escalation (map (\<lambda>(k, d). (k, di_score d)) (at_dimensions a)) c q p = Inr f"
  shows "baseline_ok (decided_score f a)"
proof (cases "fr_score f")
  case None
  then have "active_scores (map (\<lambda>(k, d). (k, di_score d)) (at_dimensions a)) = []"
    using hierarchical_escalation_Inr[OF assms(3)] by (auto simp: hierarchical_score_def Let_def split: if_splits)
  then have "list_all (\<lambda>(k, d). di_score d = None) (at_dimensions a)" by (rule active_scores_Nil)
  then show ?thesis using assms(1) None by (simp add: assessment_ok_def decided_score_def baseline_ok_def)
next
  case (Some x)
  then obtain y where y: "hierarchical_score (effective_policy p) (active_scores (map (\<lambda>(k, d). (k, di_score d)) (at_dimensions a))) = Some y"
    "x = pround 1 y"
    using hierarchical_escalation_Inr[OF assms(3)] by auto
  have "score_range y" using hierarchical_score_range[OF _ assms(2) y(1)] assms(1) by (simp add: assessment_ok_def)
  then show ?thesis using pround_range by (simp add: decided_score_def Some y(2) baseline_ok_def del: pround.simps)
qed

lemma draft_returns:
  assumes ok: "assessment_ok a" "pipeline_ok H p" "reference_ok reference"
  obtains d where "draft H p a reference = Inr d" "input_ok H (pl_assurance p) (dd_input d)"
proof -
  let ?s = "map (\<lambda>(k, d). (k, di_score d)) (at_dimensions a)"
  have pol: "fusion_policy_ok (decision_policy p)" using ok(2) by (simp add: pipeline_ok_def)
  have range: "range_scores ?s" using ok(1) by (simp add: assessment_ok_def)
  obtain f where f: "hierarchical_escalation ?s (at_coverage a) (at_confidence a) (decision_policy p) = Inr f"
    using hierarchical_total[OF range_scores_finite[OF range], THEN is_ok_iff[THEN iffD1]] by blast
  define payload failure where "payload = scored_payload a (decided_score f a)"
    and "failure = failure_aware_proposal f (narrative_failures a)"
  obtain trace rules where t: "build_decision_trace (VDict payload) (fusion_to_dict f) (component_versions H p) = Inr trace"
    "elems (vget trace ''paths'') = trace_paths (VDict payload) (fusion_to_dict f) (component_versions H p) rules"
    using trace_built unfolding payload_def by blast
  define x where "x = decision_input p a reference f failure (elems (vget trace ''paths''))"
  have "get payload ''dimensions'' = VDict (map (\<lambda>(k, d). (k, dimension_to_dict d)) (at_dimensions a))"
    using scored_payload_get[of "''dimensions''" a] by (simp add: payload_def assessment_to_dict_def)
  from paths_in_range[OF range trace_scores[OF this]] have scores: "scores_in_range (dependencies_from_paths H (ai_paths x))"
    by (simp add: x_def decision_input_def t(2))
  have x: "input_ok H (pl_assurance p) x"
    using scores pol ok(2,3) decided_range[OF ok(1) pol f]
    by (simp add: input_ok_def) (simp add: x_def decision_input_def pipeline_ok_def failure_def failure_aware_proposal_def Let_def)
  obtain g e where "analyze_fragility (dependencies_from_paths H (ai_paths x)) (decided_score f a) (fp_decision failure) (pl_assurance p)
      (decision_policy p) = Inr g"
    "decision_sufficient_evidence (dependencies_from_paths H (ai_paths x)) (fp_decision failure) (pl_assurance p) (decision_policy p) = Inr e"
    using fragility_total[OF scores pol] unfolding is_ok_iff by metis
  then obtain r where "evaluate H (pl_assurance p) x = Inr r"
    by (simp add: evaluate_def Let_def x_def decision_input_def)
  then have "draft H p a reference = Inr \<lparr>dd_fusion = f, dd_score = decided_score f a, dd_failure = failure, dd_payload = payload,
      dd_trace = items trace, dd_input = x, dd_result = r\<rparr>"
    using t(1) by (simp add: draft_def f Let_def payload_def failure_def x_def)
  then show thesis using that x by simp
qed

text \<open>The publication of the draft.\<close>

lemma decision_published:
  assumes a: "assessment_ok a" and ok: "pipeline_ok H p" "reference_ok reference" and hash: "\<And>s. H s \<noteq> []"
  shows "\<exists>d payload b. draft H p a reference = Inr d \<and> publish H now p a d = Inr (payload, b) \<and>
    decide H now p a reference = Inr payload \<and> get payload ''decision_certificate'' = bundle_to_dict b \<and>
    verify_decision_certificate H b (Some (pl_assurance p))"
proof -
  obtain d where d: "draft H p a reference = Inr d" "input_ok H (pl_assurance p) (dd_input d)"
    using draft_returns[OF a ok] .
  obtain trace where tr: "evaluate H (pl_assurance p) (dd_input d) = Inr (dd_result d)"
    "dd_input d = decision_input p a reference (dd_fusion d) (dd_failure d) (elems (vget trace ''paths''))"
    using d(1) by (rule draft_facts)
  define q' where "q' = certificate_request H p a d (ar_final (dd_result d))
      (put_all (decision_fields d (ar_final (dd_result d))) (dd_payload d))"
  have "ar_proposed (dd_result d) = fp_decision (dd_failure d)"
    using evaluate_issued[OF tr(1)] by (metis issue_fields(1) option.inject parse_decision_value tr(2) decision_input_def assurance_input.select_convs(1))
  then have "faithful_request q' (dd_result d) (dd_input d)"
    by (simp add: faithful_request_def q'_def certificate_request_def Let_def)
  then obtain b where b: "build_decision_bundle H now (Some (pl_assurance p)) q' = Inr b"
    "verify_decision_certificate H b (Some (pl_assurance p))"
    using built_certificate[OF tr(1) d(2) _ hash] by blast
  have auth: "authorized_final_decision H (Some (dd_result d)) (pl_assurance p) = Inr (ar_final (dd_result d))"
    using issued_result_verifies[OF tr(1) d(2)] by (simp add: authorized_final_decision_def verify_assurance_result_def)
  have pub: "publish H now p a d = Inr (put ''decision_certificate'' (bundle_to_dict b)
      (put_all (decision_fields d (ar_final (dd_result d))) (dd_payload d)), b)"
    using b(1) by (simp add: publish_def auth Let_def q'_def)
  then show ?thesis
    using d(1) b(2) by (intro exI[of _ d] exI[of _ b] exI conjI) (auto simp: decide_def)
qed

text \<open>C6: Every assessment gets a decision. An assessment that the pipeline returns, with a category cap between 0 and
  100, has dimension scores in that range; under a fusion policy in range and a well-formed reference
  profile the fusion, the trace, the engine, the authorisation and the certificate all succeed on it, so
  that \<open>decide\<close> returns and never raises; and the certificate it publishes is accepted by the verifier.\<close>

theorem assessment_decided:
  assumes "assess ln_of exp_of order_of p q = Inr a" and ok: "pipeline_ok H p" "reference_ok reference"
    and hash: "\<And>s. H s \<noteq> []"
  shows "assessment_ok a \<and> (\<exists>d payload b. draft H p a reference = Inr d \<and> publish H now p a d = Inr (payload, b) \<and>
    decide H now p a reference = Inr payload \<and> get payload ''decision_certificate'' = bundle_to_dict b \<and>
    verify_decision_certificate H b (Some (pl_assurance p)))"
  using assess_ok[OF assms(1)] decision_published[OF _ ok hash] ok(1) by (simp add: pipeline_ok_def)


lemma sample_pipeline_ok: "pipeline_ok sample_digest sample_pipeline"
  by code_simp

lemma sample_assessment: "is_ok (assess (\<lambda>x. x) (\<lambda>x. x) (\<lambda>x. x) sample_pipeline acme_request)"
  using sample_models_run returns_iff[OF sample_built sample_known, of "\<lambda>x. x"] by blast

lemma assessment_decided_witness:
  "\<exists>a payload b. assess (\<lambda>x. x) (\<lambda>x. x) (\<lambda>x. x) sample_pipeline acme_request = Inr a \<and>
     decide sample_digest ''now'' sample_pipeline a None = Inr payload \<and>
     get payload ''decision_certificate'' = bundle_to_dict b \<and>
     verify_decision_certificate sample_digest b (Some (pl_assurance sample_pipeline))"
proof -
  obtain a where a: "assess (\<lambda>x. x) (\<lambda>x. x) (\<lambda>x. x) sample_pipeline acme_request = Inr a"
    using sample_assessment by (auto simp: is_ok_iff)
  have "reference_ok None" by code_simp
  from assessment_decided[OF a sample_pipeline_ok this sample_digest_nonempty] a show ?thesis by blast
qed

lemma published_decision_sound_witness:
  "\<exists>a payload (d :: decision_draft). assess (\<lambda>x. x) (\<lambda>x. x) (\<lambda>x. x) sample_pipeline acme_request = Inr a \<and>
     decide sample_digest ''now'' sample_pipeline a None = Inr payload \<and>
     get payload ''final_decision'' = VStr (decision_value (ar_final (dd_result d))) \<and> fr_decision (dd_fusion d) \<le> ar_final (dd_result d)"
proof -
  obtain a where a: "assess (\<lambda>x. x) (\<lambda>x. x) (\<lambda>x. x) sample_pipeline acme_request = Inr a"
    using sample_assessment by (auto simp: is_ok_iff)
  have "reference_ok None" by code_simp
  moreover have "assessment_ok a" using assess_ok[OF a] sample_pipeline_ok by (simp add: pipeline_ok_def)
  ultimately obtain payload where p: "decide sample_digest ''now'' sample_pipeline a None = Inr payload"
    using decision_published[OF _ sample_pipeline_ok _ sample_digest_nonempty] by blast
  from published_decision_sound[OF p] a show ?thesis using p by fastforce
qed

end
