(* ===== verification/Agent.thy ===== *)
theory Agent
  imports Decide
begin

text \<open>
  The parts of the analysis agent (\<open>agent/\<close>): its state and status transitions, the plan, the registry of tools,
  the synthesis and verification of conclusions, the three-role review, the reflection, and the summaries of
  \<open>enterprise/telemetry.py\<close> and \<open>enterprise/integrity.py\<close> that a run records.
\<close>

section \<open>State: \<open>state.py\<close>\<close>

datatype agent_status = UNDERSTANDING | PLANNING | COLLECTING | ANALYZING | CROSS_CHECKING | VERIFYING | REFLECTING
  | SYNTHESIZING | COMPLETED | INSUFFICIENT_EVIDENCE | REVIEW_REQUIRED | FAILED

definition agent_status_value :: "agent_status \<Rightarrow> string" where
  "agent_status_value s = (case s of UNDERSTANDING \<Rightarrow> ''UNDERSTANDING'' | PLANNING \<Rightarrow> ''PLANNING''
     | COLLECTING \<Rightarrow> ''COLLECTING_EVIDENCE'' | ANALYZING \<Rightarrow> ''ANALYZING'' | CROSS_CHECKING \<Rightarrow> ''CROSS_CHECKING''
     | VERIFYING \<Rightarrow> ''VERIFYING'' | REFLECTING \<Rightarrow> ''REFLECTING'' | SYNTHESIZING \<Rightarrow> ''SYNTHESIZING''
     | COMPLETED \<Rightarrow> ''COMPLETED'' | INSUFFICIENT_EVIDENCE \<Rightarrow> ''INSUFFICIENT_EVIDENCE''
     | REVIEW_REQUIRED \<Rightarrow> ''REVIEW_REQUIRED'' | FAILED \<Rightarrow> ''FAILED'')"

definition terminal :: "agent_status \<Rightarrow> bool" where
  "terminal s = (s \<in> set [COMPLETED, INSUFFICIENT_EVIDENCE, REVIEW_REQUIRED, FAILED])"

record plan_step =
  ps_id :: string
  ps_phase :: string
  ps_tool :: string
  ps_purpose :: string

record tool_call =
  tc_step_id :: string
  tc_phase :: string
  tc_tool :: string
  tc_status :: string
  tc_summary :: string
  tc_evidence_ids :: "string list"
  tc_error :: "string option"
  tc_latency_ms :: int

record material_conclusion =
  mc_claim :: string
  mc_reason :: pyval
  mc_tool :: string
  mc_rationale :: string
  mc_confidence :: pyval
  mc_evidence :: "pyval list"

record agent_state =
  as_company :: string
  as_fiscal_year :: int
  as_status :: agent_status
  as_plan :: "plan_step list"
  as_trace :: "tool_call list"
  as_conclusions :: "material_conclusion list"
  as_warnings :: "string list"
  as_reflection :: "string list"
  as_assessment :: "obj option"
  as_risk_score :: "pyfloat option"
  as_confidence :: pyfloat
  as_confidence_semantics :: string
  as_evidence_coverage :: pyfloat
  as_risk_severity :: string
  as_risk_trajectory :: string
  as_proposed :: string
  as_decision :: string
  as_disagreement :: pyfloat
  as_fusion :: obj
  as_decision_trace :: obj
  as_snapshot :: "analysis_snapshot option"
  as_bundle :: "decision_bundle option"
  as_role_review :: obj
  as_epistemics :: obj
  as_telemetry :: "pyval list"
  as_assurance :: pyval
  as_certificate :: "decision_bundle option"

definition new_agent_state :: "string \<Rightarrow> int \<Rightarrow> agent_state" where
  "new_agent_state company fiscal_year = \<lparr>as_company = company, as_fiscal_year = fiscal_year, as_status = UNDERSTANDING,
     as_plan = [], as_trace = [], as_conclusions = [], as_warnings = [], as_reflection = [], as_assessment = None,
     as_risk_score = None, as_confidence = Fin 0,
     as_confidence_semantics = ''LEGACY_EVIDENCE_QUALITY_INDEX_NOT_PROBABILITY'', as_evidence_coverage = Fin 0,
     as_risk_severity = ''unknown'', as_risk_trajectory = ''insufficient_history'', as_proposed = ''ABSTAIN'',
     as_decision = ''ABSTAIN'', as_disagreement = Fin 0, as_fusion = [], as_decision_trace = [], as_snapshot = None,
     as_bundle = None, as_role_review = [], as_epistemics = [], as_telemetry = [], as_assurance = VDict [],
     as_certificate = None\<rparr>"

section \<open>Effects: a state that survives an exception\<close>

type_synonym 'a agent = "agent_state \<Rightarrow> agent_state \<times> 'a result"

definition done_with :: "'a \<Rightarrow> 'a agent" where
  "done_with x s = (s, Inr x)"

definition and_then :: "'a agent \<Rightarrow> ('a \<Rightarrow> 'b agent) \<Rightarrow> 'b agent" where
  "and_then m f s = (case m s of (s', Inl e) \<Rightarrow> (s', Inl e) | (s', Inr x) \<Rightarrow> f x s')"

definition of_result :: "'a result \<Rightarrow> 'a agent" where
  "of_result r s = (s, r)"

definition modify :: "(agent_state \<Rightarrow> agent_state) \<Rightarrow> unit agent" where
  "modify f s = (f s, Inr ())"

definition reading :: "(agent_state \<Rightarrow> 'a) \<Rightarrow> 'a agent" where
  "reading f s = (s, Inr (f s))"

definition transition_to :: "agent_status \<Rightarrow> unit agent" where
  "transition_to target s = (if terminal (as_status s)
     then (s, Inl (ValueError (''cannot transition from terminal state '' @ agent_status_value (as_status s))))
     else (s\<lparr>as_status := target\<rparr>, Inr ()))"

text \<open>\<open>str(exc)\<close>\<close>

definition error_text :: "py_error \<Rightarrow> string" where
  "error_text e = (case e of ValueError t \<Rightarrow> t | KeyError t \<Rightarrow> repr (VStr t) | TypeError t \<Rightarrow> t | PermissionError t \<Rightarrow> t
     | ZeroDivisionError \<Rightarrow> ''division by zero'' | RuntimeError t \<Rightarrow> t | AttributeError t \<Rightarrow> t | IndexError t \<Rightarrow> t
     | OverflowError t \<Rightarrow> t)"

text \<open>\<open>_call\<close>: the tool runs, and the trace records its outcome before an exception is passed on.\<close>

definition phase_of :: "plan_step list \<Rightarrow> string \<Rightarrow> string" where
  "phase_of plan i = (case find (\<lambda>p. ps_id p = i) plan of None \<Rightarrow> ''analyze'' | Some p \<Rightarrow> ps_phase p)"

definition call_tool :: "(string \<Rightarrow> int) \<Rightarrow> string \<Rightarrow> string \<Rightarrow> ('a \<Rightarrow> nat) \<Rightarrow> 'a result \<Rightarrow> 'a agent" where
  "call_tool latency i tool size_of r s = (case r of
     Inr x \<Rightarrow> (s\<lparr>as_trace := as_trace s @ [\<lparr>tc_step_id = i, tc_phase = phase_of (as_plan s) i, tc_tool = tool,
       tc_status = ''success'', tc_summary = ''Produced '' @ str_int (int (size_of x)) @ '' structured result(s)'',
       tc_evidence_ids = [], tc_error = None, tc_latency_ms = latency i\<rparr>]\<rparr>, Inr x)
   | Inl e \<Rightarrow> (s\<lparr>as_trace := as_trace s @ [\<lparr>tc_step_id = i, tc_phase = ''tool'', tc_tool = tool, tc_status = ''failed'',
       tc_summary = ''Tool call rejected'', tc_evidence_ids = [], tc_error = Some (error_text e), tc_latency_ms = latency i\<rparr>]\<rparr>,
       Inl e))"

section \<open>Plan and tools\<close>

definition step :: "string \<Rightarrow> string \<Rightarrow> string \<Rightarrow> string \<Rightarrow> plan_step" where
  "step i phase tool purpose = \<lparr>ps_id = i, ps_phase = phase, ps_tool = tool, ps_purpose = purpose\<rparr>"

definition plan_of :: "bool \<Rightarrow> bool \<Rightarrow> plan_step list" where
  "plan_of has_previous has_pages =
     [step ''metrics'' ''analyze'' ''financial_metrics'' ''Calculate ratios and trends deterministically'',
      step ''models'' ''analyze'' ''traditional_models'' ''Evaluate model applicability and outputs''] @
     (if has_pages then [step ''claims'' ''collect'' ''narrative_evidence'' ''Extract and verify narrative claims''] else []) @
     [step ''rules'' ''analyze'' ''risk_rules'' ''Evaluate configured expert risk signals''] @
     (if has_pages then [step ''consistency'' ''cross_check'' ''contradiction_detection'' ''Compare verified claims with numeric facts'']
      else []) @
     (if has_previous then [step ''periods'' ''cross_check'' ''period_comparison'' ''Confirm multi-period coverage''] else []) @
     [step ''assessment'' ''synthesize'' ''risk_assessment'' ''Create deterministic evidence-linked assessment'',
      step ''verification'' ''verify'' ''claim_verification'' ''Reject unsupported material conclusions'']"

text \<open>\<open>ToolRegistry\<close>: tools by name; a call checks the name and the required inputs before the handler runs.\<close>

record 'a tool_spec =
  tl_name :: string
  tl_description :: string
  tl_handler :: "(string, pyval) dict \<Rightarrow> 'a result"
  tl_required :: "string list"

definition register_tool :: "(string, 'a tool_spec) dict \<Rightarrow> 'a tool_spec \<Rightarrow> (string, 'a tool_spec) dict result" where
  "register_tool tools t = (if has_key tools (tl_name t) then Inl (ValueError (''duplicate tool: '' @ tl_name t))
     else Inr (AList.update (tl_name t) t tools))"

definition tool_names :: "(string, 'a tool_spec) dict \<Rightarrow> string list" where
  "tool_names tools = sorted_set (map fst tools)"

definition invoke_tool :: "(string, 'a tool_spec) dict \<Rightarrow> string \<Rightarrow> (string, pyval) dict \<Rightarrow> 'a result" where
  "invoke_tool tools name args = (case map_of tools name of
     None \<Rightarrow> Inl (KeyError (''unknown tool: '' @ name))
   | Some t \<Rightarrow> (let missing = filter (\<lambda>k. \<not> has_key args k) (tl_required t)
       in if missing \<noteq> [] then Inl (ValueError (name @ '' missing inputs: '' @ join '', '' missing)) else tl_handler t args))"

section \<open>Conclusions: \<open>synthesis.py\<close> and \<open>verification.py\<close>\<close>

definition quoted_evidence :: "pyval \<Rightarrow> pyval \<Rightarrow> pyval" where
  "quoted_evidence assessment ref = VDict [(''source'', vget_or ref ''document'' (VStr '''')), (''document'', vget_or ref ''document'' (VStr '''')),
     (''company'', vget assessment ''company''), (''period'', vget assessment ''reporting_period''), (''page'', vget ref ''page''),
     (''quote'', vget_or ref ''source_text'' (VStr '''')), (''value'', VNone), (''unit'', VNone),
     (''confidence'', vget_or ref ''confidence'' (VFloat (Fin 0))),
     (''verification_status'', vget_or ref ''verification_status'' (VStr ''unverified''))]"

definition derived_evidence :: "pyval \<Rightarrow> pyval \<Rightarrow> pyval" where
  "derived_evidence assessment item = VDict [(''source'', VStr ''deterministic''), (''document'', VStr ''calculated metrics''),
     (''company'', vget assessment ''company''), (''period'', vget assessment ''reporting_period''), (''page'', VNone),
     (''quote'', item), (''value'', VNone), (''unit'', VNone), (''confidence'', VFloat (Fin 1)),
     (''verification_status'', VStr ''derived'')]"

definition conclusion_of :: "pyval \<Rightarrow> pyval \<Rightarrow> material_conclusion" where
  "conclusion_of assessment signal =
     (let quoted = map (quoted_evidence assessment) (elems (vget_or signal ''source_refs'' (VList [])));
          evidence = (if quoted = [] then map (derived_evidence assessment) (elems (vget_or signal ''evidence'' (VList []))) else quoted)
      in \<lparr>mc_claim = py_str (vget signal ''category'') @ '' risk signal '' @ py_str (vget signal ''rule_id''),
          mc_reason = vget signal ''rationale'', mc_tool = ''risk_rules'',
          mc_rationale = ''Configured rule '' @ py_str (vget signal ''rule_id'') @ '' triggered'',
          mc_confidence = vget assessment ''confidence'', mc_evidence = evidence\<rparr>)"

definition synthesize_conclusions :: "pyval \<Rightarrow> material_conclusion list" where
  "synthesize_conclusions assessment = map (conclusion_of assessment) (elems (vget_or assessment ''triggered_rules'' (VList [])))"

definition supported :: "material_conclusion \<Rightarrow> bool" where
  "supported c = (mc_evidence c \<noteq> [] \<and>
     list_all (\<lambda>item. vget item ''verification_status'' \<in> {VStr ''verified'', VStr ''derived''}) (mc_evidence c))"

definition verify_conclusions :: "material_conclusion list \<Rightarrow> material_conclusion list \<times> string list" where
  "verify_conclusions cs = (filter supported cs,
     map (\<lambda>c. ''Rejected unsupported conclusion: '' @ mc_claim c) (filter (\<lambda>c. \<not> supported c) cs))"

section \<open>The review: \<open>review.py\<close>\<close>

record judgement =
  jg_claim :: string
  jg_risk_domain :: pyval
  jg_strength :: string
  jg_path_ids :: "string list"
  jg_model :: "string option"

record challenge =
  ch_code :: string
  ch_severity :: string
  ch_message :: string

definition overstated_terms :: "string list" where
  "overstated_terms = [''fraud proven'', ''certain bankruptcy'', ''guaranteed'']"

definition challenges_of :: "string list \<Rightarrow> (string, string) dict \<Rightarrow> judgement \<Rightarrow> challenge list" where
  "challenges_of valid applicability j =
     (if jg_path_ids j = [] \<or> \<not> set (jg_path_ids j) \<subseteq> set valid
      then [\<lparr>ch_code = ''UNSUPPORTED_CLAIM'', ch_severity = ''blocking'', ch_message = jg_claim j\<rparr>] else []) @
     (case jg_model j of Some m \<Rightarrow>
        if m \<noteq> [] \<and> map_of applicability m = Some ''NOT_APPLICABLE''
        then [\<lparr>ch_code = ''MODEL_POPULATION_MISMATCH'', ch_severity = ''blocking'', ch_message = m\<rparr>] else []
      | None \<Rightarrow> []) @
     (if list_ex (\<lambda>t. contains t (lower (jg_claim j))) overstated_terms
      then [\<lparr>ch_code = ''OVERSTATED_CONCLUSION'', ch_severity = ''blocking'', ch_message = jg_claim j\<rparr>] else [])"

definition critic :: "judgement list \<Rightarrow> string list \<Rightarrow> (string, string) dict \<Rightarrow> challenge list" where
  "critic js valid applicability = concat (map (challenges_of valid applicability) js)"

definition citation_errors :: "judgement list \<Rightarrow> (string, pyval) dict \<Rightarrow> string list" where
  "citation_errors js paths = sorted_set (filter (\<lambda>i. case map_of paths i of None \<Rightarrow> True | Some p \<Rightarrow> \<not> marked_verified p)
     (concat (map jg_path_ids js)))"

definition challenge_to_dict :: "challenge \<Rightarrow> pyval" where
  "challenge_to_dict c = VDict [(''code'', VStr (ch_code c)), (''severity'', VStr (ch_severity c)), (''message'', VStr (ch_message c))]"

definition judgement_to_dict :: "judgement \<Rightarrow> pyval" where
  "judgement_to_dict j = VDict [(''claim'', VStr (jg_claim j)), (''risk_domain'', jg_risk_domain j), (''strength'', VStr (jg_strength j)),
     (''evidence_path_ids'', vstrs (jg_path_ids j)), (''model'', vopt VStr (jg_model j))]"

definition rejected :: "judgement list \<Rightarrow> challenge list \<Rightarrow> (string, pyval) dict \<Rightarrow> bool" where
  "rejected js challenges paths = (list_ex (\<lambda>c. ch_severity c = ''blocking'') challenges \<or> citation_errors js paths \<noteq> [])"

definition deterministic_verifier :: "judgement list \<Rightarrow> challenge list \<Rightarrow> (string, pyval) dict \<Rightarrow> obj" where
  "deterministic_verifier js challenges paths =
     [(''status'', VStr (if rejected js challenges paths then ''REJECTED'' else ''VERIFIED'')),
      (''citation_errors'', vstrs (citation_errors js paths)), (''challenges'', VList (map challenge_to_dict challenges)),
      (''checked_claims'', vnat (length js))]"

definition three_role_review :: "judgement list \<Rightarrow> (string, pyval) dict \<Rightarrow> (string, string) dict \<Rightarrow> obj" where
  "three_role_review js paths applicability =
     (let valid = map fst (filter (\<lambda>(_, p). marked_verified p) paths); challenges = critic js valid applicability;
          verification = deterministic_verifier js challenges paths
      in [(''analyst'', VList (map judgement_to_dict js)), (''critic'', VList (map challenge_to_dict challenges)),
          (''verifier'', VDict verification),
          (''recommended_decision'', VStr (if get verification ''status'' = VStr ''REJECTED'' then ''REVIEW'' else ''UNCHANGED''))])"

section \<open>Reflection and summaries\<close>

definition reflect :: "obj \<Rightarrow> string list" where
  "reflect assessment =
     (if get assessment ''overall_score'' = VNone
      then [''Overall score withheld because minimum dimension coverage was not met.''] else []) @
     (if truthy (get assessment ''contradictions'')
      then [''Narrative and numeric signals conflict; human review is required.''] else []) @
     (if truthy (get assessment ''missing_information'')
      then [''Missing inputs reduce evidence coverage; missing values were not treated as zero.''] else [])"

definition epistemic_summary :: "pyfloat \<Rightarrow> pyfloat \<Rightarrow> pyfloat \<Rightarrow> pyfloat option \<Rightarrow> calibration_status \<Rightarrow> obj" where
  "epistemic_summary coverage quality disagreement reliability calibration =
     [(''evidence_coverage'', VFloat (pround 3 coverage)), (''evidence_quality'', VFloat (pround 3 quality)),
      (''model_disagreement'', VFloat (pround 3 disagreement)),
      (''reliability'', vopt (\<lambda>x. VFloat (pround 3 x)) (if calibration = UNCALIBRATED then None else reliability)),
      (''calibration_status'', VStr (calibration_value calibration)), (''probability'', VNone)]"

record component_telemetry =
  ct_component :: string
  ct_status :: string
  ct_risk_before :: "pyfloat option"
  ct_risk_after :: "pyfloat option"
  ct_coverage_before :: pyfloat
  ct_coverage_after :: pyfloat
  ct_disagreement_before :: pyfloat
  ct_disagreement_after :: pyfloat
  ct_decision_changed :: bool
  ct_new_evidence :: nat
  ct_latency_ms :: int
  ct_cost :: pyfloat

text \<open>\<open>component_delta(...).to_dict()\<close>: the record holds the arguments, the differences are computed here.\<close>

definition component_delta :: "component_telemetry \<Rightarrow> pyval" where
  "component_delta t = VDict [(''component'', VStr (ct_component t)), (''status'', VStr (ct_status t)),
     (''risk_before'', vopt VFloat (ct_risk_before t)), (''risk_after'', vopt VFloat (ct_risk_after t)),
     (''delta_risk'', vopt (\<lambda>x. VFloat (pround 3 x)) (lift2 fsub (ct_risk_after t) (ct_risk_before t))),
     (''coverage_before'', VFloat (pround 3 (ct_coverage_before t))), (''coverage_after'', VFloat (pround 3 (ct_coverage_after t))),
     (''delta_coverage'', VFloat (pround 3 (fsub (ct_coverage_after t) (ct_coverage_before t)))),
     (''disagreement_before'', VFloat (pround 3 (ct_disagreement_before t))),
     (''disagreement_after'', VFloat (pround 3 (ct_disagreement_after t))),
     (''delta_disagreement'', VFloat (pround 3 (fsub (ct_disagreement_after t) (ct_disagreement_before t)))),
     (''decision_changed'', VBool (ct_decision_changed t)), (''new_evidence'', vnat (ct_new_evidence t)),
     (''latency_ms'', VInt (max 0 (ct_latency_ms t))), (''estimated_cost_usd'', VFloat (pround 8 (pymax (Fin 0) (ct_cost t))))]"

end
