(* ===== verification/Orchestrate.thy ===== *)
theory Orchestrate
  imports Agent Temporal
begin

text \<open>
  A run of the analysis agent (\<open>FinancialRiskAgent.run\<close> in \<open>agent/orchestrator.py\<close>): collect, propose, authorise,
  publish and conclude, every step on the state that survives an exception. What the provider extracts, its
  costs, the latencies, identifiers and clocks are the environment. The decision trace is one object that the
  assessment shares, so every update of it is written to both. Page numbers are written as strings before
  they are hashed, and the hash is taken of the keys in that order.
\<close>

section \<open>Request and environment\<close>

record agent_request =
  ag_company :: string
  ag_year :: int
  ag_current :: amounts
  ag_previous :: "amounts option"
  ag_pages :: "(int, string) dict"
  ag_document :: string
  ag_entity_type :: string
  ag_source_map :: source_map
  ag_reference :: "reference_profile option"

record agent_env =
  ae_extract :: "narrative_claim list result"
  ae_latency :: "string \<Rightarrow> int"
  ae_costs :: "pyfloat list"
  ae_hex :: string
  ae_snapshot_at :: string
  ae_bundle_at :: string
  ae_prompt :: string
  ae_model :: string
  ae_ln :: "pyfloat \<Rightarrow> pyfloat"
  ae_exp :: "pyfloat \<Rightarrow> pyfloat"
  ae_order :: "string list \<Rightarrow> string list"

definition prior_of :: "agent_request \<Rightarrow> amounts" where
  "prior_of q = (case ag_previous q of None \<Rightarrow> [] | Some p \<Rightarrow> p)"

definition put_assessment :: "(string \<times> pyval) list \<Rightarrow> agent_state \<Rightarrow> agent_state" where
  "put_assessment kvs s = s\<lparr>as_assessment := map_option (put_all kvs) (as_assessment s)\<rparr>"

text \<open>The shared decision trace.\<close>

definition put_trace :: "(string \<times> pyval) list \<Rightarrow> agent_state \<Rightarrow> agent_state" where
  "put_trace kvs s = (let t = put_all kvs (as_decision_trace s)
     in put_assessment [(''decision_trace'', VDict t)] (s\<lparr>as_decision_trace := t\<rparr>))"

section \<open>Collection\<close>

definition gather_claims :: "agent_env \<Rightarrow> agent_request \<Rightarrow> (narrative_claim list \<times> evidence_ref list \<times> bool) agent" where
  "gather_claims E q s =
     (if ag_pages q = [] then (s, Inr ([], [], False))
      else case call_tool (ae_latency E) ''claims'' ''narrative_evidence'' (\<lambda>_. 2)
          (bind_result (ae_extract E) (\<lambda>raw. Inr (admit_claims (ag_pages q) raw))) s of
        (s', Inr (verifications, accepted)) \<Rightarrow>
          if verifications = [] \<and> has_risk_language (ag_pages q)
          then (s'\<lparr>as_warnings := as_warnings s' @ [''narrative extraction returned no claims for a document '' @
            ''containing risk language; possible extraction suppression'']\<rparr>, Inr (accepted, verifications, True))
          else (s', Inr (accepted, verifications, False))
      | (s', Inl e) \<Rightarrow> (s'\<lparr>as_warnings := as_warnings s' @ [''Narrative provider unavailable: '' @ error_text e]\<rparr>, Inr ([], [], True)))"

text \<open>A failed extraction is not repeated: the assessment then sees no pages.\<close>

definition agent_assess_request :: "agent_request \<Rightarrow> narrative_claim list \<Rightarrow> evidence_ref list \<Rightarrow> bool \<Rightarrow> assess_request" where
  "agent_assess_request q claims verifications semantic_failed =
     \<lparr>rq_company = ag_company q, rq_year = ag_year q, rq_current = ag_current q, rq_previous = ag_previous q,
      rq_pages = (if semantic_failed then [] else ag_pages q), rq_entity_type = ag_entity_type q,
      rq_source_map = ag_source_map q,
      rq_narrative = (if semantic_failed then Extracted [] else Supplied claims verifications)\<rparr>"

record collected =
  cl_assessment :: assessment
  cl_facts :: obj
  cl_claims :: "narrative_claim list"
  cl_failed :: bool

definition cross_check :: "agent_env \<Rightarrow> pipeline \<Rightarrow> agent_request \<Rightarrow> narrative_claim list \<Rightarrow> obj \<Rightarrow> unit agent" where
  "cross_check E p q claims facts =
     and_then (if ag_pages q = [] then done_with ()
       else and_then (call_tool (ae_latency E) ''consistency'' ''contradiction_detection'' length
         (Inr (detect_contradictions (pl_consistency p) claims facts))) (\<lambda>_. done_with ())) (\<lambda>_.
     if prior_of q = [] then done_with ()
     else and_then (call_tool (ae_latency E) ''periods'' ''period_comparison'' length
       (Inr [(''comparable_fields'', vstrs (sorted_set (filter (has_key (prior_of q)) (map fst (ag_current q))))),
             (''previous_available'', VBool True)])) (\<lambda>_. done_with ()))"

definition assess_claims :: "agent_env \<Rightarrow> pipeline \<Rightarrow> agent_request \<Rightarrow> (string, metric) dict \<Rightarrow> model_result list
    \<Rightarrow> narrative_claim list \<times> evidence_ref list \<times> bool \<Rightarrow> collected agent" where
  "assess_claims E p q metrics models = (\<lambda>(claims, verifications, semantic_failed).
     and_then (of_result (build_facts (ag_current q) (prior_of q) (ag_year q) metrics models claims)) (\<lambda>facts.
     and_then (call_tool (ae_latency E) ''rules'' ''risk_rules'' length (evaluate_rules facts (pl_rules p))) (\<lambda>_.
     and_then (transition_to CROSS_CHECKING) (\<lambda>_.
     and_then (cross_check E p q claims facts) (\<lambda>_.
     and_then (transition_to SYNTHESIZING) (\<lambda>_.
     and_then (call_tool (ae_latency E) ''assessment'' ''risk_assessment'' (\<lambda>_. 1)
       (assess (ae_ln E) (ae_exp E) (ae_order E) p (agent_assess_request q claims verifications semantic_failed))) (\<lambda>a.
     done_with \<lparr>cl_assessment = a, cl_facts = facts, cl_claims = claims, cl_failed = semantic_failed\<rparr>)))))))"

definition collect :: "agent_env \<Rightarrow> pipeline \<Rightarrow> agent_request \<Rightarrow> collected agent" where
  "collect E p q =
     and_then (transition_to PLANNING) (\<lambda>_.
     and_then (modify (\<lambda>s. s\<lparr>as_plan := plan_of (prior_of q \<noteq> []) (ag_pages q \<noteq> [])\<rparr>)) (\<lambda>_.
     and_then (transition_to COLLECTING) (\<lambda>_.
     and_then (call_tool (ae_latency E) ''metrics'' ''financial_metrics'' length
       (Inr (calculate_metrics (ag_current q) (ag_year q) (prior_of q)))) (\<lambda>metrics.
     and_then (call_tool (ae_latency E) ''models'' ''traditional_models'' length
       (run_models (ae_ln E) (ae_exp E) (ag_entity_type q) (ag_current q) (prior_of q) metrics)) (\<lambda>models.
     and_then (gather_claims E q) (assess_claims E p q metrics models))))))"

section \<open>Proposal\<close>

definition agent_versions :: "digest \<Rightarrow> agent_env \<Rightarrow> pipeline \<Rightarrow> pyval" where
  "agent_versions H E p = (let policy = canonical_hash H (pl_decision_document p) in VDict [
     (''rules'', VStr (canonical_hash H (VStr (pl_rules_source p)))),
     (''scoring'', VStr (canonical_hash H (VStr (pl_scoring_source p)))), (''decision_policy'', VStr policy),
     (''fusion'', VStr (''hierarchical_escalation:'' @ take 12 policy)),
     (''applicability'', VStr ''applicability-router:v1''), (''calibration'', VStr ''UNCALIBRATED:v1''),
     (''assurance_policy'', VStr (policy_hash H (pl_assurance p))), (''assurance_runtime'', VStr ''assurance-runtime:v0.4''),
     (''evidence_verifier'', VStr ''exact-page-quote:v1''), (''agent_review'', VStr ''analyst-critic-verifier:v1''),
     (''prompt'', VStr (ae_prompt E)), (''model'', VStr (ae_model E))])"

text \<open>The payload that the trace is built from: one outward score, as in \<open>decide\<close>.\<close>

definition agent_payload :: "assessment \<Rightarrow> fusion_result \<Rightarrow> obj" where
  "agent_payload a f = put_all
     [(''weighted_dimension_score'', vopt VFloat (at_overall_score a)), (''legacy_weighted_score'', vopt VFloat (at_overall_score a)),
      (''overall_score'', vopt VFloat (decided_score f a)), (''risk_level'', VStr (severity_label (decided_score f a))),
      (''disclosure_tensions'', VList (map tension_to_dict (at_tensions a))),
      (''claim_consistency_evaluations'', VList (map evaluation_to_dict (at_evaluations a))),
      (''enterprise_fusion'', fusion_to_dict f)] (assessment_to_dict a)"

definition assessed :: "assessment \<Rightarrow> agent_state \<Rightarrow> agent_state" where
  "assessed a s = s\<lparr>as_assessment := Some (assessment_to_dict a), as_risk_score := at_overall_score a,
     as_confidence := at_confidence a, as_evidence_coverage := at_coverage a\<rparr>"

definition fused :: "assessment \<Rightarrow> fusion_result \<Rightarrow> agent_state \<Rightarrow> agent_state" where
  "fused a f s = s\<lparr>as_fusion := items (fusion_to_dict f), as_assessment := Some (agent_payload a f),
     as_risk_score := decided_score f a, as_risk_severity := fr_severity f, as_proposed := decision_value (fr_decision f),
     as_disagreement := fr_disagreement f, as_risk_trajectory := classify_trajectory []\<rparr>"

definition agent_failures :: "assessment \<Rightarrow> bool \<Rightarrow> pyval \<Rightarrow> (string, bool) dict" where
  "agent_failures a semantic_failed trace =
     [(''missing_evidence'', truthy (vget trace ''material_path_count'') \<and> \<not> truthy (vget trace ''verified_path_count'')),
      (''conflicting_evidence'', at_contradictions a \<noteq> []), (''llm_unavailable'', semantic_failed), (''parser_failure'', False),
      (''stale_data'', False), (''rule_model_contradiction'', False)]"

definition proposal_fields :: "failure_proposal \<Rightarrow> (string \<times> pyval) list" where
  "proposal_fields fp = (''failure_state'', VDict (failure_to_dict fp)) #
     (if fp_review fp = [] then [] else [(''human_review_required'', VBool True), (''human_review_reason'', VStr (join '','' (fp_review fp)))])"

definition sensitivity_to_dict :: "sensitivity_row \<Rightarrow> pyval" where
  "sensitivity_to_dict r = VDict [(''input'', VStr (sr_input r)), (''delta'', VFloat (sr_delta r)),
     (''score_change'', vopt VFloat (sr_score_change r)), (''decision_change'', VBool (sr_decision_change r))]"

definition dimension_scores :: "assessment \<Rightarrow> scores" where
  "dimension_scores a = map (\<lambda>(k, d). (k, di_score d)) (at_dimensions a)"

text \<open>The router only asks whether a fact is missing.\<close>

definition fact_amounts :: "obj \<Rightarrow> amounts" where
  "fact_amounts facts = map (\<lambda>(k, v). (k, num v)) facts"

definition paths_by_reason :: "pyval \<Rightarrow> (string, pyval) dict" where
  "paths_by_reason trace = foldl (\<lambda>d path. AList.update (str_of (vget path ''reason_code'')) path d) [] (elems (vget trace ''paths''))"

definition judged_model :: "pyval \<Rightarrow> string option" where
  "judged_model path = (let t = py_str (vget path ''rule_or_model'') in if starts_with ''model:'' t then Some (drop 6 t) else None)"

definition judgements_of :: "(string, pyval) dict \<Rightarrow> material_conclusion list \<Rightarrow> judgement list" where
  "judgements_of paths drafts = concat (map (\<lambda>c. List.map_filter (\<lambda>(i, path). if contains i (mc_claim c)
     then Some \<lparr>jg_claim = mc_claim c, jg_risk_domain = vget path ''risk_domain'', jg_strength = ''material'', jg_path_ids = [i],
       jg_model = judged_model path\<rparr> else None) paths) drafts)"

definition applicability_labels :: "pyval list \<Rightarrow> (string, string) dict" where
  "applicability_labels report = foldl (\<lambda>d item. AList.update
     (let m = vget item ''model'' in if m = VStr ''altman'' then ''Altman Z-Score'' else if m = VStr ''beneish'' then ''Beneish M-Score''
      else if m = VStr ''piotroski'' then ''Piotroski F-Score'' else ''Ohlson O-Score'') (str_of (vget item ''status'')) d) [] report"

definition agent_review :: "pyval \<Rightarrow> material_conclusion list \<Rightarrow> pyval list \<Rightarrow> obj" where
  "agent_review trace drafts report = (let paths = paths_by_reason trace
     in three_role_review (judgements_of paths drafts) paths (applicability_labels report))"

definition review_recommended :: "obj \<Rightarrow> bool" where
  "review_recommended review = (get review ''recommended_decision'' = VStr ''REVIEW'')"

text \<open>The critic may only move the disposition toward the more cautious end.\<close>

definition reviewed_proposal :: "failure_proposal \<Rightarrow> obj \<Rightarrow> decision" where
  "reviewed_proposal fp review = (if review_recommended review \<and> disposition_rank (fp_decision fp) < disposition_rank REVIEW
     then REVIEW else fp_decision fp)"

definition review_fields :: "assessment \<Rightarrow> obj \<Rightarrow> (string \<times> pyval) list" where
  "review_fields a review = (''agent_role_review'', VDict review) #
     (if review_recommended review then (let reason = VStr (if at_contradictions a \<noteq> [] then ''EVIDENCE_CONFLICT'' else ''EVIDENCE_MISSING'')
       in [(''review_escalation_reason'', reason), (''human_review_required'', VBool True), (''human_review_reason'', reason)]) else [])"

definition proposal_trace :: "fusion_result \<Rightarrow> failure_proposal \<Rightarrow> decision \<Rightarrow> (string \<times> pyval) list" where
  "proposal_trace f fp proposal =
     [(''initial_fusion_decision'', VStr (decision_value (fr_decision f))),
      (''failure_aware_proposal'', VStr (decision_value (fp_decision fp))),
      (''failure_aware_decision'', VStr (decision_value (fp_decision fp))),
      (''review_proposal'', VStr (decision_value proposal)), (''review_decision'', VStr (decision_value proposal)),
      (''proposed_decision'', VStr (decision_value proposal)), (''decision'', VStr (decision_value proposal))]"

record agent_proposal =
  pr_fusion :: fusion_result
  pr_trace :: pyval
  pr_failure :: failure_proposal
  pr_review :: obj
  pr_decision :: decision

definition propose :: "digest \<Rightarrow> agent_env \<Rightarrow> pipeline \<Rightarrow> agent_request \<Rightarrow> collected \<Rightarrow> agent_proposal agent" where
  "propose H E p q c = (let a = cl_assessment c in
     and_then (modify (assessed a)) (\<lambda>_.
     and_then (of_result (hierarchical_escalation (dimension_scores a) (at_coverage a) (at_confidence a) (decision_policy p))) (\<lambda>f.
     and_then (modify (fused a f)) (\<lambda>_.
     and_then (of_result (build_decision_trace (VDict (agent_payload a f)) (fusion_to_dict f) (agent_versions H E p))) (\<lambda>trace.
     let fp = failure_aware_proposal f (agent_failures a (cl_failed c) trace) in
     and_then (modify (\<lambda>s. put_assessment (proposal_fields fp)
       (s\<lparr>as_decision_trace := items trace, as_proposed := decision_value (fp_decision fp)\<rparr>))) (\<lambda>_.
     and_then (of_result (sensitivity_analysis (dimension_scores a) f (Fin 5) (decision_policy p))) (\<lambda>rows.
     and_then (modify (\<lambda>s. put_trace [] (put_assessment [(''sensitivity'', VList (map sensitivity_to_dict rows))] s))) (\<lambda>_.
     and_then (of_result (applicability_report (ag_entity_type q) (fact_amounts (cl_facts c)))) (\<lambda>report.
     and_then (modify (put_assessment [(''model_applicability'', VList report)])) (\<lambda>_.
     let drafts = synthesize_conclusions (VDict (agent_payload a f)); review = agent_review trace drafts report;
         proposal = reviewed_proposal fp review in
     and_then (transition_to VERIFYING) (\<lambda>_.
     and_then (call_tool (ae_latency E) ''verification'' ''claim_verification'' (\<lambda>_. 2) (Inr (verify_conclusions drafts))) (\<lambda>(accepted, warnings).
     and_then (modify (\<lambda>s. put_trace (proposal_trace f fp proposal) (put_assessment (review_fields a review)
       (s\<lparr>as_conclusions := accepted, as_warnings := as_warnings s @ warnings, as_role_review := review,
          as_proposed := decision_value proposal\<rparr>)))) (\<lambda>_.
     done_with \<lparr>pr_fusion = f, pr_trace = trace, pr_failure = fp, pr_review = review, pr_decision = proposal\<rparr>)))))))))))))"

section \<open>Authorisation\<close>

definition agent_input :: "pipeline \<Rightarrow> agent_request \<Rightarrow> assessment \<Rightarrow> agent_proposal \<Rightarrow> assurance_input" where
  "agent_input p q a pr =
     \<lparr>ai_proposed = decision_value (pr_decision pr), ai_score = decided_score (pr_fusion pr) a,
      ai_paths = elems (vget (pr_trace pr) ''paths''), ai_financial = at_financial a, ai_observability = at_observability a,
      ai_sector = Some (ag_entity_type q), ai_disagreement = fr_disagreement (pr_fusion pr), ai_calibration = UNCALIBRATED,
      ai_reliability = None, ai_reference = ag_reference q, ai_failures = fp_blocking (pr_failure pr) @ fp_review (pr_failure pr),
      ai_fusion_policy = decision_policy p\<rparr>"

definition authorised_fields :: "assessment \<Rightarrow> agent_proposal \<Rightarrow> assurance_result \<Rightarrow> decision \<Rightarrow> obj \<Rightarrow> (string \<times> pyval) list" where
  "authorised_fields a pr r final epistemics =
     [(''proposed_decision'', VStr (decision_value (pr_decision pr))), (''assurance'', result_to_dict r),
      (''final_decision'', VStr (decision_value final)),
      (''failure_state'', VDict (put ''final_decision'' (VStr (decision_value final)) (failure_to_dict (pr_failure pr)))),
      (''epistemics'', VDict epistemics), (''evidence_quality'', VFloat (at_confidence a)),
      (''reliability_status'', VStr ''UNCALIBRATED'')]"

definition authorise :: "digest \<Rightarrow> pipeline \<Rightarrow> agent_request \<Rightarrow> assessment \<Rightarrow> agent_proposal \<Rightarrow> (assurance_result \<times> decision) agent" where
  "authorise H p q a pr =
     and_then (of_result (evaluate H (pl_assurance p) (agent_input p q a pr))) (\<lambda>r.
     and_then (modify (\<lambda>s. s\<lparr>as_assurance := result_to_dict r\<rparr>)) (\<lambda>_.
     and_then (of_result (authorized_final_decision H (Some r) (pl_assurance p))) (\<lambda>final.
     let epistemics = epistemic_summary (at_coverage a) (at_confidence a) (fr_disagreement (pr_fusion pr)) None UNCALIBRATED in
     and_then (modify (\<lambda>s. put_assessment (authorised_fields a pr r final epistemics)
       (put_trace [(''final_decision'', VStr (decision_value final)), (''assurance_certificate_hash'', VStr (ar_certificate_hash r))]
         (s\<lparr>as_decision := decision_value final, as_epistemics := epistemics\<rparr>)))) (\<lambda>_.
     done_with (r, final)))))"

section \<open>Publication\<close>

definition narrative_inputs :: "string list" where
  "narrative_inputs = [''going_concern_doubt'', ''material_weakness'', ''refinancing_dependency'']"

definition is_model_signal :: "rule_signal \<Rightarrow> bool" where
  "is_model_signal s = starts_with ''MODEL_'' (rs_rule_id s)"

definition numeric_rule_signals :: "assessment \<Rightarrow> rule_signal list" where
  "numeric_rule_signals a = filter (\<lambda>s. \<not> is_model_signal s \<and> list_all (\<lambda>k. k \<notin> set narrative_inputs) (rs_required_inputs s))
     (at_triggered_rules a)"

definition narrative_rule_signals :: "assessment \<Rightarrow> rule_signal list" where
  "narrative_rule_signals a = filter (\<lambda>s. \<not> is_model_signal s \<and> s \<notin> set (numeric_rule_signals a)) (at_triggered_rules a)"

text \<open>\<open>aggregate(...)[0]\<close>\<close>

definition score_of :: "agent_env \<Rightarrow> pipeline \<Rightarrow> rule_signal list \<Rightarrow> contradiction list \<Rightarrow> pyfloat option result" where
  "score_of E p signals cs = bind_result (aggregate (pl_scoring p) signals (map co_category cs)
     (ae_order E (covered_categories signals cs))) (\<lambda>(score, _, _). Inr score)"

definition tool_latency :: "tool_call list \<Rightarrow> string \<Rightarrow> int" where
  "tool_latency trace tool = sum_list (map tc_latency_ms (filter (\<lambda>t. tc_tool t = tool) trace))"

definition from_xbrl :: "evidence_ref \<Rightarrow> bool" where
  "from_xbrl e = contains ''xbrl'' (lower (case ev_source e of None \<Rightarrow> ''None'' | Some t \<Rightarrow> t))"

definition telemetry_entry :: "string \<Rightarrow> string \<Rightarrow> pyfloat option \<Rightarrow> pyfloat option \<Rightarrow> pyfloat \<Rightarrow> pyfloat \<Rightarrow> nat \<Rightarrow> int \<Rightarrow> component_telemetry" where
  "telemetry_entry component status before after coverage coverage' evidence latency =
     \<lparr>ct_component = component, ct_status = status, ct_risk_before = before, ct_risk_after = after, ct_coverage_before = coverage,
      ct_coverage_after = coverage', ct_disagreement_before = Fin 0, ct_disagreement_after = Fin 0, ct_decision_changed = False,
      ct_new_evidence = evidence, ct_latency_ms = latency, ct_cost = Fin 0\<rparr>"

text \<open>The eight entries. The review has no entry \<open>challenges\<close>, so that the critic always reports no evidence.\<close>

definition agent_telemetry :: "agent_env \<Rightarrow> agent_request \<Rightarrow> collected \<Rightarrow> agent_proposal \<Rightarrow> assurance_result \<Rightarrow> decision
    \<Rightarrow> pyfloat option \<Rightarrow> pyfloat option \<Rightarrow> pyfloat option \<Rightarrow> agent_state \<Rightarrow> component_telemetry list" where
  "agent_telemetry E q c pr r final rules models narrative s =
     (let a = cl_assessment c; numeric = dict_get (at_components a) ''numeric_provenance_coverage'' (Fin 0); coverage = at_coverage a;
          score = decided_score (pr_fusion pr) a; sources = concat (map snd (ag_source_map q)); latency = tool_latency (as_trace s);
          changed = (decision_value (fp_decision (pr_failure pr)) \<noteq> decision_value (pr_decision pr));
          disagreement = fr_disagreement (pr_fusion pr) in
      [telemetry_entry ''XBRL'' (if list_ex from_xbrl sources then ''executed'' else ''not_executed'') (Some (Fin 0)) (Some (Fin 0))
         (Fin 0) numeric (length sources) 0,
       telemetry_entry ''rules'' ''executed'' (Some (Fin 0)) rules numeric numeric (length (numeric_rule_signals a)) (latency ''risk_rules''),
       telemetry_entry ''traditional_models'' ''executed'' rules models numeric numeric
         (length (filter (\<lambda>m. mr_output m \<noteq> VNone) (at_models a))) (latency ''traditional_models''),
       (telemetry_entry ''LLM_narrative'' (if cl_failed c then ''failed'' else if ag_pages q \<noteq> [] then ''executed'' else ''not_executed'')
         models narrative numeric coverage (length (cl_claims c)) (latency ''narrative_evidence''))\<lparr>ct_cost := fsum (ae_costs E)\<rparr>,
       (telemetry_entry ''Critic'' ''executed'' narrative narrative coverage coverage
         (length (elems (vget_or (VDict (as_role_review s)) ''challenges'' (VList [])))) 0)\<lparr>ct_decision_changed := changed\<rparr>,
       telemetry_entry ''Verifier'' ''executed'' narrative narrative coverage coverage
         (length (concat (map mc_evidence (as_conclusions s)))) (latency ''claim_verification''),
       (telemetry_entry ''fusion'' ''executed'' narrative score coverage coverage (length (elems (vget (pr_trace pr) ''paths''))) 0)
         \<lparr>ct_disagreement_after := disagreement, ct_decision_changed := changed\<rparr>,
       (telemetry_entry ''assurance'' (lower (Domain.status_value (ar_status r))) score score coverage (ea_coverage (ar_evidence r))
         (length (se_evidence_ids (ar_sufficient r))) 0)
         \<lparr>ct_disagreement_before := disagreement, ct_disagreement_after := disagreement,
          ct_decision_changed := (decision_value final \<noteq> decision_value (pr_decision pr))\<rparr>])"

definition pages_to_dict :: "(int, string) dict \<Rightarrow> pyval" where
  "pages_to_dict pages = VDict (map (\<lambda>(n, t). (str_int n, VStr t)) pages)"

definition frozen_request :: "agent_request \<Rightarrow> pyval" where
  "frozen_request q = VDict [(''company'', VStr (ag_company q)), (''year'', VInt (ag_year q)),
     (''current'', VDict (amounts_obj (ag_current q))), (''previous'', vopt (\<lambda>v. VDict (amounts_obj v)) (ag_previous q)),
     (''pages'', pages_to_dict (ag_pages q)), (''document'', VStr (ag_document q)), (''entity_type'', VStr (ag_entity_type q)),
     (''source_map'', provenance_to_dict (ag_source_map q))]"

definition document_versions :: "digest \<Rightarrow> agent_request \<Rightarrow> pyval" where
  "document_versions H q = VDict [(ag_document q, VStr (if ag_pages q \<noteq> [] then canonical_hash H (pages_to_dict (ag_pages q)) else ''NO_DOCUMENT''))]"

definition tool_call_to_dict :: "tool_call \<Rightarrow> pyval" where
  "tool_call_to_dict t = VDict [(''step_id'', VStr (tc_step_id t)), (''phase'', VStr (tc_phase t)), (''tool'', VStr (tc_tool t)),
     (''status'', VStr (tc_status t)), (''summary'', VStr (tc_summary t)), (''evidence_ids'', vstrs (tc_evidence_ids t)),
     (''error'', vopt VStr (tc_error t)), (''latency_ms'', VInt (tc_latency_ms t))]"

definition agent_snapshot :: "digest \<Rightarrow> agent_env \<Rightarrow> pipeline \<Rightarrow> agent_request \<Rightarrow> obj \<Rightarrow> analysis_snapshot" where
  "agent_snapshot H E p q payload = create_snapshot H (ae_hex E) (ae_snapshot_at E) ''local'' (ag_company q) (frozen_request q)
     (VDict payload) (document_versions H q) (agent_versions H E p)"

definition agent_certificate_request :: "digest \<Rightarrow> agent_env \<Rightarrow> pipeline \<Rightarrow> agent_request \<Rightarrow> assessment \<Rightarrow> agent_proposal
    \<Rightarrow> assurance_result \<Rightarrow> decision \<Rightarrow> obj \<Rightarrow> tool_call list \<Rightarrow> obj \<Rightarrow> pyval list \<Rightarrow> bundle_request" where
  "agent_certificate_request H E p q a pr r final payload calls epistemics telemetry =
     (let versions = agent_versions H E p; sn = agent_snapshot H E p q payload in
      \<lparr>br_organization_id = ''local'', br_entity_id = ag_company q, br_document_hashes = document_versions H q,
       br_frozen_input = frozen_request q, br_frozen_output = VDict payload,
       br_risk_state = VDict [(''score'', vopt VFloat (decided_score (pr_fusion pr) a)), (''severity'', VStr (fr_severity (pr_fusion pr))),
         (''trajectory'', VStr (classify_trajectory [])), (''coverage'', VFloat (at_coverage a)), (''confidence'', VFloat (at_confidence a))],
       br_evidence_paths = elems (vget (pr_trace pr) ''paths''),
       br_calculations = VDict [(''metrics'', get payload ''metrics''), (''models'', get payload ''models''),
         (''rules'', get payload ''triggered_rules'')],
       br_agent_trace = map tool_call_to_dict calls, br_component_versions = versions, br_final_decision = decision_value final,
       br_risk_delta = VNone, br_human_review = VNone, br_epistemics = VDict epistemics, br_telemetry = telemetry,
       br_proposed_decision = Some (decision_value (pr_decision pr)), br_assurance = result_to_dict r,
       br_sufficient = sufficient_to_dict (ar_sufficient r), br_policy_version = ar_policy_version r,
       br_policy_hash = ar_policy_hash r, br_calibration_status = calibration_value (ar_calibration r),
       br_replay = VDict [(''deterministic'', VBool True), (''input_hash'', VStr (sn_input_hash sn)),
         (''output_hash'', VStr (sn_output_hash sn)), (''component_versions'', versions)]\<rparr>)"

definition payload_of :: "agent_state \<Rightarrow> obj" where
  "payload_of s = (case as_assessment s of None \<Rightarrow> [] | Some d \<Rightarrow> d)"

definition agent_publish :: "digest \<Rightarrow> agent_env \<Rightarrow> pipeline \<Rightarrow> agent_request \<Rightarrow> collected \<Rightarrow> agent_proposal \<Rightarrow> assurance_result
    \<Rightarrow> decision \<Rightarrow> unit agent" where
  "agent_publish H E p q c pr r final = (let a = cl_assessment c; numeric = numeric_rule_signals a;
       models = filter is_model_signal (at_triggered_rules a) in
     and_then (of_result (score_of E p numeric [])) (\<lambda>x.
     and_then (of_result (score_of E p (numeric @ models) [])) (\<lambda>y.
     and_then (of_result (score_of E p (numeric @ models @ narrative_rule_signals a) (at_contradictions a))) (\<lambda>z.
     and_then (modify (\<lambda>s. let telemetry = map component_delta (agent_telemetry E q c pr r final x y z s)
       in put_assessment [(''component_telemetry'', VList telemetry)] (s\<lparr>as_telemetry := telemetry\<rparr>))) (\<lambda>_.
     and_then (modify (\<lambda>s. s\<lparr>as_snapshot := Some (agent_snapshot H E p q (payload_of s))\<rparr>)) (\<lambda>_.
     and_then (reading id) (\<lambda>s.
     and_then (of_result (build_decision_bundle H (ae_bundle_at E) (Some (pl_assurance p))
       (agent_certificate_request H E p q a pr r final (payload_of s) (as_trace s) (as_epistemics s) (as_telemetry s)))) (\<lambda>b.
     modify (\<lambda>s. s\<lparr>as_bundle := Some b, as_certificate := Some b\<rparr>)))))))))"

section \<open>Conclusion\<close>

definition final_status :: "assessment \<Rightarrow> obj \<Rightarrow> decision \<Rightarrow> agent_status" where
  "final_status a payload final =
     (if at_contradictions a \<noteq> [] \<or> truthy (get payload ''human_review_required'') then REVIEW_REQUIRED
      else if final = ABSTAIN then INSUFFICIENT_EVIDENCE else if final = REVIEW then REVIEW_REQUIRED else COMPLETED)"

definition conclude :: "assessment \<Rightarrow> decision \<Rightarrow> unit agent" where
  "conclude a final =
     and_then (transition_to REFLECTING) (\<lambda>_.
     and_then (modify (\<lambda>s. s\<lparr>as_reflection := reflect (payload_of s)\<rparr>)) (\<lambda>_.
     and_then (reading (\<lambda>s. final_status a (payload_of s) final)) transition_to))"

section \<open>The run\<close>

definition agent_steps :: "digest \<Rightarrow> agent_env \<Rightarrow> pipeline \<Rightarrow> agent_request \<Rightarrow> unit agent" where
  "agent_steps H E p q =
     and_then (collect E p q) (\<lambda>c.
     and_then (propose H E p q c) (\<lambda>pr.
     and_then (authorise H p q (cl_assessment c) pr) (\<lambda>(r, final).
     and_then (agent_publish H E p q c pr r final) (\<lambda>_.
     conclude (cl_assessment c) final))))"

text \<open>Every exception ends in a warning and, unless a conclusion was reached, in the status \<open>FAILED\<close>.\<close>

definition fail_closed :: "py_error \<Rightarrow> agent_state \<Rightarrow> agent_state" where
  "fail_closed e s = (let s = s\<lparr>as_warnings := as_warnings s @ [error_text e]\<rparr> in
     if as_status s \<in> set [COMPLETED, INSUFFICIENT_EVIDENCE, REVIEW_REQUIRED] then s else s\<lparr>as_status := FAILED\<rparr>)"

definition run_agent :: "digest \<Rightarrow> agent_env \<Rightarrow> pipeline \<Rightarrow> agent_request \<Rightarrow> agent_state" where
  "run_agent H E p q = (case agent_steps H E p q (new_agent_state (ag_company q) (ag_year q)) of
     (s, Inr _) \<Rightarrow> s | (s, Inl e) \<Rightarrow> fail_closed e s)"

end
