(* ===== verification/Outcome.thy ===== *)
theory Outcome
  imports Orchestrate
begin

text \<open>
  What a run of the agent guarantees. The first part gives the rules of its effects: how a composition
  succeeds, and which predicates on the state survive every outcome of a step. The second follows the
  phases of a successful run, the third shows when a run fails.
\<close>

section \<open>Rules for steps\<close>

named_theorems stepping and keeping

lemma and_then_Inr [stepping]:
  "and_then m f s = (s', Inr y) \<longleftrightarrow> (\<exists>t x. m s = (t, Inr x) \<and> f x t = (s', Inr y))"
  by (auto simp: and_then_def split: prod.splits sum.splits)

lemma basic_steps [stepping]:
  "done_with x s = (s', Inr y) \<longleftrightarrow> s' = s \<and> y = x"
  "of_result r s = (s', Inr z) \<longleftrightarrow> s' = s \<and> r = Inr z"
  "modify f s = (s', Inr u) \<longleftrightarrow> s' = f s"
  "reading g s = (s', Inr w) \<longleftrightarrow> s' = s \<and> w = g s"
  by (auto simp: done_with_def of_result_def modify_def reading_def)

lemma transition_step [stepping]:
  "transition_to t s = (s', Inr u) \<longleftrightarrow> \<not> terminal (as_status s) \<and> s' = s\<lparr>as_status := t\<rparr>"
  by (auto simp: transition_to_def)

lemma tool_step [stepping]:
  "call_tool l i tool size_of r s = (s', Inr x) \<longleftrightarrow> r = Inr x \<and> s' = fst (call_tool l i tool size_of r s)"
  by (auto simp: call_tool_def split: sum.splits)

lemma tool_trace: "\<exists>t. fst (call_tool l i tool size_of r s) = s\<lparr>as_trace := t\<rparr>"
  by (auto simp: call_tool_def split: sum.splits)

lemma tool_fields [simp]:
  "as_status (fst (call_tool l i tool size_of r s)) = as_status s"
  "as_assessment (fst (call_tool l i tool size_of r s)) = as_assessment s"
  "as_decision_trace (fst (call_tool l i tool size_of r s)) = as_decision_trace s"
  "as_decision (fst (call_tool l i tool size_of r s)) = as_decision s"
  "as_certificate (fst (call_tool l i tool size_of r s)) = as_certificate s"
  by (simp_all add: call_tool_def split: sum.splits)

definition keeps :: "(agent_state \<Rightarrow> bool) \<Rightarrow> 'a agent \<Rightarrow> bool" where
  "keeps P m = (\<forall>s. P s \<longrightarrow> P (fst (m s)))"

lemma keepsD: "keeps P m \<Longrightarrow> P s \<Longrightarrow> m s = (s', r) \<Longrightarrow> P s'"
  by (auto simp: keeps_def dest: spec[of _ s])

lemma keeps_and_then [keeping]: "keeps P m \<Longrightarrow> (\<And>x. keeps P (f x)) \<Longrightarrow> keeps P (and_then m f)"
  by (fastforce simp: keeps_def and_then_def split: prod.splits sum.splits)

lemma keeps_basic [keeping]: "keeps P (done_with x)" "keeps P (of_result r)" "keeps P (reading g)"
  by (simp_all add: keeps_def done_with_def of_result_def reading_def)

lemma keeps_modify: "(\<And>s. P s \<Longrightarrow> P (f s)) \<Longrightarrow> keeps P (modify f)"
  by (simp add: keeps_def modify_def)

lemma keeps_tool: "(\<And>s t. P s \<Longrightarrow> P (s\<lparr>as_trace := t\<rparr>)) \<Longrightarrow> keeps P (call_tool l i tool size_of r)"
  unfolding keeps_def using tool_trace by metis

lemma keeps_transition: "(\<And>s. P s \<Longrightarrow> P (s\<lparr>as_status := t\<rparr>)) \<Longrightarrow> keeps P (transition_to t)"
  by (simp add: keeps_def transition_to_def)

section \<open>Before the conclusion no status is terminal\<close>

definition running :: "agent_state \<Rightarrow> bool" where
  "running s = (\<not> terminal (as_status s))"

lemma keeps_running [keeping]:
  "(\<And>s. as_status (f s) = as_status s) \<Longrightarrow> keeps running (modify f)"
  "keeps running (call_tool l i tool size_of r)"
  "\<not> terminal t \<Longrightarrow> keeps running (transition_to t)"
  by (rule keeps_modify keeps_tool keeps_transition; simp add: running_def)+

lemma put_status [simp]: "as_status (put_assessment kvs s) = as_status s" "as_status (put_trace kvs s) = as_status s"
  by (simp_all add: put_assessment_def put_trace_def Let_def)

lemma terminal_simps [simp]:
  "\<not> terminal PLANNING" "\<not> terminal COLLECTING" "\<not> terminal CROSS_CHECKING" "\<not> terminal SYNTHESIZING"
  "\<not> terminal VERIFYING" "\<not> terminal REFLECTING" "\<not> terminal UNDERSTANDING"
  by (simp_all add: terminal_def)

lemma gathered_status: "call_tool l i tool size_of r s = (s', y) \<Longrightarrow> as_status s' = as_status s"
  by (auto simp: call_tool_def split: sum.splits)

lemma gather_running [keeping]: "keeps running (gather_claims E q)"
  by (auto simp: keeps_def gather_claims_def running_def split: prod.splits sum.splits if_splits dest!: gathered_status)

lemma collect_running: "keeps running (collect E p q)"
  unfolding collect_def assess_claims_def cross_check_def by (auto intro!: keeping split: prod.splits)

lemma propose_running: "keeps running (propose H E p q c)"
  unfolding propose_def Let_def by (auto intro!: keeping simp: assessed_def fused_def split: prod.splits)

lemma authorise_running: "keeps running (authorise H p q a pr)"
  unfolding authorise_def Let_def by (auto intro!: keeping)

lemma publish_running: "keeps running (agent_publish H E p q c pr r final)"
  unfolding agent_publish_def Let_def by (auto intro!: keeping)

lemma concluded:
  "running s \<Longrightarrow> conclude a final s = (s\<lparr>as_status := final_status a (payload_of s) final, as_reflection := reflect (payload_of s)\<rparr>, Inr ())"
  by (simp add: conclude_def and_then_def modify_def reading_def transition_to_def running_def payload_of_def)

section \<open>The phases of a successful run\<close>

lemma collect_assessed:
  assumes "collect E p q s = (s', Inr c)"
  obtains claims verifications where "assess (ae_ln E) (ae_exp E) (ae_order E) p
      (agent_assess_request q claims verifications (cl_failed c)) = Inr (cl_assessment c)"
  using assms by (auto simp: collect_def assess_claims_def stepping split: prod.splits)

lemma put_twice: "as_assessment (put_assessment kvs s) = map_option (put_all kvs) (as_assessment s)"
  by (simp add: put_assessment_def)

lemma trace_twice: "as_assessment (put_trace kvs s) =
    map_option (put_all [(''decision_trace'', VDict (put_all kvs (as_decision_trace s)))]) (as_assessment s)"
  "as_decision_trace (put_trace kvs s) = put_all kvs (as_decision_trace s)"
  by (simp_all add: put_trace_def put_assessment_def Let_def)

lemma put_other [simp]:
  "as_decision_trace (put_assessment kvs s) = as_decision_trace s"
  "as_conclusions (put_assessment kvs s) = as_conclusions s" "as_conclusions (put_trace kvs s) = as_conclusions s"
  "as_proposed (put_assessment kvs s) = as_proposed s" "as_proposed (put_trace kvs s) = as_proposed s"
  "as_decision (put_assessment kvs s) = as_decision s" "as_decision (put_trace kvs s) = as_decision s"
  "as_role_review (put_assessment kvs s) = as_role_review s" "as_role_review (put_trace kvs s) = as_role_review s"
  "as_certificate (put_assessment kvs s) = as_certificate s" "as_certificate (put_trace kvs s) = as_certificate s"
  by (simp_all add: put_assessment_def put_trace_def Let_def)

lemma verified_supported: "list_all supported (fst (verify_conclusions cs))"
  by (simp add: verify_conclusions_def list_all_iff)

lemma proposed:
  assumes "propose H E p q c s = (s', Inr pr)"
  shows "pr_failure pr = failure_aware_proposal (pr_fusion pr) (agent_failures (cl_assessment c) (cl_failed c) (pr_trace pr))"
    "pr_decision pr = reviewed_proposal (pr_failure pr) (pr_review pr)"
    "as_role_review s' = pr_review pr" "as_proposed s' = decision_value (pr_decision pr)"
    "list_all supported (as_conclusions s')"
    "\<exists>d. as_assessment s' = Some d \<and> (review_recommended (pr_review pr) \<longrightarrow> get d ''human_review_required'' = VBool True)"
  using assms
  by (auto simp: propose_def Let_def stepping put_twice trace_twice assessed_def fused_def get_put_all review_fields_def
      verified_supported case_prod_beta)

lemma authorised:
  assumes "authorise H p q a pr s = (s', Inr (r, final))" "as_assessment s = Some d"
  shows "evaluate H (pl_assurance p) (agent_input p q a pr) = Inr r" "final = ar_final r"
    "authorized_final_decision H (Some r) (pl_assurance p) = Inr (ar_final r)"
    "as_role_review s' = as_role_review s" "as_proposed s' = as_proposed s" "as_conclusions s' = as_conclusions s"
    "as_decision s' = decision_value (ar_final r)"
    "get (as_decision_trace s') ''final_decision'' = VStr (decision_value (ar_final r))"
    "\<exists>d'. as_assessment s' = Some d' \<and> get d' ''final_decision'' = VStr (decision_value (ar_final r)) \<and>
       vget (get d' ''decision_trace'') ''final_decision'' = VStr (decision_value (ar_final r)) \<and>
       vget (get d' ''failure_state'') ''final_decision'' = VStr (decision_value (ar_final r)) \<and>
       get d' ''human_review_required'' = get d ''human_review_required''"
proof -
  show final: "final = ar_final r"
    using assms(1) by (auto simp: authorise_def Let_def stepping authorized_final_decision_def split: if_splits)
  show "evaluate H (pl_assurance p) (agent_input p q a pr) = Inr r"
    "authorized_final_decision H (Some r) (pl_assurance p) = Inr (ar_final r)"
    using assms(1) unfolding final by (auto simp: authorise_def Let_def stepping)
  show "as_role_review s' = as_role_review s" "as_proposed s' = as_proposed s" "as_conclusions s' = as_conclusions s"
    "as_decision s' = decision_value (ar_final r)"
    "get (as_decision_trace s') ''final_decision'' = VStr (decision_value (ar_final r))"
    using assms(1) unfolding final by (auto simp: authorise_def Let_def stepping trace_twice get_put_all)
  show "\<exists>d'. as_assessment s' = Some d' \<and> get d' ''final_decision'' = VStr (decision_value (ar_final r)) \<and>
       vget (get d' ''decision_trace'') ''final_decision'' = VStr (decision_value (ar_final r)) \<and>
       vget (get d' ''failure_state'') ''final_decision'' = VStr (decision_value (ar_final r)) \<and>
       get d' ''human_review_required'' = get d ''human_review_required''"
    using assms unfolding final
    by (auto simp: authorise_def Let_def stepping put_twice trace_twice get_put_all authorised_fields_def)
qed

lemma published_run:
  assumes "agent_publish H E p q c pr r final s = (s', Inr u)"
  obtains request b where "build_decision_bundle H (ae_bundle_at E) (Some (pl_assurance p)) request = Inr b"
    "br_final_decision request = decision_value final" "br_evidence_paths request = elems (vget (pr_trace pr) ''paths'')"
    "as_certificate s' = Some b" "as_role_review s' = as_role_review s" "as_proposed s' = as_proposed s"
    "as_conclusions s' = as_conclusions s" "as_decision s' = as_decision s" "as_decision_trace s' = as_decision_trace s"
    "\<And>d k. as_assessment s = Some d \<Longrightarrow> k \<noteq> ''component_telemetry'' \<Longrightarrow>
       \<exists>d'. as_assessment s' = Some d' \<and> get d' k = get d k"
  using assms
  by (auto simp: agent_publish_def Let_def stepping put_twice get_put_all agent_certificate_request_def intro!: that)

lemma reviewed_cautious:
  "fp_decision fp \<le> reviewed_proposal fp review" "review_recommended review \<Longrightarrow> REVIEW \<le> reviewed_proposal fp review"
  by (auto simp: reviewed_proposal_def less_eq_decision_def)

lemma conflict_cautious:
  "dict_get failures ''conflicting_evidence'' False \<Longrightarrow> REVIEW \<le> fp_decision (failure_aware_proposal f failures)"
  by (cases "fr_decision f") (simp_all add: failure_aware_proposal_def Let_def less_eq_decision_def)

lemma agent_failures_get:
  "dict_get (agent_failures a failed trace) ''llm_unavailable'' False = failed"
  "dict_get (agent_failures a failed trace) ''conflicting_evidence'' False = (at_contradictions a \<noteq> [])"
  by (simp_all add: agent_failures_def dict_get_def)

lemma proposed_cautious:
  assumes "propose H E p q c s = (s', Inr pr)"
  shows "fr_decision (pr_fusion pr) \<le> pr_decision pr"
    "cl_failed c \<or> at_contradictions (cl_assessment c) \<noteq> [] \<or> review_recommended (pr_review pr) \<Longrightarrow> REVIEW \<le> pr_decision pr"
proof -
  let ?fp = "failure_aware_proposal (pr_fusion pr) (agent_failures (cl_assessment c) (cl_failed c) (pr_trace pr))"
  note pr = proposed(1,2)[OF assms]
  have weaker: "fp_decision ?fp \<le> pr_decision pr" unfolding pr by (rule reviewed_cautious(1))
  show "fr_decision (pr_fusion pr) \<le> pr_decision pr" using proposal_cautious(1) weaker by (rule order_trans)
  assume "cl_failed c \<or> at_contradictions (cl_assessment c) \<noteq> [] \<or> review_recommended (pr_review pr)"
  then consider "REVIEW \<le> fp_decision ?fp" | "review_recommended (pr_review pr)"
    using proposal_cautious(2)[of "agent_failures (cl_assessment c) (cl_failed c) (pr_trace pr)" "pr_fusion pr"]
      conflict_cautious[of "agent_failures (cl_assessment c) (cl_failed c) (pr_trace pr)" "pr_fusion pr"]
    unfolding agent_failures_get by blast
  then show "REVIEW \<le> pr_decision pr"
  proof cases
    case 1
    then show ?thesis using weaker by (rule order_trans)
  next
    case 2
    then show ?thesis unfolding pr(2) by (rule reviewed_cautious(2))
  qed
qed

lemma issued_cautious:
  assumes "evaluate H (pl_assurance p) (agent_input p q a pr) = Inr r"
  shows "pr_decision pr \<le> ar_final r"
proof -
  obtain proposed f s d where "parse_decision (ai_proposed (agent_input p q a pr)) = Some proposed"
    "r = issue H (pl_assurance p) (agent_input p q a pr) proposed
       (assess_evidence H (ai_paths (agent_input p q a pr)) (ap_minimum_verified_coverage (pl_assurance p)) []) f s d"
    using evaluate_issued[OF assms] .
  then show ?thesis by (simp add: agent_input_def issue_fields(2) final_not_weaker)
qed

lemma completed_iff: "final_status a payload final = COMPLETED \<longleftrightarrow>
    at_contradictions a = [] \<and> \<not> truthy (get payload ''human_review_required'') \<and> (final = PASS \<or> final = FLAG)"
  by (cases final) (auto simp: final_status_def)

text \<open>A run whose steps succeed ends in the state that its last phase leaves.\<close>

lemma steps_parts:
  assumes "agent_steps H E p q s0 = (s, Inr u)"
  obtains c pr r final s1 s2 s3 s4 where "collect E p q s0 = (s1, Inr c)" "propose H E p q c s1 = (s2, Inr pr)"
    "authorise H p q (cl_assessment c) pr s2 = (s3, Inr (r, final))" "agent_publish H E p q c pr r final s3 = (s4, Inr ())"
    "conclude (cl_assessment c) final s4 = (s, Inr ())"
  using assms by (auto simp: agent_steps_def stepping)

lemma steps_running:
  assumes "agent_steps H E p q s0 = (s, Inl e)" "running s0"
  shows "running s"
proof -
  have body: "keeps running (and_then (collect E p q) (\<lambda>c. and_then (propose H E p q c) (\<lambda>pr.
      and_then (authorise H p q (cl_assessment c) pr) (\<lambda>(r, final).
      and_then (agent_publish H E p q c pr r final) (\<lambda>_. done_with (c, final))))))"
    by (auto intro!: keeping collect_running propose_running authorise_running publish_running)
  have split: "agent_steps H E p q = and_then (and_then (collect E p q) (\<lambda>c. and_then (propose H E p q c) (\<lambda>pr.
      and_then (authorise H p q (cl_assessment c) pr) (\<lambda>(r, final).
      and_then (agent_publish H E p q c pr r final) (\<lambda>_. done_with (c, final)))))) (\<lambda>(c, final). conclude (cl_assessment c) final)"
    by (rule ext) (simp add: agent_steps_def and_then_def done_with_def split: prod.splits sum.splits)
  show ?thesis
    using assms keepsD[OF body assms(2)] unfolding split
    by (auto simp: and_then_def[of _ "\<lambda>(c, final). conclude (cl_assessment c) final"] concluded split: prod.splits sum.splits)
qed

lemma run_succeeded:
  assumes "agent_steps H E p q (new_agent_state (ag_company q) (ag_year q)) = (s, Inr u)"
  shows "\<exists>(c :: collected) (pr :: agent_proposal) (r :: assurance_result) (b :: decision_bundle) payload claims verifications.
    assess (ae_ln E) (ae_exp E) (ae_order E) p (agent_assess_request q claims verifications (cl_failed c)) = Inr (cl_assessment c) \<and>
    evaluate H (pl_assurance p) (agent_input p q (cl_assessment c) pr) = Inr r \<and>
    authorized_final_decision H (Some r) (pl_assurance p) = Inr (ar_final r) \<and>
    as_assessment s = Some payload \<and> as_certificate s = Some b \<and> as_proposed s = decision_value (pr_decision pr) \<and>
    list_all (\<lambda>v. v = VStr (decision_value (ar_final r))) [VStr (as_decision s), get payload ''final_decision'',
      vget (get payload ''decision_trace'') ''final_decision'', get (as_decision_trace s) ''final_decision'',
      vget (get payload ''failure_state'') ''final_decision'', VStr (db_final_decision b)] \<and>
    fr_decision (pr_fusion pr) \<le> pr_decision pr \<and> pr_decision pr \<le> ar_final r \<and>
    (cl_failed c \<or> at_contradictions (cl_assessment c) \<noteq> [] \<or> review_recommended (as_role_review s) \<longrightarrow> REVIEW \<le> ar_final r) \<and>
    list_all supported (as_conclusions s) \<and>
    as_status s \<in> {COMPLETED, INSUFFICIENT_EVIDENCE, REVIEW_REQUIRED} \<and>
    (as_status s = COMPLETED \<longrightarrow> (ar_final r = PASS \<or> ar_final r = FLAG) \<and> at_contradictions (cl_assessment c) = [] \<and>
      \<not> review_recommended (as_role_review s) \<and> unique_material_paths H (db_evidence_paths b) \<noteq> [] \<and>
      (\<forall>path\<in>set (unique_material_paths H (db_evidence_paths b)). verified_path path))"
proof -
  let ?s0 = "new_agent_state (ag_company q) (ag_year q)"
  have s0: "running ?s0" by (simp add: running_def new_agent_state_def)
  obtain c pr r final s1 s2 s3 s4 where parts: "collect E p q ?s0 = (s1, Inr c)" "propose H E p q c s1 = (s2, Inr pr)"
    "authorise H p q (cl_assessment c) pr s2 = (s3, Inr (r, final))" "agent_publish H E p q c pr r final s3 = (s4, Inr ())"
    "conclude (cl_assessment c) final s4 = (s, Inr ())"
    using assms by (rule steps_parts)
  have s4: "running s4"
    using keepsD[OF publish_running keepsD[OF authorise_running keepsD[OF propose_running keepsD[OF collect_running s0 parts(1)]
      parts(2)] parts(3)] parts(4)] .
  obtain claims verifications where a: "assess (ae_ln E) (ae_exp E) (ae_order E) p
      (agent_assess_request q claims verifications (cl_failed c)) = Inr (cl_assessment c)"
    using parts(1) by (rule collect_assessed)
  note pr = proposed[OF parts(2)]
  obtain d where d: "as_assessment s2 = Some d" "review_recommended (pr_review pr) \<longrightarrow> get d ''human_review_required'' = VBool True"
    using pr(6) by blast
  note au = authorised[OF parts(3) d(1)]
  obtain d' where d': "as_assessment s3 = Some d'" "get d' ''final_decision'' = VStr (decision_value (ar_final r))"
    "vget (get d' ''decision_trace'') ''final_decision'' = VStr (decision_value (ar_final r))"
    "vget (get d' ''failure_state'') ''final_decision'' = VStr (decision_value (ar_final r))"
    "get d' ''human_review_required'' = get d ''human_review_required''"
    using au(9) by blast
  obtain request b where b: "build_decision_bundle H (ae_bundle_at E) (Some (pl_assurance p)) request = Inr b"
    "br_final_decision request = decision_value final" "br_evidence_paths request = elems (vget (pr_trace pr) ''paths'')"
    "as_certificate s4 = Some b" "as_role_review s4 = as_role_review s3" "as_proposed s4 = as_proposed s3"
    "as_conclusions s4 = as_conclusions s3" "as_decision s4 = as_decision s3" "as_decision_trace s4 = as_decision_trace s3"
    "\<And>k. k \<noteq> ''component_telemetry'' \<Longrightarrow> \<exists>x. as_assessment s4 = Some x \<and> get x k = get d' k"
    using published_run[OF parts(4)] d'(1) by metis
  obtain x where x: "as_assessment s4 = Some x" using b(10)[of "''final_decision''"] by auto
  have kept: "get x k = get d' k" if "k \<noteq> ''component_telemetry''" for k using b(10)[OF that] x by auto
  have s: "s = s4\<lparr>as_status := final_status (cl_assessment c) x (ar_final r), as_reflection := reflect x\<rparr>"
    using parts(5) by (simp add: concluded[OF s4] payload_of_def x au(2))
  have review: "as_role_review s = pr_review pr" by (simp add: s b(5) au(4) pr(3))
  have paths: "db_evidence_paths b = ai_paths (agent_input p q (cl_assessment c) pr)" "db_final_decision b = decision_value (ar_final r)"
    using built_fields(1,2)[OF b(1)] by (simp_all add: b(2,3) agent_input_def au(2))
  have decisive: "as_status s = COMPLETED \<Longrightarrow> (ar_final r = PASS \<or> ar_final r = FLAG) \<and> at_contradictions (cl_assessment c) = [] \<and>
      \<not> review_recommended (as_role_review s) \<and> unique_material_paths H (db_evidence_paths b) \<noteq> [] \<and>
      (\<forall>path\<in>set (unique_material_paths H (db_evidence_paths b)). verified_path path)"
    using decisive_issued[OF au(1)] d(2) unfolding paths review
    by (auto simp: s completed_iff kept d'(5) truthy.simps)
  have "as_status s \<in> {COMPLETED, INSUFFICIENT_EVIDENCE, REVIEW_REQUIRED}" by (simp add: s final_status_def)
  moreover have "list_all (\<lambda>v. v = VStr (decision_value (ar_final r))) [VStr (as_decision s), get x ''final_decision'',
      vget (get x ''decision_trace'') ''final_decision'', get (as_decision_trace s) ''final_decision'',
      vget (get x ''failure_state'') ''final_decision'', VStr (db_final_decision b)]"
    by (simp add: s b au d' kept paths)
  moreover have "as_assessment s = Some x" "as_certificate s = Some b" "as_proposed s = decision_value (pr_decision pr)"
    "list_all supported (as_conclusions s)"
    using pr(5) by (simp_all add: s x b au pr(4))
  ultimately show ?thesis
    using a au(1,3) proposed_cautious[OF parts(2)] issued_cautious[OF au(1)] order_trans[OF proposed_cautious(2)[OF parts(2)] issued_cautious[OF au(1)]]
      decisive unfolding review
    by - (rule exI[of _ c], rule exI[of _ pr], rule exI[of _ r], rule exI[of _ b], rule exI[of _ x], rule exI[of _ claims],
      rule exI[of _ verifications], intro conjI; blast)
qed

section \<open>When a run returns\<close>

text \<open>The step \<open>m\<close> succeeds on \<open>s\<close> and leaves \<open>P\<close>.\<close>

definition succeeds :: "'a agent \<Rightarrow> ('a \<Rightarrow> agent_state \<Rightarrow> bool) \<Rightarrow> agent_state \<Rightarrow> bool" where
  "succeeds m P s = (\<exists>s' x. m s = (s', Inr x) \<and> P x s')"

named_theorems succeeding

lemma succeeds_steps [succeeding]:
  "succeeds (and_then m f) P s \<longleftrightarrow> succeeds m (\<lambda>x. succeeds (f x) P) s"
  "succeeds (done_with x) Q s \<longleftrightarrow> Q x s"
  "succeeds (of_result r) R s \<longleftrightarrow> (\<exists>x. r = Inr x \<and> R x s)"
  "succeeds (modify g) S s \<longleftrightarrow> S () (g s)"
  "succeeds (reading h) T s \<longleftrightarrow> T (h s) s"
  "succeeds (transition_to t) S s \<longleftrightarrow> \<not> terminal (as_status s) \<and> S () (s\<lparr>as_status := t\<rparr>)"
  "succeeds (call_tool l i tool size_of r) R s \<longleftrightarrow> (\<exists>x. r = Inr x \<and> R x (fst (call_tool l i tool size_of r s)))"
  unfolding succeeds_def by (auto simp: stepping)

lemma succeeds_mono: "succeeds m P s \<Longrightarrow> (\<And>x t. P x t \<Longrightarrow> Q x t) \<Longrightarrow> succeeds m Q s"
  by (auto simp: succeeds_def)

lemma succeeds_keeps: "succeeds m P s \<Longrightarrow> keeps Q m \<Longrightarrow> Q s \<Longrightarrow> succeeds m (\<lambda>x t. P x t \<and> Q t) s"
  by (auto simp: succeeds_def dest: keepsD)

lemma gather_succeeds: "succeeds (gather_claims E q) (\<lambda>_ t. as_status t = as_status s) s"
  by (auto simp: succeeds_def gather_claims_def call_tool_def split: prod.splits sum.splits)

lemma model_input_refs: "model_input v (map (\<lambda>(k, m). (k, with_source_refs sm m)) ms) = model_input v ms"
  by (cases "map_of ms ''working_capital''") (simp_all add: model_input_def map_of_map with_source_refs_def)

text \<open>The models of a run see what the assessment sees.\<close>

definition models_run :: "agent_env \<Rightarrow> agent_request \<Rightarrow> bool" where
  "models_run E q = (is_ok (altman_variant (ag_entity_type q)) \<and> is_ok (ohlson_o (ae_ln E) (ae_exp E)
     (model_input (ag_current q) (calculate_metrics (ag_current q) (ag_year q) (prior_of q)))))"

lemma agent_assess_returns:
  assumes "build_pipeline disabled raw config = Inr p" "config_known p" "\<And>xs. set (ae_order E xs) = set xs"
  shows "is_ok (assess (ae_ln E) (ae_exp E) (ae_order E) p (agent_assess_request q claims verifications failed)) \<longleftrightarrow> models_run E q"
  using returns_iff[OF assms]
  by (simp add: models_run_def agent_assess_request_def request_metrics_def previous_of_def prior_of_def model_input_refs)

lemma claims_assessed:
  assumes p: "build_pipeline disabled raw config = Inr p" "config_known p" "\<And>xs. set (ae_order E xs) = set xs"
    and models: "models_run E q" and ms: "run_models (ae_ln E) (ae_exp E) (ag_entity_type q) (ag_current q) (prior_of q) metrics = Inr ms"
    and s: "running s"
  shows "succeeds (assess_claims E p q metrics ms x) (\<lambda>_ _. True) s"
proof -
  obtain rules where engine: "rule_engine disabled raw = Inr rules" "pl_rules p = rules"
    using p(1) by (auto simp: build_pipeline_def bind_result_Inr_iff)
  obtain claims verifications failed where x: "x = (claims, verifications, failed)" by (metis prod_cases3)
  have "\<exists>facts. build_facts (ag_current q) (prior_of q) (ag_year q) metrics ms claims = Inr facts \<and> is_ok (evaluate_rules facts (pl_rules p))"
    using built_facts[OF ms engine(1)] unfolding engine(2) by blast
  moreover have "is_ok (assess (ae_ln E) (ae_exp E) (ae_order E) p (agent_assess_request q claims verifications failed))"
    using agent_assess_returns[OF p] models by blast
  ultimately show ?thesis
    using s unfolding is_ok_iff by (auto simp: x assess_claims_def cross_check_def succeeding running_def)
qed

lemma collect_succeeds:
  assumes p: "build_pipeline disabled raw config = Inr p" "config_known p" "\<And>xs. set (ae_order E xs) = set xs"
    and models: "models_run E q" and s: "running s"
  shows "succeeds (collect E p q) (\<lambda>_ _. True) s"
proof -
  have "is_ok (run_models (ae_ln E) (ae_exp E) (ag_entity_type q) (ag_current q) (prior_of q)
      (calculate_metrics (ag_current q) (ag_year q) (prior_of q)))"
    using models unfolding models_run_def run_models_ok .
  then obtain ms where ms: "run_models (ae_ln E) (ae_exp E) (ag_entity_type q) (ag_current q) (prior_of q)
      (calculate_metrics (ag_current q) (ag_year q) (prior_of q)) = Inr ms"
    unfolding is_ok_iff by blast
  have "succeeds (gather_claims E q) (\<lambda>x. succeeds (assess_claims E p q
      (calculate_metrics (ag_current q) (ag_year q) (prior_of q)) ms x) (\<lambda>_ _. True)) t" if "running t" for t
    using gather_succeeds by (rule succeeds_mono) (use that claims_assessed[OF p models ms] in \<open>simp add: running_def\<close>)
  then show ?thesis using s by (simp add: collect_def succeeding ms running_def)
qed

lemma assessed_categories:
  assumes p: "build_pipeline disabled raw config = Inr p" "config_known p"
    and a: "assess ln_of exp_of order_of p q = Inr a"
  shows "rs_category ` set (at_triggered_rules a) \<subseteq> set categories \<and> co_category ` set (at_contradictions a) \<subseteq> set categories"
proof -
  obtain rules where engine: "rule_engine disabled raw = Inr rules" "pl_rules p = rules"
    using p(1) by (auto simp: build_pipeline_def bind_result_Inr_iff)
  obtain ms facts signals cs where parts:
    "run_models ln_of exp_of (rq_entity_type q) (rq_current q) (previous_of q) (request_metrics q) = Inr ms"
    "build_facts (rq_current q) (previous_of q) (rq_year q) (request_metrics q) ms (snd (admitted q)) = Inr facts"
    "all_signals p q facts ms = Inr signals" "all_contradictions p q facts = Inr cs"
    "finish order_of p q facts ms signals cs = Inr a"
    using a by (auto simp: assess_def bind_result_Inr_iff)
  have "numeric_facts facts" "is_ok (evaluate_rules facts (pl_rules p))"
    using built_facts[OF parts(1) engine(1)] parts(2) unfolding engine(2) by (metis Inr_inject)+
  then have "rs_category ` set signals \<subseteq> set categories" using signals_returned[OF _ _ p(2)] parts(3) by (metis Inr_inject)
  moreover have "co_category ` set cs \<subseteq> set categories" using contradictions_returned[OF p(2)] parts(4) by (metis Inr_inject)
  moreover have "at_triggered_rules a = signals" "at_contradictions a = cs"
    using parts(5) by (auto simp: finish_def Let_def bind_result_Inr_iff split: prod.splits)
  ultimately show ?thesis by simp
qed

lemma score_returns:
  assumes "rs_category ` set signals \<subseteq> set categories" "co_category ` set cs \<subseteq> set categories"
    "\<And>xs. set (ae_order E xs) = set xs"
  obtains x where "score_of E p signals cs = Inr x"
proof -
  let ?o = "ae_order E (covered_categories signals cs)"
  have o: "set ?o = rs_category ` set (effective_signals signals) \<union> set (map co_category cs)"
    by (simp add: assms(3) covered_categories_def)
  moreover have "set ?o \<subseteq> set categories"
    unfolding o using assms(1,2) image_mono[OF effective_subset[of signals], of rs_category] by auto
  ultimately have "is_ok (aggregate (pl_scoring p) signals (map co_category cs) ?o)" by (rule aggregate_returns)
  then show thesis using that by (auto simp: score_of_def is_ok_iff)
qed

lemma input_evaluates:
  assumes "input_ok H p x" "ai_proposed x = decision_value d"
  obtains r where "evaluate H p x = Inr r"
proof -
  have "scores_in_range (dependencies_from_paths H (ai_paths x))" "fusion_policy_ok (ai_fusion_policy x)"
    using assms(1) by (simp_all add: input_ok_def)
  then obtain g e where "analyze_fragility (dependencies_from_paths H (ai_paths x)) (ai_score x) d p (ai_fusion_policy x) = Inr g"
    "decision_sufficient_evidence (dependencies_from_paths H (ai_paths x)) d p (ai_fusion_policy x) = Inr e"
    using fragility_total unfolding is_ok_iff by metis
  then show thesis using that by (simp add: evaluate_def Let_def assms(2))
qed

lemma applicability_returns: "is_ok (applicability_report industry facts)"
proof -
  have "list_all (\<lambda>k. has_key model_requirements (route_key k)) (map fst model_requirements)" by code_simp
  then have "is_ok (bind_result (route_model m industry facts None) (\<lambda>d. Inr (decision_to_dict d)))"
    if "m \<in> set (map fst model_requirements)" for m
    using that by (auto simp: route_model_def Let_def list_all_iff)
  then show ?thesis unfolding applicability_report_def by (blast intro: map_result_ok)
qed

lemma sensitivity_returns:
  assumes "range_scores s"
  shows "is_ok (sensitivity_analysis s f (Fin 5) p)"
proof -
  have "is_ok (sensitivity_row_of s f (Fin 5) p (k, v))" if "(k, v) \<in> set (active_scores s)" for k v
  proof -
    have "score_range v" using that assms by (fastforce simp: active_scores_def range_scores_def map_filter_def split: option.splits)
    then have "score_range (pymin (Fin 100) (fadd v (Fin 5)))" by (rule capped_range) simp
    with assms have "range_scores (AList.update k (Some (pymin (Fin 100) (fadd v (Fin 5)))) s)" by (rule range_update)
    from hierarchical_total[OF range_scores_finite[OF this]] show ?thesis
      by (auto simp: sensitivity_row_of_def is_ok_iff bind_result_Inr_iff)
  qed
  then have "is_ok (map_result (sensitivity_row_of s f (Fin 5) p) (active_scores s))" by (intro map_result_ok) auto
  then show ?thesis by (auto simp: sensitivity_analysis_def is_ok_iff)
qed

lemma agent_payload_get:
  "k \<in> set [''dimensions'', ''triggered_rules''] \<Longrightarrow> get (agent_payload a f) k = get (assessment_to_dict a) k"
  by (auto simp: agent_payload_def get_put_all)

lemma agent_trace_built:
  obtains trace rules where "build_decision_trace (VDict (agent_payload a f)) (fusion_to_dict f) v = Inr trace"
    "elems (vget trace ''paths'') = trace_paths (VDict (agent_payload a f)) (fusion_to_dict f) v rules"
proof -
  have "elems (vget_or (VDict (agent_payload a f)) ''triggered_rules'' (VList [])) = map signal_to_dict (at_triggered_rules a)"
    using agent_payload_get[of "''triggered_rules''" a f]
    by (auto simp: vget_or_def get_def dict_get_def assessment_to_dict_def split: option.splits)
  then have "is_ok (rules_by_id (elems (vget_or (VDict (agent_payload a f)) ''triggered_rules'' (VList []))) [])"
    by (simp add: rules_by_id_ok signal_to_dict_def has_key_def)
  then show thesis using that by (auto simp: build_decision_trace_def Let_def is_ok_iff)
qed

lemma proposal_input_ok:
  assumes a: "assessment_ok a" and ok: "pipeline_ok H p" "reference_ok (ag_reference q)"
    and f: "hierarchical_escalation (dimension_scores a) (at_coverage a) (at_confidence a) (decision_policy p) = Inr (pr_fusion pr)"
    and paths: "elems (vget (pr_trace pr) ''paths'') = trace_paths (VDict (agent_payload a (pr_fusion pr))) g v rules"
    and failure: "pr_failure pr = failure_aware_proposal (pr_fusion pr) failures"
  shows "input_ok H (pl_assurance p) (agent_input p q a pr)"
proof -
  have range: "range_scores (map (\<lambda>(k, d). (k, di_score d)) (at_dimensions a))" using a by (simp add: assessment_ok_def)
  have "get (agent_payload a (pr_fusion pr)) ''dimensions'' = VDict (map (\<lambda>(k, d). (k, dimension_to_dict d)) (at_dimensions a))"
    by (simp add: agent_payload_get assessment_to_dict_def)
  from paths_in_range[OF range trace_scores[OF this]] have "scores_in_range (dependencies_from_paths H (ai_paths (agent_input p q a pr)))"
    by (simp add: agent_input_def paths)
  moreover have "baseline_ok (decided_score (pr_fusion pr) a)"
    using decided_range[OF a _ f[unfolded dimension_scores_def]] ok(1) by (simp add: pipeline_ok_def)
  ultimately show ?thesis
    using ok by (simp add: input_ok_def) (simp add: agent_input_def pipeline_ok_def failure failure_aware_proposal_def Let_def)
qed

lemma propose_succeeds:
  assumes a: "assessment_ok (cl_assessment c)" and ok: "pipeline_ok H p" "reference_ok (ag_reference q)" and s: "running s"
  shows "succeeds (propose H E p q c) (\<lambda>pr _. input_ok H (pl_assurance p) (agent_input p q (cl_assessment c) pr)) s"
proof -
  have range: "range_scores (dimension_scores (cl_assessment c))" using a by (simp add: assessment_ok_def dimension_scores_def)
  obtain f where f: "hierarchical_escalation (dimension_scores (cl_assessment c)) (at_coverage (cl_assessment c))
      (at_confidence (cl_assessment c)) (decision_policy p) = Inr f"
    using hierarchical_total[OF range_scores_finite[OF range]] unfolding is_ok_iff by blast
  obtain trace rules where t: "build_decision_trace (VDict (agent_payload (cl_assessment c) f)) (fusion_to_dict f) (agent_versions H E p) = Inr trace"
    "elems (vget trace ''paths'') = trace_paths (VDict (agent_payload (cl_assessment c) f)) (fusion_to_dict f) (agent_versions H E p) rules"
    using agent_trace_built .
  obtain rows report where "sensitivity_analysis (dimension_scores (cl_assessment c)) f (Fin 5) (decision_policy p) = Inr rows"
    "applicability_report (ag_entity_type q) (fact_amounts (cl_facts c)) = Inr report"
    using sensitivity_returns[OF range] applicability_returns unfolding is_ok_iff by metis
  then show ?thesis
    using s by (auto simp: propose_def Let_def succeeding f t(1) running_def assessed_def fused_def case_prod_beta
        intro!: proposal_input_ok[OF a ok] f t(2))
qed

lemma authorise_succeeds:
  assumes "input_ok H (pl_assurance p) (agent_input p q a pr)"
  shows "succeeds (authorise H p q a pr) (\<lambda>(r, final) _. evaluate H (pl_assurance p) (agent_input p q a pr) = Inr r \<and> final = ar_final r) s"
proof -
  obtain r where r: "evaluate H (pl_assurance p) (agent_input p q a pr) = Inr r"
    using input_evaluates[OF assms, of "pr_decision pr"] by (auto simp: agent_input_def)
  have "authorized_final_decision H (Some r) (pl_assurance p) = Inr (ar_final r)"
    using issued_result_verifies[OF r assms] by (simp add: authorized_final_decision_def verify_assurance_result_def)
  then show ?thesis by (simp add: authorise_def Let_def succeeding r)
qed

lemma publish_succeeds:
  assumes cats: "rs_category ` set (at_triggered_rules (cl_assessment c)) \<subseteq> set categories"
      "co_category ` set (at_contradictions (cl_assessment c)) \<subseteq> set categories"
    and order: "\<And>xs. set (ae_order E xs) = set xs" and hash: "\<And>s. H s \<noteq> []"
    and input: "input_ok H (pl_assurance p) (agent_input p q (cl_assessment c) pr)"
    and r: "evaluate H (pl_assurance p) (agent_input p q (cl_assessment c) pr) = Inr r"
  shows "succeeds (agent_publish H E p q c pr r (ar_final r))
    (\<lambda>_ t. \<exists>b. as_certificate t = Some b \<and> verify_decision_certificate H b (Some (pl_assurance p))) s"
proof -
  let ?a = "cl_assessment c"
  have score: "\<exists>x. score_of E p xs cs = Inr x"
    if "set xs \<subseteq> set (at_triggered_rules ?a)" "co_category ` set cs \<subseteq> set categories" for xs cs
  proof -
    have "rs_category ` set xs \<subseteq> set categories" using that(1) cats(1) by blast
    from score_returns[OF this that(2) order] show ?thesis by blast
  qed
  have "set (numeric_rule_signals ?a) \<subseteq> set (at_triggered_rules ?a)" "set (narrative_rule_signals ?a) \<subseteq> set (at_triggered_rules ?a)"
    by (auto simp: numeric_rule_signals_def narrative_rule_signals_def)
  then obtain x y z where "score_of E p (numeric_rule_signals ?a) [] = Inr x"
    "score_of E p (numeric_rule_signals ?a @ filter is_model_signal (at_triggered_rules ?a)) [] = Inr y"
    "score_of E p (numeric_rule_signals ?a @ filter is_model_signal (at_triggered_rules ?a) @ narrative_rule_signals ?a)
       (at_contradictions ?a) = Inr z"
    using score[of "numeric_rule_signals ?a" "[]"] score[of "numeric_rule_signals ?a @ filter is_model_signal (at_triggered_rules ?a)" "[]"]
      score[OF _ cats(2), of "numeric_rule_signals ?a @ filter is_model_signal (at_triggered_rules ?a) @ narrative_rule_signals ?a"]
    by auto
  moreover have "\<exists>b. build_decision_bundle H (ae_bundle_at E) (Some (pl_assurance p))
      (agent_certificate_request H E p q ?a pr r (ar_final r) payload calls epistemics telemetry) = Inr b \<and>
      verify_decision_certificate H b (Some (pl_assurance p))" for payload calls epistemics telemetry
  proof -
    have "ar_proposed r = pr_decision pr"
      using evaluate_issued[OF r] by (metis agent_input_def assurance_input.select_convs(1) issue_fields(1) option.inject parse_decision_value)
    then have "faithful_request (agent_certificate_request H E p q ?a pr r (ar_final r) payload calls epistemics telemetry) r
        (agent_input p q ?a pr)"
      by (simp add: faithful_request_def agent_certificate_request_def agent_input_def Let_def)
    from built_certificate[OF r input this hash] show ?thesis by blast
  qed
  ultimately show ?thesis by (simp add: agent_publish_def Let_def succeeding)
qed

lemma steps_succeed:
  assumes p: "build_pipeline disabled raw config = Inr p" "config_known p" "\<And>xs. set (ae_order E xs) = set xs"
    and ok: "pipeline_ok H p" "reference_ok (ag_reference q)" and hash: "\<And>s. H s \<noteq> []"
    and models: "models_run E q" and s: "running s"
  shows "succeeds (agent_steps H E p q)
    (\<lambda>_ t. \<exists>b. as_certificate t = Some b \<and> verify_decision_certificate H b (Some (pl_assurance p))) s"
proof -
  obtain s1 c where c: "collect E p q s = (s1, Inr c)"
    using collect_succeeds[OF p models s] by (auto simp: succeeds_def)
  have s1: "running s1" using keepsD[OF collect_running s c] .
  obtain claims verifications where a: "assess (ae_ln E) (ae_exp E) (ae_order E) p
      (agent_assess_request q claims verifications (cl_failed c)) = Inr (cl_assessment c)"
    using c by (rule collect_assessed)
  have a_ok: "assessment_ok (cl_assessment c)" using assess_ok[OF a] ok(1) by (simp add: pipeline_ok_def)
  obtain s2 pr where pr: "propose H E p q c s1 = (s2, Inr pr)" "input_ok H (pl_assurance p) (agent_input p q (cl_assessment c) pr)"
    using propose_succeeds[OF a_ok ok s1, of E] unfolding succeeds_def by blast
  obtain s3 r where r: "authorise H p q (cl_assessment c) pr s2 = (s3, Inr (r, ar_final r))"
    "evaluate H (pl_assurance p) (agent_input p q (cl_assessment c) pr) = Inr r"
    using authorise_succeeds[OF pr(2), of s2] by (auto simp: succeeds_def)
  obtain s4 b where b: "agent_publish H E p q c pr r (ar_final r) s3 = (s4, Inr ())" "as_certificate s4 = Some b"
    "verify_decision_certificate H b (Some (pl_assurance p))"
    using publish_succeeds[OF conjunct1[OF assessed_categories[OF p(1,2) a]] conjunct2[OF assessed_categories[OF p(1,2) a]]
      p(3) hash pr(2) r(2), of s3] by (auto simp: succeeds_def)
  have "running s4"
    using keepsD[OF publish_running keepsD[OF authorise_running keepsD[OF propose_running s1 pr(1)] r(1)] b(1)] .
  from concluded[OF this] show ?thesis
    by (auto simp: succeeds_def agent_steps_def and_then_def c pr(1) r(1) b)
qed

text \<open>Where the models cannot be run, nothing is decided.\<close>

lemma steps_fail:
  assumes "\<not> models_run E q"
  obtains s e where "agent_steps H E p q (new_agent_state company year) = (s, Inl e)" "running s"
    "as_decision s = ''ABSTAIN''" "as_certificate s = None"
proof -
  have "\<not> is_ok (run_models (ae_ln E) (ae_exp E) (ag_entity_type q) (ag_current q) (prior_of q)
      (calculate_metrics (ag_current q) (ag_year q) (prior_of q)))"
    using assms unfolding models_run_def run_models_ok .
  then obtain e where e: "run_models (ae_ln E) (ae_exp E) (ag_entity_type q) (ag_current q) (prior_of q)
      (calculate_metrics (ag_current q) (ag_year q) (prior_of q)) = Inl e"
    using is_ok_iff by (metis sum.exhaust)
  show thesis
    by (rule that[of "fst (agent_steps H E p q (new_agent_state company year))" e])
      (simp_all add: agent_steps_def collect_def and_then_def transition_to_def modify_def call_tool_def e new_agent_state_def running_def)
qed

lemma run_returns:
  assumes "build_pipeline disabled raw config = Inr p" "config_known p" "\<And>xs. set (ae_order E xs) = set xs"
    "pipeline_ok H p" "reference_ok (ag_reference q)" "\<And>s. H s \<noteq> []" "run_agent H E p q = s"
  shows "(as_status s = FAILED \<longleftrightarrow> \<not> models_run E q) \<and>
    (if models_run E q then \<exists>b. as_certificate s = Some b \<and> verify_decision_certificate H b (Some (pl_assurance p))
     else as_decision s = ''ABSTAIN'' \<and> as_certificate s = None \<and> as_warnings s \<noteq> [])"
proof (cases "models_run E q")
  case True
  have "running (new_agent_state (ag_company q) (ag_year q))" by (simp add: running_def new_agent_state_def)
  from steps_succeed[OF assms(1-6) True this] obtain b where
    run: "agent_steps H E p q (new_agent_state (ag_company q) (ag_year q)) = (s, Inr ())"
    and b: "as_certificate s = Some b" "verify_decision_certificate H b (Some (pl_assurance p))"
    using assms(7) by (auto simp: succeeds_def run_agent_def)
  have "as_status s \<in> {COMPLETED, INSUFFICIENT_EVIDENCE, REVIEW_REQUIRED}" using run_succeeded[OF run] by blast
  then show ?thesis using True b by auto
next
  case False
  then obtain t e where "agent_steps H E p q (new_agent_state (ag_company q) (ag_year q)) = (t, Inl e)" "running t"
    "as_decision t = ''ABSTAIN''" "as_certificate t = None"
    by (rule steps_fail)
  then show ?thesis
    using False assms(7) by (auto simp: run_agent_def fail_closed_def Let_def running_def terminal_def)
qed

text \<open>C3: A run of the agent is conclusive and never weakens a decision. It always ends in one of the four terminal
  statuses. Unless it failed, the assessment of the request was computed and the engine issued and authorised
  a result for it, and the state, the payload, the shared decision trace, the failure state and the certificate
  all carry the one final decision of that result. Fusion, failures, review and engine only ever made the
  disposition more cautious, and it is \<open>REVIEW\<close> or \<open>ABSTAIN\<close> whenever the extraction failed, the narrative is contradicted
  or the review rejected a judgement. Published conclusions are supported by evidence. The status \<open>COMPLETED\<close> is
  reached only with a decision \<open>PASS\<close> or \<open>FLAG\<close> on material paths that are all verified, without contradictions and with
  an accepting review.\<close>

theorem agent_run_sound:
  assumes "run_agent H E p q = s"
  shows "terminal (as_status s) \<and> (as_status s \<noteq> FAILED \<longrightarrow>
    (\<exists>(c :: collected) (pr :: agent_proposal) (r :: assurance_result) (b :: decision_bundle) payload claims verifications.
    assess (ae_ln E) (ae_exp E) (ae_order E) p (agent_assess_request q claims verifications (cl_failed c)) = Inr (cl_assessment c) \<and>
    evaluate H (pl_assurance p) (agent_input p q (cl_assessment c) pr) = Inr r \<and>
    authorized_final_decision H (Some r) (pl_assurance p) = Inr (ar_final r) \<and>
    as_assessment s = Some payload \<and> as_certificate s = Some b \<and> as_proposed s = decision_value (pr_decision pr) \<and>
    list_all (\<lambda>v. v = VStr (decision_value (ar_final r))) [VStr (as_decision s), get payload ''final_decision'',
      vget (get payload ''decision_trace'') ''final_decision'', get (as_decision_trace s) ''final_decision'',
      vget (get payload ''failure_state'') ''final_decision'', VStr (db_final_decision b)] \<and>
    fr_decision (pr_fusion pr) \<le> pr_decision pr \<and> pr_decision pr \<le> ar_final r \<and>
    (cl_failed c \<or> at_contradictions (cl_assessment c) \<noteq> [] \<or> review_recommended (as_role_review s) \<longrightarrow> REVIEW \<le> ar_final r) \<and>
    list_all supported (as_conclusions s) \<and>
    as_status s \<in> {COMPLETED, INSUFFICIENT_EVIDENCE, REVIEW_REQUIRED} \<and>
    (as_status s = COMPLETED \<longrightarrow> (ar_final r = PASS \<or> ar_final r = FLAG) \<and> at_contradictions (cl_assessment c) = [] \<and>
      \<not> review_recommended (as_role_review s) \<and> unique_material_paths H (db_evidence_paths b) \<noteq> [] \<and>
      (\<forall>path\<in>set (unique_material_paths H (db_evidence_paths b)). verified_path path))))"
proof (cases "agent_steps H E p q (new_agent_state (ag_company q) (ag_year q))")
  case (Pair t out)
  show ?thesis
  proof (cases out)
    case (Inl e)
    have "running (new_agent_state (ag_company q) (ag_year q))" by (simp add: running_def new_agent_state_def)
    then have "running t" using steps_running Pair Inl by blast
    then have "as_status s = FAILED"
      using assms by (auto simp: run_agent_def Pair Inl fail_closed_def Let_def running_def terminal_def)
    then show ?thesis by (simp add: terminal_def)
  next
    case (Inr u)
    then have s: "s = t" using assms by (simp add: run_agent_def Pair)
    have run: "agent_steps H E p q (new_agent_state (ag_company q) (ag_year q)) = (s, Inr u)" by (simp add: s Pair Inr)
    note sound = run_succeeded[OF run]
    have "as_status s \<in> {COMPLETED, INSUFFICIENT_EVIDENCE, REVIEW_REQUIRED}" using sound by blast
    then have "terminal (as_status s)" by (auto simp: terminal_def)
    then show ?thesis using sound by blast
  qed
qed

text \<open>C8: A run fails only where the traditional models cannot be run, and then decides nothing. Let the pipeline be one that
  was constructed, with categories, a fusion policy and a policy hash in range, and a well-formed reference
  profile. Then the run ends as \<open>FAILED\<close> exactly when the entity type has no Altman variant or the arithmetic of the Ohlson
  score raises: a provider that raises, unsupported claims, missing values and rejected conclusions never make it
  fail. A failed run says why, keeps the decision \<open>ABSTAIN\<close> and publishes no certificate; every other run publishes a
  certificate that the verifier accepts under the policy of the pipeline.\<close>

theorem agent_run_returns:
  assumes "build_pipeline disabled raw config = Inr p" "config_known p" "\<And>xs. set (ae_order E xs) = set xs"
    "pipeline_ok H p" "reference_ok (ag_reference q)" "\<And>s. H s \<noteq> []" "run_agent H E p q = s"
  shows "(as_status s = FAILED \<longleftrightarrow> \<not> models_run E q) \<and>
    (if models_run E q then \<exists>b. as_certificate s = Some b \<and> verify_decision_certificate H b (Some (pl_assurance p))
     else as_decision s = ''ABSTAIN'' \<and> as_certificate s = None \<and> as_warnings s \<noteq> [])"
  using run_returns[OF assms] .

definition sample_env :: agent_env where
  "sample_env = \<lparr>ae_extract = Inr [], ae_latency = (\<lambda>_. 1), ae_costs = [], ae_hex = ''0'', ae_snapshot_at = ''now'', ae_bundle_at = ''now'',
     ae_prompt = ''p'', ae_model = ''m'', ae_ln = (\<lambda>x. x), ae_exp = (\<lambda>x. x), ae_order = (\<lambda>xs. xs)\<rparr>"

definition acme_run :: agent_request where
  "acme_run = \<lparr>ag_company = ''Acme'', ag_year = 2024,
     ag_current = [(''current_assets'', Some (Fin 1)), (''current_liabilities'', Some (Fin 2))], ag_previous = None,
     ag_pages = [(1, ''Substantial doubt about going concern.'')], ag_document = ''d'', ag_entity_type = ''industrial'',
     ag_source_map = [], ag_reference = None\<rparr>"

lemma acme_models: "models_run sample_env acme_run \<and> (\<forall>xs. set (ae_order sample_env xs) = set xs) \<and> reference_ok (ag_reference acme_run)"
proof -
  have "models_run sample_env acme_run \<and> reference_ok (ag_reference acme_run)" by code_simp
  then show ?thesis by (simp add: sample_env_def)
qed

lemma agent_run_returns_witness:
  "as_status (run_agent sample_digest sample_env sample_pipeline acme_run) \<noteq> FAILED \<and>
   (\<exists>b. as_certificate (run_agent sample_digest sample_env sample_pipeline acme_run) = Some b \<and>
     verify_decision_certificate sample_digest b (Some (pl_assurance sample_pipeline)))"
  using agent_run_returns[OF sample_built sample_known _ sample_pipeline_ok _ sample_digest_nonempty refl, of sample_env acme_run] acme_models
  by simp

lemma agent_run_sound_witness:
  "let s = run_agent sample_digest sample_env sample_pipeline acme_run in
   as_status s \<in> {COMPLETED, INSUFFICIENT_EVIDENCE, REVIEW_REQUIRED} \<and>
   (\<exists>(r :: assurance_result) (b :: decision_bundle). as_certificate s = Some b \<and>
     authorized_final_decision sample_digest (Some r) (pl_assurance sample_pipeline) = Inr (ar_final r) \<and>
     as_decision s = decision_value (ar_final r) \<and> db_final_decision b = as_decision s \<and> list_all supported (as_conclusions s))"
proof -
  define s where "s = run_agent sample_digest sample_env sample_pipeline acme_run"
  have "as_status s \<noteq> FAILED"
    using run_returns[OF sample_built sample_known _ sample_pipeline_ok _ sample_digest_nonempty refl, of sample_env acme_run] acme_models
    by (simp add: s_def)
  then show ?thesis using agent_run_sound[OF s_def[symmetric]] unfolding s_def[symmetric] Let_def by fastforce
qed

end
