(* ===== verification/Replay.thy ===== *)
theory Replay
  imports Outcome Pyparse
begin

text \<open>
  Repeating a run of the agent (\<open>replay\<close> and \<open>run_document\<close> in \<open>agent/orchestrator.py\<close>): the frozen input of a
  snapshot is read back as a request, the agent runs on it and the outputs are compared. A frozen input
  holds values of the types that the agent writes. The ingestion of a document is an argument.
\<close>

section \<open>Reading a frozen input\<close>

text \<open>\<open>int(text)\<close>\<close>

definition py_int :: "string \<Rightarrow> int result" where
  "py_int text = (let (neg, s) = read_sign (strip text); (ds, rest) = digit_run False s
     in if ds = [] \<or> rest \<noteq> [] then Inl (ValueError (''invalid literal for int() with base 10: '' @ repr (VStr text)))
        else Inr (if neg then - undigits ds else undigits ds))"

definition field :: "pyval \<Rightarrow> string \<Rightarrow> pyval result" where
  "field v k = (case map_of (items v) k of None \<Rightarrow> Inl (KeyError k) | Some x \<Rightarrow> Inr x)"

fun int_of :: "pyval \<Rightarrow> int option" where
  "int_of (VInt i) = Some i"
| "int_of v = None"

fun text_of :: "pyval \<Rightarrow> string option" where
  "text_of (VStr s) = Some s"
| "text_of v = None"

definition reference_fields :: "string list" where
  "reference_fields = [''document'', ''page'', ''source_text'', ''fiscal_year'', ''confidence'', ''verified'', ''verification_status'',
     ''source'', ''company'', ''period'', ''quote'', ''value'', ''unit'']"

text \<open>\<open>Evidence(**evidence)\<close>\<close>

definition thaw_reference :: "pyval \<Rightarrow> evidence_ref result" where
  "thaw_reference v =
     (if \<not> set (map fst (items v)) \<subseteq> set reference_fields \<or> \<not> list_all (has_key (items v)) (take 3 reference_fields)
      then Inl (TypeError ''Evidence.__init__()'')
      else Inr (post_init \<lparr>ev_document = str_of (vget v ''document''), ev_page = (case int_of (vget v ''page'') of Some i \<Rightarrow> i | None \<Rightarrow> 0),
        ev_source_text = str_of (vget v ''source_text''), ev_fiscal_year = int_of (vget v ''fiscal_year''),
        ev_confidence = (case num (vget_or v ''confidence'' (VFloat (Fin 1))) of Some x \<Rightarrow> x | None \<Rightarrow> Fin 1),
        ev_verified = truthy (vget_or v ''verified'' (VBool False)),
        ev_verification_status = str_of (vget_or v ''verification_status'' (VStr ''unverified'')),
        ev_source = text_of (vget v ''source''), ev_company = text_of (vget v ''company''), ev_period = text_of (vget v ''period''),
        ev_quote = text_of (vget v ''quote''), ev_value = num (vget v ''value''), ev_unit = text_of (vget v ''unit'')\<rparr>))"

definition thaw_sources :: "pyval \<Rightarrow> source_map result" where
  "thaw_sources v = map_result (\<lambda>(k, refs). bind_result (map_result thaw_reference (elems refs)) (\<lambda>es. Inr (k, es))) (items v)"

definition thaw_amounts :: "pyval \<Rightarrow> amounts" where
  "thaw_amounts v = map (\<lambda>(k, x). (k, num x)) (items v)"

definition thaw_pages :: "pyval \<Rightarrow> (int, string) dict result" where
  "thaw_pages v = bind_result (map_result (\<lambda>(k, t). bind_result (py_int k) (\<lambda>n. Inr (n, str_of t))) (items v))
     (\<lambda>pages. Inr (foldl (\<lambda>d (n, t). AList.update n t d) [] pages))"

text \<open>The request is rebuilt without a reference profile.\<close>

definition thaw_request :: "pyval \<Rightarrow> agent_request result" where
  "thaw_request v =
     bind_result (thaw_sources (vget_or v ''source_map'' (VDict []))) (\<lambda>sources.
     bind_result (field v ''company'') (\<lambda>company. bind_result (field v ''year'') (\<lambda>year.
     bind_result (field v ''current'') (\<lambda>current.
     bind_result (thaw_pages (vget_or v ''pages'' (VDict []))) (\<lambda>pages.
     Inr \<lparr>ag_company = str_of company, ag_year = (case int_of year of Some i \<Rightarrow> i | None \<Rightarrow> 0), ag_current = thaw_amounts current,
       ag_previous = (let d = vget v ''previous'' in if d = VNone then None else Some (thaw_amounts d)), ag_pages = pages,
       ag_document = str_of (vget_or v ''document'' (VStr ''Annual Report'')),
       ag_entity_type = str_of (vget_or v ''entity_type'' (VStr ''industrial'')),
       ag_source_map = sources, ag_reference = None\<rparr>)))))"

definition agent_replay :: "digest \<Rightarrow> agent_env \<Rightarrow> pipeline \<Rightarrow> analysis_snapshot \<Rightarrow> pyval result" where
  "agent_replay H E p snapshot = replay_snapshot H snapshot
     (\<lambda>frozen. bind_result (thaw_request frozen) (\<lambda>q. Inr (VDict (payload_of (run_agent H E p q))))) (agent_versions H E p)"

section \<open>A run on a document\<close>

record ingested =
  ig_current :: amounts
  ig_previous :: "amounts option"
  ig_pages :: "(int, string) dict"
  ig_source_map :: source_map
  ig_extraction :: pyval

definition run_document :: "digest \<Rightarrow> agent_env \<Rightarrow> pipeline \<Rightarrow> string \<Rightarrow> int \<Rightarrow> string \<Rightarrow> ingested result \<Rightarrow> agent_state result" where
  "run_document H E p company year document ingestion = bind_result ingestion (\<lambda>i.
     let s = run_agent H E p \<lparr>ag_company = company, ag_year = year, ag_current = ig_current i, ag_previous = ig_previous i,
           ag_pages = ig_pages i, ag_document = document, ag_entity_type = ''industrial'', ag_source_map = ig_source_map i,
           ag_reference = None\<rparr> in
     bind_result (field (ig_extraction i) ''candidate_count'') (\<lambda>n.
     Inr (put_assessment [(''extraction'', ig_extraction i)] (s\<lparr>as_trace := \<lparr>tc_step_id = ''ingestion'', tc_phase = ''collect'',
       tc_tool = ''pdf_extraction'', tc_status = ''success'', tc_summary = ''Resolved '' @ py_str n @ '' financial candidate(s)'',
       tc_evidence_ids = [], tc_error = None, tc_latency_ms = 0\<rparr> # as_trace s\<rparr>))))"

section \<open>A frozen request is read back\<close>

lemma digit_of_char: "c \<in> set ''0123456789'' \<Longrightarrow> is_digit c \<and> \<not> is_space c \<and> c \<noteq> CHR ''-'' \<and> c \<noteq> CHR ''+''"
  by (auto simp: is_digit_def is_space_def)

lemma digit_run_all: "list_all is_digit s \<Longrightarrow> digit_run after s = (s, [])"
  by (induction s arbitrary: after) auto

lemma dropWhile_none: "list_all (\<lambda>c. \<not> P c) s \<Longrightarrow> dropWhile P s = s"
  by (cases s) auto

lemma strip_id: "list_all (\<lambda>c. \<not> is_space c) s \<Longrightarrow> strip s = s"
  by (simp add: strip_def dropWhile_none)

lemma digits_plain: "0 \<le> n \<Longrightarrow> list_all (\<lambda>c. is_digit c \<and> \<not> is_space c \<and> c \<noteq> CHR ''-'' \<and> c \<noteq> CHR ''+'') (digits n)"
  unfolding list_all_iff by (blast dest: digits_chars digit_of_char)

lemma py_int_digits:
  assumes "0 \<le> n"
  shows "strip (digits n) = digits n" "read_sign (digits n) = (False, digits n)" "digit_run False (digits n) = (digits n, [])"
    "strip (CHR ''-'' # digits n) = CHR ''-'' # digits n"
proof -
  have plain: "list_all (\<lambda>c. \<not> is_space c) (digits n)" "list_all is_digit (digits n)"
    using digits_plain[OF assms] by (auto simp: list_all_iff)
  show "strip (digits n) = digits n" using plain(1) by (rule strip_id)
  show "strip (CHR ''-'' # digits n) = CHR ''-'' # digits n"
    using plain(1) by (intro strip_id) (simp add: is_space_def)
  show "digit_run False (digits n) = (digits n, [])" using plain(2) by (rule digit_run_all)
  show "read_sign (digits n) = (False, digits n)"
    using digits_plain[OF assms] by (cases "digits n") (auto simp: read_sign_def)
qed

lemma py_int_str [simp]: "py_int (str_int i) = Inr i"
proof (cases "i < 0")
  case True
  then have "0 \<le> - i" by simp
  note d = py_int_digits[OF this]
  show ?thesis using True by (simp add: py_int_def str_int_def d(3,4) read_sign_def undigits_digits)
next
  case False
  then have "0 \<le> i" by simp
  note d = py_int_digits[OF this]
  show ?thesis using False by (simp add: py_int_def str_int_def d(1-3) undigits_digits)
qed

lemma read_optional [simp]: "text_of (vopt VStr x) = x" "int_of (vopt VInt y) = y" "num (vopt VFloat z) = z"
  by (simp_all add: vopt_def split: option.splits)

lemma reference_read: "post_init e = e \<Longrightarrow> thaw_reference (ref_to_dict e) = Inr e"
  by (cases e) (simp add: thaw_reference_def ref_to_dict_def reference_fields_def has_key_def vget_or_def dict_get_def)

lemma references_read: "list_all (\<lambda>e. post_init e = e) es \<Longrightarrow> map_result thaw_reference (map ref_to_dict es) = Inr es"
  by (induction es) (simp_all add: reference_read)

definition frozen_ok :: "agent_request \<Rightarrow> bool" where
  "frozen_ok q = (list_all (\<lambda>(k, refs). list_all (\<lambda>e. post_init e = e) refs) (ag_source_map q) \<and> distinct (map fst (ag_pages q)))"

lemma sources_read:
  "list_all (\<lambda>(k, refs). list_all (\<lambda>e. post_init e = e) refs) sm \<Longrightarrow> thaw_sources (provenance_to_dict sm) = Inr sm"
  unfolding thaw_sources_def provenance_to_dict_def refs_to_list_def
  by (induction sm) (auto simp: references_read)

lemma amounts_read: "thaw_amounts (VDict (amounts_obj v)) = v"
  by (induction v) (auto simp: thaw_amounts_def amounts_obj_def)

lemma foldl_fresh: "distinct (map fst (d @ xs)) \<Longrightarrow> foldl (\<lambda>d (n, t). AList.update n t d) d xs = d @ xs"
  by (induction xs arbitrary: d) (auto simp: update_new)

lemma pages_read:
  assumes "distinct (map fst pages)"
  shows "thaw_pages (pages_to_dict pages) = Inr pages"
proof -
  have "map_result (\<lambda>(k, t). bind_result (py_int k) (\<lambda>n. Inr (n, str_of t))) (map (\<lambda>(n, t). (str_int n, VStr t)) pages) = Inr pages"
    by (induction pages) auto
  then show ?thesis using foldl_fresh[of "[]" pages] assms by (simp add: thaw_pages_def pages_to_dict_def)
qed

lemma frozen_request_read: "frozen_ok q \<Longrightarrow> thaw_request (frozen_request q) = Inr (q\<lparr>ag_reference := None\<rparr>)"
  by (cases "ag_previous q")
    (simp_all add: frozen_ok_def thaw_request_def frozen_request_def field_def vget_or_def sources_read amounts_read pages_read vopt_def dict_get_def)

section \<open>Runs that differ in operational data only\<close>

text \<open>The environments agree but for latencies, identifiers and clocks.\<close>

definition same_runtime :: "agent_env \<Rightarrow> agent_env \<Rightarrow> bool" where
  "same_runtime E E' = (\<exists>latency hex snapshot_at bundle_at. E' = E\<lparr>ae_latency := latency, ae_hex := hex,
     ae_snapshot_at := snapshot_at, ae_bundle_at := bundle_at\<rparr>)"

definition untraced :: "agent_state \<Rightarrow> agent_state" where
  "untraced s = s\<lparr>as_trace := []\<rparr>"

definition alike :: "'a agent \<Rightarrow> 'a agent \<Rightarrow> bool" where
  "alike m m' = (\<forall>s s'. untraced s = untraced s' \<longrightarrow> untraced (fst (m s)) = untraced (fst (m' s')) \<and> snd (m s) = snd (m' s'))"

lemma untraced_fields:
  assumes "untraced s = untraced s'"
  shows "as_status s = as_status s'" "as_assessment s = as_assessment s'" "as_decision_trace s = as_decision_trace s'"
    "as_role_review s = as_role_review s'" "as_conclusions s = as_conclusions s'"
  using arg_cong[OF assms, of as_status] arg_cong[OF assms, of as_assessment] arg_cong[OF assms, of as_decision_trace]
    arg_cong[OF assms, of as_role_review] arg_cong[OF assms, of as_conclusions]
  by (simp_all add: untraced_def)

lemma alike_and_then:
  assumes "alike m m'" "\<And>x. alike (f x) (f' x)"
  shows "alike (and_then m f) (and_then m' f')"
  unfolding alike_def
proof (intro allI impI)
  fix s s' assume eq: "untraced s = untraced s'"
  obtain t r t' where m: "m s = (t, r)" "m' s' = (t', r)" "untraced t = untraced t'"
    using assms(1) eq unfolding alike_def by (metis prod.exhaust_sel)
  show "untraced (fst (and_then m f s)) = untraced (fst (and_then m' f' s')) \<and> snd (and_then m f s) = snd (and_then m' f' s')"
    using assms(2) m(3) by (cases r) (simp_all add: and_then_def m(1,2) alike_def)
qed

lemma alike_basic: "alike (done_with x) (done_with x)" "alike (of_result r) (of_result r)"
  by (simp_all add: alike_def done_with_def of_result_def)

lemma alike_modify:
  assumes "\<And>s t. f (s\<lparr>as_trace := t\<rparr>) = (f s)\<lparr>as_trace := t\<rparr>"
  shows "alike (modify f) (modify f)"
  unfolding alike_def modify_def untraced_def using assms by (metis fst_conv snd_conv)

lemma alike_transition: "alike (transition_to t) (transition_to t)"
proof -
  have "untraced (s\<lparr>as_status := t\<rparr>) = (untraced s)\<lparr>as_status := t\<rparr>" for s by (simp add: untraced_def)
  then show ?thesis by (auto simp: alike_def transition_to_def dest: untraced_fields(1))
qed

lemma alike_tool: "alike (call_tool l i tool size_of r) (call_tool l' i tool size_of r)"
  by (auto simp: alike_def call_tool_def untraced_def split: sum.splits)

lemma gather_alike:
  assumes "ae_extract E' = ae_extract E"
  shows "alike (gather_claims E q) (gather_claims E' q)"
proof (cases "ag_pages q = []")
  case False
  have w: "untraced s = untraced s' \<Longrightarrow> as_warnings s = as_warnings s'" for s s'
    by (drule arg_cong[of _ _ as_warnings]) (simp add: untraced_def)
  have u: "untraced (s\<lparr>as_trace := t, as_warnings := x\<rparr>) = (untraced s)\<lparr>as_warnings := x\<rparr>"
    "untraced (s\<lparr>as_trace := t\<rparr>) = untraced s" for s t x by (simp_all add: untraced_def)
  show ?thesis
    unfolding alike_def gather_claims_def call_tool_def assms
    using False by (cases "bind_result (ae_extract E) (\<lambda>raw. Inr (admit_claims (ag_pages q) raw))")
      (auto simp: u split: prod.splits dest: w)
qed (simp add: alike_def gather_claims_def)

lemmas alike_rules = alike_and_then alike_basic alike_transition alike_tool

lemma collect_alike: "same_runtime E E' \<Longrightarrow> alike (collect E p q) (collect E' p q)"
  by (auto simp: same_runtime_def collect_def assess_claims_def cross_check_def split: prod.splits
      intro!: alike_rules gather_alike alike_modify)

lemma propose_alike: "same_runtime E E' \<Longrightarrow> alike (propose H E p q c) (propose H E' p q c)"
  by (auto simp: same_runtime_def propose_def Let_def agent_versions_def split: prod.splits intro!: alike_rules alike_modify)
    (rule agent_state.equality; simp add: put_assessment_def put_trace_def Let_def assessed_def fused_def)+

lemma authorise_alike: "alike (authorise H p q a pr) (authorise H p q a pr)"
  by (auto simp: authorise_def Let_def intro!: alike_rules alike_modify)
    (rule agent_state.equality; simp add: put_assessment_def put_trace_def Let_def)

section \<open>A replay of an unchanged run is identical\<close>

lemma material_put:
  "material_decision_payload v = material_decision_payload v' \<Longrightarrow>
     material_decision_payload (VDict (put k v d)) = material_decision_payload (VDict (put k v' d))"
  by (induction d) (auto simp: put_def)

lemma material_delta:
  "t\<lparr>ct_latency_ms := 0\<rparr> = t'\<lparr>ct_latency_ms := 0\<rparr> \<Longrightarrow>
     material_decision_payload (component_delta t) = material_decision_payload (component_delta t')"
  by (cases t; cases t') (simp add: component_delta_def non_material_replay_fields_def)

lemma map_related: "list_all2 R xs ys \<Longrightarrow> (\<And>x y. R x y \<Longrightarrow> f x = f y) \<Longrightarrow> map f xs = map f ys"
  by (induction rule: list_all2_induct) auto

lemma telemetry_alike:
  assumes "same_runtime E E'" "untraced s = untraced s'"
  shows "material_decision_payload (VList (map component_delta (agent_telemetry E q c pr r final x y z s))) =
    material_decision_payload (VList (map component_delta (agent_telemetry E' q c pr r final x y z s')))"
proof -
  have "list_all2 (\<lambda>t t'. t\<lparr>ct_latency_ms := 0\<rparr> = t'\<lparr>ct_latency_ms := 0\<rparr>)
      (agent_telemetry E q c pr r final x y z s) (agent_telemetry E' q c pr r final x y z s')"
    using assms(1) untraced_fields(4,5)[OF assms(2)]
    by (auto simp: same_runtime_def agent_telemetry_def Let_def telemetry_entry_def)
  then have "map (\<lambda>t. material_decision_payload (component_delta t)) (agent_telemetry E q c pr r final x y z s) =
      map (\<lambda>t. material_decision_payload (component_delta t)) (agent_telemetry E' q c pr r final x y z s')"
    by (rule map_related) (rule material_delta)
  then show ?thesis by (simp add: comp_def)
qed

lemma published_payload:
  assumes "agent_publish H E p q c pr r final s = (t, Inr u)" "as_assessment s = Some d"
  obtains x y z where
    "payload_of t = put ''component_telemetry'' (VList (map component_delta (agent_telemetry E q c pr r final x y z s))) d"
    "as_snapshot t = Some (agent_snapshot H E p q (payload_of t))"
    "\<And>E' s'. same_runtime E E' \<Longrightarrow> as_assessment s' = Some d \<Longrightarrow> payload_of (fst (agent_publish H E' p q c pr r final s')) =
       put ''component_telemetry'' (VList (map component_delta (agent_telemetry E' q c pr r final x y z s'))) d"
proof -
  obtain x y z where scores: "score_of E p (numeric_rule_signals (cl_assessment c)) [] = Inr x"
    "score_of E p (numeric_rule_signals (cl_assessment c) @ filter is_model_signal (at_triggered_rules (cl_assessment c))) [] = Inr y"
    "score_of E p (numeric_rule_signals (cl_assessment c) @ filter is_model_signal (at_triggered_rules (cl_assessment c)) @
       narrative_rule_signals (cl_assessment c)) (at_contradictions (cl_assessment c)) = Inr z"
    using assms(1) by (auto simp: agent_publish_def Let_def stepping)
  show thesis
  proof (rule that)
    show "payload_of t = put ''component_telemetry'' (VList (map component_delta (agent_telemetry E q c pr r final x y z s))) d"
      "as_snapshot t = Some (agent_snapshot H E p q (payload_of t))"
      using assms by (auto simp: agent_publish_def Let_def stepping scores put_assessment_def payload_of_def put_all_def)
    fix E' and s' :: agent_state
    assume E': "same_runtime E E'" and s': "as_assessment s' = Some d"
    have "score_of E' = score_of E" using E' by (auto simp: same_runtime_def score_of_def fun_eq_iff)
    then show "payload_of (fst (agent_publish H E' p q c pr r final s')) =
       put ''component_telemetry'' (VList (map component_delta (agent_telemetry E' q c pr r final x y z s'))) d"
      using s' by (simp add: agent_publish_def Let_def and_then_def of_result_def modify_def reading_def scores put_assessment_def
          payload_of_def put_all_def split: prod.split sum.split)
  qed
qed

lemma conclude_payload: "conclude a final s = (t, out) \<Longrightarrow> payload_of t = payload_of s"
  by (auto simp: conclude_def and_then_def modify_def reading_def transition_to_def payload_of_def split: if_splits)

lemma closed_payload: "payload_of (fail_closed e s) = payload_of s"
  by (simp add: fail_closed_def Let_def payload_of_def)

lemma alike_run: "alike m m' \<Longrightarrow> m s = (t, r) \<Longrightarrow> untraced s = untraced s' \<Longrightarrow> \<exists>t'. m' s' = (t', r) \<and> untraced t = untraced t'"
  unfolding alike_def by (metis fst_conv snd_conv surjective_pairing)

lemma rerun_payload:
  assumes "agent_steps H E p q (new_agent_state (ag_company q) (ag_year q)) = (s, Inr u)" and E': "same_runtime E E'"
  shows "as_snapshot s = Some (agent_snapshot H E p q (payload_of s))"
    "material_decision_payload (VDict (payload_of (run_agent H E' p q))) = material_decision_payload (VDict (payload_of s))"
proof -
  let ?s0 = "new_agent_state (ag_company q) (ag_year q)"
  obtain c pr r final s1 s2 s3 s4 where parts: "collect E p q ?s0 = (s1, Inr c)" "propose H E p q c s1 = (s2, Inr pr)"
    "authorise H p q (cl_assessment c) pr s2 = (s3, Inr (r, final))" "agent_publish H E p q c pr r final s3 = (s4, Inr ())"
    "conclude (cl_assessment c) final s4 = (s, Inr ())"
    using assms(1) by (rule steps_parts)
  obtain s1' where s1': "collect E' p q ?s0 = (s1', Inr c)" "untraced s1 = untraced s1'"
    using alike_run[OF collect_alike[OF E'] parts(1) refl] by blast
  obtain s2' where s2': "propose H E' p q c s1' = (s2', Inr pr)" "untraced s2 = untraced s2'"
    using alike_run[OF propose_alike[OF E'] parts(2) s1'(2)] by blast
  obtain s3' where s3': "authorise H p q (cl_assessment c) pr s2' = (s3', Inr (r, final))" "untraced s3 = untraced s3'"
    using alike_run[OF authorise_alike parts(3) s2'(2)] by blast
  obtain d where d: "as_assessment s3 = Some d" using authorised(9)[OF parts(3)] proposed(6)[OF parts(2)] by blast
  obtain x y z where pub:
    "payload_of s4 = put ''component_telemetry'' (VList (map component_delta (agent_telemetry E q c pr r final x y z s3))) d"
    "as_snapshot s4 = Some (agent_snapshot H E p q (payload_of s4))"
    "payload_of (fst (agent_publish H E' p q c pr r final s3')) =
       put ''component_telemetry'' (VList (map component_delta (agent_telemetry E' q c pr r final x y z s3'))) d"
    using published_payload[OF parts(4) d] E' untraced_fields(2)[OF s3'(2)] d by metis
  have same: "payload_of s = payload_of s4" "as_snapshot s = as_snapshot s4"
    using parts(5) by (auto simp: conclude_def stepping payload_of_def)
  then show "as_snapshot s = Some (agent_snapshot H E p q (payload_of s))" using pub(2) by simp
  have "payload_of (run_agent H E' p q) = payload_of (fst (agent_publish H E' p q c pr r final s3'))"
    by (cases "agent_publish H E' p q c pr r final s3'")
      (auto simp: run_agent_def agent_steps_def and_then_def s1'(1) s2'(1) s3'(1) closed_payload conclude_payload
        split: prod.splits sum.splits)
  then show "material_decision_payload (VDict (payload_of (run_agent H E' p q))) = material_decision_payload (VDict (payload_of s))"
    unfolding same(1) pub(1,3) by (simp only: material_put[OF telemetry_alike[OF E' s3'(2)]])
qed

lemma versions_same: "same_runtime E E' \<Longrightarrow> agent_versions H E' p = agent_versions H E p \<and> veq (agent_versions H E p) (agent_versions H E p)"
  by (auto simp: same_runtime_def agent_versions_def Let_def)

text \<open>C21: A replay finds no drift in an unchanged run of a request without a reference profile. For every run
  that did not fail, the stored snapshot is read back as exactly its request, whatever page numbers, amounts and
  references it holds, except that a reference profile is lost (the pages have distinct numbers and the references
  the form their constructor gives them). The replay on another machine, at another time,
  with other identifiers and other latencies, though with the same extraction, costs and components, reruns that
  request and is reported as \<open>REPLAYED\<close>. It is \<open>IDENTICAL\<close> when the request had no reference profile: nothing
  that may differ between the two runs enters the material part of the output. When it had one it is \<open>IDENTICAL\<close>
  only if the run without the profile yields an output with the same material hash.\<close>

theorem agent_replay_identical:
  assumes "run_agent H E p q = s" "as_status s \<noteq> FAILED" "frozen_ok q" "same_runtime E E'"
  shows "\<exists>sn. as_snapshot s = Some sn \<and> thaw_request (sn_frozen_input sn) = Inr (q\<lparr>ag_reference := None\<rparr>) \<and>
    replay_status (agent_replay H E' p sn) = ''REPLAYED'' \<and>
    (replay_class (agent_replay H E' p sn) = ''IDENTICAL'' \<longleftrightarrow>
       material_hash H (VDict (payload_of (run_agent H E' p (q\<lparr>ag_reference := None\<rparr>)))) = material_hash H (VDict (payload_of s))) \<and>
    (ag_reference q = None \<longrightarrow> replay_class (agent_replay H E' p sn) = ''IDENTICAL'')"
proof (cases "agent_steps H E p q (new_agent_state (ag_company q) (ag_year q))")
  case (Pair t out)
  show ?thesis
  proof (cases out)
    case (Inl e)
    have "running (new_agent_state (ag_company q) (ag_year q))" by (simp add: running_def new_agent_state_def)
    then have "running t" using steps_running Pair Inl by blast
    then show ?thesis
      using assms(1,2) by (auto simp: run_agent_def Pair Inl fail_closed_def Let_def running_def terminal_def)
  next
    case (Inr u)
    then have s: "s = t" using assms(1) by (simp add: run_agent_def Pair)
    have run: "agent_steps H E p q (new_agent_state (ag_company q) (ag_year q)) = (s, Inr u)" by (simp add: s Pair Inr)
    note same = rerun_payload[OF run assms(4)]
    have q: "ag_reference q = None \<longrightarrow> run_agent H E' p (q\<lparr>ag_reference := None\<rparr>) = run_agent H E' p q"
      by (cases q) simp
    note thaw = frozen_request_read[OF assms(3)]
    have v: "agent_versions H E' p = agent_versions H E p" "veq (agent_versions H E p) (agent_versions H E p)"
      using versions_same[OF assms(4)] by blast+
    show ?thesis
      using same q by (cases "ag_reference q") (simp_all add: agent_snapshot_def create_snapshot_def agent_replay_def replay_snapshot_def v thaw replay_status_def
          replay_class_def replay_diff_def material_hash_def Let_def del: material_decision_payload.simps)
  qed
qed

lemma agent_replay_identical_witness:
  "\<exists>sn. as_snapshot (run_agent sample_digest sample_env sample_pipeline acme_run) = Some sn \<and>
     thaw_request (sn_frozen_input sn) = Inr acme_run \<and>
     replay_class (agent_replay sample_digest (sample_env\<lparr>ae_latency := \<lambda>_. 7, ae_bundle_at := ''later''\<rparr>) sample_pipeline sn) = ''IDENTICAL''"
proof -
  let ?E' = "sample_env\<lparr>ae_latency := \<lambda>_. 7, ae_bundle_at := ''later''\<rparr>"
  have ok: "as_status (run_agent sample_digest sample_env sample_pipeline acme_run) \<noteq> FAILED"
    using run_returns[OF sample_built sample_known _ sample_pipeline_ok _ sample_digest_nonempty refl, of sample_env acme_run] acme_models
    by simp
  have frozen: "frozen_ok acme_run" and none: "ag_reference acme_run = None" by (simp_all add: frozen_ok_def acme_run_def)
  have same: "same_runtime sample_env ?E'"
    unfolding same_runtime_def
    by (rule exI[of _ "\<lambda>_. 7"], rule exI[of _ "ae_hex sample_env"], rule exI[of _ "ae_snapshot_at sample_env"],
        rule exI[of _ "''later''"]) simp
  have unchanged: "acme_run\<lparr>ag_reference := None\<rparr> = acme_run" by (simp add: acme_run_def)
  obtain sn where sn: "as_snapshot (run_agent sample_digest sample_env sample_pipeline acme_run) = Some sn"
    "thaw_request (sn_frozen_input sn) = Inr (acme_run\<lparr>ag_reference := None\<rparr>)"
    "ag_reference acme_run = None \<longrightarrow> replay_class (agent_replay sample_digest ?E' sample_pipeline sn) = ''IDENTICAL''"
    using agent_replay_identical[OF refl ok frozen same] by (elim exE conjE) (rule that)
  show ?thesis by (intro exI[of _ sn] conjI sn(1) sn(2)[unfolded unchanged] sn(3)[rule_format, OF none])
qed

end
