(* ===== verification/Calibration.thy ===== *)
theory Calibration
  imports Scoring Cases
begin

text \<open>
  Calibration and governance of models (\<open>enterprise/calibration.py\<close>, \<open>enterprise/governance.py\<close>): scores of
  probabilities against labels, the selective decision, the life cycle of a model, drift and the promotion
  gate. Reliabilities are sorted by insertion, which is the order of Python where none of them is NaN.
\<close>

section \<open>Calibration\<close>

definition validate_labels :: "int list \<Rightarrow> pyfloat list \<Rightarrow> unit result" where
  "validate_labels labels probabilities =
     (if length labels \<noteq> length probabilities \<or> labels = []
      then Inl (ValueError ''aligned non-empty labels and probabilities are required'')
      else if list_ex (\<lambda>y. y \<notin> {0, 1}) labels \<or> list_ex (\<lambda>p. \<not> (fle (Fin 0) p \<and> fle p (Fin 1))) probabilities
      then Inl (ValueError ''labels must be binary and probabilities within [0, 1]'') else Inr ())"

text \<open>\<open>x ** 2\<close>, which raises where a finite number has no finite square.\<close>

definition square :: "pyfloat \<Rightarrow> pyfloat result" where
  "square x = (if is_finite x \<and> \<not> is_finite (fmul x x)
     then Inl (OverflowError ''(34, 'Numerical result out of range')'') else Inr (fmul x x))"

definition mean_of :: "pyfloat list \<Rightarrow> pyfloat result" where
  "mean_of xs = quotient (fsum xs) (fint (int (length xs)))"

definition brier_score :: "int list \<Rightarrow> pyfloat list \<Rightarrow> pyfloat result" where
  "brier_score labels probabilities = bind_result (validate_labels labels probabilities) (\<lambda>_.
     bind_result (map_result (\<lambda>(y, p). square (fsub p (fint y))) (zip labels probabilities)) (\<lambda>squares.
     bind_result (mean_of squares) (\<lambda>m. Inr (pround 6 m))))"

record bin_row =
  bn_bin :: nat
  bn_count :: nat
  bn_mean :: pyfloat
  bn_observed :: pyfloat

text \<open>The bin \<open>i\<close> holds the probabilities from \<open>i / bins\<close> up to the next boundary, the last one both boundaries.\<close>

definition bin_edge :: "nat \<Rightarrow> nat \<Rightarrow> pyfloat" where
  "bin_edge bins i = int_div (int i) (int bins)"

definition in_bin :: "nat \<Rightarrow> nat \<Rightarrow> pyfloat \<Rightarrow> bool" where
  "in_bin bins i p = (fle (bin_edge bins i) p \<and> fle p (bin_edge bins (Suc i)) \<and> (flt p (bin_edge bins (Suc i)) \<or> i = bins - 1))"

definition bin_members :: "int list \<Rightarrow> pyfloat list \<Rightarrow> nat \<Rightarrow> nat \<Rightarrow> (int \<times> pyfloat) list" where
  "bin_members labels probabilities bins i = filter (\<lambda>(y, p). in_bin bins i p) (zip labels probabilities)"

definition bin_row_of :: "nat \<Rightarrow> (int \<times> pyfloat) list \<Rightarrow> bin_row result" where
  "bin_row_of i members = bind_result (mean_of (map snd members)) (\<lambda>m.
     Inr \<lparr>bn_bin = i, bn_count = length members, bn_mean = pround 6 m,
       bn_observed = pround 6 (int_div (sum_list (map fst members)) (int (length members)))\<rparr>)"

definition reliability_diagram :: "int list \<Rightarrow> pyfloat list \<Rightarrow> int \<Rightarrow> bin_row list result" where
  "reliability_diagram labels probabilities bins = bind_result (validate_labels labels probabilities) (\<lambda>_.
     if bins < 1 then Inl (ValueError ''bins must be positive'')
     else map_result (\<lambda>i. bin_row_of i (bin_members labels probabilities (nat bins) i))
       (filter (\<lambda>i. bin_members labels probabilities (nat bins) i \<noteq> []) [0..<nat bins]))"

definition expected_calibration_error :: "int list \<Rightarrow> pyfloat list \<Rightarrow> int \<Rightarrow> pyfloat result" where
  "expected_calibration_error labels probabilities bins =
     bind_result (reliability_diagram labels probabilities bins) (\<lambda>rows.
     Inr (pround 6 (fsum (map (\<lambda>r. fmul (int_div (int (bn_count r)) (int (length labels))) (fabs (fsub (bn_mean r) (bn_observed r)))) rows))))"

record curve_point =
  cv_threshold :: pyfloat
  cv_coverage :: pyfloat
  cv_error :: "pyfloat option"

fun insert_float :: "pyfloat \<Rightarrow> pyfloat list \<Rightarrow> pyfloat list" where
  "insert_float x [] = [x]"
| "insert_float x (y # ys) = (if flt x y then x # y # ys else if feq x y then y # ys else y # insert_float x ys)"

definition sorted_floats :: "pyfloat list \<Rightarrow> pyfloat list" where
  "sorted_floats xs = foldl (\<lambda>acc x. insert_float x acc) [] xs"

definition curve_point_of :: "(int \<times> pyfloat \<times> pyfloat) list \<Rightarrow> pyfloat \<Rightarrow> curve_point" where
  "curve_point_of rows threshold =
     (let selected = filter (\<lambda>(y, p, r). fle threshold r) rows;
          errors = length (filter (\<lambda>(y, p, r). fle (Fin (1/2)) p \<noteq> (y \<noteq> 0)) selected)
      in \<lparr>cv_threshold = threshold, cv_coverage = pround 6 (int_div (int (length selected)) (int (length rows))),
          cv_error = (if selected = [] then None else Some (pround 6 (int_div (int errors) (int (length selected)))))\<rparr>)"

definition risk_coverage_curve :: "int list \<Rightarrow> pyfloat list \<Rightarrow> pyfloat list \<Rightarrow> curve_point list result" where
  "risk_coverage_curve labels probabilities reliabilities =
     (if length labels \<noteq> length probabilities \<or> length probabilities \<noteq> length reliabilities \<or> labels = []
      then Inl (ValueError ''aligned non-empty inputs are required'')
      else Inr (map (curve_point_of (zip labels (zip probabilities reliabilities))) (sorted_floats reliabilities)))"

section \<open>The selective decision\<close>

record selective =
  sl_decision :: string
  sl_proposed :: string
  sl_failures :: "string list"
  sl_eligible :: bool
  sl_reliability :: "pyfloat option"
  sl_calibration :: calibration_status

definition default_minimum_reliability :: pyfloat where
  "default_minimum_reliability = lit 6 10"

definition reliability_failures :: "(string, pyfloat) dict \<Rightarrow> calibration_status \<Rightarrow> pyfloat option \<Rightarrow> string list" where
  "reliability_failures policy calibration reliability =
     (if calibration = UNCALIBRATED then [''UNVALIDATED_RELIABILITY'']
      else case reliability of None \<Rightarrow> [''MISSING_CALIBRATED_RELIABILITY'']
        | Some r \<Rightarrow> if flt r (dict_get policy ''minimum_reliability'' default_minimum_reliability) then [''LOW_RELIABILITY''] else [])"

definition selective_failures :: "pyfloat \<Rightarrow> pyfloat option \<Rightarrow> pyfloat \<Rightarrow> (string, pyfloat) dict \<Rightarrow> calibration_status \<Rightarrow> string list" where
  "selective_failures coverage reliability disagreement policy calibration =
     (if flt coverage (dict_get policy ''minimum_coverage'' (lit 5 10)) then [''LOW_COVERAGE''] else []) @
     reliability_failures policy calibration reliability @
     (if fle (dict_get policy ''maximum_disagreement'' (lit 45 100)) disagreement then [''HIGH_MODEL_DISAGREEMENT''] else [])"

definition withholding :: "string list" where
  "withholding = [''LOW_COVERAGE'', ''UNVALIDATED_RELIABILITY'', ''MISSING_CALIBRATED_RELIABILITY'']"

definition selective_decision :: "string \<Rightarrow> pyfloat \<Rightarrow> pyfloat option \<Rightarrow> pyfloat \<Rightarrow> (string, pyfloat) dict \<Rightarrow> calibration_status \<Rightarrow> selective" where
  "selective_decision proposed coverage reliability disagreement policy calibration =
     (let failures = selective_failures coverage reliability disagreement policy calibration in
      \<lparr>sl_decision = (if set withholding \<inter> set failures \<noteq> {} then ''ABSTAIN'' else if failures \<noteq> [] then ''REVIEW'' else proposed),
       sl_proposed = proposed, sl_failures = failures, sl_eligible = (failures = []),
       sl_reliability = (if calibration = UNCALIBRATED then None else reliability), sl_calibration = calibration\<rparr>)"

text \<open>The dictionary that is returned: a recommendation that authorises nothing.\<close>

definition selective_to_dict :: "selective \<Rightarrow> pyval" where
  "selective_to_dict s = VDict [(''decision'', VStr (sl_decision s)), (''decision_semantics'', VStr ''LEGACY_ALIAS_FOR_POLICY_PROPOSAL''),
     (''proposed_decision'', VStr (sl_proposed s)), (''recommended_disposition'', VStr (sl_decision s)), (''final_decision'', VNone),
     (''authorized'', VBool False), (''failure_reasons'', vstrs (sl_failures s)), (''automation_allowed'', VBool False),
     (''policy_eligible_for_assurance'', VBool (sl_eligible s)), (''reliability'', vopt VFloat (sl_reliability s)),
     (''calibration_status'', VStr (calibration_value (sl_calibration s)))]"

section \<open>Governance\<close>

definition experiment_statuses :: "string list" where
  "experiment_statuses = [''NOT_RUN'', ''FAILED'', ''COMPLETED'']"

record experiment_record =
  ex_dataset_version :: string
  ex_git_commit :: string
  ex_component :: string
  ex_component_version :: string
  ex_prompt_hash :: "string option"
  ex_temperature :: "pyfloat option"
  ex_seed :: "int option"
  ex_rule_version :: string
  ex_fusion_version :: string
  ex_policy_version :: string
  ex_latency_ms :: pyfloat
  ex_input_tokens :: int
  ex_output_tokens :: int
  ex_cost_usd :: pyfloat
  ex_status :: string
  ex_timestamp :: "string option"

text \<open>The time is set unless it was given.\<close>

definition experiment_run :: "string \<Rightarrow> experiment_record \<Rightarrow> experiment_record result" where
  "experiment_run now x = (if ex_status x \<notin> set experiment_statuses then Inl (ValueError ''invalid experiment status'')
     else Inr (x\<lparr>ex_timestamp := Some (case ex_timestamp x of None \<Rightarrow> now | Some t \<Rightarrow> t)\<rparr>))"

definition validation_transitions :: "(string \<times> string list) list" where
  "validation_transitions = [(''experimental'', [''validated'', ''deprecated'']), (''validated'', [''approved'', ''experimental'', ''deprecated'']),
     (''approved'', [''deprecated'']), (''deprecated'', [])]"

definition transition_model :: "model_record \<Rightarrow> string \<Rightarrow> string option \<Rightarrow> model_record result" where
  "transition_model r target validation =
     (if target \<notin> set (dict_get validation_transitions (mo_validation_status r) [])
      then Inl (ValueError (''invalid model transition: '' @ mo_validation_status r @ '' -> '' @ target))
      else if target \<in> set [''validated'', ''approved''] \<and> validation \<in> set [None, Some []]
      then Inl (ValueError ''validation record is required'')
      else Inr (r\<lparr>mo_validation_status := target, mo_deployment_state := target\<rparr>))"

definition squared_loss :: "pyfloat list \<Rightarrow> pyfloat list \<Rightarrow> pyfloat result" where
  "squared_loss scores labels = bind_result (map_result (\<lambda>(s, y). square (fsub s y)) (zip scores labels)) (\<lambda>squares.
     quotient (fsum squares) (fint (int (length labels))))"

definition champion_challenger :: "pyfloat list \<Rightarrow> pyfloat list \<Rightarrow> pyfloat list \<Rightarrow> pyval result" where
  "champion_challenger champion challenger labels =
     (if length champion \<noteq> length challenger \<or> length challenger \<noteq> length labels \<or> labels = []
      then Inl (ValueError ''aligned non-empty predictions and labels are required'')
      else bind_result (squared_loss champion labels) (\<lambda>a. bind_result (squared_loss challenger labels) (\<lambda>b.
        Inr (VDict [(''champion_brier'', VFloat (pround 6 a)), (''challenger_brier'', VFloat (pround 6 b)),
          (''recommendation'', VStr (if flt b a then ''PROMOTE_CHALLENGER'' else ''KEEP_CHAMPION'')),
          (''automatic_promotion'', VBool False)]))))"

definition coverage_drift :: "pyfloat \<Rightarrow> pyfloat \<Rightarrow> pyfloat" where
  "coverage_drift reference current = pround 4 (fsub current reference)"

definition pymin_list :: "pyfloat list \<Rightarrow> pyfloat" where
  "pymin_list xs = foldl pymin (hd xs) (tl xs)"

definition drift_report :: "pyfloat list \<Rightarrow> pyfloat list \<Rightarrow> pyfloat \<Rightarrow> pyfloat \<Rightarrow> pyval result" where
  "drift_report reference current reference_coverage current_coverage =
     (if reference = [] \<or> current = []
      then Inr (VDict [(''status'', VStr ''INSUFFICIENT_DATA''), (''mean_shift'', VNone),
        (''coverage_drift'', VFloat (coverage_drift reference_coverage current_coverage))])
      else bind_result (mean_of reference) (\<lambda>r. bind_result (mean_of current) (\<lambda>c.
        bind_result (quotient (fabs (fsub c r)) (pymax (fsub (pymax_list reference) (pymin_list reference)) (Fin 1))) (\<lambda>shift.
        Inr (VDict [(''status'', VStr (if fle (lit 2 10) shift \<or> fle (lit 15 100) (fabs (fsub current_coverage reference_coverage))
            then ''REVIEW'' else ''STABLE'')), (''mean_shift'', VFloat (pround 4 shift)),
          (''coverage_drift'', VFloat (coverage_drift reference_coverage current_coverage))])))))"

definition required_metrics :: "string list" where
  "required_metrics = [''f1'', ''balanced_accuracy'', ''false_negative_rate'', ''calibration_error'', ''coverage'', ''abstention_rate'',
     ''evidence_verification_error'', ''latency_ms'', ''cost_usd'']"

definition promotion_limits :: "(string, pyfloat) dict" where
  "promotion_limits = [(''maximum_fnr_increase'', Fin 0), (''maximum_evidence_error'', lit 2 100),
     (''maximum_calibration_error'', lit 15 100), (''minimum_coverage'', lit 5 10)]"

definition metric_at :: "(string, pyfloat) dict \<Rightarrow> string \<Rightarrow> pyfloat" where
  "metric_at d k = dict_get d k NaN"

definition promotion_blockers :: "(string, pyfloat) dict \<Rightarrow> (string, pyfloat) dict \<Rightarrow> (string, pyfloat) dict \<Rightarrow> string list" where
  "promotion_blockers limits champion challenger =
     (if flt (fadd (metric_at champion ''false_negative_rate'') (metric_at limits ''maximum_fnr_increase'')) (metric_at challenger ''false_negative_rate'')
      then [''FALSE_NEGATIVE_REGRESSION''] else []) @
     (if flt (metric_at limits ''maximum_evidence_error'') (metric_at challenger ''evidence_verification_error'') then [''EVIDENCE_ERROR_LIMIT''] else []) @
     (if flt (metric_at limits ''maximum_calibration_error'') (metric_at challenger ''calibration_error'') then [''CALIBRATION_LIMIT''] else []) @
     (if flt (metric_at challenger ''coverage'') (metric_at limits ''minimum_coverage'') then [''COVERAGE_LIMIT''] else [])"

definition improves :: "(string, pyfloat) dict \<Rightarrow> (string, pyfloat) dict \<Rightarrow> bool" where
  "improves champion challenger = (flt (metric_at champion ''f1'') (metric_at challenger ''f1'') \<and>
     fle (metric_at champion ''balanced_accuracy'') (metric_at challenger ''balanced_accuracy''))"

definition recommendation_of :: "string list \<Rightarrow> bool \<Rightarrow> string" where
  "recommendation_of blockers better = (if blockers \<noteq> [] then ''DO_NOT_PROMOTE'' else if better then ''PROMOTE'' else ''PROMOTE_WITH_CONDITIONS'')"

text \<open>A policy may override the limits; all required metrics are looked up only when both versions have them.\<close>

definition compare_system_versions :: "(string, pyfloat) dict \<Rightarrow> (string, pyfloat) dict \<Rightarrow> (string, pyfloat) dict \<Rightarrow> pyval result" where
  "compare_system_versions champion challenger policy =
     (if \<not> list_all (\<lambda>k. has_key champion k \<and> has_key challenger k) required_metrics
      then Inl (ValueError (''both versions require metrics: '' @ repr (vstrs (sorted_set required_metrics))))
      else (let blockers = promotion_blockers (dict_union promotion_limits policy) champion challenger
        in Inr (VDict [(''recommendation'', VStr (recommendation_of blockers (improves champion challenger))),
          (''blockers'', vstrs blockers), (''automatic_promotion'', VBool False),
          (''metric_delta'', VDict (map (\<lambda>k. (k, VFloat (pround 6 (fsub (metric_at challenger k) (metric_at champion k)))))
            (sorted_set required_metrics)))])))"

section \<open>The diagram partitions the samples\<close>

lemma bin_edge_mono: "i \<le> j \<Longrightarrow> 0 < bins \<Longrightarrow> fle (bin_edge bins i) (bin_edge bins j)"
  unfolding bin_edge_def int_div_def by (rule fle_fl) (simp add: divide_right_mono)

lemma bin_edge_ends: "0 < bins \<Longrightarrow> bin_edge bins 0 = Fin 0" "0 < bins \<Longrightarrow> bin_edge bins bins = Fin 1"
  using fl_int[of 0] fl_int[of 1] by (simp_all add: bin_edge_def int_div_def)

lemma bin_edge_not_NaN [simp]: "bin_edge bins i \<noteq> NaN"
  by (simp add: bin_edge_def int_div_def)

lemma one_bin:
  assumes p: "fle (Fin 0) p" "fle p (Fin 1)" and bins: "0 < bins"
  shows "\<exists>!i. i < bins \<and> in_bin bins i p"
proof -
  let ?S = "{i. i < bins \<and> fle (bin_edge bins i) p}"
  define i where "i = Max ?S"
  have fin: "finite ?S" by simp
  have "0 \<in> ?S" using bins p(1) by (simp add: bin_edge_ends)
  then have i: "i \<in> ?S" unfolding i_def using fin by (intro Max_in) auto
  have top: "j \<le> i" if "j \<in> ?S" for j unfolding i_def using fin that by (rule Max_ge)
  have p': "p \<noteq> NaN" using p(1) fle_NaN by blast
  have above: "flt p (bin_edge bins (Suc i))" if "i \<noteq> bins - 1"
  proof -
    have "Suc i < bins" using i that by auto
    then have "\<not> fle (bin_edge bins (Suc i)) p" using top[of "Suc i"] by auto
    then show ?thesis using p' by (simp add: not_fle)
  qed
  have "in_bin bins i p"
  proof (cases "i = bins - 1")
    case True
    then have "Suc i = bins" using bins by simp
    then show ?thesis using i p(2) bins True by (simp add: in_bin_def bin_edge_ends)
  next
    case False
    then have "fle p (bin_edge bins (Suc i))" using above by (simp add: flt_def)
    then show ?thesis using i above[OF False] by (simp add: in_bin_def)
  qed
  moreover have "j = i" if "j < bins" "in_bin bins j p" for j
  proof (rule ccontr)
    assume "j \<noteq> i"
    moreover have "j \<le> i" using top that by (auto simp: in_bin_def)
    ultimately have "j < i" by simp
    then have "j \<noteq> bins - 1" using i by auto
    then have "flt p (bin_edge bins (Suc j))" using that(2) by (simp add: in_bin_def)
    moreover have "fle (bin_edge bins (Suc j)) p"
      using bin_edge_mono[of "Suc j" i bins] \<open>j < i\<close> i bins fle_trans by auto
    ultimately show False by (simp add: flt_def)
  qed
  ultimately show ?thesis using i by blast
qed

lemma count_partition:
  assumes "\<forall>x\<in>set xs. \<exists>!i. i < n \<and> P i x"
  shows "(\<Sum>i<(n :: nat). length (filter (P i) xs)) = length xs"
  using assms
proof (induction xs)
  case (Cons x xs)
  then have "\<exists>!i. i < n \<and> P i x" by simp
  then obtain i where i: "i < n" "\<And>j. j < n \<Longrightarrow> P j x \<longleftrightarrow> j = i" by blast
  have "(\<Sum>j<n. length (filter (P j) (x # xs))) = (\<Sum>j<n. (if j = i then 1 else 0) + length (filter (P j) xs))"
    by (rule sum.cong) (simp_all add: i(2))
  moreover have "(\<Sum>j<n. if j = i then 1 else 0 :: nat) = 1" using i(1) by (simp add: sum.delta)
  ultimately show ?case using Cons by (simp add: sum.distrib)
qed simp

lemma filtered_counts: "sum_list (map f (filter (\<lambda>i. g i \<noteq> []) xs)) = sum_list (map f xs)"
  if "\<And>i. g i = [] \<Longrightarrow> f i = (0 :: nat)"
  by (induction xs) (simp_all add: that)

lemma mean_of_nonempty: "xs \<noteq> [] \<Longrightarrow> \<exists>m. mean_of xs = Inr m"
  by (cases "fsum xs") (simp_all add: mean_of_def quotient_def fint_def)

lemma bin_row_built: "members \<noteq> [] \<Longrightarrow> \<exists>r. bin_row_of i members = Inr r \<and> bn_bin r = i \<and> bn_count r = length members"
  using mean_of_nonempty[of "map snd members"] by (auto simp: bin_row_of_def)

lemma rows_built:
  assumes "\<forall>i\<in>set is. g i \<noteq> []"
  shows "\<exists>rows. map_result (\<lambda>i. bin_row_of i (g i)) is = Inr rows \<and> map bn_bin rows = is \<and> map bn_count rows = map (\<lambda>i. length (g i)) is"
  using assms
proof (induction "is")
  case (Cons i "is")
  then obtain r rows where "bin_row_of i (g i) = Inr r" "bn_bin r = i" "bn_count r = length (g i)"
    "map_result (\<lambda>i. bin_row_of i (g i)) is = Inr rows" "map bn_bin rows = is" "map bn_count rows = map (\<lambda>i. length (g i)) is"
    using bin_row_built[of "g i" i] by auto
  then show ?case by simp
qed simp

lemma validated: "validate_labels labels probabilities = Inr () \<longleftrightarrow> length labels = length probabilities \<and> labels \<noteq> [] \<and>
    list_all (\<lambda>y. y \<in> {0, 1}) labels \<and> list_all (\<lambda>p. fle (Fin 0) p \<and> fle p (Fin 1)) probabilities"
  by (auto simp: validate_labels_def list_all_iff list_ex_iff)

text \<open>C37: A reliability diagram partitions its samples. For valid labels and probabilities and at least one bin it is
  built without an error; its rows are the non-empty bins in order; every probability between 0 and 1, the
  boundaries and rounded bin edges included, lies in exactly one bin, so that the counts of the rows add up to
  the number of samples and the weights of the expected calibration error cover each sample once.\<close>

theorem diagram_partitions:
  assumes "validate_labels labels probabilities = Inr ()" "1 \<le> bins"
  shows "\<exists>rows. reliability_diagram labels probabilities bins = Inr rows \<and> sorted_wrt (<) (map bn_bin rows) \<and>
    list_all (\<lambda>r. bn_bin r < nat bins \<and> 0 < bn_count r) rows \<and> sum_list (map bn_count rows) = length labels \<and>
    (\<forall>p\<in>set probabilities. \<exists>!i. i < nat bins \<and> in_bin (nat bins) i p)"
proof -
  let ?m = "bin_members labels probabilities (nat bins)"
  let ?is = "filter (\<lambda>i. ?m i \<noteq> []) [0..<nat bins]"
  have bins: "0 < nat bins" using assms(2) by simp
  have one: "\<exists>!i. i < nat bins \<and> in_bin (nat bins) i p" if "p \<in> set probabilities" for p
    using one_bin[OF _ _ bins] assms(1) that by (auto simp: validated list_all_iff)
  obtain rows where rows: "map_result (\<lambda>i. bin_row_of i (?m i)) ?is = Inr rows" "map bn_bin rows = ?is"
    "map bn_count rows = map (\<lambda>i. length (?m i)) ?is"
    using rows_built[of ?is ?m] by auto
  have "sum_list (map bn_count rows) = sum_list (map (\<lambda>i. length (?m i)) [0..<nat bins])"
    unfolding rows(3) by (rule filtered_counts) simp
  also have "\<dots> = (\<Sum>i<nat bins. length (?m i))"
    by (simp add: interv_sum_list_conv_sum_set_nat atLeast0LessThan)
  also have "\<dots> = length (zip labels probabilities)"
    unfolding bin_members_def
  proof (rule count_partition, rule ballI)
    fix x assume "x \<in> set (zip labels probabilities)"
    then have "snd x \<in> set probabilities" by (metis prod.collapse set_zip_rightD)
    from one[OF this] show "\<exists>!i. i < nat bins \<and> (case x of (y, p) \<Rightarrow> in_bin (nat bins) i p)" by (simp add: case_prod_beta)
  qed
  finally have sum: "sum_list (map bn_count rows) = length labels" using assms(1) by (simp add: validated)
  have "list_all (\<lambda>r. bn_bin r < nat bins \<and> 0 < bn_count r) rows"
    unfolding list_all_length
  proof (intro allI impI)
    fix n assume n: "n < length rows"
    then have len: "n < length ?is" using arg_cong[OF rows(2), of length] by simp
    have "bn_bin (rows ! n) = ?is ! n" "bn_count (rows ! n) = length (?m (?is ! n))"
      using arg_cong[OF rows(2), of "\<lambda>xs. xs ! n"] arg_cong[OF rows(3), of "\<lambda>xs. xs ! n"] n len by simp_all
    moreover have "?is ! n \<in> set ?is" using len by (rule nth_mem)
    ultimately show "bn_bin (rows ! n) < nat bins \<and> 0 < bn_count (rows ! n)" by auto
  qed
  moreover have "sorted_wrt (<) (map bn_bin rows)" unfolding rows(2) by (rule sorted_wrt_filter) simp
  moreover have "reliability_diagram labels probabilities bins = Inr rows"
    using assms rows(1) by (simp add: reliability_diagram_def)
  ultimately show ?thesis using sum one by blast
qed

lemma diagram_partitions_witness:
  "\<exists>rows. reliability_diagram [0, 1, 1] [Fin 0, Fin (1/2), Fin 1] 2 = Inr rows \<and> sum_list (map bn_count rows) = 3"
proof -
  have "validate_labels [0, 1, 1] [Fin 0, Fin (1/2), Fin 1] = Inr ()" by code_simp
  from diagram_partitions[OF this, of 2] show ?thesis by auto
qed

section \<open>Recommendations\<close>

text \<open>A proposal to abstain is softened to a review when only the disagreement is too high.\<close>

lemma abstention_softened:
  "sl_decision (selective_decision ''ABSTAIN'' (Fin 1) (Some (Fin 1)) (Fin 1) [] CALIBRATED_INTERNAL) = ''REVIEW''"
  by code_simp

lemma selective_unchanged:
  "sl_decision (selective_decision proposed coverage reliability disagreement policy calibration) = proposed \<or>
   sl_decision (selective_decision proposed coverage reliability disagreement policy calibration) \<in> {''REVIEW'', ''ABSTAIN''}"
  by (simp add: selective_decision_def Let_def)

lemma uncalibrated_abstains:
  "sl_decision (selective_decision proposed coverage reliability disagreement policy UNCALIBRATED) = ''ABSTAIN''"
  by (simp add: selective_decision_def selective_failures_def reliability_failures_def withholding_def Let_def)

text \<open>A metric that is NaN passes every limit of the promotion gate.\<close>

definition gate_metrics :: "pyfloat \<Rightarrow> pyfloat \<Rightarrow> (string, pyfloat) dict" where
  "gate_metrics f1 x = map (\<lambda>k. (k, if k = ''f1'' then f1 else if k = ''calibration_error'' then x else Fin (1/2))) required_metrics"

lemma unknown_calibration_promoted:
  "recommendation_of (promotion_blockers ((''maximum_evidence_error'', Fin 1) # promotion_limits) (gate_metrics (Fin 0) (Fin 0)) (gate_metrics (Fin 1) NaN))
     (improves (gate_metrics (Fin 0) (Fin 0)) (gate_metrics (Fin 1) NaN)) = ''PROMOTE''"
  by code_simp

section \<open>The life cycle of a model\<close>

fun advance :: "(string \<times> string option) list \<Rightarrow> model_record \<Rightarrow> model_record result" where
  "advance [] r = Inr r"
| "advance ((target, validation) # steps) r = bind_result (transition_model r target validation) (advance steps)"

definition evidenced :: "string \<Rightarrow> (string \<times> string option) list \<Rightarrow> bool" where
  "evidenced target steps = (\<exists>v. v \<noteq> [] \<and> (target, Some v) \<in> set steps)"

definition lifecycle :: "(string \<times> string) list" where
  "lifecycle = [(''experimental'', ''validated''), (''experimental'', ''deprecated''), (''validated'', ''approved''),
     (''validated'', ''experimental''), (''validated'', ''deprecated''), (''approved'', ''deprecated'')]"

lemma validation_lookup: "dict_get validation_transitions st [] =
    (if st = ''experimental'' then [''validated'', ''deprecated''] else if st = ''validated'' then [''approved'', ''experimental'', ''deprecated'']
     else if st = ''approved'' then [''deprecated''] else [])"
  by (simp add: validation_transitions_def dict_get_def)

lemma transition_allowed: "target \<in> set (dict_get validation_transitions st []) \<Longrightarrow> (st, target) \<in> set lifecycle"
  unfolding validation_lookup lifecycle_def by (auto split: if_split_asm)

lemma transitioned:
  assumes "transition_model r target validation = Inr r'"
  shows "r' = r\<lparr>mo_validation_status := target, mo_deployment_state := target\<rparr>"
    "(mo_validation_status r, target) \<in> set lifecycle"
    "target \<in> set [''validated'', ''approved''] \<Longrightarrow> \<exists>v. validation = Some v \<and> v \<noteq> []"
proof -
  have *: "target \<in> set (dict_get validation_transitions (mo_validation_status r) [])"
    "\<not> (target \<in> set [''validated'', ''approved''] \<and> validation \<in> set [None, Some []])"
    "r' = r\<lparr>mo_validation_status := target, mo_deployment_state := target\<rparr>"
    using assms unfolding transition_model_def by (metis Inl_Inr_False Inr_inject)+
  show "r' = r\<lparr>mo_validation_status := target, mo_deployment_state := target\<rparr>" using *(3) .
  show "(mo_validation_status r, target) \<in> set lifecycle" using *(1) by (rule transition_allowed)
  show "\<exists>v. validation = Some v \<and> v \<noteq> []" if "target \<in> set [''validated'', ''approved'']"
    using *(2) that by (cases validation) auto
qed

lemma lifecycle_approval:
  "(st, ''approved'') \<in> set lifecycle \<Longrightarrow> st = ''validated''" "(''approved'', target) \<in> set lifecycle \<Longrightarrow> target = ''deprecated''"
  "(''deprecated'', target) \<notin> set lifecycle"
  by (simp_all add: lifecycle_def)

text \<open>A model is only ever approved with a validation record, after a validation with one.\<close>

lemma approved_evidenced:
  "advance steps r = Inr r' \<Longrightarrow> mo_validation_status r' = ''approved'' \<Longrightarrow>
     (mo_validation_status r = ''approved'' \<or> evidenced ''approved'' steps) \<and>
     (mo_validation_status r \<in> {''validated'', ''approved''} \<or> evidenced ''validated'' steps)"
proof (induction steps arbitrary: r)
  case (Cons a steps)
  obtain target validation where a: "a = (target, validation)" by fastforce
  obtain m where m: "transition_model r target validation = Inr m" "advance steps m = Inr r'"
    using Cons.prems(1) by (auto simp: a bind_result_Inr_iff)
  note t = transitioned[OF m(1)]
  have mono: "evidenced k steps \<Longrightarrow> evidenced k (a # steps)" for k by (auto simp: evidenced_def)
  have first: "target = k \<Longrightarrow> k \<in> {''validated'', ''approved''} \<Longrightarrow> evidenced k (a # steps)" for k
    using t(3) by (auto simp: a evidenced_def)
  have IH: "target = ''approved'' \<or> evidenced ''approved'' steps" "target \<in> {''validated'', ''approved''} \<or> evidenced ''validated'' steps"
    using Cons.IH[OF m(2) Cons.prems(2)] unfolding t(1) by simp_all
  have "evidenced ''approved'' (a # steps)" using IH(1) mono first by blast
  moreover have "mo_validation_status r = ''validated'' \<or> evidenced ''validated'' (a # steps)"
    using IH(2) mono first t(2) lifecycle_approval(1) by blast
  ultimately show ?case by blast
qed simp

end
