(* ===== verification/Oversight.thy ===== *)
theory Oversight
  imports Metrics Cases Rules
begin

text \<open>
  Monitoring of metrics and cases: key risk indicators (\<open>enterprise/policy.py\<close>), alerts (\<open>alerts.py\<close>), the portfolio
  of cases (\<open>portfolio.py\<close>) and stress scenarios (\<open>scenario.py\<close>).
\<close>

section \<open>Key risk indicators\<close>

datatype kri_status = Missing | Critical | Warning | Within

definition kri_text :: "kri_status \<Rightarrow> string" where
  "kri_text s = (case s of Missing \<Rightarrow> ''missing'' | Critical \<Rightarrow> ''critical'' | Warning \<Rightarrow> ''warning'' | Within \<Rightarrow> ''within_appetite'')"

definition hits :: "bool \<Rightarrow> pyfloat \<Rightarrow> pyfloat \<Rightarrow> bool" where
  "hits high value limit = (if high then fle limit value else fle value limit)"

text \<open>A limit is missing, a number, or something that does not compare with a number.\<close>

definition limit_hit :: "bool \<Rightarrow> pyfloat option \<Rightarrow> pyval \<Rightarrow> bool result" where
  "limit_hit high value limit = (case value of None \<Rightarrow> Inr False
     | Some v \<Rightarrow> if limit = VNone then Inr False
       else (case num limit of None \<Rightarrow> Inl (TypeError ''unorderable types'') | Some x \<Rightarrow> Inr (hits high v x)))"

record kri_row =
  kr_name :: string
  kr_value :: "pyfloat option"
  kr_status :: kri_status
  kr_policy_id :: string
  kr_policy_version :: int
  kr_direction :: string

definition kri_row_of :: "policy_version \<Rightarrow> (string, pyfloat option) dict \<Rightarrow> string \<Rightarrow> pyval \<Rightarrow> kri_row result" where
  "kri_row_of policy metrics name limits =
     (let value = dict_get metrics name None; direction = vget limits ''risk_direction'' in
      if \<not> is_dict limits then Inl (AttributeError ''object has no attribute get'')
      else bind_result (in_strings direction [''high'', ''low'']) (\<lambda>declared.
      if \<not> declared then Inl (ValueError (''KRI '' @ repr (VStr name) @ '' must declare risk_direction 'high' or 'low'' @ [CHR 0x27]))
      else bind_result (limit_hit (direction = VStr ''high'') value (vget limits ''critical'')) (\<lambda>critical.
        bind_result (limit_hit (direction = VStr ''high'') value (vget limits ''warning'')) (\<lambda>warning.
        Inr \<lparr>kr_name = name, kr_value = value,
          kr_status = (if value = None then Missing else if critical then Critical else if warning then Warning else Within),
          kr_policy_id = po_id policy, kr_policy_version = po_version policy, kr_direction = str_of direction\<rparr>))))"

definition evaluate_kri :: "policy_version \<Rightarrow> (string, pyfloat option) dict \<Rightarrow> kri_row list result" where
  "evaluate_kri policy metrics = map_result (\<lambda>(name, limits). kri_row_of policy metrics name limits) (items (po_thresholds policy))"

section \<open>Alerts\<close>

definition number_at :: "obj \<Rightarrow> string \<Rightarrow> int \<Rightarrow> pyfloat result" where
  "number_at d k fallback = (case num (dict_get d k (VInt fallback)) of Some x \<Rightarrow> Inr x | None \<Rightarrow> Inl (TypeError ''unsupported operand type(s)''))"

definition alert :: "string \<Rightarrow> string \<Rightarrow> pyval" where
  "alert kind severity = VDict [(''type'', VStr kind), (''severity'', VStr severity)]"

text \<open>Numbers are looked up only where the code compares them.\<close>

definition detect_alerts :: "obj \<Rightarrow> obj \<Rightarrow> pyval list result" where
  "detect_alerts current previous =
     bind_result (in_strings (get current ''tension'') [''Tension'', ''Material Contradiction'']) (\<lambda>tense.
     bind_result (if previous = [] then Inr False else bind_result (number_at current ''severity'' 0) (\<lambda>c.
       bind_result (number_at previous ''severity'' 0) (\<lambda>p. Inr (flt (fadd p (Fin 10)) c)))) (\<lambda>worse.
     bind_result (if previous = [] then Inr False else bind_result (number_at current ''confidence'' 1) (\<lambda>c.
       bind_result (number_at previous ''confidence'' 1) (\<lambda>p. Inr (flt c (fsub p (lit 15 100)))))) (\<lambda>dropped.
     bind_result (if previous \<noteq> [] then Inr False else bind_result (number_at current ''severity'' 0) (\<lambda>c. Inr (fle (Fin 60) c))) (\<lambda>fresh.
     Inr ((if truthy (get current ''limit_breached'') then [alert ''LIMIT_BREACHED'' ''critical''] else []) @
       (if tense then [alert ''DISCLOSURE_TENSION'' ''high''] else []) @
       (if worse then [alert ''RISK_WORSENING'' ''high''] else []) @ (if dropped then [alert ''CONFIDENCE_DROPPED'' ''warning''] else []) @
       (if fresh then [alert ''NEW_RISK'' ''high''] else []))))))"

section \<open>Portfolio\<close>

definition severity_ranks :: "(string \<times> nat) list" where
  "severity_ranks = [(''very_low'', 10), (''low'', 20), (''moderate'', 40), (''high'', 60), (''critical'', 80)]"

definition case_rank :: "risk_case \<Rightarrow> nat" where
  "case_rank c = dict_get severity_ranks (rc_severity c) 0"

definition is_open :: "risk_case \<Rightarrow> bool" where
  "is_open c = (rc_status c \<notin> set [RESOLVED, CLOSED])"

text \<open>\<open>dict(Counter(...))\<close>: counts in the order of first occurrence.\<close>

definition counter :: "string list \<Rightarrow> (string \<times> nat) list" where
  "counter ks = map (\<lambda>k. (k, count_list ks k)) (rev (remdups (rev ks)))"

text \<open>A stable sort with \<open>reverse=True\<close> keeps the order of equal ranks.\<close>

definition ranked_cases :: "risk_case list \<Rightarrow> risk_case list" where
  "ranked_cases cases = sort_key (\<lambda>c. 80 - case_rank c) (filter is_open cases)"

definition portfolio_overview :: "risk_case list \<Rightarrow> pyval" where
  "portfolio_overview cases = VDict [(''case_count'', vnat (length cases)), (''open_case_count'', vnat (length (filter is_open cases))),
     (''critical_open_count'', vnat (length (filter (\<lambda>c. rc_severity c = ''critical'') (filter is_open cases)))),
     (''by_domain'', VDict (map (\<lambda>(k, n). (k, vnat n)) (counter (map (domain_value \<circ> rc_domain) (filter is_open cases))))),
     (''by_status'', VDict (map (\<lambda>(k, n). (k, vnat n)) (counter (map (case_status_value \<circ> rc_status) cases)))),
     (''top_risks'', VList (map case_to_dict (take 10 (ranked_cases cases))))]"

section \<open>Scenarios\<close>

record scenario =
  sc_name :: string
  sc_revenue_pct :: pyfloat
  sc_margin_pp :: pyfloat
  sc_interest_rate_bp :: pyfloat
  sc_cfo_pct :: pyfloat
  sc_receivable_days_pct :: pyfloat
  sc_inventory_days_pct :: pyfloat
  sc_refinancing_cost_pct :: pyfloat
  sc_debt_pct :: pyfloat
  sc_fx_pct :: pyfloat

text \<open>\<open>if key in stressed: stressed[key] = f(stressed[key])\<close>; arithmetic on a missing value raises.\<close>

definition stress :: "string \<Rightarrow> (pyfloat \<Rightarrow> pyfloat) \<Rightarrow> amounts \<Rightarrow> amounts result" where
  "stress k f d = (case map_of d k of None \<Rightarrow> Inr d
     | Some None \<Rightarrow> Inl (TypeError ''unsupported operand type(s)'')
     | Some (Some x) \<Rightarrow> Inr (AList.update k (Some (f x)) d))"

definition grow :: "pyfloat \<Rightarrow> pyfloat \<Rightarrow> pyfloat" where
  "grow pct x = fmul x (fadd (Fin 1) pct)"

fun stress_all :: "(string \<times> (pyfloat \<Rightarrow> pyfloat)) list \<Rightarrow> amounts \<Rightarrow> amounts result" where
  "stress_all [] d = Inr d"
| "stress_all ((k, f) # fs) d = bind_result (stress k f d) (stress_all fs)"

definition with_total_debt :: "amounts \<Rightarrow> amounts" where
  "with_total_debt v = (let (debt, parents) = resolve_total_debt v in
     if debt \<noteq> None \<and> parents \<noteq> [''total_debt''] then AList.update ''total_debt'' debt v else v)"

definition interest_stress :: "scenario \<Rightarrow> pyfloat \<Rightarrow> pyfloat \<Rightarrow> pyfloat" where
  "interest_stress s debt x = fadd x (fadd (case fdiv (fmul debt (sc_interest_rate_bp s)) (Fin 10000) of Some y \<Rightarrow> y | None \<Rightarrow> NaN)
     (fmul debt (sc_refinancing_cost_pct s)))"

definition stress_interest :: "scenario \<Rightarrow> pyfloat option \<Rightarrow> amounts \<Rightarrow> amounts result" where
  "stress_interest s debt d =
     (if has_key d ''interest_expense'' \<and> debt = None \<and> (\<not> feq (sc_interest_rate_bp s) (Fin 0) \<or> \<not> feq (sc_refinancing_cost_pct s) (Fin 0))
      then Inl (ValueError ''total_debt is required for debt-cost stress'')
      else stress ''interest_expense'' (interest_stress s (case debt of None \<Rightarrow> Fin 0 | Some x \<Rightarrow> x)) d)"

text \<open>The margin is a share of the stressed revenue.\<close>

definition apply_scenario :: "amounts \<Rightarrow> scenario \<Rightarrow> amounts result" where
  "apply_scenario v s =
     bind_result (stress ''revenue'' (\<lambda>x. fmul x (fadd (fadd (Fin 1) (sc_revenue_pct s)) (sc_fx_pct s))) (with_total_debt v)) (\<lambda>d.
     let shock = fmul (case val d ''revenue'' of None \<Rightarrow> Fin 0 | Some x \<Rightarrow> x) (sc_margin_pp s) in
     bind_result (stress_all [(''gross_profit'', \<lambda>x. fadd x shock), (''operating_income'', \<lambda>x. fadd x shock)] d) (\<lambda>d.
     bind_result (stress_interest s (fst (resolve_total_debt v)) d) (\<lambda>d.
     stress_all [(''operating_cash_flow'', grow (sc_cfo_pct s)), (''short_term_debt'', grow (sc_debt_pct s)),
       (''long_term_debt'', grow (sc_debt_pct s)), (''total_debt'', grow (sc_debt_pct s)),
       (''accounts_receivable'', grow (sc_receivable_days_pct s)), (''inventory'', grow (sc_inventory_days_pct s))] d)))"

definition scenario_to_dict :: "scenario \<Rightarrow> pyval" where
  "scenario_to_dict s = VDict [(''name'', VStr (sc_name s)), (''revenue_pct'', VFloat (sc_revenue_pct s)), (''margin_pp'', VFloat (sc_margin_pp s)),
     (''interest_rate_bp'', VFloat (sc_interest_rate_bp s)), (''cfo_pct'', VFloat (sc_cfo_pct s)),
     (''receivable_days_pct'', VFloat (sc_receivable_days_pct s)), (''inventory_days_pct'', VFloat (sc_inventory_days_pct s)),
     (''refinancing_cost_pct'', VFloat (sc_refinancing_cost_pct s)), (''debt_pct'', VFloat (sc_debt_pct s)), (''fx_pct'', VFloat (sc_fx_pct s))]"

text \<open>\<open>a != b\<close> for optional numbers.\<close>

definition differs :: "pyfloat option \<Rightarrow> pyfloat option \<Rightarrow> bool" where
  "differs a b = (case (a, b) of (None, None) \<Rightarrow> False | (Some x, Some y) \<Rightarrow> \<not> feq x y | _ \<Rightarrow> True)"

definition metric_change :: "(string, metric) dict \<Rightarrow> string \<times> metric \<Rightarrow> (string \<times> pyval) option result" where
  "metric_change stressed = (\<lambda>(k, m). case map_of stressed k of None \<Rightarrow> Inl (KeyError k)
     | Some m' \<Rightarrow> Inr (if differs (me_value m) (me_value m') then Some (k, VDict [(''baseline'', vopt VFloat (me_value m)),
         (''stressed'', vopt VFloat (me_value m')), (''formula'', VStr (me_formula m))]) else None))"

definition compare_scenario :: "amounts \<Rightarrow> int \<Rightarrow> scenario \<Rightarrow> pyval result" where
  "compare_scenario v year s = bind_result (apply_scenario v s) (\<lambda>stressed.
     bind_result (map_result (metric_change (calculate_metrics stressed year [])) (calculate_metrics v year [])) (\<lambda>changes.
     Inr (VDict [(''scenario'', scenario_to_dict s), (''stressed_values'', VDict (map (\<lambda>(k, x). (k, vopt VFloat x)) stressed)),
       (''metric_changes'', VDict (List.map_filter id changes)), (''calculation_mode'', VStr ''deterministic'')])))"

section \<open>What they guarantee\<close>

definition kri_level :: "kri_status \<Rightarrow> nat" where
  "kri_level s = (case s of Missing \<Rightarrow> 0 | Within \<Rightarrow> 1 | Warning \<Rightarrow> 2 | Critical \<Rightarrow> 3)"

definition limits_ok :: "pyval \<Rightarrow> bool" where
  "limits_ok limits = (is_dict limits \<and> vget limits ''risk_direction'' \<in> set [VStr ''high'', VStr ''low''] \<and>
     list_all (\<lambda>k. vget limits k = VNone \<or> num (vget limits k) \<noteq> None) [''critical'', ''warning''])"

definition reached :: "pyval \<Rightarrow> string \<Rightarrow> pyfloat \<Rightarrow> bool" where
  "reached limits k v = (case num (vget limits k) of None \<Rightarrow> False | Some x \<Rightarrow> hits (vget limits ''risk_direction'' = VStr ''high'') v x)"

lemma limit_reached: "vget limits k = VNone \<or> num (vget limits k) \<noteq> None \<Longrightarrow>
    limit_hit (vget limits ''risk_direction'' = VStr ''high'') (Some v) (vget limits k) = Inr (reached limits k v)"
  by (auto simp: limit_hit_def reached_def)

lemma limits_declared: "limits_ok limits \<Longrightarrow> in_strings (vget limits ''risk_direction'') [''high'', ''low''] = Inr True"
  by (auto simp: limits_ok_def in_strings_def unhashable_def)

text \<open>A known value gets the worst status whose limit it reaches, a missing one is reported as missing.\<close>

lemma kri_status_exact:
  assumes "limits_ok limits"
  shows "\<exists>r. kri_row_of policy metrics name limits = Inr r \<and> kr_name r = name \<and> kr_value r = dict_get metrics name None \<and>
    kr_status r = (case dict_get metrics name None of None \<Rightarrow> Missing
      | Some v \<Rightarrow> if reached limits ''critical'' v then Critical else if reached limits ''warning'' v then Warning else Within)"
proof (cases "dict_get metrics name None")
  case None
  then show ?thesis using assms limits_declared[OF assms] by (simp add: kri_row_of_def Let_def limits_ok_def limit_hit_def)
next
  case (Some v)
  then show ?thesis using assms limits_declared[OF assms] by (simp add: kri_row_of_def Let_def limits_ok_def limit_reached)
qed

lemma reached_mono:
  assumes "reached limits k v" "hits (vget limits ''risk_direction'' = VStr ''high'') w v"
  shows "reached limits k w"
  using assms fle_trans by (auto simp: reached_def hits_def split: option.splits if_splits)

text \<open>A worse value never improves the status.\<close>

lemma kri_monotone:
  assumes "limits_ok limits" "kri_row_of policy [(name, Some v)] name limits = Inr r" "kri_row_of policy [(name, Some w)] name limits = Inr r'"
    "hits (vget limits ''risk_direction'' = VStr ''high'') w v"
  shows "kri_level (kr_status r) \<le> kri_level (kr_status r')"
  using kri_status_exact[OF assms(1), of policy "[(name, Some v)]" name] kri_status_exact[OF assms(1), of policy "[(name, Some w)]" name]
    assms(2,3) reached_mono[OF _ assms(4)] by (auto simp: kri_level_def dict_get_def)

lemma counter_total: "sum_list (map snd (counter ks)) = length ks"
proof -
  have "sum_list (map snd (counter ks)) = (\<Sum>k\<in>set ks. count_list ks k)"
    by (simp add: counter_def comp_def sum_list_distinct_conv_sum_set)
  then show ?thesis by (simp add: sum_count_set)
qed

lemma rank_bound: "case_rank c \<le> 80"
  by (simp add: case_rank_def severity_ranks_def dict_get_def)

text \<open>The top risks are open cases, and no open case outside of them is more severe.\<close>

lemma top_risks:
  assumes "c \<in> set (take 10 (ranked_cases cases))" "d \<in> set (drop 10 (ranked_cases cases))"
  shows "is_open c \<and> is_open d \<and> case_rank d \<le> case_rank c"
proof -
  let ?r = "ranked_cases cases"
  have opened: "is_open x" if "x \<in> set ?r" for x using that by (simp add: ranked_cases_def)
  let ?f = "\<lambda>c. 80 - case_rank c"
  have "sorted (map ?f ?r)" by (simp add: ranked_cases_def)
  moreover have "map ?f ?r = map ?f (take 10 ?r) @ map ?f (drop 10 ?r)" by (metis append_take_drop_id map_append)
  ultimately have "sorted (map ?f (take 10 ?r) @ map ?f (drop 10 ?r))" by metis
  then have "80 - case_rank c \<le> 80 - case_rank d" using assms unfolding sorted_append by auto
  moreover have "case_rank c \<le> 80" "case_rank d \<le> 80" by (rule rank_bound)+
  ultimately show ?thesis using opened[of c] opened[of d] assms by (auto dest: in_set_takeD in_set_dropD)
qed

text \<open>A scenario changes values but adds no position besides the total debt it computed.\<close>

lemma stress_keys: "stress k f d = Inr d' \<Longrightarrow> fst ` set d' = fst ` set d"
proof (cases "map_of d k")
  case (Some y)
  assume "stress k f d = Inr d'"
  then obtain x where "d' = AList.update k x d" using Some by (auto simp: stress_def split: option.splits)
  moreover have "k \<in> fst ` set d" using Some by (metis map_of_eq_None_iff option.distinct(1))
  ultimately show ?thesis by (metis image_set insert_absorb keys_update)
qed (simp add: stress_def)

end
