(* ===== verification/Xbrl.thy ===== *)
theory Xbrl
  imports Rules Decision "HOL-Library.Product_Lexorder"
begin

text \<open>
  Structured financial facts (\<open>xbrl.py\<close>): the selection of annual values from the companyfacts of the SEC and
  their reconciliation with the values of a document. Every level of a payload may hold anything. Only the last
  element of a sorted list is used: it is the latest maximum, and sorting raises when two keys do not compare.
\<close>

section \<open>Values\<close>

record financial_value =
  fv_line_item :: string
  fv_value :: "pyfloat option"
  fv_fiscal_year :: int
  fv_statement :: string
  fv_unit :: string
  fv_currency :: string
  fv_document :: string
  fv_page :: int
  fv_source_text :: string
  fv_confidence :: pyfloat
  fv_restated :: bool
  fv_source_type :: string
  fv_taxonomy :: "string option"
  fv_concept :: "string option"
  fv_accession :: "string option"
  fv_filed_at :: pyval
  fv_period_start :: pyval
  fv_period_end :: pyval
  fv_original_unit :: "string option"
  fv_provenance_url :: "string option"

definition concepts :: "(string \<times> string list) list" where
  "concepts = [
    (''cash'', [''CashAndCashEquivalentsAtCarryingValue'', ''CashCashEquivalentsRestrictedCashAndRestrictedCashEquivalents'']),
    (''accounts_receivable'', [''AccountsReceivableNetCurrent'', ''AccountsNotesAndLoansReceivableNetCurrent'']),
    (''inventory'', [''InventoryNet'']), (''current_assets'', [''AssetsCurrent'']), (''total_assets'', [''Assets'']),
    (''accounts_payable'', [''AccountsPayableCurrent'']), (''current_liabilities'', [''LiabilitiesCurrent'']),
    (''short_term_debt'', [''ShortTermBorrowings'', ''ShortTermDebtCurrent'', ''LongTermDebtCurrent'']),
    (''long_term_debt'', [''LongTermDebtNoncurrent'']),
    (''total_debt'', [''LongTermDebtAndFinanceLeaseObligations'', ''LongTermDebt'']), (''total_liabilities'', [''Liabilities'']),
    (''shareholder_equity'', [''StockholdersEquity'', ''StockholdersEquityIncludingPortionAttributableToNoncontrollingInterest'']),
    (''retained_earnings'', [''RetainedEarningsAccumulatedDeficit'']),
    (''revenue'', [''RevenueFromContractWithCustomerExcludingAssessedTax'', ''SalesRevenueNet'', ''Revenues'']),
    (''gross_profit'', [''GrossProfit'']), (''operating_income'', [''OperatingIncomeLoss'']),
    (''interest_expense'', [''InterestExpenseNonOperating'', ''InterestAndDebtExpense'']),
    (''pretax_income'', [''IncomeLossFromContinuingOperationsBeforeIncomeTaxesExtraordinaryItemsNoncontrollingInterest'']),
    (''net_income'', [''NetIncomeLoss'', ''ProfitLoss'']), (''operating_cash_flow'', [''NetCashProvidedByUsedInOperatingActivities'']),
    (''capital_expenditure'', [''PaymentsToAcquirePropertyPlantAndEquipment'']),
    (''investing_cash_flow'', [''NetCashProvidedByUsedInInvestingActivities'']),
    (''financing_cash_flow'', [''NetCashProvidedByUsedInFinancingActivities''])]"

definition instant_items :: "string list" where
  "instant_items = [''cash'', ''accounts_receivable'', ''inventory'', ''current_assets'', ''total_assets'', ''accounts_payable'',
     ''current_liabilities'', ''short_term_debt'', ''long_term_debt'', ''total_debt'', ''total_liabilities'', ''shareholder_equity'',
     ''retained_earnings'']"

section \<open>Annual candidates\<close>

text \<open>The year of a date, as the calendar module computes it from the ordinal.\<close>

definition year_of_ordinal :: "int \<Rightarrow> int" where
  "year_of_ordinal ordinal = (let n = ordinal - 1; n400 = n div 146097; n = n mod 146097; n100 = n div 36524; n = n mod 36524;
     n4 = n div 1461; n = n mod 1461; n1 = n div 365; year = n400 * 400 + 1 + n100 * 100 + n4 * 4 + n1
     in if n1 = 4 \<or> n100 = 4 then year - 1 else year)"

text \<open>\<open>date.fromisoformat(str(item[key]))\<close>, or nothing where it raises.\<close>

definition date_at :: "pyval \<Rightarrow> string \<Rightarrow> int option" where
  "date_at item k = (case map_of (items item) k of None \<Rightarrow> None | Some v \<Rightarrow> date_of_iso (py_str v))"

definition annual_forms :: "string list" where
  "annual_forms = [''10-K'', ''10-K/A'', ''20-F'', ''20-F/A'']"

definition in_fiscal_year :: "pyval \<Rightarrow> int \<Rightarrow> bool \<Rightarrow> bool" where
  "in_fiscal_year item year instant = (case date_at item ''end'' of None \<Rightarrow> False
     | Some e \<Rightarrow> year_of_ordinal e = year \<and> (instant \<or> (case date_at item ''start'' of None \<Rightarrow> False
         | Some s \<Rightarrow> 300 \<le> e - s \<and> e - s \<le> 380)))"

definition annual_candidate :: "int \<Rightarrow> bool \<Rightarrow> pyval \<Rightarrow> bool result" where
  "annual_candidate year instant item =
     (if \<not> is_dict item then Inl (AttributeError ''object has no attribute get'')
      else bind_result (in_strings (vget item ''form'') annual_forms) (\<lambda>annual.
        if \<not> annual \<or> \<not> veq (vget item ''fy'') (VInt year) then Inr False
        else bind_result (if instant \<or> vget item ''fp'' = VNone then Inr True else in_strings (vget item ''fp'') [''FY'']) (\<lambda>full.
          Inr (full \<and> in_fiscal_year item year instant))))"

fun filter_result :: "('a \<Rightarrow> bool result) \<Rightarrow> 'a list \<Rightarrow> 'a list result" where
  "filter_result P [] = Inr []"
| "filter_result P (x # xs) = bind_result (P x) (\<lambda>b. bind_result (filter_result P xs) (\<lambda>ys. Inr (if b then x # ys else ys)))"

definition annual_candidates :: "pyval list \<Rightarrow> int \<Rightarrow> bool \<Rightarrow> pyval list result" where
  "annual_candidates entries year instant = filter_result (annual_candidate year instant) entries"

section \<open>The latest candidate\<close>

text \<open>\<open>a < b\<close> on values and on tuples of values.\<close>

fun value_less :: "pyval \<Rightarrow> pyval \<Rightarrow> bool result" and tuple_less :: "pyval list \<Rightarrow> pyval list \<Rightarrow> bool result" where
  "value_less (VList xs) w = (case w of VList ys \<Rightarrow> tuple_less xs ys | _ \<Rightarrow> py_less (VList xs) w)"
| "value_less v w = py_less v w"
| "tuple_less [] ys = Inr (ys \<noteq> [])"
| "tuple_less (x # xs) ys = (case ys of [] \<Rightarrow> Inr False | y # ys' \<Rightarrow> if veq x y then tuple_less xs ys' else value_less x y)"

definition filing_key :: "pyval \<Rightarrow> pyval list" where
  "filing_key item = [vget_or item ''filed'' (VStr []), vget_or item ''accn'' (VStr [])]"

definition sortable :: "pyval list \<Rightarrow> bool" where
  "sortable entries = list_all (\<lambda>x. list_all (\<lambda>y. is_ok (tuple_less (filing_key x) (filing_key y))) entries) entries"

text \<open>The last element of a stable sort by the key.\<close>

definition newer :: "pyval \<Rightarrow> pyval \<Rightarrow> pyval" where
  "newer best x = (if tuple_less (filing_key x) (filing_key best) = Inr True then best else x)"

definition latest_entry :: "pyval list \<Rightarrow> pyval result" where
  "latest_entry entries = (if sortable entries then Inr (foldl newer (hd entries) (tl entries))
     else Inl (TypeError ''not supported between instances''))"

record selection =
  sel_taxonomy :: string
  sel_concept :: string
  sel_unit :: string
  sel_item :: pyval
  sel_candidates :: "pyval list"

definition selection_key :: "selection \<Rightarrow> pyval list" where
  "selection_key s = VBool (sel_unit s = ''USD'') # filing_key (sel_item s)"

definition better :: "selection option \<Rightarrow> selection \<Rightarrow> selection option result" where
  "better best s = (case best of None \<Rightarrow> Inr (Some s)
     | Some b \<Rightarrow> bind_result (tuple_less (selection_key b) (selection_key s)) (\<lambda>less. Inr (Some (if less then s else b))))"

text \<open>The lists of entries under the names of a line item, in the order of the loops.\<close>

definition units_of :: "pyval \<Rightarrow> obj" where
  "units_of concept = items (vget concept ''units'')"

definition entry_lists :: "pyval \<Rightarrow> string list \<Rightarrow> string list \<Rightarrow> (string \<times> string \<times> string \<times> pyval list) list" where
  "entry_lists facts taxonomies names = concat (map (\<lambda>t. concat (map (\<lambda>c.
     (case map_of (items (vget facts t)) c of Some (VDict d) \<Rightarrow>
        map (\<lambda>(u, v). (t, c, u, elems v)) (filter (\<lambda>(u, v). is_list v) (units_of (VDict d))) | _ \<Rightarrow> []))
     names)) taxonomies)"

fun select_entry :: "int \<Rightarrow> bool \<Rightarrow> (string \<times> string \<times> string \<times> pyval list) list \<Rightarrow> selection option \<Rightarrow> selection option result" where
  "select_entry year instant [] best = Inr best"
| "select_entry year instant ((t, c, u, entries) # rest) best =
     bind_result (annual_candidates entries year instant) (\<lambda>found.
     bind_result (case found of [] \<Rightarrow> Inr best | _ # _ \<Rightarrow> bind_result (latest_entry found) (\<lambda>item.
       better best \<lparr>sel_taxonomy = t, sel_concept = c, sel_unit = u, sel_item = item, sel_candidates = found\<rparr>))
     (select_entry year instant rest))"

section \<open>Normalised values\<close>

text \<open>\<open>_numeric_value\<close>: an overflow is not caught.\<close>

definition numeric_value :: "pyval \<Rightarrow> pyfloat option result" where
  "numeric_value item = (case map_of (items item) ''val'' of None \<Rightarrow> Inr None
     | Some v \<Rightarrow> (case py_float v of Inr x \<Rightarrow> Inr (if is_finite x then Some x else None)
         | Inl (OverflowError e) \<Rightarrow> Inl (OverflowError e) | Inl _ \<Rightarrow> Inr None))"

text \<open>\<open>len({...})\<close> on hashable values.\<close>

fun distinct_count :: "pyval list \<Rightarrow> nat" where
  "distinct_count [] = 0"
| "distinct_count (v # vs) = (if list_ex (veq v) vs then distinct_count vs else Suc (distinct_count vs))"

definition restated_values :: "pyval list \<Rightarrow> bool result" where
  "restated_values found = (let vs = map (\<lambda>c. vget c ''val'') found in
     if list_ex unhashable vs then Inl (TypeError ''unhashable type'') else Inr (1 < distinct_count vs))"

definition sec_archives :: string where
  "sec_archives = ''https://www.sec.gov/Archives/edgar/data''"

definition filing_url :: "pyval \<Rightarrow> string \<Rightarrow> string option" where
  "filing_url payload accession = (if accession = [] then None else Some (sec_archives @ ''/'' @
     dropWhile (\<lambda>c. c = CHR ''0'') (py_str (vget_or payload ''cik'' (VStr []))) @ ''/'' @ filter (\<lambda>c. c \<noteq> CHR ''-'') accession @ ''/''))"

definition value_of :: "pyval \<Rightarrow> int \<Rightarrow> string \<Rightarrow> selection \<Rightarrow> pyfloat \<Rightarrow> financial_value result" where
  "value_of payload year line_item s x = (let item = sel_item s in
     bind_result (restated_values (sel_candidates s)) (\<lambda>restated.
     case vget_or item ''accn'' (VStr []) of VStr accession \<Rightarrow>
       Inr \<lparr>fv_line_item = line_item, fv_value = Some x, fv_fiscal_year = year, fv_statement = ''xbrl'',
         fv_unit = (if sel_unit s \<noteq> ''shares'' then ''currency'' else ''shares''),
         fv_currency = (if length (sel_unit s) = 3 then sel_unit s else ''USD''),
         fv_document = ''SEC '' @ py_str (vget_or item ''form'' (VStr ''filing'')) @ '' '' @ accession, fv_page = 0,
         fv_source_text = sel_taxonomy s @ '':'' @ sel_concept s @ ''='' @ py_str (vget item ''val'') @ '' '' @ sel_unit s,
         fv_confidence = lit 99 100, fv_restated = restated, fv_source_type = ''sec_xbrl'', fv_taxonomy = Some (sel_taxonomy s),
         fv_concept = Some (sel_concept s), fv_accession = Some accession, fv_filed_at = vget item ''filed'',
         fv_period_start = vget item ''start'', fv_period_end = vget item ''end'', fv_original_unit = Some (sel_unit s),
         fv_provenance_url = filing_url payload accession\<rparr>
     | _ \<Rightarrow> Inl (AttributeError ''object has no attribute replace'')))"

definition line_value :: "pyval \<Rightarrow> pyval \<Rightarrow> string list \<Rightarrow> int \<Rightarrow> string \<times> string list \<Rightarrow> financial_value option result" where
  "line_value payload facts taxonomies year = (\<lambda>(line_item, names).
     bind_result (select_entry year (line_item \<in> set instant_items) (entry_lists facts taxonomies names) None) (\<lambda>selected.
     case selected of None \<Rightarrow> Inr None
     | Some s \<Rightarrow> bind_result (numeric_value (sel_item s)) (\<lambda>v. case v of None \<Rightarrow> Inr None
         | Some x \<Rightarrow> bind_result (value_of payload year line_item s x) (\<lambda>value. Inr (Some value)))))"

text \<open>Total debt is added up only from parts of one filing, one period end and one unit.\<close>

definition same_filing :: "financial_value \<Rightarrow> financial_value \<Rightarrow> bool" where
  "same_filing a b = (fv_accession a = fv_accession b \<and> veq (fv_period_end a) (fv_period_end b) \<and> fv_original_unit a = fv_original_unit b)"

definition later_date :: "pyval \<Rightarrow> pyval \<Rightarrow> pyval result" where
  "later_date a b = (let x = por a (VStr []); y = por b (VStr []) in
     bind_result (value_less x y) (\<lambda>less. Inr (if less then y else x)))"

definition sum_values :: "pyfloat option \<Rightarrow> pyfloat option \<Rightarrow> pyfloat option" where
  "sum_values a b = (case (a, b) of (Some x, Some y) \<Rightarrow> Some (fadd x y) | _ \<Rightarrow> None)"

definition derived_debt :: "int \<Rightarrow> financial_value list \<Rightarrow> financial_value list result" where
  "derived_debt year values_of_year =
     (let by_item = (\<lambda>k. List.find (\<lambda>v. fv_line_item v = k) (rev values_of_year)) in
      case (by_item ''total_debt'', by_item ''short_term_debt'', by_item ''long_term_debt'') of
        (None, Some a, Some b) \<Rightarrow> if \<not> same_filing a b then Inr [] else
          bind_result (later_date (fv_filed_at a) (fv_filed_at b)) (\<lambda>filed. Inr [
            \<lparr>fv_line_item = ''total_debt'', fv_value = sum_values (fv_value a) (fv_value b), fv_fiscal_year = year, fv_statement = ''xbrl'',
             fv_unit = fv_unit a, fv_currency = fv_currency a, fv_document = fv_document a, fv_page = 0,
             fv_source_text = ''short_term_debt + long_term_debt'', fv_confidence = pymin (fv_confidence a) (fv_confidence b),
             fv_restated = (fv_restated a \<or> fv_restated b), fv_source_type = ''sec_xbrl_derived'', fv_taxonomy = None, fv_concept = None,
             fv_accession = fv_accession a, fv_filed_at = filed, fv_period_start = VNone,
             fv_period_end = fv_period_end a, fv_original_unit = fv_original_unit a, fv_provenance_url = fv_provenance_url a\<rparr>])
      | _ \<Rightarrow> Inr [])"

fun parse_years :: "pyval \<Rightarrow> pyval \<Rightarrow> string list \<Rightarrow> int list \<Rightarrow> financial_value list \<Rightarrow> financial_value list result" where
  "parse_years payload facts taxonomies [] out = Inr out"
| "parse_years payload facts taxonomies (year # years) out =
     bind_result (map_result (line_value payload facts taxonomies year) concepts) (\<lambda>found.
     let out = out @ List.map_filter id found in
     bind_result (derived_debt year (filter (\<lambda>v. fv_fiscal_year v = year) out)) (\<lambda>debt.
     parse_years payload facts taxonomies years (out @ debt)))"

text \<open>The years are those of any entry, unless some are asked for.\<close>

definition year_entry :: "pyval \<Rightarrow> int option" where
  "year_entry v = (case vget v ''fy'' of VInt i \<Rightarrow> Some i | VBool b \<Rightarrow> Some (if b then 1 else 0) | _ \<Rightarrow> None)"

definition available_years :: "pyval \<Rightarrow> string list \<Rightarrow> int list" where
  "available_years facts taxonomies = sorted_set (concat (map (\<lambda>t. concat (map (\<lambda>concept.
     concat (map (\<lambda>v. List.map_filter year_entry (elems v)) (map snd (units_of concept))))
     (map snd (items (vget facts t))))) taxonomies))"

definition taxonomies_of :: "pyval \<Rightarrow> string list" where
  "taxonomies_of facts = filter (has_key (items facts)) [''us-gaap'', ''ifrs-full'']"

definition years_of :: "pyval \<Rightarrow> int list \<Rightarrow> int list" where
  "years_of facts fiscal_years = (if fiscal_years \<noteq> [] then fiscal_years else available_years facts (taxonomies_of facts))"

definition parse_companyfacts :: "pyval \<Rightarrow> int list \<Rightarrow> financial_value list result" where
  "parse_companyfacts payload fiscal_years = (let facts = vget_or payload ''facts'' (VDict []) in
     if \<not> is_dict facts then Inr []
     else parse_years payload facts (taxonomies_of facts) (years_of facts fiscal_years) [])"

section \<open>Values of several sources\<close>

definition values_by_year :: "financial_value list \<Rightarrow> (int, (string, pyfloat) dict) dict" where
  "values_by_year vs = foldl (\<lambda>d v. case fv_value v of None \<Rightarrow> d
     | Some x \<Rightarrow> AList.update (fv_fiscal_year v) (AList.update (fv_line_item v) x (dict_get d (fv_fiscal_year v) [])) d) [] vs"

record reconciliation =
  rn_line_item :: string
  rn_fiscal_year :: int
  rn_status :: string
  rn_authoritative_source :: string
  rn_xbrl_value :: "pyfloat option"
  rn_document_value :: "pyfloat option"
  rn_absolute_difference :: "pyfloat option"
  rn_relative_difference :: "pyfloat option"
  rn_explanation :: string
  rn_xbrl_provenance :: "financial_value option"
  rn_document_provenance :: "financial_value option"

definition fact_key :: "financial_value \<Rightarrow> string \<times> int" where
  "fact_key v = (fv_line_item v, fv_fiscal_year v)"

definition fact_at :: "financial_value list \<Rightarrow> string \<times> int \<Rightarrow> financial_value option" where
  "fact_at vs k = List.find (\<lambda>v. fact_key v = k) (rev vs)"

definition difference :: "financial_value \<Rightarrow> financial_value \<Rightarrow> pyfloat option" where
  "difference x d = (case (fv_value x, fv_value d) of (Some a, Some b) \<Rightarrow> Some (fabs (fsub a b)) | _ \<Rightarrow> None)"

definition relative_difference :: "financial_value \<Rightarrow> financial_value \<Rightarrow> pyfloat option" where
  "relative_difference x d = (case (difference x d, fv_value x) of
     (Some gap, Some a) \<Rightarrow> fdiv gap (pymax (fabs a) (Fin 1)) | _ \<Rightarrow> None)"

definition single_source :: "string \<times> int \<Rightarrow> financial_value option \<Rightarrow> financial_value option \<Rightarrow> reconciliation" where
  "single_source k x d = \<lparr>rn_line_item = fst k, rn_fiscal_year = snd k, rn_status = ''single_source'',
     rn_authoritative_source = (if x \<noteq> None then ''xbrl'' else ''document''), rn_xbrl_value = Option.bind x fv_value,
     rn_document_value = Option.bind d fv_value, rn_absolute_difference = None, rn_relative_difference = None,
     rn_explanation = ''Only one source supplied this fact; uncertainty is retained.'', rn_xbrl_provenance = x, rn_document_provenance = d\<rparr>"

definition both_sources :: "pyfloat \<Rightarrow> string \<times> int \<Rightarrow> financial_value \<Rightarrow> financial_value \<Rightarrow> reconciliation" where
  "both_sources tolerance k x d = (let relative = relative_difference x d;
       matched = (case relative of None \<Rightarrow> False | Some r \<Rightarrow> fle r tolerance) in
     \<lparr>rn_line_item = fst k, rn_fiscal_year = snd k, rn_status = (if matched then ''matched'' else ''conflict''),
      rn_authoritative_source = ''xbrl'', rn_xbrl_value = fv_value x, rn_document_value = fv_value d,
      rn_absolute_difference = difference x d, rn_relative_difference = relative,
      rn_explanation = (if matched then ''Sources agree within configured tolerance.''
        else ''Sources disagree; XBRL remains authoritative and the document value is flagged for review.''),
      rn_xbrl_provenance = Some x, rn_document_provenance = Some d\<rparr>)"

definition reconcile_key :: "financial_value list \<Rightarrow> financial_value list \<Rightarrow> pyfloat \<Rightarrow> string \<times> int \<Rightarrow> reconciliation" where
  "reconcile_key xbrl document tolerance k = (case (fact_at xbrl k, fact_at document k) of
     (Some x, Some d) \<Rightarrow> both_sources tolerance k x d | (x, d) \<Rightarrow> single_source k x d)"

definition reconcile_sources :: "financial_value list \<Rightarrow> financial_value list \<Rightarrow> pyfloat \<Rightarrow> reconciliation list" where
  "reconcile_sources xbrl document tolerance = map (reconcile_key xbrl document tolerance) (sorted_set (map fact_key (xbrl @ document)))"

section \<open>Admissible payloads\<close>

text \<open>What companyfacts deliver: every entry is an object whose labels can be hashed, whose filing date and accession
  number are text where they are present, and whose value is no integer beyond the range of a float.\<close>

definition text_or_absent :: "pyval \<Rightarrow> string \<Rightarrow> bool" where
  "text_or_absent e k = (case map_of (items e) k of None \<Rightarrow> True | Some v \<Rightarrow> is_str v)"

definition entry_ok :: "pyval \<Rightarrow> bool" where
  "entry_ok e = (is_dict e \<and> \<not> list_ex (\<lambda>k. unhashable (vget e k)) [''form'', ''fp'', ''val''] \<and>
     text_or_absent e ''filed'' \<and> text_or_absent e ''accn'' \<and> is_ok (numeric_value e))"

definition facts_ok :: "pyval \<Rightarrow> bool" where
  "facts_ok facts = list_all (\<lambda>t. list_all (\<lambda>concept. list_all (\<lambda>v. list_all entry_ok (elems v)) (map snd (units_of concept)))
     (map snd (items (vget facts t)))) [''us-gaap'', ''ifrs-full'']"

definition rank :: "string \<Rightarrow> pyval \<Rightarrow> bool \<times> string \<times> string" where
  "rank u e = (u = ''USD'', str_of (vget_or e ''filed'' (VStr [])), str_of (vget_or e ''accn'' (VStr [])))"

definition admissible :: "int \<Rightarrow> bool \<Rightarrow> pyval \<Rightarrow> bool" where
  "admissible year instant e = (annual_candidate year instant e = Inr True)"

lemma text_key: "text_or_absent e k \<Longrightarrow> vget_or e k (VStr []) = VStr (str_of (vget_or e k (VStr [])))"
  by (auto simp: text_or_absent_def vget_or_def dict_get_def split: option.splits elim: is_str.elims)

lemma filing_key_ok: "entry_ok e \<Longrightarrow> filing_key e = [VStr (fst (snd (rank u e))), VStr (snd (snd (rank u e)))]"
  using text_key[of e "''filed''"] text_key[of e "''accn''"] by (simp add: entry_ok_def filing_key_def rank_def)

lemma text_less: "tuple_less [VStr a, VStr b] [VStr c, VStr d] = Inr ((a, b) < (c, d))"
  by (auto simp: py_less_def)

lemma keyed_less: "tuple_less [VBool p, VStr a, VStr b] [VBool q, VStr c, VStr d] = Inr ((p, a, b) < (q, c, d))"
  by (cases p; cases q) (auto simp: py_less_def feq_def flt_def)

lemma candidate_ok: "entry_ok e \<Longrightarrow> annual_candidate year instant e = Inr (admissible year instant e)"
  by (auto simp: admissible_def annual_candidate_def entry_ok_def in_strings_def)

lemma filter_result_ok: "\<forall>x\<in>set xs. P x = Inr (Q x) \<Longrightarrow> filter_result P xs = Inr (filter Q xs)"
  by (induction xs) auto

lemma candidates_ok: "list_all entry_ok es \<Longrightarrow> annual_candidates es year instant = Inr (filter (admissible year instant) es)"
  unfolding annual_candidates_def by (rule filter_result_ok) (simp add: list_all_iff candidate_ok)

lemma filing_key_less: "entry_ok a \<Longrightarrow> entry_ok b \<Longrightarrow> tuple_less (filing_key a) (filing_key b) = Inr (rank u a < rank u b)"
  by (simp add: filing_key_ok[of a u] filing_key_ok[of b u] text_less del: tuple_less.simps) (simp add: rank_def)

lemma sortable_ok: "list_all entry_ok es \<Longrightarrow> sortable es"
  by (simp add: sortable_def list_all_iff filing_key_less[where u = "[]"])

lemma newer_ok: "entry_ok a \<Longrightarrow> entry_ok b \<Longrightarrow> newer a b = (if rank u b < rank u a then a else b)"
  by (simp add: newer_def filing_key_less[where u = u])

lemma newest:
  assumes "entry_ok x" "list_all entry_ok xs"
  shows "foldl newer x xs \<in> set (x # xs) \<and> list_all (\<lambda>y. rank u y \<le> rank u (foldl newer x xs)) (x # xs)"
  using assms
proof (induction xs arbitrary: x)
  case (Cons y ys)
  let ?z = "newer x y"
  have z: "entry_ok ?z" "?z \<in> {x, y}" "rank u x \<le> rank u ?z" "rank u y \<le> rank u ?z"
    using Cons.prems newer_ok[of x y u] by auto
  have IH: "foldl newer ?z ys \<in> set (?z # ys)" "rank u ?z \<le> rank u (foldl newer ?z ys)"
    "list_all (\<lambda>y. rank u y \<le> rank u (foldl newer ?z ys)) ys" using Cons.IH[OF z(1)] Cons.prems(2) by auto
  show ?case using IH z(2,3,4) by (auto intro: order_trans)
qed simp

lemma latest_ok:
  assumes "list_all entry_ok es" "es \<noteq> []"
  shows "\<exists>e. latest_entry es = Inr e \<and> e \<in> set es \<and> entry_ok e \<and> list_all (\<lambda>y. rank u y \<le> rank u e) es"
proof -
  obtain x xs where es: "es = x # xs" using assms(2) by (cases es) auto
  have "latest_entry es = Inr (foldl newer x xs)" using sortable_ok[OF assms(1)] by (simp add: latest_entry_def es)
  then show ?thesis using newest[of x xs u] assms(1) by (auto simp: es list_all_iff)
qed

section \<open>The selection of a line item\<close>

definition sel_rank :: "selection \<Rightarrow> bool \<times> string \<times> string" where
  "sel_rank s = rank (sel_unit s) (sel_item s)"

definition drawn :: "int \<Rightarrow> bool \<Rightarrow> (string \<times> string \<times> string \<times> pyval list) list \<Rightarrow> selection \<Rightarrow> bool" where
  "drawn year instant ls s = (entry_ok (sel_item s) \<and> (\<exists>es. (sel_taxonomy s, sel_concept s, sel_unit s, es) \<in> set ls \<and>
     sel_item s \<in> set es \<and> admissible year instant (sel_item s) \<and> list_all entry_ok (sel_candidates s)))"

definition outranked :: "int \<Rightarrow> bool \<Rightarrow> (string \<times> string \<times> string \<times> pyval list) list \<Rightarrow> bool \<times> string \<times> string \<Rightarrow> bool" where
  "outranked year instant ls r = list_all (\<lambda>(t, c, u, es). list_all (\<lambda>e. admissible year instant e \<longrightarrow> rank u e \<le> r) es) ls"

lemma selection_key_ok: "entry_ok (sel_item s) \<Longrightarrow>
    selection_key s = [VBool (fst (sel_rank s)), VStr (fst (snd (sel_rank s))), VStr (snd (snd (sel_rank s)))]"
  by (simp add: selection_key_def filing_key_ok[of _ "sel_unit s"] sel_rank_def) (simp add: rank_def)

lemma better_ok:
  assumes "entry_ok (sel_item s)" "\<And>b. best = Some b \<Longrightarrow> entry_ok (sel_item b)"
  shows "\<exists>r. better best s = Inr (Some r) \<and> (r = s \<or> best = Some r) \<and> sel_rank s \<le> sel_rank r \<and>
    (\<forall>b. best = Some b \<longrightarrow> sel_rank b \<le> sel_rank r)"
proof (cases best)
  case None
  then show ?thesis by (simp add: better_def)
next
  case (Some b)
  then have "tuple_less (selection_key b) (selection_key s) = Inr (sel_rank b < sel_rank s)"
    using assms by (simp add: selection_key_ok keyed_less del: tuple_less.simps)
  then show ?thesis using Some by (auto simp: better_def)
qed

text \<open>The selected entry is admissible and no admissible entry outranks it.\<close>

lemma select_ok:
  assumes "list_all (\<lambda>(t, c, u, es). list_all entry_ok es) ls" "\<forall>b. best = Some b \<longrightarrow> entry_ok (sel_item b)"
  shows "\<exists>r. select_entry year instant ls best = Inr r \<and> (\<forall>b. best = Some b \<longrightarrow> r \<noteq> None) \<and>
    (\<forall>s. r = Some s \<longrightarrow> (best = Some s \<or> drawn year instant ls s) \<and> (\<forall>b. best = Some b \<longrightarrow> sel_rank b \<le> sel_rank s) \<and>
       outranked year instant ls (sel_rank s))"
  using assms
proof (induction ls arbitrary: best)
  case (Cons l ls)
  obtain t c u es where l: "l = (t, c, u, es)" by (cases l) auto
  have es: "list_all entry_ok es" and rest: "list_all (\<lambda>(t, c, u, es). list_all entry_ok es) ls" using Cons.prems(1) by (simp_all add: l)
  let ?f = "filter (admissible year instant) es"
  have grow: "drawn year instant ls s \<Longrightarrow> drawn year instant (l # ls) s" for s by (auto simp: drawn_def)
  show ?case
  proof (cases "?f = []")
    case True
    then have "outranked year instant [l] r" for r by (auto simp: outranked_def l list_all_iff filter_empty_conv)
    then have none: "outranked year instant (l # ls) r" if "outranked year instant ls r" for r using that by (simp add: outranked_def)
    have step: "select_entry year instant (l # ls) best = select_entry year instant ls best" by (simp add: l candidates_ok[OF es] True)
    obtain r where r: "select_entry year instant ls best = Inr r" "\<forall>b. best = Some b \<longrightarrow> r \<noteq> None"
      "\<forall>s. r = Some s \<longrightarrow> (best = Some s \<or> drawn year instant ls s) \<and> (\<forall>b. best = Some b \<longrightarrow> sel_rank b \<le> sel_rank s) \<and>
         outranked year instant ls (sel_rank s)" using Cons.IH[OF rest Cons.prems(2)] by (elim exE conjE) (rule that)
    show ?thesis unfolding step
    proof (intro exI conjI allI impI)
      show "select_entry year instant ls best = Inr r" by (rule r(1))
      show "r \<noteq> None" if "best = Some b" for b using r(2) that by simp
      fix s assume s: "r = Some s"
      show "best = Some s \<or> drawn year instant (l # ls) s" using r(3) s grow by auto
      show "sel_rank b \<le> sel_rank s" if "best = Some b" for b using r(3) s that by simp
      show "outranked year instant (l # ls) (sel_rank s)" using r(3) s none by simp
    qed
  next
    case False
    obtain e where e: "latest_entry ?f = Inr e" "e \<in> set ?f" "entry_ok e" "list_all (\<lambda>y. rank u y \<le> rank u e) ?f"
      using latest_ok[OF _ False, of u] es by (auto simp: list_all_iff)
    define s where "s = \<lparr>sel_taxonomy = t, sel_concept = c, sel_unit = u, sel_item = e, sel_candidates = ?f\<rparr>"
    have s: "drawn year instant (l # ls) s" "sel_rank s = rank u e" "entry_ok (sel_item s)"
      using e es by (auto simp: s_def drawn_def l sel_rank_def list_all_iff)
    obtain r where r: "better best s = Inr (Some r)" "r = s \<or> best = Some r" "sel_rank s \<le> sel_rank r"
      "\<And>b. best = Some b \<Longrightarrow> sel_rank b \<le> sel_rank r" using better_ok[OF s(3), of best] Cons.prems(2) by blast
    have r_ok: "entry_ok (sel_item r)" using r(2) s(3) Cons.prems(2) by blast
    have step: "select_entry year instant (l # ls) best = select_entry year instant ls (Some r)"
    proof -
      obtain y ys where f: "?f = y # ys" using False by (cases ?f) auto
      show ?thesis using e(1) r(1) by (simp add: l candidates_ok[OF es] f s_def)
    qed
    obtain q where q: "select_entry year instant ls (Some r) = Inr (Some q)" "r = q \<or> drawn year instant ls q"
      "sel_rank r \<le> sel_rank q" "outranked year instant ls (sel_rank q)"
      using Cons.IH[OF rest, of "Some r"] r_ok by auto
    have "outranked year instant [l] (sel_rank q)"
      using e(4) order_trans[OF r(3) q(3)] s(2) by (auto simp: outranked_def l list_all_iff intro: order_trans)
    then have "outranked year instant (l # ls) (sel_rank q)" using q(4) by (simp add: outranked_def)
    moreover have "best = Some q \<or> drawn year instant (l # ls) q" using q(2) r(2) s(1) grow by blast
    moreover have "\<forall>b. best = Some b \<longrightarrow> sel_rank b \<le> sel_rank q" using r(4) q(3) by (blast intro: order_trans)
    ultimately show ?thesis by (intro exI[of _ "Some q"]) (simp add: step q(1))
  qed
qed (simp add: outranked_def)

section \<open>What a parsed value rests on\<close>

text \<open>A value is taken from an admissible entry of its line item and year that no other admissible entry outranks, or it
  is the sum of the two parts of the debt in one filing.\<close>

definition primary :: "pyval \<Rightarrow> string list \<Rightarrow> financial_value \<Rightarrow> bool" where
  "primary facts taxonomies v = (\<exists>names t c u es e x. (fv_line_item v, names) \<in> set concepts \<and>
     (t, c, u, es) \<in> set (entry_lists facts taxonomies names) \<and> e \<in> set es \<and>
     admissible (fv_fiscal_year v) (fv_line_item v \<in> set instant_items) e \<and>
     outranked (fv_fiscal_year v) (fv_line_item v \<in> set instant_items) (entry_lists facts taxonomies names) (rank u e) \<and>
     numeric_value e = Inr (Some x) \<and> is_finite x \<and> fv_value v = Some x \<and> fv_source_type v = ''sec_xbrl'' \<and>
     fv_taxonomy v = Some t \<and> fv_concept v = Some c \<and> fv_original_unit v = Some u)"

definition derived :: "financial_value list \<Rightarrow> financial_value \<Rightarrow> bool" where
  "derived out v = (fv_line_item v = ''total_debt'' \<and> fv_source_type v = ''sec_xbrl_derived'' \<and>
     (\<exists>a\<in>set out. \<exists>b\<in>set out. fv_line_item a = ''short_term_debt'' \<and> fv_line_item b = ''long_term_debt'' \<and>
        fv_fiscal_year a = fv_fiscal_year v \<and> fv_fiscal_year b = fv_fiscal_year v \<and> same_filing a b \<and>
        fv_value v = sum_values (fv_value a) (fv_value b)))"

definition dated :: "financial_value \<Rightarrow> bool" where
  "dated v = (fv_filed_at v = VNone \<or> is_str (fv_filed_at v))"

lemma entry_lists_ok:
  assumes "facts_ok facts" "set taxonomies \<subseteq> set [''us-gaap'', ''ifrs-full'']"
  shows "list_all (\<lambda>(t, c, u, es). list_all entry_ok es) (entry_lists facts taxonomies names)"
proof -
  have ok: "entry_ok e" if "t \<in> set taxonomies" "Some (VDict d) = map_of (items (vget facts t)) c" "(u, v) \<in> set (units_of (VDict d))"
    "e \<in> set (elems v)" for t c d u v e
  proof -
    have "VDict d \<in> snd ` set (items (vget facts t))" using map_of_SomeD[OF that(2)[symmetric]] by force
    moreover have "v \<in> snd ` set (units_of (VDict d))" using that(3) by force
    ultimately show ?thesis using assms that(1,4) unfolding facts_ok_def list_all_iff by fastforce
  qed
  show ?thesis by (auto simp: entry_lists_def list_all_iff split: option.splits pyval.splits) (metis ok)
qed

lemma restated_ok: "list_all entry_ok es \<Longrightarrow> \<exists>b. restated_values es = Inr b"
  by (auto simp: restated_values_def Let_def list_ex_iff list_all_iff entry_ok_def)

lemma numeric_finite: "numeric_value e = Inr (Some x) \<Longrightarrow> is_finite x"
  by (auto simp: numeric_value_def split: option.splits sum.splits py_error.splits if_splits)

lemma filed_dated: "entry_ok e \<Longrightarrow> vget e ''filed'' = VNone \<or> is_str (vget e ''filed'')"
  by (auto simp: entry_ok_def text_or_absent_def vget_def get_def dict_get_def split: option.splits)

lemma value_of_ok:
  assumes "entry_ok (sel_item s)" "list_all entry_ok (sel_candidates s)"
  shows "\<exists>v. value_of payload year line_item s x = Inr v \<and> fv_line_item v = line_item \<and> fv_value v = Some x \<and> fv_fiscal_year v = year \<and>
    fv_source_type v = ''sec_xbrl'' \<and> fv_taxonomy v = Some (sel_taxonomy s) \<and> fv_concept v = Some (sel_concept s) \<and>
    fv_original_unit v = Some (sel_unit s) \<and> dated v"
proof -
  obtain b where b: "restated_values (sel_candidates s) = Inr b" using restated_ok[OF assms(2)] ..
  have "text_or_absent (sel_item s) ''accn''" using assms(1) by (simp add: entry_ok_def)
  from text_key[OF this] obtain a where a: "vget_or (sel_item s) ''accn'' (VStr []) = VStr a" by blast
  show ?thesis using filed_dated[OF assms(1)] by (simp add: value_of_def b a Let_def dated_def)
qed

lemma line_value_ok:
  assumes "facts_ok facts" "set taxonomies \<subseteq> set [''us-gaap'', ''ifrs-full'']" "p \<in> set concepts"
  shows "\<exists>r. line_value payload facts taxonomies year p = Inr r \<and>
    (\<forall>v. r = Some v \<longrightarrow> primary facts taxonomies v \<and> fv_fiscal_year v = year \<and> dated v)"
proof -
  obtain line_item names where p: "p = (line_item, names)" by (cases p)
  let ?ls = "entry_lists facts taxonomies names" and ?i = "line_item \<in> set instant_items"
  obtain r where r: "select_entry year ?i ?ls None = Inr r"
    "\<forall>s. r = Some s \<longrightarrow> drawn year ?i ?ls s \<and> outranked year ?i ?ls (sel_rank s)"
    using select_ok[OF entry_lists_ok[OF assms(1,2)], of None year ?i names] by auto
  show ?thesis
  proof (cases r)
    case None
    then show ?thesis by (simp add: line_value_def p r(1))
  next
    case (Some s)
    then have s: "drawn year ?i ?ls s" "outranked year ?i ?ls (sel_rank s)" using r(2) by simp_all
    obtain n where n: "numeric_value (sel_item s) = Inr n" using s(1) by (auto simp: drawn_def entry_ok_def is_ok_iff)
    show ?thesis
    proof (cases n)
      case None
      then show ?thesis by (simp add: line_value_def p r(1) Some n)
    next
      case x: (Some x)
      obtain v where v: "value_of payload year line_item s x = Inr v" "fv_line_item v = line_item" "fv_value v = Some x"
        "fv_fiscal_year v = year" "fv_source_type v = ''sec_xbrl''" "fv_taxonomy v = Some (sel_taxonomy s)"
        "fv_concept v = Some (sel_concept s)" "fv_original_unit v = Some (sel_unit s)" "dated v"
        using value_of_ok[of s payload year line_item x] s(1) by (auto simp: drawn_def)
      obtain es where es: "(sel_taxonomy s, sel_concept s, sel_unit s, es) \<in> set ?ls" "sel_item s \<in> set es"
        "admissible year ?i (sel_item s)" using s(1) unfolding drawn_def by auto
      have "primary facts taxonomies v" unfolding primary_def v
        using es s(2) assms(3) n x numeric_finite[of "sel_item s" x] unfolding sel_rank_def p
        by (intro exI[of _ names] exI[of _ "sel_taxonomy s"] exI[of _ "sel_concept s"] exI[of _ "sel_unit s"] exI[of _ es]
          exI[of _ "sel_item s"] exI[of _ x]) simp
      then show ?thesis using v by (simp add: line_value_def p r(1) Some n x)
    qed
  qed
qed

lemma later_date_ok: "dated a \<Longrightarrow> dated b \<Longrightarrow> \<exists>d. later_date (fv_filed_at a) (fv_filed_at b) = Inr d \<and> is_str d"
  by (auto simp: dated_def later_date_def por_def py_less_def Let_def elim!: is_str.elims)

lemma found_last: "List.find P (rev xs) = Some v \<Longrightarrow> v \<in> set xs \<and> P v"
  by (auto simp: find_Some_iff) (metis nth_mem length_rev set_rev)

lemma derived_debt_ok:
  assumes "list_all (\<lambda>v. dated v \<and> fv_fiscal_year v = year) vs"
  shows "\<exists>r. derived_debt year vs = Inr r \<and> list_all (\<lambda>v. derived vs v \<and> fv_fiscal_year v = year \<and> dated v) r"
proof -
  let ?at = "\<lambda>k. List.find (\<lambda>v. fv_line_item v = k) (rev vs)"
  show ?thesis
  proof (cases "\<exists>a b. ?at ''total_debt'' = None \<and> ?at ''short_term_debt'' = Some a \<and> ?at ''long_term_debt'' = Some b \<and> same_filing a b")
    case True
    then obtain a b where ab: "?at ''total_debt'' = None" "?at ''short_term_debt'' = Some a" "?at ''long_term_debt'' = Some b" "same_filing a b"
      by blast
    note in_a = found_last[OF ab(2)] and in_b = found_last[OF ab(3)]
    have y: "dated a" "dated b" "fv_fiscal_year a = year" "fv_fiscal_year b = year" using assms in_a in_b by (auto simp: list_all_iff)
    obtain d where d: "later_date (fv_filed_at a) (fv_filed_at b) = Inr d" "is_str d" using later_date_ok[OF y(1,2)] by blast
    show ?thesis using ab d in_a in_b y by (auto simp: derived_debt_def Let_def derived_def dated_def)
  next
    case False
    then have "derived_debt year vs = Inr []" by (auto simp: derived_debt_def Let_def split: option.splits)
    then show ?thesis by simp
  qed
qed

lemma map_result_all: "\<forall>x\<in>set xs. \<exists>y. f x = Inr y \<and> Q y \<Longrightarrow> \<exists>ys. map_result f xs = Inr ys \<and> list_all Q ys"
  by (induction xs) fastforce+

lemma derived_mono: "derived out v \<Longrightarrow> set out \<subseteq> set out' \<Longrightarrow> derived out' v"
  by (auto simp: derived_def)

definition rests :: "pyval \<Rightarrow> string list \<Rightarrow> financial_value list \<Rightarrow> financial_value \<Rightarrow> bool" where
  "rests facts taxonomies out v = ((primary facts taxonomies v \<or> derived out v) \<and> dated v)"

lemma parse_years_ok:
  assumes "facts_ok facts" "set taxonomies \<subseteq> set [''us-gaap'', ''ifrs-full'']" "list_all (rests facts taxonomies out) out"
  shows "\<exists>r. parse_years payload facts taxonomies years out = Inr r \<and> list_all (rests facts taxonomies r) r \<and>
    (\<forall>v\<in>set r. fv_fiscal_year v \<in> set years \<or> v \<in> set out)"
  using assms(3)
proof (induction years arbitrary: out)
  case (Cons year years)
  let ?Q = "\<lambda>r. \<forall>v. r = Some v \<longrightarrow> primary facts taxonomies v \<and> fv_fiscal_year v = year \<and> dated v"
  obtain found where found: "map_result (line_value payload facts taxonomies year) concepts = Inr found" "list_all ?Q found"
    using map_result_all[of concepts "line_value payload facts taxonomies year" ?Q] line_value_ok[OF assms(1,2)] by blast
  define out1 where "out1 = out @ List.map_filter id found"
  have new1: "primary facts taxonomies v \<and> fv_fiscal_year v = year \<and> dated v" if "v \<in> set (List.map_filter id found)" for v
    using that found(2) by (auto simp: map_filter_def list_all_iff)
  let ?vs = "filter (\<lambda>v. fv_fiscal_year v = year) out1"
  have d1: "list_all dated out1" using Cons.prems new1 by (auto simp: out1_def list_all_iff rests_def)
  then have "list_all (\<lambda>v. dated v \<and> fv_fiscal_year v = year) ?vs" by (auto simp: list_all_iff)
  from derived_debt_ok[OF this] obtain debt where debt: "derived_debt year ?vs = Inr debt"
    "list_all (\<lambda>v. derived ?vs v \<and> fv_fiscal_year v = year \<and> dated v) debt" by blast
  have "rests facts taxonomies (out1 @ debt) v" if v: "v \<in> set (out1 @ debt)" for v
  proof -
    consider "v \<in> set out" | "v \<in> set (List.map_filter id found)" | "v \<in> set debt" using v unfolding out1_def set_append by blast
    then show ?thesis
    proof cases
      case 1
      then have "rests facts taxonomies out v" using Cons.prems by (simp add: list_all_iff)
      then show ?thesis using derived_mono[of out v "out1 @ debt"] by (auto simp: rests_def out1_def)
    next
      case 2
      then show ?thesis using new1 by (simp add: rests_def)
    next
      case 3
      then show ?thesis using debt(2) derived_mono[of ?vs v "out1 @ debt"] by (auto simp: rests_def list_all_iff)
    qed
  qed
  then have "list_all (rests facts taxonomies (out1 @ debt)) (out1 @ debt)" by (simp only: list_all_iff) blast
  from Cons.IH[OF this] obtain r where r: "parse_years payload facts taxonomies years (out1 @ debt) = Inr r"
    "list_all (rests facts taxonomies r) r" "\<forall>v\<in>set r. fv_fiscal_year v \<in> set years \<or> v \<in> set (out1 @ debt)" by blast
  have "parse_years payload facts taxonomies (year # years) out = Inr r"
    using found(1) debt(1) r(1) by (simp add: out1_def Let_def)
  moreover have "fv_fiscal_year v = year \<or> v \<in> set out" if "v \<in> set (out1 @ debt)" for v
    using that new1 debt(2) by (auto simp: out1_def list_all_iff)
  ultimately show ?case using r(2,3) by auto
qed auto

text \<open>C38: The values parsed from companyfacts whose entries are well formed: each is an object with hashable labels and
  value, its filing date and accession number are text where present, and its value is no number beyond the range
  of a float (otherwise parsing may raise, see \<open>malformed_entry_raises\<close>). Whatever the shape of the payload around
  these entries, parsing then returns; every value is of a requested year (of a reported one if none is requested),
  is finite and taken from an annual entry of one of the concepts of its line item that no other annual entry of
  the item outranks (by unit, then by filing date, then by accession number), or it is a total debt added up from
  its two parts in the same filing.\<close>

theorem annual_facts_sound:
  assumes "facts_ok (vget_or payload ''facts'' (VDict []))"
  defines "facts \<equiv> vget_or payload ''facts'' (VDict [])"
  shows "\<exists>out. parse_companyfacts payload fiscal_years = Inr out \<and> list_all (\<lambda>v. fv_fiscal_year v \<in> set (years_of facts fiscal_years) \<and>
    (primary facts (taxonomies_of facts) v \<or> derived out v)) out"
proof (cases "is_dict facts")
  case True
  have sub: "set (taxonomies_of facts) \<subseteq> set [''us-gaap'', ''ifrs-full'']" by (auto simp: taxonomies_of_def)
  obtain r where "parse_years payload facts (taxonomies_of facts) (years_of facts fiscal_years) [] = Inr r"
    "list_all (rests facts (taxonomies_of facts) r) r" "\<forall>v\<in>set r. fv_fiscal_year v \<in> set (years_of facts fiscal_years)"
    using parse_years_ok[OF _ sub, of facts "[]" payload "years_of facts fiscal_years"] assms(1) unfolding facts_def[symmetric] by auto
  then show ?thesis using True by (auto simp: parse_companyfacts_def Let_def facts_def list_all_iff rests_def)
next
  case False
  then show ?thesis by (simp add: parse_companyfacts_def facts_def)
qed

definition sample_entry :: "int \<Rightarrow> string \<Rightarrow> pyval" where
  "sample_entry amount filed = VDict [(''form'', VStr ''10-K''), (''fy'', VInt 2023), (''fp'', VStr ''FY''), (''end'', VStr ''2023-12-31''),
     (''val'', VInt amount), (''accn'', VStr ''a''), (''filed'', VStr filed)]"

definition sample_concept :: "pyval list \<Rightarrow> pyval" where
  "sample_concept entries = VDict [(''units'', VDict [(''USD'', VList entries)])]"

definition sample_facts :: "(string \<times> pyval) list \<Rightarrow> pyval" where
  "sample_facts cs = VDict [(''facts'', VDict [(''us-gaap'', VDict cs)])]"

lemma annual_facts_sound_witness:
  "\<exists>out. parse_companyfacts (sample_facts [(''Assets'', sample_concept [sample_entry 7 ''2024-02-01''])]) [2023] = Inr out \<and>
    list_all (\<lambda>v. fv_fiscal_year v = 2023) out"
proof -
  have "facts_ok (vget_or (sample_facts [(''Assets'', sample_concept [sample_entry 7 ''2024-02-01''])]) ''facts'' (VDict []))" by code_simp
  from annual_facts_sound[OF this, of "[2023]"] show ?thesis by (auto simp: years_of_def list_all_iff)
qed

text \<open>The order of the concepts of a line item decides nothing: the later filing of either concept is taken.\<close>

lemma later_concept_wins:
  "(case select_entry 2023 True (entry_lists (vget (sample_facts
      [(''CashAndCashEquivalentsAtCarryingValue'', sample_concept [sample_entry 7 ''2024-02-01'']),
       (''CashCashEquivalentsRestrictedCashAndRestrictedCashEquivalents'', sample_concept [sample_entry 9 ''2024-03-01''])]) ''facts'')
      [''us-gaap''] (snd (hd concepts))) None of Inr (Some s) \<Rightarrow> vget (sel_item s) ''val'' | _ \<Rightarrow> VNone) = VInt 9"
  by code_simp

text \<open>An entry that is not an object raises, although every other malformed branch is skipped.\<close>

lemma malformed_entry_raises:
  "parse_companyfacts (sample_facts [(''Assets'', sample_concept [VInt 1])]) [2023] = Inl (AttributeError ''object has no attribute get'')"
  by code_simp

section \<open>Reconciliation\<close>

text \<open>The rows cover the facts of both sources, once each and in order; a row is single-sourced exactly when one of the
  sources is silent, and otherwise matched exactly when the relative difference is within the tolerance.\<close>

lemma fact_at_None: "fact_at vs k = None \<longleftrightarrow> k \<notin> fact_key ` set vs"
  by (auto simp: fact_at_def find_None_iff)

lemma row_key: "rn_line_item (reconcile_key xs ds tol k) = fst k" "rn_fiscal_year (reconcile_key xs ds tol k) = snd k"
  by (auto simp: reconcile_key_def single_source_def both_sources_def Let_def split: option.splits)

lemma row_status: "rn_status (reconcile_key xs ds tol k) = (case (fact_at xs k, fact_at ds k) of
    (Some x, Some d) \<Rightarrow> (case relative_difference x d of None \<Rightarrow> ''conflict'' | Some r \<Rightarrow> if fle r tol then ''matched'' else ''conflict'')
  | _ \<Rightarrow> ''single_source'')"
  by (auto simp: reconcile_key_def single_source_def both_sources_def Let_def split: option.splits)

lemma reconcile_exact:
  shows "map (\<lambda>r. (rn_line_item r, rn_fiscal_year r)) (reconcile_sources xs ds tol) = sorted_set (map fact_key (xs @ ds))"
    and "list_all (\<lambda>r. (rn_status r = ''single_source'') = ((rn_line_item r, rn_fiscal_year r) \<notin> fact_key ` set xs \<inter> fact_key ` set ds))
      (reconcile_sources xs ds tol)"
proof -
  show "map (\<lambda>r. (rn_line_item r, rn_fiscal_year r)) (reconcile_sources xs ds tol) = sorted_set (map fact_key (xs @ ds))"
    by (simp add: reconcile_sources_def comp_def row_key del: map_append)
  have "(rn_status (reconcile_key xs ds tol k) = ''single_source'') = (k \<notin> fact_key ` set xs \<inter> fact_key ` set ds)" for k
    using fact_at_None[of xs k] fact_at_None[of ds k] unfolding row_status
    by (cases "fact_at xs k"; cases "fact_at ds k") (auto split: option.splits)
  then show "list_all (\<lambda>r. (rn_status r = ''single_source'') = ((rn_line_item r, rn_fiscal_year r) \<notin> fact_key ` set xs \<inter> fact_key ` set ds))
      (reconcile_sources xs ds tol)" by (simp add: reconcile_sources_def list_all_iff row_key)
qed

end
