(* ===== verification/SecClient.thy ===== *)
theory SecClient
  imports Xbrl Replay
begin

text \<open>
  The client of the SEC (\<open>xbrl.py\<close>): admission of a URL, the retry discipline, bounded responses, the verified cache
  and the selection of the latest filing. The record \<open>world\<close> holds what answers: the reply to the n-th request and
  the readings of the monotonic clock; \<open>H\<close> is SHA-256 and \<open>loads\<close> reads JSON. Files of the cache are named by
  their last component and hold bytes. The text of a header is ASCII. \<open>urllib.request.urlopen\<close> follows redirects by
  itself, to any host; so does \<open>urlopen\<close> here.
\<close>

section \<open>Errors, state and world\<close>

text \<open>A failure of the connection while the response is awaited or read: an \<open>OSError\<close> such as \<open>TimeoutError\<close>, or an
  \<open>http.client.HTTPException\<close> such as \<open>IncompleteRead\<close>; neither is an \<open>URLError\<close>. \<open>Unreadable\<close> carries the name of the
  exception of a decoder.\<close>

datatype failure = SystemFailure string | ProtocolFailure string

datatype fetch_error = Python py_error | LookupError string | HTTPError int | URLError string | Unreadable string | Failed failure

type_synonym 'a fetched = "fetch_error + 'a"

definition raise_value :: "string \<Rightarrow> 'a fetched" where
  "raise_value text = Inl (Python (ValueError text))"

definition followed_by :: "'a fetched \<Rightarrow> ('a \<Rightarrow> 'b fetched) \<Rightarrow> 'b fetched" where
  "followed_by r f = (case r of Inl e \<Rightarrow> Inl e | Inr x \<Rightarrow> f x)"

text \<open>What \<open>urlopen\<close> delivers: a response with its declared length and body, an error status with its
  \<open>Retry-After\<close> header, no connection, or a failure after the headers (without any, when no length is declared).\<close>

datatype opened = Reply "string option" string | HttpReply int "string option" | NoReply string | Cut "string option" failure

text \<open>A server may also answer with a redirect. Its \<open>Location\<close> is given as the absolute URL it is resolved to.\<close>

datatype reply = Final opened | Redirect int "string option"

record world =
  wd_reply :: "nat \<Rightarrow> string \<Rightarrow> reply"
  wd_clock :: "nat \<Rightarrow> pyfloat"

record sec_client =
  ck_user_agent :: string
  ck_cached :: bool
  ck_pause :: pyfloat
  ck_max_retries :: int

record sec_state =
  ss_files :: "(string, string) dict"
  ss_last_request :: pyfloat
  ss_requests :: "string list"
  ss_sleeps :: "pyfloat list"

definition new_client :: "string \<Rightarrow> bool \<Rightarrow> pyfloat \<Rightarrow> int \<Rightarrow> sec_client fetched" where
  "new_client user_agent cached pause retries =
     (if \<not> contains ''@'' user_agent then raise_value ''SEC user_agent must identify an application and contact email''
      else if flt pause (Fin 0) \<or> retries < 0 then raise_value ''SEC pause_seconds and max_retries cannot be negative''
      else Inr \<lparr>ck_user_agent = user_agent, ck_cached = cached, ck_pause = pause, ck_max_retries = retries\<rparr>)"

section \<open>Identifiers\<close>

definition max_response_bytes :: int where
  "max_response_bytes = 100 * 1024 * 1024"

definition normalize_cik :: "string \<Rightarrow> string fetched" where
  "normalize_cik cik = (let raw = strip cik in
     if raw \<noteq> [] \<and> length raw \<le> 10 \<and> list_all is_digit raw then Inr (replicate (10 - length raw) CHR ''0'' @ raw)
     else raise_value ''SEC CIK must contain between 1 and 10 ASCII digits'')"

definition is_letter :: "char \<Rightarrow> bool" where
  "is_letter c = (let n = (of_char c :: int) in 65 \<le> n \<and> n \<le> 90 \<or> 97 \<le> n \<and> n \<le> 122)"

definition plain_segment :: "nat \<Rightarrow> string \<Rightarrow> string \<Rightarrow> bool" where
  "plain_segment most extra s = (s \<noteq> [] \<and> length s \<le> most \<and> list_all (\<lambda>c. is_letter c \<or> is_digit c \<or> c \<in> set extra) s)"

definition cache_entry :: "sec_client \<Rightarrow> string option \<Rightarrow> string option fetched" where
  "cache_entry c key = (case key of None \<Rightarrow> Inr None
     | Some k \<Rightarrow> if \<not> ck_cached c then Inr None
         else if plain_segment 200 ''._-'' k then Inr (Some k) else raise_value ''SEC cache key contains unsafe characters'')"

section \<open>URLs\<close>

definition scheme_char :: "char \<Rightarrow> bool" where
  "scheme_char c = (is_letter c \<or> is_digit c \<or> c \<in> set ''+-.'')"

definition url_text :: "string \<Rightarrow> string" where
  "url_text url = filter (\<lambda>c. c \<notin> set [CHR 0x09, CHR 0x0A, CHR 0x0D]) (dropWhile (\<lambda>c. (of_char c :: int) \<le> 32) url)"

definition url_scheme :: "string \<Rightarrow> string \<times> string" where
  "url_scheme s = (let a = takeWhile (\<lambda>c. c \<noteq> CHR '':'') s; b = dropWhile (\<lambda>c. c \<noteq> CHR '':'') s in
     if a \<noteq> [] \<and> b \<noteq> [] \<and> is_letter (hd a) \<and> list_all scheme_char a then (lower a, tl b) else ([], s))"

definition url_netloc :: "string \<Rightarrow> string" where
  "url_netloc rest = (if starts_with ''//'' rest then takeWhile (\<lambda>c. c \<notin> set ''/?#'') (drop 2 rest) else [])"

text \<open>The part after the last \<open>@\<close>, its host and its port.\<close>

definition host_info :: "string \<Rightarrow> string" where
  "host_info netloc = rev (takeWhile (\<lambda>c. c \<noteq> CHR ''@'') (rev netloc))"

definition host_name :: "string \<Rightarrow> string" where
  "host_name netloc = lower (takeWhile (\<lambda>c. c \<noteq> CHR '':'') (host_info netloc))"

definition url_port :: "string \<Rightarrow> int option fetched" where
  "url_port netloc = (let port = drop 1 (dropWhile (\<lambda>c. c \<noteq> CHR '':'') (host_info netloc)) in
     if port = [] then Inr None
     else if list_all is_digit port \<and> undigits port \<le> 65535 then Inr (Some (undigits port))
     else raise_value ''SEC endpoint contains an invalid port'')"

text \<open>A bracketed host is never one of the two and is refused in any case.\<close>

definition validated_sec_url :: "string \<Rightarrow> string fetched" where
  "validated_sec_url url = (let (scheme, rest) = url_scheme (url_text url); netloc = url_netloc rest in
     if contains ''['' netloc \<or> contains '']'' netloc then raise_value ''Invalid IPv6 URL''
     else followed_by (url_port netloc) (\<lambda>port.
       if scheme \<noteq> ''https'' \<or> host_name netloc \<notin> set [''data.sec.gov'', ''www.sec.gov''] \<or> contains ''@'' netloc \<or> port \<notin> {None, Some 443}
       then raise_value ''SEC requests require an official HTTPS endpoint'' else Inr url))"

section \<open>Responses and the cache\<close>

definition read_bounded :: "string option \<Rightarrow> string \<Rightarrow> string fetched" where
  "read_bounded declared raw =
     (let body = (if max_response_bytes < int (length raw) then raise_value ''SEC response exceeds configured size limit'' else Inr raw) in
      case declared of None \<Rightarrow> body
      | Some text \<Rightarrow> if text = [] then body else (case py_int text of
          Inl _ \<Rightarrow> raise_value ''SEC response has an invalid Content-Length''
        | Inr n \<Rightarrow> if max_response_bytes < n then raise_value ''SEC response exceeds configured size limit'' else body))"

definition is_ascii :: "string \<Rightarrow> bool" where
  "is_ascii s = list_all (\<lambda>c. (of_char c :: int) < 128) s"

definition read_verified_cache :: "(string \<Rightarrow> string) \<Rightarrow> (string, string) dict \<Rightarrow> string \<Rightarrow> string \<Rightarrow> string fetched" where
  "read_verified_cache H files key raw =
     (if max_response_bytes < int (length raw) then raise_value (''SEC cache exceeds configured size limit: '' @ key)
      else case map_of files (key @ ''.sha256'') of None \<Rightarrow> raise_value (''SEC cache hash is missing: '' @ key)
      | Some text \<Rightarrow> if 128 < length text then raise_value (''SEC cache hash is invalid: '' @ key)
          else if \<not> is_ascii text then Inl (Unreadable ''UnicodeDecodeError'')
          else if \<not> hex64 (strip text) then raise_value (''SEC cache hash is invalid: '' @ key)
          else if H raw \<noteq> strip text then raise_value (''SEC cache hash mismatch: '' @ key) else Inr raw)"

definition json_object :: "(string \<Rightarrow> pyval fetched) \<Rightarrow> string \<Rightarrow> pyval fetched" where
  "json_object loads raw = followed_by (loads raw) (\<lambda>v. if is_dict v then Inr v
     else Inl (Python (TypeError ''SEC JSON response must be an object'')))"

section \<open>Requests\<close>

definition sleep :: "pyfloat \<Rightarrow> sec_state \<Rightarrow> sec_state" where
  "sleep t st = st\<lparr>ss_sleeps := ss_sleeps st @ [t]\<rparr>"

definition too_long :: "pyfloat \<Rightarrow> bool" where
  "too_long t = (\<not> fle t (Fin (9223372036854775807 / 1000000000)))"

definition retryable_codes :: "int list" where
  "retryable_codes = [429, 500, 502, 503, 504]"

definition backoff :: "nat \<Rightarrow> pyfloat" where
  "backoff attempt = fint (min (2 ^ attempt) 8)"

definition retry_delay :: "string option \<Rightarrow> nat \<Rightarrow> pyfloat" where
  "retry_delay header attempt = (case header of None \<Rightarrow> backoff attempt
     | Some t \<Rightarrow> if t \<noteq> [] \<and> list_all is_digit t then (case float_of_str t of Some x \<Rightarrow> x | None \<Rightarrow> NaN) else backoff attempt)"

text \<open>The redirects that \<open>HTTPRedirectHandler\<close> follows. It counts the visits of every target, goes to one
  at most four times and to none any more once ten were seen.\<close>

definition redirect_codes :: "int list" where
  "redirect_codes = [301, 302, 303, 307, 308]"

type_synonym visits = "(string, nat) dict"

definition visited_times :: "visits \<Rightarrow> string \<Rightarrow> nat" where
  "visited_times visited url = dict_get visited url 0"

definition followed :: "visits \<Rightarrow> int \<Rightarrow> string \<Rightarrow> bool" where
  "followed visited code url = (code \<in> set redirect_codes \<and> fst (url_scheme url) \<in> set [''http'', ''https'', ''ftp''] \<and>
     visited_times visited url < 4 \<and> length visited < 10)"

definition visit :: "string \<Rightarrow> visits \<Rightarrow> visits" where
  "visit url visited = AList.update url (Suc (visited_times visited url)) visited"

definition log_request :: "string \<Rightarrow> sec_state \<Rightarrow> sec_state" where
  "log_request url st = st\<lparr>ss_requests := ss_requests st @ [url]\<rparr>"

definition room :: "visits \<Rightarrow> nat" where
  "room visited = sum_list (map (\<lambda>(_, n). 4 - n) visited) + 4 * (10 - length visited)"

lemma visit_again:
  assumes "url \<in> fst ` set visited"
  obtains xs n ys where "visited = xs @ (url, n) # ys" "visited_times visited url = n" "visit url visited = xs @ (url, Suc n) # ys"
proof -
  have "\<exists>xs n ys. visited = xs @ (url, n) # ys \<and> map_of visited url = Some n \<and> (\<forall>m. AList.update url m visited = xs @ (url, m) # ys)"
    using assms
  proof (induction visited)
    case (Cons p visited)
    obtain u m where p: "p = (u, m)" by (cases p)
    show ?case
    proof (cases "u = url")
      case True
      then show ?thesis by (intro exI[of _ "[]"]) (simp add: p)
    next
      case False
      then obtain xs n ys where "visited = xs @ (url, n) # ys \<and> map_of visited url = Some n \<and>
          (\<forall>m. AList.update url m visited = xs @ (url, m) # ys)" using Cons p by auto
      then show ?thesis using False p by (intro exI[of _ "p # xs"] exI[of _ n] exI[of _ ys]) auto
    qed
  qed simp
  then show thesis using that by (auto simp: visit_def visited_times_def dict_get_def)
qed

lemma visit_new: "url \<notin> fst ` set visited \<Longrightarrow> visit url visited = visited @ [(url, 1)]"
  by (simp add: visit_def visited_times_def dict_get_def update_new map_of_eq_None_iff[THEN iffD2])

lemma visit_room:
  assumes "followed visited code url"
  shows "room (visit url visited) < room visited"
proof (cases "url \<in> fst ` set visited")
  case True
  then obtain xs n ys where "visited = xs @ (url, n) # ys" "visited_times visited url = n" "visit url visited = xs @ (url, Suc n) # ys"
    by (rule visit_again)
  moreover from this(2) have "n < 4" using assms by (simp add: followed_def)
  ultimately show ?thesis by (simp add: room_def)
next
  case False
  moreover have "length visited < 10" using assms by (simp add: followed_def)
  then have "4 * (10 - length visited) = 4 + 4 * (9 - length visited)" by arith
  ultimately show ?thesis by (simp add: room_def visit_new)
qed

text \<open>One call of \<open>urlopen\<close>. The visits are kept in the request object, so the next attempt starts with them.\<close>

function urlopen :: "world \<Rightarrow> string \<Rightarrow> visits \<Rightarrow> sec_state \<Rightarrow> visits \<times> sec_state \<times> opened" where
  "urlopen w url visited st = (case wd_reply w (length (ss_requests st)) url of
     Final answer \<Rightarrow> (visited, log_request url st, answer)
   | Redirect code None \<Rightarrow> (visited, log_request url st, HttpReply code None)
   | Redirect code (Some target) \<Rightarrow>
       if followed visited code target then urlopen w target (visit target visited) (log_request url st)
       else (visited, log_request url st, HttpReply code None))"
  by pat_completeness auto

termination
  by (relation "measure (\<lambda>(_, _, visited, _). room visited)") (auto intro: visit_room)

declare urlopen.simps [simp del]

text \<open>One attempt: wait for the pause between requests, note the time, open the URL.\<close>

definition await_turn :: "world \<Rightarrow> sec_client \<Rightarrow> sec_state \<Rightarrow> sec_state" where
  "await_turn w c st = (let n = length (ss_requests st); delay = fsub (ck_pause c) (fsub (wd_clock w (2 * n)) (ss_last_request st));
       st = (if flt (Fin 0) delay then sleep delay st else st)
     in st\<lparr>ss_last_request := wd_clock w (2 * n + 1)\<rparr>)"

definition send :: "world \<Rightarrow> sec_client \<Rightarrow> string \<Rightarrow> visits \<Rightarrow> sec_state \<Rightarrow> visits \<times> sec_state \<times> opened" where
  "send w c url visited st = urlopen w url visited (await_turn w c st)"

fun request_loop :: "world \<Rightarrow> sec_client \<Rightarrow> string \<Rightarrow> (string \<Rightarrow> 'a fetched) \<Rightarrow> nat \<Rightarrow> nat \<Rightarrow> visits \<Rightarrow> sec_state \<Rightarrow> sec_state \<times> 'a fetched" where
  "request_loop w c url decode attempt 0 visited st = (st, Inl (Python (RuntimeError ''SEC request completed without a response'')))"
| "request_loop w c url decode attempt (Suc left) visited st =
     (let (visited', st', answer) = send w c url visited st;
          again = (\<lambda>t. if too_long t then (st', Inl (Python (OverflowError ''timestamp out of range'')))
            else request_loop w c url decode (Suc attempt) left visited' (sleep t st'))
      in case answer of
        Reply declared raw \<Rightarrow> (st', followed_by (read_bounded declared raw) decode)
      | Cut declared e \<Rightarrow> (st', followed_by (read_bounded declared []) (\<lambda>_. Inl (Failed e)))
      | HttpReply code header \<Rightarrow>
          if code = 403 then (st', Inl (Python (RuntimeError ''SEC rejected this network with HTTP 403; do not bypass Fair Access controls'')))
          else if code \<notin> set retryable_codes \<or> ck_max_retries c \<le> int attempt then (st', Inl (HTTPError code))
          else again (retry_delay header attempt)
      | NoReply reason \<Rightarrow> if ck_max_retries c \<le> int attempt then (st', Inl (URLError reason)) else again (backoff attempt))"

text \<open>A verified file of the cache is used without a request; a new response is stored with its hash.\<close>

definition store_files :: "(string \<Rightarrow> string) \<Rightarrow> string \<Rightarrow> string \<Rightarrow> string \<Rightarrow> sec_state \<Rightarrow> sec_state" where
  "store_files H key ext raw st = st\<lparr>ss_files := AList.update (key @ ''.sha256'') (H raw) (AList.update (key @ ext) raw (ss_files st))\<rparr>"

definition fetch_new :: "(string \<Rightarrow> string) \<Rightarrow> world \<Rightarrow> sec_client \<Rightarrow> string \<Rightarrow> (string \<Rightarrow> 'a fetched) \<Rightarrow> ('a \<Rightarrow> string) \<Rightarrow> string \<Rightarrow>
    string option \<Rightarrow> sec_state \<Rightarrow> sec_state \<times> 'a fetched" where
  "fetch_new H w c ext decode encode url entry st = (case validated_sec_url url of Inl e \<Rightarrow> (st, Inl e)
     | Inr url \<Rightarrow> (case request_loop w c url decode 0 (Suc (nat (ck_max_retries c))) [] st of
         (st', Inl e) \<Rightarrow> (st', Inl e)
       | (st', Inr x) \<Rightarrow> (case entry of None \<Rightarrow> st' | Some key \<Rightarrow> store_files H key ext (encode x) st', Inr x)))"

definition fetch :: "(string \<Rightarrow> string) \<Rightarrow> world \<Rightarrow> sec_client \<Rightarrow> string \<Rightarrow> (string \<Rightarrow> 'a fetched) \<Rightarrow> ('a \<Rightarrow> string) \<Rightarrow> string \<Rightarrow>
    string option \<Rightarrow> sec_state \<Rightarrow> sec_state \<times> 'a fetched" where
  "fetch H w c ext decode encode url key st = (case cache_entry c key of Inl e \<Rightarrow> (st, Inl e)
     | Inr entry \<Rightarrow> (case Option.bind entry (\<lambda>k. map_option (Pair k) (map_of (ss_files st) (k @ ext))) of
         Some (k, raw) \<Rightarrow> (st, followed_by (read_verified_cache H (ss_files st) k raw) decode)
       | None \<Rightarrow> fetch_new H w c ext decode encode url entry st))"

definition get_bytes :: "(string \<Rightarrow> string) \<Rightarrow> world \<Rightarrow> sec_client \<Rightarrow> string \<Rightarrow> string option \<Rightarrow> sec_state \<Rightarrow> sec_state \<times> string fetched" where
  "get_bytes H w c url key st = fetch H w c ''.bin'' Inr id url key st"

definition get_json :: "(string \<Rightarrow> string) \<Rightarrow> (string \<Rightarrow> pyval fetched) \<Rightarrow> world \<Rightarrow> sec_client \<Rightarrow> string \<Rightarrow> string option \<Rightarrow> sec_state \<Rightarrow>
    sec_state \<times> pyval fetched" where
  "get_json H loads w c url key st = fetch H w c ''.json'' (json_object loads) (dumps \<circ> canon) url key st"

section \<open>Companies and filings\<close>

definition companyfacts_url :: "string \<Rightarrow> string" where
  "companyfacts_url cik = ''https://data.sec.gov/api/xbrl/companyfacts/CIK'' @ cik @ ''.json''"

definition submissions_url :: "string \<Rightarrow> string" where
  "submissions_url cik = ''https://data.sec.gov/submissions/CIK'' @ cik @ ''.json''"

definition tickers_url :: string where
  "tickers_url = ''https://www.sec.gov/files/company_tickers.json''"

type_synonym json_source = "string \<Rightarrow> string option \<Rightarrow> sec_state \<Rightarrow> sec_state \<times> pyval fetched"

definition on_success :: "sec_state \<times> 'a fetched \<Rightarrow> (sec_state \<Rightarrow> 'a \<Rightarrow> sec_state \<times> 'b fetched) \<Rightarrow> sec_state \<times> 'b fetched" where
  "on_success r f = (case r of (st, Inl e) \<Rightarrow> (st, Inl e) | (st, Inr x) \<Rightarrow> f st x)"

definition companyfacts :: "json_source \<Rightarrow> string \<Rightarrow> sec_state \<Rightarrow> sec_state \<times> pyval fetched" where
  "companyfacts json cik st = (case normalize_cik cik of Inl e \<Rightarrow> (st, Inl e)
     | Inr n \<Rightarrow> json (companyfacts_url n) (Some (''companyfacts-'' @ n)) st)"

definition submissions :: "json_source \<Rightarrow> string \<Rightarrow> sec_state \<Rightarrow> sec_state \<times> pyval fetched" where
  "submissions json cik st = (case normalize_cik cik of Inl e \<Rightarrow> (st, Inl e)
     | Inr n \<Rightarrow> json (submissions_url n) (Some (''submissions-'' @ n)) st)"

definition upper :: "string \<Rightarrow> string" where
  "upper s = map (\<lambda>c. let n = (of_char c :: int) in if 97 \<le> n \<and> n \<le> 122 then char_of (n - 32) else c) s"

definition same_ticker :: "string \<Rightarrow> pyval \<Rightarrow> bool" where
  "same_ticker target company = (is_dict company \<and> (case vget company ''ticker'' of VStr t \<Rightarrow> upper t = target | _ \<Rightarrow> False))"

definition ticker_to_cik :: "json_source \<Rightarrow> string \<Rightarrow> sec_state \<Rightarrow> sec_state \<times> string fetched" where
  "ticker_to_cik json ticker st = (if \<not> plain_segment 20 ''.-'' (strip ticker) then (st, raise_value ''SEC ticker contains invalid characters'')
     else on_success (json tickers_url (Some ''company-tickers'') st) (\<lambda>st payload.
       case List.find (same_ticker (strip (upper ticker))) (map snd (items payload)) of
         None \<Rightarrow> (st, Inl (Python (KeyError (''unknown SEC ticker: '' @ ticker))))
       | Some company \<Rightarrow> (st, normalize_cik (py_str (vget_or company ''cik_str'' (VStr []))))))"

text \<open>\<open>recent[key][index]\<close>, or nothing where it raises.\<close>

definition cell :: "pyval \<Rightarrow> string \<Rightarrow> nat \<Rightarrow> pyval option" where
  "cell recent k i = (case map_of (items recent) k of None \<Rightarrow> None
     | Some (VList xs) \<Rightarrow> if i < length xs then Some (xs ! i) else None
     | Some (VStr s) \<Rightarrow> if i < length s then Some (VStr [s ! i]) else None
     | Some _ \<Rightarrow> None)"

definition accession_number :: "string \<Rightarrow> bool" where
  "accession_number s = (length s = 20 \<and> s ! 10 = CHR ''-'' \<and> s ! 13 = CHR ''-'' \<and>
     list_all is_digit (take 10 s @ take 2 (drop 11 s) @ drop 14 s))"

definition filing_dict :: "string \<Rightarrow> string \<Rightarrow> string \<Rightarrow> string \<Rightarrow> string \<Rightarrow> pyval \<Rightarrow> pyval \<Rightarrow> pyval" where
  "filing_dict ticker cik form accession primary_document filed report_day = VDict [(''ticker'', VStr (upper ticker)), (''cik'', VStr cik),
     (''form'', VStr form), (''accession'', VStr accession), (''filing_date'', filed), (''report_date'', report_day),
     (''primary_document'', VStr primary_document),
     (''filing_url'', VStr (sec_archives @ ''/'' @ str_int (undigits cik) @ ''/'' @ filter (\<lambda>c. c \<noteq> CHR ''-'') accession @ ''/'' @ primary_document)),
     (''companyfacts_url'', VStr (companyfacts_url cik))]"

text \<open>A row is passed over when its form is another, a cell is missing, or a name is not plain.\<close>

definition filing_row :: "string \<Rightarrow> string \<Rightarrow> string list \<Rightarrow> pyval \<Rightarrow> nat \<times> pyval \<Rightarrow> pyval option" where
  "filing_row ticker cik forms recent = (\<lambda>(i, form). case form of VStr f \<Rightarrow> if f \<notin> set forms then None else
     (case (cell recent ''accessionNumber'' i, cell recent ''primaryDocument'' i, cell recent ''filingDate'' i, cell recent ''reportDate'' i) of
        (Some (VStr accession), Some (VStr document), Some filed, Some report_day) \<Rightarrow>
          if accession_number accession \<and> plain_segment 255 ''._-'' document
          then Some (filing_dict ticker cik f accession document filed report_day) else None
      | _ \<Rightarrow> None)
   | _ \<Rightarrow> None)"

definition recent_filings :: "pyval \<Rightarrow> pyval" where
  "recent_filings payload = (let filings = vget_or payload ''filings'' (VDict []) in
     if is_dict filings then vget_or filings ''recent'' (VDict []) else VDict [])"

definition choose_filing :: "string \<Rightarrow> string \<Rightarrow> string list \<Rightarrow> pyval \<Rightarrow> pyval fetched" where
  "choose_filing ticker cik forms payload = (let recent = recent_filings payload in
     if \<not> is_list (vget recent ''form'') then Inl (Python (TypeError (''SEC submissions are malformed for '' @ ticker)))
     else case List.map_filter (filing_row ticker cik forms recent) (enumerate 0 (elems (vget recent ''form''))) of
       [] \<Rightarrow> Inl (LookupError (''no supported filing found for '' @ ticker)) | filing # _ \<Rightarrow> Inr filing)"

definition latest_filing :: "json_source \<Rightarrow> string \<Rightarrow> string list \<Rightarrow> sec_state \<Rightarrow> sec_state \<times> pyval fetched" where
  "latest_filing json ticker forms st = on_success (ticker_to_cik json ticker st) (\<lambda>st cik.
     on_success (submissions json cik st) (\<lambda>st payload. (st, choose_filing ticker cik forms payload)))"

text \<open>\<open>type(exc).__name__\<close> of the exceptions that the boundary turns into an answer.\<close>

definition caught_name :: "fetch_error \<Rightarrow> string option" where
  "caught_name e = (case e of HTTPError _ \<Rightarrow> Some ''HTTPError'' | URLError _ \<Rightarrow> Some ''URLError'' | LookupError _ \<Rightarrow> Some ''LookupError''
     | Unreadable name \<Rightarrow> Some name | Failed (SystemFailure name) \<Rightarrow> Some name | Failed (ProtocolFailure _) \<Rightarrow> None
     | Python p \<Rightarrow> (case p of ValueError _ \<Rightarrow> Some ''ValueError'' | KeyError _ \<Rightarrow> Some ''KeyError'' | TypeError _ \<Rightarrow> Some ''TypeError''
         | PermissionError _ \<Rightarrow> Some ''PermissionError'' | RuntimeError _ \<Rightarrow> Some ''RuntimeError'' | IndexError _ \<Rightarrow> Some ''IndexError'' | _ \<Rightarrow> None))"

definition unavailable :: "string \<Rightarrow> pyval" where
  "unavailable name = VDict [(''status'', VStr ''SOURCE_UNAVAILABLE''), (''filing'', VNone), (''decision'', VStr ''ABSTAIN''),
     (''coverage_impact'', VStr ''authoritative SEC filing metadata unavailable''), (''error_type'', VStr name)]"

definition acquire_latest_filing :: "json_source \<Rightarrow> string \<Rightarrow> sec_state \<Rightarrow> sec_state \<times> pyval fetched" where
  "acquire_latest_filing json ticker st = (case latest_filing json ticker [''10-K'', ''10-Q''] st of
     (st, Inr filing) \<Rightarrow> (st, Inr (VDict [(''status'', VStr ''READY''), (''filing'', filing), (''decision'', VNone)]))
   | (st, Inl e) \<Rightarrow> (case caught_name e of None \<Rightarrow> (st, Inl e) | Some name \<Rightarrow> (st, Inr (unavailable name))))"

section \<open>Requests are few and polite\<close>

definition transient :: "opened \<Rightarrow> bool" where
  "transient r = (case r of HttpReply code _ \<Rightarrow> code \<in> set retryable_codes | NoReply _ \<Rightarrow> True | _ \<Rightarrow> False)"

definition answered_by :: "opened \<Rightarrow> (string \<Rightarrow> 'a fetched) \<Rightarrow> 'a \<Rightarrow> bool" where
  "answered_by r decode x = (case r of Reply declared raw \<Rightarrow> int (length raw) \<le> max_response_bytes \<and> decode raw = Inr x | _ \<Rightarrow> False)"

text \<open>The URLs that one \<open>urlopen\<close> requests, from the n-th request on: each but the first is the target of the redirect
  before it, and the last reply, or the redirect that is not followed, is the outcome.\<close>

fun hops_ok :: "world \<Rightarrow> nat \<Rightarrow> string list \<Rightarrow> opened \<Rightarrow> bool" where
  "hops_ok w n [] r = False"
| "hops_ok w n [u] r = (wd_reply w n u = Final r \<or> (\<exists>code target. wd_reply w n u = Redirect code target \<and> r = HttpReply code None))"
| "hops_ok w n (u # v # us) r = ((\<exists>code\<in>set redirect_codes. wd_reply w n u = Redirect code (Some v)) \<and>
     fst (url_scheme v) \<in> set [''http'', ''https'', ''ftp''] \<and> hops_ok w (Suc n) (v # us) r)"

text \<open>The calls of \<open>urlopen\<close> for one URL: all but the last ended in a transient failure.\<close>

fun calls_ok :: "world \<Rightarrow> string \<Rightarrow> nat \<Rightarrow> (string list \<times> opened) list \<Rightarrow> bool" where
  "calls_ok w url n [] = True"
| "calls_ok w url n ((hops, r) # calls) = (hops \<noteq> [] \<and> hd hops = url \<and> hops_ok w n hops r \<and> (calls \<noteq> [] \<longrightarrow> transient r) \<and>
     calls_ok w url (n + length hops) calls)"

definition requested :: "(string list \<times> opened) list \<Rightarrow> string list" where
  "requested calls = concat (map fst calls)"

lemma log_state [simp]: "ss_requests (log_request url st) = ss_requests st @ [url]" "ss_files (log_request url st) = ss_files st"
  by (simp_all add: log_request_def)

lemma sleep_state [simp]: "ss_requests (sleep t st) = ss_requests st" "ss_files (sleep t st) = ss_files st"
  by (simp_all add: sleep_def)

lemma await_turn_state [simp]: "ss_requests (await_turn w c st) = ss_requests st" "ss_files (await_turn w c st) = ss_files st"
  by (simp_all add: await_turn_def Let_def)

lemma read_bounded_Inr: "read_bounded declared raw = Inr y \<Longrightarrow> y = raw \<and> int (length raw) \<le> max_response_bytes"
  by (auto simp: read_bounded_def raise_value_def Let_def split: option.splits if_splits sum.splits)

lemma followed_by_Inr: "followed_by r f = Inr y \<longleftrightarrow> (\<exists>x. r = Inr x \<and> f x = Inr y)"
  by (simp add: followed_by_def split: sum.splits)

text \<open>The visits counted so far: with fewer than ten targets each at most four times, and nothing after the tenth.\<close>

definition total_visits :: "visits \<Rightarrow> nat" where
  "total_visits visited = sum_list (map snd visited)"

definition visits_ok :: "visits \<Rightarrow> bool" where
  "visits_ok visited = (length visited < 10 \<and> list_all (\<lambda>(_, n). n \<le> 4) visited \<or> length visited = 10 \<and> total_visits visited \<le> 37)"

lemma few_visits: "list_all (\<lambda>(_, n). n \<le> 4) visited \<Longrightarrow> total_visits visited \<le> 4 * length visited"
  by (induction visited) (auto simp: total_visits_def)

lemma visits_bound: "visits_ok visited \<Longrightarrow> total_visits visited \<le> 37"
  using few_visits[of visited] by (auto simp: visits_ok_def)

lemma visit_ok:
  assumes "followed visited code url" "visits_ok visited"
  shows "visits_ok (visit url visited) \<and> total_visits (visit url visited) = Suc (total_visits visited)"
proof (cases "url \<in> fst ` set visited")
  case True
  then obtain xs n ys where "visited = xs @ (url, n) # ys" "visited_times visited url = n" "visit url visited = xs @ (url, Suc n) # ys"
    by (rule visit_again)
  then show ?thesis using assms by (auto simp: followed_def visits_ok_def total_visits_def)
next
  case False
  then show ?thesis using assms few_visits[of visited] by (auto simp: followed_def visits_ok_def visit_new total_visits_def)
qed

lemma urlopen_run:
  assumes "urlopen w url visited st = (visited', st', r)" "visits_ok visited"
  shows "\<exists>hops. hops \<noteq> [] \<and> hd hops = url \<and> hops_ok w (length (ss_requests st)) hops r \<and> ss_requests st' = ss_requests st @ hops \<and>
    ss_files st' = ss_files st \<and> visits_ok visited' \<and> Suc (total_visits visited') = total_visits visited + length hops"
  using assms
proof (induction w url visited st rule: urlopen.induct)
  case (1 w url visited st)
  have stop: ?case if "hops_ok w (length (ss_requests st)) [url] r" "st' = log_request url st" "visited' = visited"
    using that 1(3) by (intro exI[of _ "[url]"]) simp
  show ?case
  proof (cases "\<exists>code target. wd_reply w (length (ss_requests st)) url = Redirect code (Some target) \<and> followed visited code target")
    case True
    then obtain code target where t: "wd_reply w (length (ss_requests st)) url = Redirect code (Some target)" "followed visited code target"
      by blast
    have run: "urlopen w target (visit target visited) (log_request url st) = (visited', st', r)"
      using 1(2) t by (subst (asm) urlopen.simps) simp
    obtain hops where h: "hops \<noteq> []" "hd hops = target" "hops_ok w (length (ss_requests (log_request url st))) hops r"
      "ss_requests st' = ss_requests (log_request url st) @ hops" "ss_files st' = ss_files (log_request url st)" "visits_ok visited'"
      "Suc (total_visits visited') = total_visits (visit target visited) + length hops"
      using 1(1)[OF t(1) refl t(2) run] visit_ok[OF t(2) 1(3)] by blast
    obtain us where us: "hops = target # us" using h(1,2) by (cases hops) auto
    have "code \<in> set redirect_codes" "fst (url_scheme target) \<in> set [''http'', ''https'', ''ftp'']"
      using t(2) by (simp_all add: followed_def)
    then have "hops_ok w (length (ss_requests st)) (url # hops) r" using h(3) t(1) by (auto simp: us)
    then show ?thesis using h visit_ok[OF t(2) 1(3)] by (intro exI[of _ "url # hops"]) simp
  next
    case False
    then have "hops_ok w (length (ss_requests st)) [url] r \<and> st' = log_request url st \<and> visited' = visited"
      using 1(2) by (subst (asm) urlopen.simps) (auto split: reply.splits option.splits if_splits)
    then show ?thesis using stop by blast
  qed
qed

text \<open>The calls made in the rest of the loop.\<close>

definition request_run :: "world \<Rightarrow> string \<Rightarrow> (string \<Rightarrow> 'a fetched) \<Rightarrow> nat \<Rightarrow> visits \<Rightarrow> sec_state \<Rightarrow> sec_state \<times> 'a fetched \<Rightarrow> bool" where
  "request_run w url decode left visited st r = (\<exists>calls visited'. calls \<noteq> [] \<and> length calls \<le> left \<and>
     ss_requests (fst r) = ss_requests st @ requested calls \<and> ss_files (fst r) = ss_files st \<and> visits_ok visited' \<and>
     total_visits visited' + length calls = total_visits visited + length (requested calls) \<and>
     calls_ok w url (length (ss_requests st)) calls \<and> (\<forall>x. snd r = Inr x \<longrightarrow> answered_by (snd (last calls)) decode x))"

lemma send_run:
  assumes "send w c url visited st = (visited', st', answer)" "visits_ok visited"
  obtains hops where "hops \<noteq> []" "hd hops = url" "hops_ok w (length (ss_requests st)) hops answer" "ss_requests st' = ss_requests st @ hops"
    "ss_files st' = ss_files st" "visits_ok visited'" "Suc (total_visits visited') = total_visits visited + length hops"
  using urlopen_run[OF assms(1)[unfolded send_def] assms(2)] by auto

lemma request_run_last:
  assumes "send w c url visited st = (visited', st', answer)" "visits_ok visited" "\<forall>x. r = Inr x \<longrightarrow> answered_by answer decode x"
  shows "request_run w url decode (Suc left) visited st (st', r)"
proof (rule send_run[OF assms(1,2)])
  fix hops assume "hops \<noteq> []" "hd hops = url" "hops_ok w (length (ss_requests st)) hops answer" "ss_requests st' = ss_requests st @ hops"
    "ss_files st' = ss_files st" "visits_ok visited'" "Suc (total_visits visited') = total_visits visited + length hops"
  then show ?thesis using assms(3) unfolding request_run_def
    by (intro exI[of _ "[(hops, answer)]"] exI[of _ visited']) (simp add: requested_def)
qed

lemma request_run_again:
  assumes "send w c url visited st = (visited', st', answer)" "visits_ok visited" "transient answer"
    and rest: "visits_ok visited' \<longrightarrow> request_run w url decode left visited' (sleep t st') r"
  shows "request_run w url decode (Suc left) visited st r"
proof (rule send_run[OF assms(1,2)])
  fix hops assume h: "hops \<noteq> []" "hd hops = url" "hops_ok w (length (ss_requests st)) hops answer" "ss_requests st' = ss_requests st @ hops"
    "ss_files st' = ss_files st" "visits_ok visited'" "Suc (total_visits visited') = total_visits visited + length hops"
  then obtain calls v where "calls \<noteq> []" "length calls \<le> left" "ss_requests (fst r) = ss_requests st' @ requested calls"
    "ss_files (fst r) = ss_files st'" "visits_ok v" "total_visits v + length calls = total_visits visited' + length (requested calls)"
    "calls_ok w url (length (ss_requests st')) calls" "\<forall>x. snd r = Inr x \<longrightarrow> answered_by (snd (last calls)) decode x"
    using rest unfolding request_run_def by auto
  then show ?thesis using h assms(3) unfolding request_run_def
    by (intro exI[of _ "(hops, answer) # calls"] exI[of _ v]) (simp add: requested_def)
qed

lemma request_loop_run:
  assumes "int attempt + int left = ck_max_retries c + 1" "0 < left" "visits_ok visited"
  shows "request_run w url decode left visited st (request_loop w c url decode attempt left visited st)"
  using assms
proof (induction left arbitrary: attempt visited st)
  case (Suc left)
  obtain visited' st' answer where sent: "send w c url visited st = (visited', st', answer)" by (rule prod_cases3)
  define again where "again = (\<lambda>t. if too_long t then (st', Inl (Python (OverflowError ''timestamp out of range'')))
    else request_loop w c url decode (Suc attempt) left visited' (sleep t st'))"
  note stop = request_run_last[OF sent Suc.prems(3), of _ decode left]
  have continue: "request_run w url decode (Suc left) visited st (again t)" if "transient answer" "\<not> ck_max_retries c \<le> int attempt" for t
  proof (cases "too_long t")
    case True
    then show ?thesis using stop[of "Inl (Python (OverflowError ''timestamp out of range''))"] by (simp add: again_def)
  next
    case False
    have "int (Suc attempt) + int left = ck_max_retries c + 1" "0 < left" using Suc.prems that(2) by simp_all
    from Suc.IH[OF this, of visited' "sleep t st'"] False
    have "visits_ok visited' \<longrightarrow> request_run w url decode left visited' (sleep t st') (again t)" by (simp add: again_def)
    then show ?thesis by (rule request_run_again[OF sent Suc.prems(3) that(1)])
  qed
  show ?case
  proof (cases answer)
    case (Reply declared raw)
    have step: "request_loop w c url decode attempt (Suc left) visited st = (st', followed_by (read_bounded declared raw) decode)"
      by (simp add: sent Reply Let_def)
    show ?thesis unfolding step by (rule stop) (auto simp: Reply answered_by_def followed_by_Inr dest: read_bounded_Inr)
  next
    case (HttpReply code header)
    then show ?thesis using stop[of "Inl (HTTPError code)"] continue[of "retry_delay header attempt"]
        stop[of "Inl (Python (RuntimeError ''SEC rejected this network with HTTP 403; do not bypass Fair Access controls''))"]
      by (simp add: sent Let_def again_def transient_def)
  next
    case (NoReply reason)
    then show ?thesis using stop[of "Inl (URLError reason)"] continue[of "backoff attempt"]
      by (simp add: sent Let_def again_def transient_def)
  next
    case (Cut declared e)
    have step: "request_loop w c url decode attempt (Suc left) visited st = (st', followed_by (read_bounded declared []) (\<lambda>_. Inl (Failed e)))"
      by (simp add: sent Cut Let_def)
    show ?thesis unfolding step by (rule stop) (simp add: followed_by_Inr)
  qed
qed simp

lemma validated_same: "validated_sec_url url = Inr u \<Longrightarrow> u = url"
  by (auto simp: validated_sec_url_def raise_value_def followed_by_Inr Let_def split: prod.splits if_splits)

lemma read_verified_Inr: "read_verified_cache H files k raw = Inr x \<Longrightarrow> x = raw"
  by (auto simp: read_verified_cache_def raise_value_def split: if_splits option.splits)

definition from_cache :: "(string \<Rightarrow> string) \<Rightarrow> (string, string) dict \<Rightarrow> string \<Rightarrow> (string \<Rightarrow> 'a fetched) \<Rightarrow> string option \<Rightarrow> 'a \<Rightarrow> bool" where
  "from_cache H files ext decode key x = (\<exists>k raw. key = Some k \<and> map_of files (k @ ext) = Some raw \<and>
     read_verified_cache H files k raw = Inr raw \<and> decode raw = Inr x)"

lemma no_visits: "visits_ok []" "total_visits [] = 0"
  by (simp_all add: visits_ok_def total_visits_def)

lemma first_request_run:
  assumes "0 \<le> ck_max_retries c"
  shows "request_run w url decode (Suc (nat (ck_max_retries c))) [] st (request_loop w c url decode 0 (Suc (nat (ck_max_retries c))) [] st)"
  using assms by (intro request_loop_run) (simp_all add: no_visits)

definition call_run :: "world \<Rightarrow> sec_client \<Rightarrow> string \<Rightarrow> sec_state \<Rightarrow> sec_state \<Rightarrow> (string list \<times> opened) list \<Rightarrow> bool" where
  "call_run w c url st st' calls = (length calls \<le> nat (ck_max_retries c) + 1 \<and> ss_requests st' = ss_requests st @ requested calls \<and>
     length (requested calls) \<le> length calls + 37 \<and> (calls \<noteq> [] \<longrightarrow> validated_sec_url url = Inr url) \<and>
     calls_ok w url (length (ss_requests st)) calls)"

lemma call_run_none [simp]: "call_run w c url st st []"
  by (simp add: call_run_def requested_def)

lemma fetch_new_run:
  assumes "0 \<le> ck_max_retries c" "fetch_new H w c ext decode encode url entry st = (st', r)"
  shows "\<exists>calls. call_run w c url st st' calls \<and> (\<forall>x. r = Inr x \<longrightarrow> calls \<noteq> [] \<and> answered_by (snd (last calls)) decode x)"
proof (cases "validated_sec_url url")
  case (Inl e)
  then show ?thesis using assms(2) by (intro exI[of _ "[]"]) (auto simp: fetch_new_def)
next
  case (Inr u)
  then have u: "validated_sec_url url = Inr url" using validated_same by blast
  obtain s1 r1 where run: "request_loop w c url decode 0 (Suc (nat (ck_max_retries c))) [] st = (s1, r1)" by (rule prod.exhaust)
  have same: "r1 = r" "ss_requests st' = ss_requests s1"
    using assms(2) unfolding fetch_new_def u sum.case run by (auto simp: run store_files_def simp del: request_loop.simps split: sum.splits option.splits)
  from first_request_run[OF assms(1), of w url decode st] obtain calls v where "calls \<noteq> []" "length calls \<le> Suc (nat (ck_max_retries c))"
    "ss_requests s1 = ss_requests st @ requested calls" "visits_ok v" "total_visits v + length calls = length (requested calls)"
    "calls_ok w url (length (ss_requests st)) calls" "\<forall>x. r = Inr x \<longrightarrow> answered_by (snd (last calls)) decode x"
    unfolding run request_run_def same(1) by (auto simp: no_visits)
  then show ?thesis using u same(2) visits_bound[of v] by (intro exI[of _ calls]) (simp add: call_run_def)
qed

text \<open>C39: The requests of one call of the client are bounded. It opens a URL at most once more than its permitted retries,
  always the given one, which passed the check for an official address of the SEC, and opens it again only after a
  transient failure, so a refusal (403) is never tried again. An opening requests the URL itself and then the targets
  of the redirects that the servers answer with: these are not checked beyond their scheme and may lie on any host,
  but there are at most 37 of them in the whole call. What the call returns was decoded from the body that the
  last opening delivered, within the size limit, or, without any request, from a file of the cache whose hash is the
  stored one.\<close>

theorem requests_bounded:
  assumes "0 \<le> ck_max_retries c" "fetch H w c ext decode encode url key st = (st', r)"
  shows "\<exists>calls. length calls \<le> nat (ck_max_retries c) + 1 \<and> ss_requests st' = ss_requests st @ requested calls \<and>
    length (requested calls) \<le> length calls + 37 \<and> (calls \<noteq> [] \<longrightarrow> validated_sec_url url = Inr url) \<and>
    calls_ok w url (length (ss_requests st)) calls \<and>
    (\<forall>x. r = Inr x \<longrightarrow> (if calls = [] then from_cache H (ss_files st) ext decode key x else answered_by (snd (last calls)) decode x))"
proof -
  have "\<exists>calls. call_run w c url st st' calls \<and>
    (\<forall>x. r = Inr x \<longrightarrow> (if calls = [] then from_cache H (ss_files st) ext decode key x else answered_by (snd (last calls)) decode x))"
  proof (cases "cache_entry c key")
    case (Inl e)
    then show ?thesis using assms(2) by (intro exI[of _ "[]"]) (auto simp: fetch_def)
  next
    case entry: (Inr entry)
    show ?thesis
    proof (cases "Option.bind entry (\<lambda>k. map_option (Pair k) (map_of (ss_files st) (k @ ext)))")
      case None
      then have "fetch_new H w c ext decode encode url entry st = (st', r)" using assms(2) entry by (simp add: fetch_def)
      from fetch_new_run[OF assms(1) this] show ?thesis by fastforce
    next
      case (Some p)
      obtain k raw where p: "p = (k, raw)" by (cases p)
      have key: "entry = Some k" "map_of (ss_files st) (k @ ext) = Some raw" using Some p by (auto simp: bind_eq_Some_conv)
      have "key = Some k" using entry key(1) by (auto simp: cache_entry_def raise_value_def split: option.splits if_splits)
      moreover have "st' = st" "r = followed_by (read_verified_cache H (ss_files st) k raw) decode"
        using assms(2) entry Some p by (auto simp: fetch_def)
      ultimately show ?thesis using key(2)
        by (intro exI[of _ "[]"]) (auto simp: from_cache_def followed_by_Inr dest: read_verified_Inr)
    qed
  qed
  then show ?thesis unfolding call_run_def by blast
qed

definition sample_client :: sec_client where
  "sample_client = \<lparr>ck_user_agent = ''app a@b'', ck_cached = True, ck_pause = Fin 0, ck_max_retries = 1\<rparr>"

definition sample_world :: "opened \<Rightarrow> world" where
  "sample_world r = \<lparr>wd_reply = \<lambda>_ _. Final r, wd_clock = \<lambda>_. Fin 0\<rparr>"

text \<open>A server of the SEC that redirects every request to another host.\<close>

definition redirecting_world :: world where
  "redirecting_world = \<lparr>wd_reply = \<lambda>_ url. if url = ''https://data.sec.gov/a'' then Redirect 302 (Some ''http://example.com/'')
     else Final (Reply None ''ab''), wd_clock = \<lambda>_. Fin 0\<rparr>"

definition empty_state :: sec_state where
  "empty_state = \<lparr>ss_files = [], ss_last_request = Fin 0, ss_requests = [], ss_sleeps = []\<rparr>"

text \<open>The restriction to addresses of the SEC does not survive a redirect: the body comes from another host.\<close>

lemma redirect_leaves_sec:
  "validated_sec_url ''http://example.com/'' \<noteq> Inr ''http://example.com/'' \<and>
   (let (st, r) = fetch (\<lambda>_. []) redirecting_world sample_client ''.bin'' Inr id ''https://data.sec.gov/a'' None empty_state
    in r = Inr ''ab'' \<and> ss_requests st = [''https://data.sec.gov/a'', ''http://example.com/''])"
  by code_simp

text \<open>A body that ends before its declared length is accepted.\<close>

lemma short_body_accepted: "read_bounded (Some ''5'') ''ab'' = Inr ''ab''"
  by code_simp

lemma requests_bounded_witness:
  "\<exists>st' calls. fetch (\<lambda>_. []) redirecting_world sample_client ''.bin'' Inr id ''https://data.sec.gov/a'' None empty_state = (st', Inr ''ab'') \<and>
     requested calls = [''https://data.sec.gov/a'', ''http://example.com/''] \<and> length calls \<le> 2 \<and>
     calls_ok redirecting_world ''https://data.sec.gov/a'' 0 calls \<and> answered_by (snd (last calls)) Inr ''ab''"
proof -
  obtain st' :: sec_state where run: "fetch (\<lambda>_. []) redirecting_world sample_client ''.bin'' Inr id ''https://data.sec.gov/a'' None empty_state =
     (st', Inr ''ab'')" "ss_requests st' = [''https://data.sec.gov/a'', ''http://example.com/'']"
    by (rule that, code_simp, code_simp)
  have "0 \<le> ck_max_retries sample_client" by (simp add: sample_client_def)
  from requests_bounded[OF this run(1)] obtain calls where calls: "length calls \<le> nat (ck_max_retries sample_client) + 1"
    "ss_requests st' = ss_requests empty_state @ requested calls"
    "calls_ok redirecting_world ''https://data.sec.gov/a'' (length (ss_requests empty_state)) calls"
    "calls \<noteq> [] \<longrightarrow> answered_by (snd (last calls)) Inr ''ab''" by fastforce
  have "requested calls = [''https://data.sec.gov/a'', ''http://example.com/'']" using calls(2) run(2) by (simp add: empty_state_def)
  moreover from this have "calls \<noteq> []" by (auto simp: requested_def)
  ultimately show ?thesis using run(1) calls by (intro exI[of _ st'] exI[of _ calls]) (simp add: sample_client_def empty_state_def)
qed

section \<open>The verified cache\<close>

lemma cached_hit: "cache_entry c (Some k) = Inr (Some k) \<Longrightarrow> map_of (ss_files st) (k @ ext) = Some raw \<Longrightarrow>
    fetch H w c ext decode encode url (Some k) st = (st, followed_by (read_verified_cache H (ss_files st) k raw) decode)"
  by (simp add: fetch_def)

lemma hex_chars: "list_all (\<lambda>c. \<not> is_space c \<and> (of_char c :: int) < 128) ''0123456789abcdef''"
  by code_simp

lemma hex64_plain: "hex64 s \<Longrightarrow> list_all (\<lambda>c. \<not> is_space c \<and> (of_char c :: int) < 128) s"
  using hex_chars unfolding hex64_def list_all_iff by blast

lemma strip_hex64: "hex64 s \<Longrightarrow> strip s = s"
  using hex64_plain[of s] by (intro strip_id) (simp add: list_all_iff)

lemma hex64_ascii: "hex64 s \<Longrightarrow> is_ascii s \<and> length s \<le> 128"
  using hex64_plain[of s] by (simp add: is_ascii_def list_all_iff hex64_def)

lemma read_stored:
  assumes "hex64 (H raw)" "map_of files (k @ ''.sha256'') = Some (H raw)"
  shows "read_verified_cache H files k raw' = (if max_response_bytes < int (length raw') then raise_value (''SEC cache exceeds configured size limit: '' @ k)
    else if H raw' \<noteq> H raw then raise_value (''SEC cache hash mismatch: '' @ k) else Inr raw')"
  using assms hex64_ascii[OF assms(1)] strip_hex64[OF assms(1)] by (simp add: read_verified_cache_def)

text \<open>What a successful call leaves behind under its key: the bytes and a hash of them.\<close>

lemma fetch_new_files:
  assumes "fetch_new H w c ext Inr id url (Some k) st = (st', Inr raw)" "ext \<noteq> ''.sha256''" "0 \<le> ck_max_retries c"
  shows "map_of (ss_files st') (k @ ext) = Some raw \<and> map_of (ss_files st') (k @ ''.sha256'') = Some (H raw) \<and> int (length raw) \<le> max_response_bytes"
proof -
  from assms(1) have v: "validated_sec_url url = Inr url" by (auto simp: fetch_new_def dest: validated_same split: sum.splits)
  obtain s1 r where run: "request_loop w c url Inr 0 (Suc (nat (ck_max_retries c))) [] st = (s1, r)" by (rule prod.exhaust)
  have eq: "r = Inr raw" "st' = store_files H k ext raw s1"
    using assms(1) unfolding fetch_new_def v sum.case run by (auto simp: run simp del: request_loop.simps split: sum.splits)
  obtain answer where "answered_by answer Inr raw"
    using first_request_run[OF assms(3), of w url Inr st] unfolding run request_run_def eq(1) by auto
  then have "int (length raw) \<le> max_response_bytes" by (auto simp: answered_by_def split: opened.splits)
  then show ?thesis using assms(2) by (simp add: eq(2) store_files_def update_conv')
qed

definition with_file :: "string \<Rightarrow> string \<Rightarrow> sec_state \<Rightarrow> sec_state" where
  "with_file name raw st = st\<lparr>ss_files := AList.update name raw (ss_files st)\<rparr>"

text \<open>C40: A filing that was fetched once is afterwards read back without a request, from any server and at any time, as
  exactly the same bytes; and when its file is replaced by one with another hash, the call fails instead of
  returning the other bytes. The hash of any bytes is 64 hexadecimal digits.\<close>

theorem cached_bytes_verified:
  assumes "\<And>x. hex64 (H x)" "0 \<le> ck_max_retries c" "ck_cached c" "get_bytes H w c url (Some k) st = (st', Inr raw)"
  shows "get_bytes H w' c url' (Some k) st' = (st', Inr raw) \<and>
    (H other \<noteq> H raw \<longrightarrow> (\<exists>text. get_bytes H w' c url' (Some k) (with_file (k @ ''.bin'') other st') =
       (with_file (k @ ''.bin'') other st', raise_value text)))"
proof -
  have entry: "cache_entry c (Some k) = Inr (Some k)"
    using assms(3,4) by (auto simp: get_bytes_def fetch_def cache_entry_def raise_value_def split: if_splits)
  have files: "map_of (ss_files st') (k @ ''.bin'') = Some raw \<and> read_verified_cache H (ss_files st') k raw = Inr raw"
  proof (cases "map_of (ss_files st) (k @ ''.bin'')")
    case None
    then have "fetch_new H w c ''.bin'' Inr id url (Some k) st = (st', Inr raw)"
      using assms(4) entry by (simp add: get_bytes_def fetch_def)
    from fetch_new_files[OF this _ assms(2)] read_stored[of H raw "ss_files st'" k raw] assms(1) show ?thesis by simp
  next
    case (Some old)
    then have "st = st'" "followed_by (read_verified_cache H (ss_files st) k old) Inr = Inr raw"
      using assms(4) cached_hit[OF entry Some, of H w Inr id url] unfolding get_bytes_def by auto
    then show ?thesis using Some by (auto simp: followed_by_Inr dest: read_verified_Inr)
  qed
  have "get_bytes H w' c url' (Some k) st' = (st', Inr raw)"
    using files by (simp add: get_bytes_def followed_by_def cached_hit[OF entry, of st' "''.bin''" raw])
  moreover have "\<exists>text. read_verified_cache H (ss_files (with_file (k @ ''.bin'') other st')) k other = raise_value text" if "H other \<noteq> H raw"
    using files that by (auto simp: read_verified_cache_def with_file_def update_conv' raise_value_def split: option.splits if_splits)
  ultimately show ?thesis
    using cached_hit[OF entry, of "with_file (k @ ''.bin'') other st'" "''.bin''" other H w' Inr id url']
    by (auto simp: get_bytes_def with_file_def update_conv' followed_by_def raise_value_def)
qed

definition sample_hash :: "string \<Rightarrow> string" where
  "sample_hash s = replicate 64 (if s = ''ab'' then CHR ''0'' else CHR ''1'')"

definition sample_fetch :: "opened \<Rightarrow> sec_state \<Rightarrow> sec_state \<times> string fetched" where
  "sample_fetch r = get_bytes sample_hash (sample_world r) sample_client ''https://www.sec.gov/a'' (Some ''k'')"

lemma cached_bytes_verified_witness:
  "\<exists>st text. sample_fetch (Reply None ''ab'') empty_state = (st, Inr ''ab'') \<and> sample_fetch (HttpReply 403 None) st = (st, Inr ''ab'') \<and>
     sample_fetch (Reply None ''ab'') (with_file ''k.bin'' ''cd'' st) = (with_file ''k.bin'' ''cd'' st, raise_value text)"
proof -
  have hash: "hex64 (sample_hash x)" for x by (simp add: hex64_def sample_hash_def list_all_iff)
  obtain st where st: "sample_fetch (Reply None ''ab'') empty_state = (st, Inr ''ab'')" by (rule that) code_simp
  have "sample_hash ''cd'' \<noteq> sample_hash ''ab''" by code_simp
  moreover have "sample_fetch r st = (st, Inr ''ab'') \<and> (sample_hash ''cd'' \<noteq> sample_hash ''ab'' \<longrightarrow>
      (\<exists>text. sample_fetch r (with_file ''k.bin'' ''cd'' st) = (with_file ''k.bin'' ''cd'' st, raise_value text)))" for r
    using cached_bytes_verified[OF hash _ _ st[unfolded sample_fetch_def], of "sample_world r" "''https://www.sec.gov/a''" "''cd''"]
    unfolding sample_fetch_def by (simp add: sample_client_def)
  ultimately show ?thesis using st by blast
qed

text \<open>The hash has one name for both kinds of files: bytes stored under the key of a JSON response make it unreadable.\<close>

lemma shared_hash_name:
  "\<exists>text. snd (fetch sample_hash (sample_world (HttpReply 403 None)) sample_client ''.json'' Inr id ''https://www.sec.gov/a'' (Some ''k'')
     (fst (sample_fetch (Reply None ''ab'') (with_file ''k.json'' ''cd'' empty_state)))) = raise_value text"
  by (rule exI) code_simp

section \<open>Acquisition fails closed\<close>

lemma chosen_filing:
  assumes "choose_filing ticker cik forms payload = Inr v"
  shows "\<exists>f a d. f \<in> set forms \<and> get (items v) ''form'' = VStr f \<and> get (items v) ''accession'' = VStr a \<and> accession_number a \<and>
    get (items v) ''primary_document'' = VStr d \<and> plain_segment 255 ''._-'' d"
proof -
  have "v \<in> set (List.map_filter (filing_row ticker cik forms (recent_filings payload)) (enumerate 0 (elems (vget (recent_filings payload) ''form''))))"
    using assms by (auto simp: choose_filing_def Let_def split: if_splits list.splits)
  then obtain p where "filing_row ticker cik forms (recent_filings payload) p = Some v" by (auto simp: map_filter_def)
  then show ?thesis
    by (auto simp: filing_row_def filing_dict_def split: prod.splits pyval.splits option.splits if_splits)
qed

text \<open>An answer is either a filing of a supported form with plain names, or an abstention.\<close>

lemma acquisition_closed:
  assumes "acquire_latest_filing json ticker st = (st', Inr v)"
  shows "(\<exists>filing f. v = VDict [(''status'', VStr ''READY''), (''filing'', filing), (''decision'', VNone)] \<and>
      f \<in> set [''10-K'', ''10-Q''] \<and> vget filing ''form'' = VStr f) \<or> (\<exists>name. v = unavailable name)"
proof -
  have "\<exists>f. f \<in> set forms \<and> vget filing ''form'' = VStr f" if "latest_filing json ticker forms st = (s, Inr filing)" for s filing forms
    using that chosen_filing by (fastforce simp: latest_filing_def on_success_def vget_def split: prod.splits sum.splits)
  then show ?thesis using assms
    by (fastforce simp: acquire_latest_filing_def split: prod.splits sum.splits option.splits)
qed

text \<open>Not every failure is caught: a server that asks for a very long wait makes the wait itself raise.\<close>

lemma long_wait_escapes:
  "caught_name (case snd (request_loop (sample_world (HttpReply 429 (Some ''99999999999''))) sample_client ''u'' Inr 0 2 [] empty_state) of
     Inl e \<Rightarrow> e | Inr _ \<Rightarrow> URLError []) = None"
  by code_simp

text \<open>Nor is a response that breaks off in its chunked encoding, which is neither retried nor caught.\<close>

lemma broken_response_escapes:
  "let (st, r) = request_loop (sample_world (Cut None (ProtocolFailure ''IncompleteRead''))) sample_client ''u'' Inr 0 2 [] empty_state
   in ss_requests st = [''u''] \<and> (case r of Inl e \<Rightarrow> caught_name e = None | Inr _ \<Rightarrow> False)"
  by code_simp

end
