(* ===== verification/Spec2Isabelle.thy ===== *)
theory Spec2Isabelle
  imports Authority Certificate Gate RateLimits Access Graph Jobs Replay Calibration Oversight SecClient
begin

text \<open>
  Verification of FinRisk, an evidence-grounded financial-risk decision system. The development
  models the Python package \<open>src/backend/finrisk\<close>.

  \<^bold>\<open>How the program works.\<close> Reported amounts and the pages of a filing enter the analysis
  pipeline: ratios are computed, rules and traditional models turn them into risk signals, signals
  are aggregated to scores of risk dimensions, and narrative claims are admitted only with verified
  quotations. The dimension scores are fused into a proposed decision with its evidence paths. The
  assurance engine, the only authority for a final decision, checks the paths, their fragility and
  the distribution of the features, and issues a result whose serialised form is verified again
  before anything relies on it. A certificate binds the result to its evidence. The enterprise layer
  stores snapshots and risk cases of many tenants behind authorization, credentials and rate limits,
  and lets a case be accepted or resolved only with verified evidence.

  \<^bold>\<open>Representation of Python\<close> (theories Prelude, Pyfloat, Pyval, Pyparse). Exceptions are values of
  \<open>py_error\<close> and a function that may raise returns \<open>py_error + 'a\<close>. A \<open>dict\<close> is an association list in
  insertion order. Floats are binary64 values with their rounding (\<open>pyfloat\<close>: a rational that is
  representable, the infinities, NaN); \<open>round\<close>, \<open>float(str)\<close>, \<open>repr\<close> and \<open>statistics.pstdev\<close> are exact.
  \<open>sum\<close> adds from left to right (Python 3.11).
  JSON-like data is the datatype \<open>pyval\<close> with Python's equality, truth value and canonical JSON text.
  Characters are the code points 0 to 255 and case folding is that of ASCII. SHA-256 is a parameter
  \<open>H\<close> (\<open>digest\<close>); identifiers, clocks and tokens are arguments or the record \<open>env\<close>.

  \<^bold>\<open>Theories and sources.\<close>
  \<^item> Domain: enumerations (\<open>enterprise/domain.py\<close>, \<open>assurance/domain.py\<close>, \<open>reason_codes.py\<close>) and the severity
    bands (\<open>severity.py\<close>).
  \<^item> Grounding: the evidence records of \<open>domain.py\<close>, quotation checks and grounding of claims
    (\<open>evidence.py\<close>) and the admission loop of \<open>pipeline.py\<close>.
  \<^item> Normalization (\<open>normalization.py\<close>), Metrics (\<open>metrics.py\<close>), Rules (\<open>rules.py\<close>) and Scoring
    (\<open>scoring.py\<close>): from statement text to dimension scores.
  \<^item> Models (\<open>models.py\<close>, \<open>enterprise/applicability.py\<close>), Facts (\<open>facts.py\<close>) and Consistency
    (\<open>contradictions.py\<close>): traditional models, the fact set and the contradictions of the narrative.
  \<^item> Provenance, Assess and Decide (\<open>pipeline.py\<close>, \<open>enterprise/tension.py\<close>, the records of \<open>domain.py\<close>): the
    references that numbers rest on, the assessment of a company and the decision on it; Returns shows when
    an assessment returns.
  \<^item> Fusion (\<open>enterprise/fusion.py\<close>): every fusion method, duplicate suppression and the failure-aware
    proposal.
  \<^item> Evidence, AssurancePolicy, Fragility, Shift, Engine (\<open>assurance/\<close>): evidence state, policy, ablation
    and sufficient evidence, distribution validity, and issuing and verifying results. Authority
    holds their joint properties.
  \<^item> Decision and Certificate (\<open>enterprise/decision.py\<close>, \<open>decision_bundle.py\<close>, \<open>assurance/certificate.py\<close>):
    traces, snapshots, replay and certificates.
  \<^item> Cases (\<open>enterprise/domain.py\<close>, \<open>auth.py\<close>, \<open>workflow.py\<close>), Temporal (\<open>temporal.py\<close>), Repository and Store
    (\<open>repository.py\<close>), Service and Gate (\<open>service.py\<close>): cases, risk history, the multi-tenant store and
    the operations on it.
  \<^item> Access and RateLimits (\<open>enterprise/security.py\<close>): credential stores and rate limiters.
  \<^item> Agent (\<open>agent/\<close>, \<open>enterprise/telemetry.py\<close>, \<open>integrity.py\<close>): state and status transitions of the analysis agent,
    its plan and tools, synthesis, verification and review of conclusions; Orchestrate (\<open>agent/orchestrator.py\<close>):
    the whole run as a sequence of steps on a state that survives an exception; Outcome: what a run guarantees;
    Replay: repeating a run from its snapshot.
  \<^item> Graph (\<open>enterprise/evidence_graph.py\<close>): the evidence graph and its paths; Jobs (\<open>enterprise/jobs.py\<close>): the
    idempotent job queue.
  \<^item> Calibration (\<open>enterprise/calibration.py\<close>, \<open>governance.py\<close>): calibration scores, the selective decision, the
    life cycle of a model and the promotion gate; Oversight (\<open>enterprise/policy.py\<close>, \<open>alerts.py\<close>, \<open>portfolio.py\<close>,
    \<open>scenario.py\<close>): key risk indicators, alerts, the overview of cases and stress scenarios.
  \<^item> Xbrl and SecClient (\<open>xbrl.py\<close>): annual values from companyfacts and their reconciliation with a document;
    the client with its retries, bounds, verified cache and choice of the latest filing.

  \<^bold>\<open>Interfaces.\<close> The locale \<open>case_store\<close> (Store) is the repository as its clients see it, interpreted by
  the in-memory repository. \<open>credential_store\<close> (Access) is the protocol of credential stores, interpreted
  by the in-memory and by the durable store. \<open>rate_limiter\<close> (RateLimits) is the protocol of rate limiters,
  interpreted by the in-process and by the shared limiter. \<open>risk_model\<close> (Models) is what the pipeline relies on
  in a traditional model, interpreted by all four.

  \<^bold>\<open>What the lemmas show.\<close> Authority: every issued result passes its own verification, a decisive result
  is backed by complete verified evidence, automation needs a mature policy, and the engine only makes a
  proposal more cautious. Certificate: a decisive certificate has verified evidence, certificates round-trip, replay detects
  drift. Gate: in every state reachable by requests, accepted and resolved cases are proven, histories are
  lawful and tenants are isolated; every request that changes something is audited, except that saving a
  decision bundle is not. Fusion: monotone in verified evidence, but an unverified contribution suppresses the weaker
  verified ones of its group. Fragility: the exact search finds a smallest sufficient set and both
  searches stay within their budgets. Metrics, Rules, Scoring and Grounding: values are explained, rules
  fire exactly on known facts, scores are in range, admitted claims are quoted and supported. Facts and
  Consistency: a published model output rests on complete inputs and states what is missing, the facts are well typed, contradictions rest on known
  adverse facts. Returns and Decide: every request of a known entity type gets an assessment, every
  assessment gets a decision, and a published decision is the authorised one everywhere. Outcome: a run of the
  agent always ends in a terminal status, fails only where the models cannot be run, and completes only with a
  decisive authorised decision on verified evidence. Replay: a snapshot is read back as its request, and a run without a
  reference profile is replayed identically. Graph: the paths found are exactly the simple paths that start at
  a node without incoming links, which on a cyclic graph are not all the acyclic ones. Jobs: no job starts
  more often than permitted.
  Calibration: a reliability diagram partitions its samples; a model is approved only with validation records.
  Xbrl: parsed values rest on the latest annual entry of their item. SecClient: the requests of a call are
  bounded, redirects included (which may leave the hosts of the SEC), and the cache is verified.

  \<^bold>\<open>Bounds and fuel.\<close> All functions are total. Recursion is structural or terminates by a measure
  (\<open>digits\<close>, \<open>words\<close>, \<open>isqrt\<close>); searches over decimal exponents take fuel that covers the range of
  binary64. The exact search for sufficient evidence is used up to the node limit of the policy and the
  greedy one beyond it, as in the code. The recursion over the requirements of a metric takes the number of
  metrics as fuel, because a longer chain repeats a metric and would not end; Returns shows that three
  levels are enough. A chain of redirects ends because \<open>urllib\<close> goes to a target at most four times and to at
  most ten targets; the request object keeps these counts over the retries of a call, so it follows at most 37. The logarithm and the exponential of the Ohlson score and the order in which Python
  iterates over a set are arguments of the assessment.

  \<^bold>\<open>Not modelled.\<close> HTTP transport, request schemas and middleware, PostgreSQL persistence apart from
  credentials and rate limits, object storage, telemetry, model providers and PDF parsing are input and
  output around the modelled logic; the research scripts and the frontend are not part of the system's
  own decisions. The URL that \<open>urllib\<close> makes of a \<open>Location\<close> header is part of the reply of the server. Locks and threads are not modelled: operations are atomic steps.
\<close>

end
